(* ===== verification/Prelude.thy ===== *)
theory Prelude
  imports Main "HOL-Library.Word" "HOL-Library.AList"
begin

text \<open>
  The vocabulary every component shares: the machine and chain integers as words, the outcome
  of a Rust computation (a value, an error or a panic), the saturating and checked operations of
  the standard library, reader/writer locks with their poison flag, and the lemmas on words,
  association lists and outcomes that the component theories use.
\<close>

unbundle bit_operations_syntax

section \<open>Integers\<close>

text \<open>The crates under \<^verbatim>\<open>src/\<close> use fixed-width integers only. H256 is a byte array that is
  read as a big-endian number, so it is represented by that number and
  \<^verbatim>\<open>h256_to_u256\<close> / \<^verbatim>\<open>u256_to_h256\<close> are the identity.\<close>

type_synonym u8 = "8 word"
type_synonym u16 = "16 word"
type_synonym u32 = "32 word"
type_synonym u64 = "64 word"
type_synonym u128 = "128 word"
type_synonym u256 = "256 word"
type_synonym h256 = "256 word"
type_synonym address = "160 word"
type_synonym bytes = "8 word list"

section \<open>Outcomes\<close>

text \<open>A fallible Rust function returns \<^verbatim>\<open>Result<T, E>\<close> or panics (an \<^verbatim>\<open>unwrap\<close>, an \<^verbatim>\<open>expect\<close>, an
  index out of range, a checked big-integer operation that overflows).\<close>

datatype (dead 'e, 'a) rust = Ok 'a | Err 'e | Panic

fun rust_bind :: "('e, 'a) rust \<Rightarrow> ('a \<Rightarrow> ('e, 'b) rust) \<Rightarrow> ('e, 'b) rust" where
  "rust_bind (Ok a) f = f a"
| "rust_bind (Err e) f = Err e"
| "rust_bind Panic f = Panic"

fun is_panic :: "('e, 'a) rust \<Rightarrow> bool" where
  "is_panic Panic = True"
| "is_panic _ = False"

fun is_ok :: "('e, 'a) rust \<Rightarrow> bool" where
  "is_ok (Ok _) = True"
| "is_ok _ = False"

text \<open>\<^verbatim>\<open>Option::ok_or\<close> and \<^verbatim>\<open>Option::unwrap\<close>.\<close>

fun ok_or :: "'e \<Rightarrow> 'a option \<Rightarrow> ('e, 'a) rust" where
  "ok_or e (Some a) = Ok a"
| "ok_or e None = Err e"

fun unwrap :: "'a option \<Rightarrow> ('e, 'a) rust" where
  "unwrap (Some a) = Ok a"
| "unwrap None = Panic"

lemma ok_or_eq_simps [simp]:
  "ok_or e x = Ok a \<longleftrightarrow> x = Some a"
  "ok_or e x = Err e' \<longleftrightarrow> x = None \<and> e' = e"
  "ok_or e x \<noteq> Panic"
  by (cases x; auto)+

lemma unwrap_eq_simps [simp]:
  "unwrap x = Ok a \<longleftrightarrow> x = Some a"
  "unwrap x = Panic \<longleftrightarrow> x = None"
  "unwrap x \<noteq> Err e"
  by (cases x; auto)+

lemma case_option_True_iff:
  "(case x of None \<Rightarrow> True | Some a \<Rightarrow> P a) \<longleftrightarrow> x = None \<or> (\<exists>a. x = Some a \<and> P a)"
  by (cases x) auto

lemma rust_bind_eq_Ok:
  "rust_bind m f = Ok b \<longleftrightarrow> (\<exists>a. m = Ok a \<and> f a = Ok b)"
  by (cases m) auto

section \<open>Saturating and checked arithmetic\<close>

definition checked_add :: "'a::len word \<Rightarrow> 'a word \<Rightarrow> 'a word option" where
  "checked_add a b = (if a + b < a then None else Some (a + b))"

definition checked_sub :: "'a::len word \<Rightarrow> 'a word \<Rightarrow> 'a word option" where
  "checked_sub a b = (if a < b then None else Some (a - b))"

definition sat_add :: "'a::len word \<Rightarrow> 'a word \<Rightarrow> 'a word" where
  "sat_add a b = (if a + b < a then - 1 else a + b)"

definition sat_sub :: "'a::len word \<Rightarrow> 'a word \<Rightarrow> 'a word" where
  "sat_sub a b = (if a < b then 0 else a - b)"

definition sat_mul :: "'a::len word \<Rightarrow> 'a word \<Rightarrow> 'a word" where
  "sat_mul a b = (if unat a * unat b < 2 ^ LENGTH('a) then a * b else - 1)"

lemma unat_max_word [simp]: "unat (- 1 :: 'a::len word) = 2 ^ LENGTH('a) - 1"
  by (simp add: unsigned_minus_1_eq_mask mask_eq_exp_minus_1)

lemma mod_add_less_iff:
  fixes x y n :: nat
  assumes "x < n" and "y < n"
  shows "(x + y) mod n < x \<longleftrightarrow> n \<le> x + y"
proof (cases "n \<le> x + y")
  case True
  then have "(x + y) mod n = x + y - n"
    using assms by (simp add: le_mod_geq)
  then show ?thesis
    using True assms by linarith
next
  case False
  then show ?thesis by simp
qed

lemma word_add_no_wrap_iff:
  fixes a b :: "'a::len word"
  shows "a + b < a \<longleftrightarrow> 2 ^ LENGTH('a) \<le> unat a + unat b"
  unfolding word_less_nat_alt unat_word_ariths by (rule mod_add_less_iff) simp_all

lemma checked_add_None:
  fixes a b :: "'a::len word"
  shows "checked_add a b = None \<longleftrightarrow> 2 ^ LENGTH('a) \<le> unat a + unat b"
  by (simp add: checked_add_def word_add_no_wrap_iff)

lemma checked_add_one_None: "checked_add a 1 = None \<longleftrightarrow> a = (- 1 :: 'a::len word)"
proof -
  have lt: "unat a < 2 ^ LENGTH('a)"
    by simp
  have eq: "n \<le> k + 1 \<longleftrightarrow> k = n - 1" if "k < n" for k n :: nat
    using that by linarith
  have "2 ^ LENGTH('a) \<le> unat a + 1 \<longleftrightarrow> unat a = 2 ^ LENGTH('a) - 1"
    by (rule eq [OF lt])
  also have "\<dots> \<longleftrightarrow> unat a = unat (- 1 :: 'a word)"
    by (simp only: unat_max_word)
  also have "\<dots> \<longleftrightarrow> a = - 1"
    by (rule word_unat_eq_iff [symmetric])
  finally show ?thesis by (simp add: checked_add_None)
qed

lemma checked_add_Some:
  fixes a b :: "'a::len word"
  assumes "checked_add a b = Some c"
  shows "unat c = unat a + unat b" and "c = a + b"
proof -
  have "\<not> a + b < a" and c: "c = a + b"
    using assms by (auto simp: checked_add_def split: if_splits)
  then have "unat a + unat b < 2 ^ LENGTH('a)"
    by (simp add: word_add_no_wrap_iff)
  then show "unat c = unat a + unat b" and "c = a + b"
    using c by (simp_all add: unat_word_ariths)
qed

lemma checked_sub_None [simp]:
  "checked_sub a b = None \<longleftrightarrow> a < b"
  by (simp add: checked_sub_def)

lemma checked_sub_Some:
  assumes "checked_sub a b = Some c"
  shows "unat c = unat a - unat b" and "b \<le> a" and "c = a - b"
  using assms
  by (auto simp: checked_sub_def unat_sub_if' word_le_nat_alt word_less_nat_alt split: if_splits)

lemma unat_sat_add:
  fixes a b :: "'a::len word"
  shows "unat (sat_add a b) = min (unat a + unat b) (2 ^ LENGTH('a) - 1)"
proof (cases "2 ^ LENGTH('a) \<le> unat a + unat b")
  case True
  then have "2 ^ LENGTH('a) - 1 \<le> unat a + unat b"
    by linarith
  then show ?thesis
    using True by (simp add: sat_add_def word_add_no_wrap_iff min_absorb2)
next
  case False
  then have "unat a + unat b \<le> 2 ^ LENGTH('a) - 1"
    by linarith
  then show ?thesis
    using False by (simp add: sat_add_def word_add_no_wrap_iff min_absorb1 unat_word_ariths)
qed

lemma unat_sat_sub:
  fixes a b :: "'a::len word"
  shows "unat (sat_sub a b) = unat a - unat b"
  by (auto simp: sat_sub_def unat_sub_if' word_less_nat_alt)

lemma sat_add_ge [simp]:
  fixes a b :: "'a::len word"
  shows "a \<le> sat_add a b"
proof -
  have "unat a < 2 ^ LENGTH('a)"
    by simp
  then have "unat a \<le> 2 ^ LENGTH('a) - 1"
    by linarith
  then show ?thesis
    by (simp add: word_le_nat_alt unat_sat_add)
qed

lemma sat_sub_le [simp]:
  fixes a b :: "'a::len word"
  shows "sat_sub a b \<le> a"
  by (simp add: word_le_nat_alt unat_sat_sub)

lemma unat_ucast_up:
  fixes w :: "'a::len word"
  assumes "LENGTH('a) \<le> LENGTH('b::len)"
  shows "unat (ucast w :: 'b word) = unat w"
proof -
  have "unat w < 2 ^ LENGTH('a)"
    by simp
  also have "(2 :: nat) ^ LENGTH('a) \<le> 2 ^ LENGTH('b)"
    using assms by (rule power_increasing) simp
  finally show ?thesis
    by (simp add: unsigned_ucast_eq take_bit_nat_eq_self)
qed

lemma ucast_up_down [simp]:
  fixes a :: "'a::len word"
  assumes "LENGTH('a) \<le> LENGTH('b::len)"
  shows "ucast (ucast a :: 'b word) = a"
proof (rule word_unat_eq_iff [THEN iffD2])
  have "unat (ucast (ucast a :: 'b word) :: 'a word) = take_bit LENGTH('a) (unat (ucast a :: 'b word))"
    by (rule unsigned_ucast_eq)
  also have "\<dots> = take_bit LENGTH('a) (unat a)"
    by (simp only: unat_ucast_up [OF assms])
  also have "\<dots> = unat a"
    using unsigned_less [of a, where 'a = nat] by (simp only: take_bit_nat_eq_self)
  finally show "unat (ucast (ucast a :: 'b word) :: 'a word) = unat a" .
qed

lemma ucast_down_up:
  fixes a :: "'a::len word"
  assumes "unat a < 2 ^ LENGTH('b::len)"
  shows "ucast (ucast a :: 'b word) = a"
proof (rule word_unat_eq_iff [THEN iffD2])
  have small: "unat (ucast a :: 'b word) = unat a"
    using assms by (simp add: unsigned_ucast_eq take_bit_nat_eq_self)
  show "unat (ucast (ucast a :: 'b word) :: 'a word) = unat a"
    using unsigned_less [of a, where 'a = nat] small
    by (simp add: unsigned_ucast_eq [of "ucast a :: 'b word"] take_bit_nat_eq_self)
qed

lemma ucast_down_eqD:
  fixes a :: "'a::len word"
  assumes "ucast a = (b :: 'b::len word)" and "unat a < 2 ^ LENGTH('b)"
  shows "a = ucast b"
  using ucast_down_up [OF assms(2)] assms(1) by simp

lemma ucast_up_inj:
  fixes a b :: "'a::len word"
  assumes "LENGTH('a) \<le> LENGTH('b::len)"
  shows "ucast a = (ucast b :: 'b word) \<longleftrightarrow> a = b"
  using ucast_up_down [OF assms, of a] ucast_up_down [OF assms, of b] by metis

lemma unat_ucast_less:
  fixes a :: "'a::len word"
  assumes "LENGTH('a) \<le> LENGTH('b::len)"
  shows "unat (ucast a :: 'b word) < 2 ^ LENGTH('a)"
  using unsigned_less [of a, where 'a = nat] by (simp add: unat_ucast_up [OF assms])

section \<open>Reader/writer locks\<close>

text \<open>A \<^verbatim>\<open>std::sync::RwLock\<close>: a panic while the write guard is alive poisons the lock, and every
  later acquisition returns \<^verbatim>\<open>Err(PoisonError)\<close>. A panic under a read guard does not poison.\<close>

record 'a rwlock =
  lock_value :: 'a
  lock_poisoned :: bool

definition with_write ::
  "'e \<Rightarrow> ('a \<Rightarrow> ('e, 'b) rust \<times> 'a) \<Rightarrow> 'a rwlock \<Rightarrow> ('e, 'b) rust \<times> 'a rwlock" where
  "with_write e f l =
     (if lock_poisoned l then (Err e, l)
      else case f (lock_value l) of
        (r, v) \<Rightarrow> (r, l\<lparr>lock_value := v, lock_poisoned := is_panic r\<rparr>))"

definition with_read :: "'e \<Rightarrow> ('a \<Rightarrow> ('e, 'b) rust) \<Rightarrow> 'a rwlock \<Rightarrow> ('e, 'b) rust" where
  "with_read e f l = (if lock_poisoned l then Err e else f (lock_value l))"

lemma with_write_poisoned [simp]:
  "lock_poisoned l \<Longrightarrow> with_write e f l = (Err e, l)"
  by (simp add: with_write_def)

lemma with_read_poisoned [simp]:
  "lock_poisoned l \<Longrightarrow> with_read e f l = Err e"
  by (simp add: with_read_def)

lemma with_write_healthy:
  "\<not> lock_poisoned l \<Longrightarrow> f (lock_value l) = (r, v) \<Longrightarrow>
   with_write e f l = (r, l\<lparr>lock_value := v, lock_poisoned := is_panic r\<rparr>)"
  by (simp add: with_write_def)

section \<open>Association lists\<close>

text \<open>Hash maps whose entries the code iterates over are association lists; their meaning is
  \<^const>\<open>map_of\<close>.\<close>

lemma map_of_update [simp]: "map_of (AList.update k v al) = (map_of al)(k \<mapsto> v)"
  by (rule update_conv')

lemma map_of_delete [simp]: "map_of (AList.delete k al) = (map_of al)(k := None)"
  by (rule delete_conv')

lemma map_of_map_keyed: "map_of (map (\<lambda>(k, v). (k, f k v)) al) k = map_option (f k) (map_of al k)"
  by (induction al) auto

lemma length_update_le: "length (AList.update k v al) \<le> Suc (length al)"
  by (induction al) auto

section \<open>Differences that a number divides\<close>

lemma dvd_combine:
  fixes k :: int
  assumes "k dvd a - b" and "k dvd c - d"
  shows "k dvd (a + c) - (b + d)" "k dvd (a - c) - (b - d)" "k dvd a * c - b * d"
proof -
  show "k dvd (a + c) - (b + d)"
    using dvd_add [OF assms] by (simp add: algebra_simps)
  show "k dvd (a - c) - (b - d)"
    using dvd_diff [OF assms] by (simp add: algebra_simps)
  have "a * c - b * d = (a - b) * c + b * (c - d)"
    by (simp add: algebra_simps)
  then show "k dvd a * c - b * d"
    using assms by simp
qed

lemma dvd_diff_trans: "k dvd a - b \<Longrightarrow> k dvd b - c \<Longrightarrow> k dvd a - (c :: int)"
  using dvd_add [of k "a - b" "b - c"] by simp

lemma dvd_diff_sym: "k dvd a - b \<Longrightarrow> k dvd b - (a :: int)"
  by (simp add: dvd_diff_commute)

end
