(* ===== verification/ApiTypes.thy ===== *)
theory ApiTypes
  imports Prelude
begin

text \<open>
  The data of the \<^verbatim>\<open>zksync_types\<close> and \<^verbatim>\<open>multivm\<close> crates that the node stores, returns or passes on,
  with the fields the sources read or write; fields that the sources only leave at their default
  are not listed. These types are not part of \<^verbatim>\<open>src/\<close>: their field names and types are those that
  the sources use.
\<close>

section \<open>Chain data\<close>

datatype BlockNumber =
  Committed | Finalized | Latest | Earliest | Pending | Number u64

text \<open>\<^verbatim>\<open>BlockIdVariant\<close>: a number, an object holding a number, or an object holding a hash.\<close>

datatype BlockIdVariant =
  BlockNumberId BlockNumber | BlockNumberObject BlockNumber | BlockHashObject h256

text \<open>A storage key is an account address and a slot.\<close>

type_synonym StorageKey = "address \<times> h256"
type_synonym StorageValue = h256

record Log =
  log_address :: address
  log_topics :: "h256 list"
  log_data :: bytes
  log_block_hash :: "h256 option"
  log_block_number :: "u64 option"
  log_l1_batch_number :: "u64 option"
  log_transaction_hash :: "h256 option"
  log_transaction_index :: "u64 option"
  log_log_index :: "u256 option"
  log_transaction_log_index :: "u256 option"
  log_removed :: "bool option"

record Transaction =
  tx_hash :: h256
  tx_nonce :: u256
  tx_block_hash :: "h256 option"
  tx_block_number :: "u64 option"
  tx_transaction_index :: "u64 option"
  tx_from :: "address option"
  tx_to :: "address option"
  tx_value :: u256
  tx_gas_price :: "u256 option"
  tx_gas :: u256
  tx_input :: bytes
  tx_v :: "u64 option"
  tx_r :: "u256 option"
  tx_s :: "u256 option"
  tx_transaction_type :: "u64 option"
  tx_max_fee_per_gas :: "u256 option"
  tx_max_priority_fee_per_gas :: "u256 option"
  tx_chain_id :: u256
  tx_l1_batch_number :: "u64 option"

datatype TransactionVariant = FullTx Transaction | HashTx h256

record Block =
  block_hash :: h256
  block_parent_hash :: h256
  block_number :: u64
  block_timestamp :: u256
  block_l1_batch_number :: "u64 option"
  block_transactions :: "TransactionVariant list"
  block_gas_used :: u256
  block_gas_limit :: u256

record TransactionReceipt =
  rc_transaction_hash :: h256
  rc_transaction_index :: u64
  rc_block_hash :: "h256 option"
  rc_block_number :: "u64 option"
  rc_l1_batch_number :: "u64 option"
  rc_from :: address
  rc_to :: "address option"
  rc_gas_used :: "u256 option"
  rc_contract_address :: "address option"
  rc_logs :: "Log list"
  rc_status :: "u64 option"
  rc_effective_gas_price :: "u256 option"

section \<open>Layer 2 transactions\<close>

record Fee =
  gas_limit :: u256
  max_fee_per_gas :: u256
  max_priority_fee_per_gas :: u256
  gas_per_pubdata_limit :: u256

datatype TransactionType =
  LegacyTransaction | EIP2930Transaction | EIP1559Transaction | EIP712Transaction
| PriorityOpTransaction | ProtocolUpgradeTransaction

text \<open>\<^verbatim>\<open>L2Tx\<close> with its \<^verbatim>\<open>common_data\<close> and \<^verbatim>\<open>execute\<close> parts. The raw input is the pair of the
  transaction's hash and bytes that \<^verbatim>\<open>set_input\<close> stores.\<close>

record L2Tx =
  l2_nonce :: u32
  l2_fee :: Fee
  l2_initiator_address :: address
  l2_signature :: bytes
  l2_transaction_type :: TransactionType
  l2_input :: "(h256 \<times> bytes) option"
  l2_contract_address :: address
  l2_calldata :: bytes
  l2_value :: u256
  l2_factory_deps :: "bytes list option"
  l2_paymaster :: address
  l2_received_timestamp_ms :: u64

section \<open>Results of the virtual machine\<close>

text \<open>A revert reason is known by its renderings, a halt reason by its text.\<close>

record RevertReason =
  revert_string :: string
  revert_friendly :: string
  revert_encoded :: bytes

datatype ExecutionResult =
  Success bytes | Revert RevertReason | Halt string

fun is_failed :: "ExecutionResult \<Rightarrow> bool" where
  "is_failed (Success _) = False"
| "is_failed (Revert _) = True"
| "is_failed (Halt _) = True"

record VmEvent =
  ev_address :: address
  ev_indexed_topics :: "h256 list"
  ev_value :: bytes

datatype StorageLogQueryType = LogRead | InitialWrite | RepeatedWrite

record StorageLogQuery =
  slq_log_type :: StorageLogQueryType
  slq_address :: address
  slq_key :: u256
  slq_read_value :: u256
  slq_written_value :: u256

record VmExecutionResultAndLogs =
  vr_result :: ExecutionResult
  vr_events :: "VmEvent list"
  vr_storage_logs :: "StorageLogQuery list"
  vr_gas_used :: u32
  vr_computational_gas_used :: u32
  vr_gas_refunded :: u32

datatype CallType = CallCall | CallCreate | CallNear

datatype Call =
  VmCall
    (call_type : CallType) (call_from : address) (call_to : address) (call_gas : u32)
    (call_gas_used : u32) (call_value : u256) (call_input : bytes) (call_output : bytes)
    (call_error : "string option") (call_revert_reason : "string option")
    (call_calls : "Call list")

datatype DebugCallType = DebugTypeCall | DebugTypeCreate

datatype DebugCall =
  DebugCall
    (dc_type : DebugCallType) (dc_from : address) (dc_to : address) (dc_gas : u256)
    (dc_gas_used : u256) (dc_value : u256) (dc_output : bytes) (dc_input : bytes)
    (dc_error : "string option") (dc_revert_reason : "string option")
    (dc_calls : "DebugCall list")

section \<open>Errors of the RPC interface\<close>

text \<open>\<^verbatim>\<open>Web3Error\<close> as converted by \<^verbatim>\<open>into_jsrpc_error\<close>, and the errors built directly.\<close>

datatype RpcError =
  InternalError
| NoBlock
| SerializationError string
| InvalidTransactionData string
| SubmitTransactionError string bytes
| MethodNotFound string
| InvalidParams string
| AnyhowError string

end
