(* ===== verification/Storage.thy ===== *)
theory Storage
  imports ApiTypes
begin

text \<open>
  The storage interface \<^verbatim>\<open>ReadStorage\<close> as a dictionary of functions and the in-memory storage of
  \<^verbatim>\<open>src/.test-node-subtree/src/deps/mod.rs\<close>. A storage action takes the storage and returns a value,
  or \<^const>\<open>None\<close> when it panics, and the storage it leaves.
\<close>

section \<open>The interface\<close>

type_synonym ('s, 'a) action = "'s \<Rightarrow> 'a option \<times> 's"

definition act_return :: "'a \<Rightarrow> ('s, 'a) action" where
  "act_return a s = (Some a, s)"

definition act_panic :: "('s, 'a) action" where
  "act_panic s = (None, s)"

definition act_bind :: "('s, 'a) action \<Rightarrow> ('a \<Rightarrow> ('s, 'b) action) \<Rightarrow> ('s, 'b) action" where
  "act_bind m f s = (case m s of (None, s') \<Rightarrow> (None, s') | (Some a, s') \<Rightarrow> f a s')"

lemma act_simps [simp]:
  "act_return a s = (Some a, s)"
  "act_panic s = (None, s)"
  by (simp_all add: act_return_def act_panic_def)

lemma act_bind_run [simp]:
  "m s = (None, s') \<Longrightarrow> act_bind m f s = (None, s')"
  "m s = (Some a, s') \<Longrightarrow> act_bind m f s = f a s'"
  by (simp_all add: act_bind_def)

record 's read_storage =
  read_value :: "StorageKey \<Rightarrow> ('s, StorageValue) action"
  is_write_initial :: "StorageKey \<Rightarrow> ('s, bool) action"
  load_factory_dep :: "h256 \<Rightarrow> ('s, bytes option) action"
  get_enumeration_index :: "StorageKey \<Rightarrow> ('s, u64 option) action"

text \<open>\<^verbatim>\<open>WriteStorage\<close> extends it with the write that returns the previous value and the map of
  modified keys. \<^verbatim>\<open>ReadStorage::is_bytecode_known\<close> is the trait's provided method: the code hash is
  known when its entry of the known-codes contract is non-zero.\<close>

record 's write_storage = "'s read_storage" +
  set_value :: "StorageKey \<Rightarrow> StorageValue \<Rightarrow> ('s, StorageValue) action"
  modified_storage_keys :: "'s \<Rightarrow> (StorageKey \<times> StorageValue) list"

text \<open>The contract a user of a storage relies on: in a state satisfying the invariant (which for a
  locked storage includes that the lock is healthy), reads return the abstract value of the key,
  possibly panic, and change neither the abstract content nor the invariant unless they panic.\<close>

locale readable_storage =
  fixes rs :: "'s read_storage"
    and healthy :: "'s \<Rightarrow> bool"
    and val :: "'s \<Rightarrow> StorageKey \<Rightarrow> StorageValue option"
    and dep :: "'s \<Rightarrow> h256 \<Rightarrow> bytes option option"
    and initial :: "'s \<Rightarrow> StorageKey \<Rightarrow> bool option"
  assumes read_value_result: "healthy s \<Longrightarrow> fst (read_value rs k s) = val s k"
    and read_value_frame:
      "healthy s \<Longrightarrow> read_value rs k s = (Some v, s') \<Longrightarrow>
       healthy s' \<and> val s' = val s \<and> dep s' = dep s \<and> initial s' = initial s"
    and load_factory_dep_result: "healthy s \<Longrightarrow> fst (load_factory_dep rs h s) = dep s h"
    and load_factory_dep_frame:
      "healthy s \<Longrightarrow> load_factory_dep rs h s = (Some d, s') \<Longrightarrow>
       healthy s' \<and> val s' = val s \<and> dep s' = dep s \<and> initial s' = initial s"
    and is_write_initial_result: "healthy s \<Longrightarrow> fst (is_write_initial rs k s) = initial s k"
    and is_write_initial_frame:
      "healthy s \<Longrightarrow> is_write_initial rs k s = (Some b, s') \<Longrightarrow>
       healthy s' \<and> val s' = val s \<and> dep s' = dep s \<and> initial s' = initial s"
    and get_enumeration_index_frame:
      "healthy s \<Longrightarrow> get_enumeration_index rs k s = (Some i, s') \<Longrightarrow>
       healthy s' \<and> val s' = val s \<and> dep s' = dep s \<and> initial s' = initial s"

section \<open>In-memory storage\<close>

record InMemoryStorage =
  state :: "StorageKey \<Rightarrow> StorageValue option"
  factory_deps :: "h256 \<Rightarrow> bytes option"

definition mem_set_value :: "StorageKey \<Rightarrow> StorageValue \<Rightarrow> InMemoryStorage \<Rightarrow> InMemoryStorage" where
  "mem_set_value key v s = s\<lparr>state := (state s)(key \<mapsto> v)\<rparr>"

definition mem_store_factory_dep :: "h256 \<Rightarrow> bytes \<Rightarrow> InMemoryStorage \<Rightarrow> InMemoryStorage" where
  "mem_store_factory_dep hash bytecode s = s\<lparr>factory_deps := (factory_deps s)(hash \<mapsto> bytecode)\<rparr>"

definition mem_read_value :: "StorageKey \<Rightarrow> (InMemoryStorage, StorageValue) action" where
  "mem_read_value key s = (Some (case state s key of Some v \<Rightarrow> v | None \<Rightarrow> 0), s)"

definition mem_is_write_initial :: "StorageKey \<Rightarrow> (InMemoryStorage, bool) action" where
  "mem_is_write_initial key s = (Some (state s key = None), s)"

definition mem_load_factory_dep :: "h256 \<Rightarrow> (InMemoryStorage, bytes option) action" where
  "mem_load_factory_dep hash s = (Some (factory_deps s hash), s)"

definition mem_get_enumeration_index :: "StorageKey \<Rightarrow> (InMemoryStorage, u64 option) action" where
  "mem_get_enumeration_index key s = (Some (Some 0), s)"

definition in_memory_storage :: "InMemoryStorage read_storage" where
  "in_memory_storage =
     \<lparr>read_value = mem_read_value, is_write_initial = mem_is_write_initial,
      load_factory_dep = mem_load_factory_dep, get_enumeration_index = mem_get_enumeration_index\<rparr>"

text \<open>The genesis storage. The deployed contracts (address and bytecode) and the context
  initialisation logs come from \<^verbatim>\<open>system_contracts::get_deployed_contracts\<close> and
  \<^verbatim>\<open>get_system_context_init_logs\<close>, the code key from \<^verbatim>\<open>get_code_key\<close>; \<^verbatim>\<open>collect\<close> into a hash map lets
  a later entry replace an earlier one.\<close>

datatype StorageLogKind = KindRead | KindWrite

record StorageLog =
  sl_kind :: StorageLogKind
  sl_key :: StorageKey
  sl_value :: StorageValue

definition collect_map :: "('k \<times> 'v) list \<Rightarrow> 'k \<Rightarrow> 'v option" where
  "collect_map kvs = fold (\<lambda>(k, v) m. m(k \<mapsto> v)) kvs (\<lambda>_. None)"

definition with_system_contracts_and_chain_id ::
  "(address \<times> bytes) list \<Rightarrow> StorageLog list \<Rightarrow> (address \<Rightarrow> StorageKey) \<Rightarrow> (bytes \<Rightarrow> h256) \<Rightarrow>
   InMemoryStorage" where
  "with_system_contracts_and_chain_id contracts system_context_init_log get_code_key bytecode_hasher =
     (let logs = map (\<lambda>(account, bytecode).
                   \<lparr>sl_kind = KindWrite, sl_key = get_code_key account,
                    sl_value = bytecode_hasher bytecode\<rparr>) contracts
                 @ system_context_init_log
      in \<lparr>state = collect_map (map (\<lambda>l. (sl_key l, sl_value l))
                    (filter (\<lambda>l. sl_kind l = KindWrite) logs)),
          factory_deps = collect_map (map (\<lambda>(_, bytecode). (bytecode_hasher bytecode, bytecode))
                    contracts)\<rparr>)"

section \<open>Laws\<close>

lemma collect_map_append:
  "collect_map (xs @ [(k, v)]) = (collect_map xs)(k \<mapsto> v)"
  by (simp add: collect_map_def)

lemma collect_map_map_of: "collect_map kvs = map_of (rev kvs)"
  by (induction kvs rule: rev_induct) (auto simp: collect_map_append collect_map_def)

interpretation in_memory:
  readable_storage in_memory_storage "\<lambda>_. True"
    "\<lambda>s k. Some (case state s k of Some v \<Rightarrow> v | None \<Rightarrow> 0)"
    "\<lambda>s h. Some (factory_deps s h)"
    "\<lambda>s k. Some (state s k = None)"
  by unfold_locales
    (auto simp: in_memory_storage_def mem_read_value_def mem_is_write_initial_def
      mem_load_factory_dep_def mem_get_enumeration_index_def)

lemma mem_read_set [simp]:
  "mem_read_value k (mem_set_value k' v s) =
     (if k = k' then (Some v, mem_set_value k' v s)
      else (fst (mem_read_value k s), mem_set_value k' v s))"
  by (simp add: mem_read_value_def mem_set_value_def)

end
