(* ===== verification/StorageView.thy ===== *)
theory StorageView
  imports Storage
begin

text \<open>
  The write buffer of \<^verbatim>\<open>src/.test-node-subtree/src/deps/storage_view.rs\<close> over any storage: modified
  keys, a read cache and a cache of the initial-write answers.
\<close>

section \<open>State and operations\<close>

text \<open>The map of modified keys is an association list because the node iterates over it when it
  commits a transaction.\<close>

record 's StorageView =
  storage_handle :: 's
  modified_keys :: "(StorageKey \<times> StorageValue) list"
  read_storage_keys :: "StorageKey \<Rightarrow> StorageValue option"
  initial_writes_cache :: "StorageKey \<Rightarrow> bool option"

definition StorageView_new :: "'s \<Rightarrow> 's StorageView" where
  "StorageView_new h =
     \<lparr>storage_handle = h, modified_keys = [], read_storage_keys = (\<lambda>_. None),
      initial_writes_cache = (\<lambda>_. None)\<rparr>"

definition clean_cache :: "'s StorageView \<Rightarrow> 's StorageView" where
  "clean_cache s =
     s\<lparr>modified_keys := [], read_storage_keys := (\<lambda>_. None), initial_writes_cache := (\<lambda>_. None)\<rparr>"

definition get_value_no_log ::
  "'s read_storage \<Rightarrow> StorageKey \<Rightarrow> ('s StorageView, StorageValue) action" where
  "get_value_no_log rs key s =
     (case (case map_of (modified_keys s) key of
              Some v \<Rightarrow> Some v
            | None \<Rightarrow> read_storage_keys s key) of
        Some v \<Rightarrow> (Some v, s)
      | None \<Rightarrow>
          (case read_value rs key (storage_handle s) of
             (None, h) \<Rightarrow> (None, s\<lparr>storage_handle := h\<rparr>)
           | (Some v, h) \<Rightarrow>
               (Some v, s\<lparr>storage_handle := h,
                          read_storage_keys := (read_storage_keys s)(key \<mapsto> v)\<rparr>)))"

definition view_read_value ::
  "'s read_storage \<Rightarrow> StorageKey \<Rightarrow> ('s StorageView, StorageValue) action" where
  "view_read_value rs key = get_value_no_log rs key"

definition view_is_write_initial ::
  "'s read_storage \<Rightarrow> StorageKey \<Rightarrow> ('s StorageView, bool) action" where
  "view_is_write_initial rs key s =
     (case initial_writes_cache s key of
        Some b \<Rightarrow> (Some b, s)
      | None \<Rightarrow>
          (case is_write_initial rs key (storage_handle s) of
             (None, h) \<Rightarrow> (None, s\<lparr>storage_handle := h\<rparr>)
           | (Some b, h) \<Rightarrow>
               (Some b, s\<lparr>storage_handle := h,
                          initial_writes_cache := (initial_writes_cache s)(key \<mapsto> b)\<rparr>)))"

definition view_load_factory_dep ::
  "'s read_storage \<Rightarrow> h256 \<Rightarrow> ('s StorageView, bytes option) action" where
  "view_load_factory_dep rs hash s =
     (case load_factory_dep rs hash (storage_handle s) of
        (r, h) \<Rightarrow> (r, s\<lparr>storage_handle := h\<rparr>))"

definition view_get_enumeration_index ::
  "'s read_storage \<Rightarrow> StorageKey \<Rightarrow> ('s StorageView, u64 option) action" where
  "view_get_enumeration_index rs key s =
     (case get_enumeration_index rs key (storage_handle s) of
        (r, h) \<Rightarrow> (r, s\<lparr>storage_handle := h\<rparr>))"

definition view_set_value ::
  "'s read_storage \<Rightarrow> StorageKey \<Rightarrow> StorageValue \<Rightarrow> ('s StorageView, StorageValue) action" where
  "view_set_value rs key v s =
     (case get_value_no_log rs key s of
        (None, s') \<Rightarrow> (None, s')
      | (Some original, s') \<Rightarrow>
          (Some original, s'\<lparr>modified_keys := AList.update key v (modified_keys s')\<rparr>))"

definition view_modified_storage_keys :: "'s StorageView \<Rightarrow> (StorageKey \<times> StorageValue) list" where
  "view_modified_storage_keys s = modified_keys s"

definition missed_storage_invocations :: "'s StorageView \<Rightarrow> nat" where
  "missed_storage_invocations s = 0"

definition storage_view :: "'s read_storage \<Rightarrow> 's StorageView write_storage" where
  "storage_view rs =
     \<lparr>read_value = view_read_value rs, is_write_initial = view_is_write_initial rs,
      load_factory_dep = view_load_factory_dep rs,
      get_enumeration_index = view_get_enumeration_index rs,
      set_value = view_set_value rs, modified_storage_keys = view_modified_storage_keys\<rparr>"


section \<open>A storage that can be written\<close>

locale writable_storage =
  readable_storage "read_storage.truncate ws" healthy val dep initial
  for ws :: "'s write_storage"
    and healthy :: "'s \<Rightarrow> bool"
    and val :: "'s \<Rightarrow> StorageKey \<Rightarrow> StorageValue option"
    and dep :: "'s \<Rightarrow> h256 \<Rightarrow> bytes option option"
    and initial :: "'s \<Rightarrow> StorageKey \<Rightarrow> bool option" +
  assumes set_value_result: "healthy s \<Longrightarrow> fst (set_value ws k v s) = val s k"
    and set_value_frame:
      "healthy s \<Longrightarrow> set_value ws k v s = (Some original, s') \<Longrightarrow>
       healthy s' \<and> val s' = (val s)(k \<mapsto> v) \<and> dep s' = dep s \<and> initial s' = initial s"

text \<open>A sequence of accesses, as the virtual machine makes them, and its answers. A panic stops
  it.\<close>

datatype access = Read StorageKey | Write StorageKey StorageValue | Dep h256 | Initial StorageKey

datatype answer = Value StorageValue | Code "bytes option" | Flag bool

definition run_access :: "('s, 'm) write_storage_scheme \<Rightarrow> access \<Rightarrow> ('s, answer) action" where
  "run_access ws a =
     (case a of
        Read k \<Rightarrow> act_bind (read_value ws k) (\<lambda>v. act_return (Value v))
      | Write k v \<Rightarrow> act_bind (set_value ws k v) (\<lambda>v'. act_return (Value v'))
      | Dep h \<Rightarrow> act_bind (load_factory_dep ws h) (\<lambda>d. act_return (Code d))
      | Initial k \<Rightarrow> act_bind (is_write_initial ws k) (\<lambda>b. act_return (Flag b)))"

fun run_accesses :: "('s, 'm) write_storage_scheme \<Rightarrow> access list \<Rightarrow> ('s, answer list) action" where
  "run_accesses ws [] s = (Some [], s)"
| "run_accesses ws (a # as) s =
     act_bind (run_access ws a) (\<lambda>r. act_bind (run_accesses ws as) (\<lambda>rs. act_return (r # rs))) s"

text \<open>What the answers have to be: reads see the last write to the key, and the initial-write flag
  and the factory dependencies are those of the storage below, whatever was written.\<close>

fun answer_spec ::
  "(h256 \<Rightarrow> bytes option option) \<Rightarrow> (StorageKey \<Rightarrow> bool option) \<Rightarrow>
   (StorageKey \<Rightarrow> StorageValue option) \<Rightarrow> access \<Rightarrow> answer option" where
  "answer_spec d i m (Read k) = map_option Value (m k)"
| "answer_spec d i m (Write k v) = map_option Value (m k)"
| "answer_spec d i m (Dep h) = map_option Code (d h)"
| "answer_spec d i m (Initial k) = map_option Flag (i k)"

fun write_effect ::
  "access \<Rightarrow> (StorageKey \<Rightarrow> StorageValue option) \<Rightarrow> StorageKey \<Rightarrow> StorageValue option" where
  "write_effect (Write k v) m = m(k \<mapsto> v)"
| "write_effect _ m = m"

fun answers_spec ::
  "(h256 \<Rightarrow> bytes option option) \<Rightarrow> (StorageKey \<Rightarrow> bool option) \<Rightarrow>
   (StorageKey \<Rightarrow> StorageValue option) \<Rightarrow> access list \<Rightarrow> answer list option" where
  "answers_spec d i m [] = Some []"
| "answers_spec d i m (a # as) =
     (case answer_spec d i m a of
        None \<Rightarrow> None
      | Some r \<Rightarrow> map_option (\<lambda>rs. r # rs) (answers_spec d i (write_effect a m) as))"

lemma truncate_simps [simp]:
  "read_value (read_storage.truncate ws) = read_value ws"
  "is_write_initial (read_storage.truncate ws) = is_write_initial ws"
  "load_factory_dep (read_storage.truncate ws) = load_factory_dep ws"
  "get_enumeration_index (read_storage.truncate ws) = get_enumeration_index ws"
  by (simp_all add: read_storage.truncate_def)

context writable_storage
begin

lemma run_access_result:
  assumes "healthy s"
  shows "fst (run_access ws a s) = answer_spec (dep s) (initial s) (val s) a"
proof (cases a)
  case (Read k)
  then show ?thesis
    using read_value_result [OF assms, of k]
    by (cases "read_value ws k s"; cases "fst (read_value ws k s)") (auto simp: run_access_def)
next
  case (Write k v)
  then show ?thesis
    using set_value_result [OF assms, of k v]
    by (cases "set_value ws k v s"; cases "fst (set_value ws k v s)") (auto simp: run_access_def)
next
  case (Dep h)
  then show ?thesis
    using load_factory_dep_result [OF assms, of h]
    by (cases "load_factory_dep ws h s"; cases "fst (load_factory_dep ws h s)")
      (auto simp: run_access_def)
next
  case (Initial k)
  then show ?thesis
    using is_write_initial_result [OF assms, of k]
    by (cases "is_write_initial ws k s"; cases "fst (is_write_initial ws k s)")
      (auto simp: run_access_def)
qed

lemma run_access_frame:
  assumes "healthy s" and "run_access ws a s = (Some r, s')"
  shows "healthy s' \<and> val s' = write_effect a (val s) \<and> dep s' = dep s \<and> initial s' = initial s"
proof (cases a)
  case (Read k)
  then show ?thesis
    using assms read_value_frame [OF assms(1), of k]
    by (auto simp: run_access_def act_bind_def split: prod.splits option.splits)
next
  case (Write k v)
  then show ?thesis
    using assms set_value_frame [OF assms(1), of k v]
    by (auto simp: run_access_def act_bind_def split: prod.splits option.splits)
next
  case (Dep h)
  then show ?thesis
    using assms load_factory_dep_frame [OF assms(1), of h]
    by (auto simp: run_access_def act_bind_def split: prod.splits option.splits)
next
  case (Initial k)
  then show ?thesis
    using assms is_write_initial_frame [OF assms(1), of k]
    by (auto simp: run_access_def act_bind_def split: prod.splits option.splits)
qed

lemma run_accesses_result:
  assumes "healthy s"
  shows "fst (run_accesses ws as s) = answers_spec (dep s) (initial s) (val s) as"
  using assms
proof (induction as arbitrary: s)
  case Nil
  then show ?case by simp
next
  case (Cons a as)
  obtain r s' where run: "run_access ws a s = (r, s')"
    by fastforce
  show ?case
  proof (cases r)
    case None
    then show ?thesis
      using run run_access_result [OF Cons.prems, of a] by simp
  next
    case (Some x)
    then have fr: "healthy s' \<and> val s' = write_effect a (val s) \<and> dep s' = dep s \<and> initial s' = initial s"
      using run run_access_frame Cons.prems by blast
    then have "fst (run_accesses ws as s') =
        answers_spec (dep s) (initial s) (write_effect a (val s)) as"
      using Cons.IH [of s'] by simp
    moreover have "answer_spec (dep s) (initial s) (val s) a = Some x"
      using run Some run_access_result [OF Cons.prems, of a] by simp
    moreover have "run_access ws a s = (Some x, s')"
      using run Some by simp
    ultimately show ?thesis
      by (cases "run_accesses ws as s'"; cases "fst (run_accesses ws as s')") auto
  qed
qed

lemma run_accesses_frame:
  assumes "healthy s" and "run_accesses ws as s = (Some rs, s')"
  shows "healthy s' \<and> val s' = fold write_effect as (val s) \<and> dep s' = dep s \<and> initial s' = initial s"
  using assms
proof (induction as arbitrary: s rs)
  case Nil
  then show ?case by simp
next
  case (Cons a as)
  from Cons.prems(2) obtain r s1 rs' where
    run: "run_access ws a s = (Some r, s1)" and rest: "run_accesses ws as s1 = (Some rs', s')"
    by (auto simp: act_bind_def split: prod.splits option.splits)
  from run_access_frame [OF Cons.prems(1) run] Cons.IH [OF _ rest]
  show ?case by simp
qed

end


section \<open>The view is such a storage\<close>

text \<open>Its abstraction: the buffered writes over the value of the storage below. The invariant says
  that the caches hold what the storage below would answer.\<close>

definition view_val ::
  "('s \<Rightarrow> StorageKey \<Rightarrow> StorageValue option) \<Rightarrow> 's StorageView \<Rightarrow>
   StorageKey \<Rightarrow> StorageValue option" where
  "view_val val s k =
     (case map_of (modified_keys s) k of Some v \<Rightarrow> Some v | None \<Rightarrow> val (storage_handle s) k)"

definition view_inv ::
  "('s \<Rightarrow> bool) \<Rightarrow> ('s \<Rightarrow> StorageKey \<Rightarrow> StorageValue option) \<Rightarrow>
   ('s \<Rightarrow> StorageKey \<Rightarrow> bool option) \<Rightarrow> 's StorageView \<Rightarrow> bool" where
  "view_inv healthy val initial s \<longleftrightarrow>
     healthy (storage_handle s) \<and>
     read_storage_keys s \<subseteq>\<^sub>m val (storage_handle s) \<and>
     initial_writes_cache s \<subseteq>\<^sub>m initial (storage_handle s)"

lemma view_val_alt: "view_val val s = val (storage_handle s) ++ map_of (modified_keys s)"
  by (auto simp: view_val_def map_add_def split: option.splits)

lemma view_inv_new: "healthy h \<Longrightarrow> view_inv healthy val initial (StorageView_new h)"
  by (simp add: view_inv_def StorageView_new_def map_le_def)

lemma view_val_new [simp]: "view_val val (StorageView_new h) = val h"
  by (simp add: view_val_def StorageView_new_def fun_eq_iff)

lemma map_le_upd_iff: "m k = None \<Longrightarrow> m(k \<mapsto> v) \<subseteq>\<^sub>m n \<longleftrightarrow> m \<subseteq>\<^sub>m n \<and> n k = Some v"
  by (auto simp: map_le_def)

lemma map_le_SomeD: "m \<subseteq>\<^sub>m n \<Longrightarrow> m k = Some v \<Longrightarrow> n k = Some v"
  by (force simp: map_le_def dom_def)

context readable_storage
begin

lemma get_value_no_log_result:
  assumes "view_inv healthy val initial s"
  shows "fst (get_value_no_log rs k s) = view_val val s k"
proof (cases "map_of (modified_keys s) k")
  case None
  then show ?thesis
    using assms read_value_result [of "storage_handle s" k] map_le_SomeD
    by (fastforce simp: get_value_no_log_def view_val_def view_inv_def split: option.splits prod.splits)
next
  case (Some v)
  then show ?thesis
    by (simp add: get_value_no_log_def view_val_def)
qed

lemma get_value_no_log_frame:
  assumes "view_inv healthy val initial s" and "get_value_no_log rs k s = (Some v, s')"
  shows "view_inv healthy val initial s' \<and> val (storage_handle s') = val (storage_handle s) \<and>
         dep (storage_handle s') = dep (storage_handle s) \<and>
         initial (storage_handle s') = initial (storage_handle s) \<and>
         modified_keys s' = modified_keys s"
proof (cases "case map_of (modified_keys s) k of Some v \<Rightarrow> Some v | None \<Rightarrow> read_storage_keys s k")
  case (Some w)
  then show ?thesis
    using assms by (simp add: get_value_no_log_def)
next
  case None
  then have uncached: "read_storage_keys s k = None"
    by (auto split: option.splits)
  obtain h where h: "read_value rs k (storage_handle s) = (Some v, h)"
    and s': "s' = s\<lparr>storage_handle := h, read_storage_keys := (read_storage_keys s)(k \<mapsto> v)\<rparr>"
    using None assms(2) by (auto simp: get_value_no_log_def split: prod.splits option.splits)
  have healthy: "healthy (storage_handle s)"
    using assms(1) by (simp add: view_inv_def)
  have "val (storage_handle s) k = Some v"
    using read_value_result [OF healthy, of k] h by simp
  then show ?thesis
    using read_value_frame [OF healthy h] assms(1) uncached
    by (simp add: s' view_inv_def map_le_upd_iff)
qed

lemma view_read_value_frame:
  assumes "view_inv healthy val initial s" and "get_value_no_log rs k s = (Some v, s')"
  shows "view_inv healthy val initial s' \<and> view_val val s' = view_val val s \<and>
         dep (storage_handle s') = dep (storage_handle s) \<and>
         initial (storage_handle s') = initial (storage_handle s)"
  using get_value_no_log_frame [OF assms] by (simp add: view_val_alt)

lemma view_set_value_frame:
  assumes "view_inv healthy val initial s" and "view_set_value rs k v s = (Some original, s')"
  shows "view_inv healthy val initial s' \<and> view_val val s' = (view_val val s)(k \<mapsto> v) \<and>
         dep (storage_handle s') = dep (storage_handle s) \<and>
         initial (storage_handle s') = initial (storage_handle s)"
proof -
  obtain s1 where s1: "get_value_no_log rs k s = (Some original, s1)"
    and s': "s' = s1\<lparr>modified_keys := AList.update k v (modified_keys s1)\<rparr>"
    using assms(2) by (auto simp: view_set_value_def split: prod.splits option.splits)
  from get_value_no_log_frame [OF assms(1) s1] show ?thesis
    by (auto simp: s' view_val_alt view_inv_def)
qed

lemma view_is_write_initial_frame:
  assumes "view_inv healthy val initial s" and "view_is_write_initial rs k s = (Some b, s')"
  shows "view_inv healthy val initial s' \<and> view_val val s' = view_val val s \<and>
         dep (storage_handle s') = dep (storage_handle s) \<and>
         initial (storage_handle s') = initial (storage_handle s) \<and>
         modified_keys s' = modified_keys s \<and> val (storage_handle s') = val (storage_handle s)"
proof (cases "initial_writes_cache s k")
  case (Some c)
  then show ?thesis using assms by (simp add: view_is_write_initial_def)
next
  case None
  obtain h where h: "is_write_initial rs k (storage_handle s) = (Some b, h)"
    and s': "s' = s\<lparr>storage_handle := h, initial_writes_cache := (initial_writes_cache s)(k \<mapsto> b)\<rparr>"
    using None assms(2) by (auto simp: view_is_write_initial_def split: prod.splits option.splits)
  have h0: "healthy (storage_handle s)"
    using assms(1) by (simp add: view_inv_def)
  have "initial (storage_handle s) k = Some b"
    using is_write_initial_result [OF h0, of k] h by simp
  then show ?thesis
    using is_write_initial_frame [OF h0 h] assms(1) None
    by (simp add: s' view_inv_def view_val_alt map_le_upd_iff)
qed

lemma view_is_write_initial_result:
  assumes "view_inv healthy val initial s"
  shows "fst (view_is_write_initial rs k s) = initial (storage_handle s) k"
  using assms is_write_initial_result [of "storage_handle s" k] map_le_SomeD
  by (fastforce simp: view_is_write_initial_def view_inv_def split: option.splits prod.splits)

lemma view_handle_frame:
  assumes "view_inv healthy val initial s"
    and "healthy h \<and> val h = val (storage_handle s) \<and> dep h = dep (storage_handle s) \<and>
         initial h = initial (storage_handle s)"
  shows "view_inv healthy val initial (s\<lparr>storage_handle := h\<rparr>) \<and>
         view_val val (s\<lparr>storage_handle := h\<rparr>) = view_val val s"
  using assms by (simp add: view_inv_def view_val_alt)

lemma view_writable:
  "writable_storage (storage_view rs) (view_inv healthy val initial) (view_val val)
     (\<lambda>s. dep (storage_handle s)) (\<lambda>s. initial (storage_handle s))"
proof (unfold_locales, simp_all add: storage_view_def view_read_value_def)
  fix s :: "'s StorageView" and k h v original s' b d i
  assume I: "view_inv healthy val initial s"
  then have h0: "healthy (storage_handle s)"
    by (simp add: view_inv_def)
  show "fst (get_value_no_log rs k s) = view_val val s k"
    by (rule get_value_no_log_result [OF I])
  show "fst (view_load_factory_dep rs h s) = dep (storage_handle s) h"
    using load_factory_dep_result [OF h0, of h]
    by (auto simp: view_load_factory_dep_def split: prod.splits)
  show "fst (view_is_write_initial rs k s) = initial (storage_handle s) k"
    by (rule view_is_write_initial_result [OF I])
  show "fst (view_set_value rs k v s) = view_val val s k"
    using get_value_no_log_result [OF I, of k]
    by (auto simp: view_set_value_def split: prod.splits option.splits)
  show "view_inv healthy val initial s' \<and> view_val val s' = view_val val s \<and>
      dep (storage_handle s') = dep (storage_handle s) \<and>
      initial (storage_handle s') = initial (storage_handle s)"
    if "get_value_no_log rs k s = (Some v, s')"
    by (rule view_read_value_frame [OF I that])
  show "view_inv healthy val initial s' \<and> view_val val s' = view_val val s \<and>
      dep (storage_handle s') = dep (storage_handle s) \<and>
      initial (storage_handle s') = initial (storage_handle s)"
    if "view_is_write_initial rs k s = (Some b, s')"
    using view_is_write_initial_frame [OF I that] by simp
  show "view_inv healthy val initial s' \<and> view_val val s' = view_val val s \<and>
      dep (storage_handle s') = dep (storage_handle s) \<and>
      initial (storage_handle s') = initial (storage_handle s)"
    if "view_load_factory_dep rs h s = (Some d, s')"
    using that load_factory_dep_frame [OF h0, of h d] view_handle_frame [OF I]
    by (auto simp: view_load_factory_dep_def split: prod.splits)
  show "view_inv healthy val initial s' \<and> view_val val s' = view_val val s \<and>
      dep (storage_handle s') = dep (storage_handle s) \<and>
      initial (storage_handle s') = initial (storage_handle s)"
    if "view_get_enumeration_index rs k s = (Some i, s')"
    using that get_enumeration_index_frame [OF h0, of k i] view_handle_frame [OF I]
    by (auto simp: view_get_enumeration_index_def split: prod.splits)
  show "view_inv healthy val initial s' \<and> view_val val s' = (view_val val s)(k \<mapsto> v) \<and>
      dep (storage_handle s') = dep (storage_handle s) \<and>
      initial (storage_handle s') = initial (storage_handle s)"
    if "view_set_value rs k v s = (Some original, s')"
    by (rule view_set_value_frame [OF I that])
qed

text \<open>The storage below keeps its meaning and the buffer holds exactly the writes.\<close>

lemma view_access_handle:
  assumes "view_inv healthy val initial s" and "run_access (storage_view rs) a s = (Some r, s')"
  shows "val (storage_handle s') = val (storage_handle s) \<and>
         map_of (modified_keys s') = write_effect a (map_of (modified_keys s))"
proof (cases a)
  case (Read k)
  then show ?thesis
    using assms get_value_no_log_frame [OF assms(1), of k]
    by (auto simp: run_access_def act_bind_def storage_view_def view_read_value_def
        split: prod.splits option.splits)
next
  case (Write k v)
  then show ?thesis
    using assms get_value_no_log_frame [OF assms(1), of k]
    by (auto simp: run_access_def act_bind_def storage_view_def view_set_value_def
        split: prod.splits option.splits)
next
  case (Dep h)
  then show ?thesis
    using assms load_factory_dep_frame [of "storage_handle s" h]
    by (auto simp: run_access_def act_bind_def storage_view_def view_load_factory_dep_def view_inv_def
        split: prod.splits option.splits)
next
  case (Initial k)
  then show ?thesis
    using assms view_is_write_initial_frame [OF assms(1), of k]
    by (auto simp: run_access_def act_bind_def storage_view_def split: prod.splits option.splits)
qed

lemma view_accesses_handle:
  assumes "view_inv healthy val initial s" and "run_accesses (storage_view rs) accs s = (Some r, s')"
  shows "val (storage_handle s') = val (storage_handle s) \<and>
         map_of (modified_keys s') = fold write_effect accs (map_of (modified_keys s))"
  using assms
proof (induction accs arbitrary: s r)
  case Nil
  then show ?case by simp
next
  case (Cons a accs)
  from Cons.prems(2) obtain r1 s1 r2 where
    step: "run_access (storage_view rs) a s = (Some r1, s1)"
    and rest: "run_accesses (storage_view rs) accs s1 = (Some r2, s')"
    by (auto simp: act_bind_def split: prod.splits option.splits)
  have "view_inv healthy val initial s1"
    using writable_storage.run_access_frame [OF view_writable Cons.prems(1) step] by simp
  then show ?case
    using Cons.IH [OF _ rest] view_access_handle [OF Cons.prems(1) step] by simp
qed

end

interpretation in_memory_view:
  writable_storage "storage_view in_memory_storage"
    "view_inv (\<lambda>_. True)
       (\<lambda>s k. Some (case state s k of Some v \<Rightarrow> v | None \<Rightarrow> 0)) (\<lambda>s k. Some (state s k = None))"
    "view_val (\<lambda>s k. Some (case state s k of Some v \<Rightarrow> v | None \<Rightarrow> 0))"
    "\<lambda>s. Some \<circ> factory_deps (storage_handle s)"
    "\<lambda>s k. Some (state (storage_handle s) k = None)"
  using in_memory.view_writable by (simp add: comp_def)

end
