(* ===== verification/ForkSource.thy ===== *)
theory ForkSource
  imports ApiTypes
begin

text \<open>
  The interface of a fork source (trait \<^verbatim>\<open>ForkSource\<close> of \<^verbatim>\<open>src/.test-node-subtree/src/fork.rs\<close>), the
  data it returns, the description of a fork, and the code of \<^verbatim>\<open>fork.rs\<close> that builds one. A remote
  call is a function of its arguments; \<^const>\<open>None\<close> is an \<^verbatim>\<open>Err\<close> of the client.
\<close>

section \<open>Data returned by a fork source\<close>

record BridgeAddresses =
  l1_erc20_default_bridge :: address
  l2_erc20_default_bridge :: address
  l1_weth_bridge :: "address option"
  l2_weth_bridge :: "address option"

record Token =
  token_l1_address :: address
  token_l2_address :: address
  token_name :: string
  token_symbol :: string
  token_decimals :: u8

datatype TransactionStatus = StatusPending | StatusIncluded | StatusVerified | StatusFailed

record TransactionDetails =
  td_is_l1_originated :: bool
  td_status :: TransactionStatus
  td_fee :: u256
  td_gas_per_pubdata :: u256
  td_initiator_address :: address
  td_received_at :: "int \<times> nat"  \<comment> \<open>seconds and nanoseconds since the epoch\<close>

datatype BlockStatus = BlockSealed | BlockVerified

text \<open>Protocol versions are numbered.\<close>

datatype ProtocolVersionId = Version nat

record BlockDetails =
  bd_number :: u32
  bd_l1_batch_number :: u32
  bd_timestamp :: u64
  bd_l1_tx_count :: nat
  bd_l2_tx_count :: nat
  bd_root_hash :: "h256 option"
  bd_status :: BlockStatus
  bd_l1_gas_price :: u64
  bd_l2_fair_gas_price :: u64
  bd_base_system_contracts_hashes :: "h256 \<times> h256"  \<comment> \<open>bootloader and default account\<close>
  bd_operator_address :: address
  bd_protocol_version :: "ProtocolVersionId option"

text \<open>\<^verbatim>\<open>zksync_types::Transaction\<close>: an L2 transaction, or one of another kind, known by its hash.\<close>

datatype RawTransaction = RawL2 L2Tx | RawOther h256

section \<open>The interface\<close>

record ForkSource =
  get_storage_at :: "address \<Rightarrow> u256 \<Rightarrow> BlockIdVariant option \<Rightarrow> h256 option"
  src_get_bytecode_by_hash :: "h256 \<Rightarrow> bytes option option"
  src_get_transaction_by_hash :: "h256 \<Rightarrow> Transaction option option"
  src_get_transaction_details :: "h256 \<Rightarrow> TransactionDetails option option"
  src_get_raw_block_transactions :: "u32 \<Rightarrow> RawTransaction list option"
  src_get_block_by_hash :: "h256 \<Rightarrow> bool \<Rightarrow> Block option option"
  src_get_block_by_number :: "BlockNumber \<Rightarrow> bool \<Rightarrow> Block option option"
  src_get_block_details :: "u32 \<Rightarrow> BlockDetails option option"
  src_get_block_transaction_count_by_hash :: "h256 \<Rightarrow> u256 option option"
  src_get_block_transaction_count_by_number :: "BlockNumber \<Rightarrow> u256 option option"
  src_get_transaction_by_block_hash_and_index :: "h256 \<Rightarrow> nat \<Rightarrow> Transaction option option"
  src_get_transaction_by_block_number_and_index ::
    "BlockNumber \<Rightarrow> nat \<Rightarrow> Transaction option option"
  src_get_bridge_contracts :: "BridgeAddresses option"
  src_get_confirmed_tokens :: "u32 \<Rightarrow> u8 \<Rightarrow> Token list option"

section \<open>Fork details\<close>

record ForkDetails =
  fork_source :: ForkSource
  l1_block :: u32
  l2_block :: Block
  l2_miniblock :: u64
  l2_miniblock_hash :: h256
  block_timestamp_at_fork :: u64
  overwrite_chain_id :: "u64 option"
  fork_l1_gas_price :: u64

definition SUPPORTED_VERSIONS :: "ProtocolVersionId list" where
  "SUPPORTED_VERSIONS =
     [Version 9, Version 10, Version 11, Version 12, Version 13, Version 14, Version 15,
      Version 16, Version 17, Version 18, Version 19]"

definition supported_protocol_versions :: "ProtocolVersionId \<Rightarrow> bool" where
  "supported_protocol_versions version = (version \<in> set SUPPORTED_VERSIONS)"

text \<open>The client of a URL is a fork source (\<^verbatim>\<open>client\<close>); every \<^verbatim>\<open>unwrap\<close>, \<^verbatim>\<open>expect\<close> and \<^verbatim>\<open>panic!\<close> is a
  \<^const>\<open>Panic\<close>. \<^verbatim>\<open>new_source\<close> is \<^verbatim>\<open>HttpForkSource::new\<close> for the URL and cache configuration.\<close>

definition from_url_and_miniblock_and_chain ::
  "ForkSource \<Rightarrow> ForkSource \<Rightarrow> u64 \<Rightarrow> u64 option \<Rightarrow> (string, ForkDetails) rust" where
  "from_url_and_miniblock_and_chain new_source client miniblock chain_id =
     (case src_get_block_details client (ucast miniblock) of
        None \<Rightarrow> Panic
      | Some None \<Rightarrow> Panic
      | Some (Some block_details) \<Rightarrow>
         (case bd_root_hash block_details of
            None \<Rightarrow> Panic
          | Some root_hash \<Rightarrow>
             (case src_get_block_by_hash client root_hash True of
                None \<Rightarrow> Panic
              | Some None \<Rightarrow> Panic
              | Some (Some block) \<Rightarrow>
                  if \<not> (case bd_protocol_version block_details of
                           None \<Rightarrow> False
                         | Some v \<Rightarrow> supported_protocol_versions v)
                  then Panic
                  else Ok \<lparr>fork_source = new_source,
                           l1_block = bd_l1_batch_number block_details,
                           l2_block = block,
                           l2_miniblock = miniblock,
                           l2_miniblock_hash = root_hash,
                           block_timestamp_at_fork = bd_timestamp block_details,
                           overwrite_chain_id = chain_id,
                           fork_l1_gas_price = bd_l1_gas_price block_details\<rparr>)))"

definition fork_to_url :: "string \<Rightarrow> string" where
  "fork_to_url fork =
     (if fork = ''mainnet'' then ''https://mainnet.era.zksync.io:443''
      else if fork = ''sepolia-testnet'' then ''https://sepolia.era.zksync.dev:443''
      else if fork = ''goerli-testnet'' then ''https://testnet.era.zksync.dev:443''
      else fork)"

text \<open>\<^verbatim>\<open>client_of\<close> builds the HTTP client of a URL, \<^verbatim>\<open>latest\<close> is its \<^verbatim>\<open>get_block_number\<close>.\<close>

definition from_network ::
  "(string \<Rightarrow> ForkSource) \<Rightarrow> (string \<Rightarrow> ForkSource) \<Rightarrow> (string \<Rightarrow> u64 option) \<Rightarrow>
   string \<Rightarrow> u64 option \<Rightarrow> (string, ForkDetails) rust" where
  "from_network new_source client_of latest fork fork_at =
     (let url = fork_to_url fork
      in case (case fork_at of Some n \<Rightarrow> Some n | None \<Rightarrow> latest url) of
           None \<Rightarrow> Panic
         | Some n \<Rightarrow> from_url_and_miniblock_and_chain (new_source url) (client_of url) n None)"

text \<open>\<^verbatim>\<open>L2ChainId::try_from\<close> rejects a chain id above its maximum (a parameter); \<^verbatim>\<open>as_u64\<close> and \<^verbatim>\<open>as_u32\<close>
  panic when the value does not fit.\<close>

definition from_network_tx ::
  "(string \<Rightarrow> ForkSource) \<Rightarrow> (string \<Rightarrow> ForkSource) \<Rightarrow> (u64 \<Rightarrow> bool) \<Rightarrow>
   string \<Rightarrow> h256 \<Rightarrow> (string, ForkDetails) rust" where
  "from_network_tx new_source client_of valid_chain_id fork tx =
     (let url = fork_to_url fork
      in case src_get_transaction_by_hash (client_of url) tx of
           None \<Rightarrow> Panic
         | Some None \<Rightarrow> Panic
         | Some (Some tx_details) \<Rightarrow>
             if unat (tx_chain_id tx_details) \<ge> 2 ^ 64 then Panic
             else if \<not> valid_chain_id (ucast (tx_chain_id tx_details)) then Panic
             else (case tx_block_number tx_details of
                     None \<Rightarrow> Panic
                   | Some n \<Rightarrow>
                       if unat n \<ge> 2 ^ 32 then Panic
                       else from_url_and_miniblock_and_chain (new_source url) (client_of url)
                              (ucast (sat_sub (ucast n :: u32) 1))
                              (Some (ucast (tx_chain_id tx_details)))))"

text \<open>The loop over the transactions of the block stops at the replayed one and panics when it is not
  there or when a transaction before it is not an L2 transaction. \<^verbatim>\<open>hash\<close> is the transaction hash.\<close>

fun take_until_tx ::
  "(RawTransaction \<Rightarrow> h256) \<Rightarrow> h256 \<Rightarrow> RawTransaction list \<Rightarrow> L2Tx list \<Rightarrow> (string, L2Tx list) rust" where
  "take_until_tx hash replay_tx [] acc = Panic"
| "take_until_tx hash replay_tx (tx # txs) acc =
     (case tx of
        RawOther _ \<Rightarrow> Panic
      | RawL2 l2_tx \<Rightarrow>
          if hash tx = replay_tx then Ok (acc @ [l2_tx])
          else take_until_tx hash replay_tx txs (acc @ [l2_tx]))"

definition get_earlier_transactions_in_same_block ::
  "(RawTransaction \<Rightarrow> h256) \<Rightarrow> ForkDetails \<Rightarrow> h256 \<Rightarrow> (string, L2Tx list) rust" where
  "get_earlier_transactions_in_same_block hash fork replay_tx =
     (case src_get_transaction_by_hash (fork_source fork) replay_tx of
        None \<Rightarrow> Panic
      | Some None \<Rightarrow> Panic
      | Some (Some tx_details) \<Rightarrow>
         (case tx_block_number tx_details of
            None \<Rightarrow> Panic
          | Some n \<Rightarrow>
              if unat n \<ge> 2 ^ 32 then Panic
              else (case src_get_raw_block_transactions (fork_source fork) (ucast n) of
                      None \<Rightarrow> Panic
                    | Some txs \<Rightarrow> take_until_tx hash replay_tx txs [])))"


section \<open>Properties\<close>

lemma take_until_tx_Ok:
  assumes "take_until_tx hash r txs acc = Ok ts"
  shows "\<exists>us u rest. ts = acc @ us @ [u] \<and> txs = map RawL2 (us @ [u]) @ rest \<and>
           hash (RawL2 u) = r \<and> r \<notin> (hash \<circ> RawL2) ` set us"
  using assms
proof (induction hash r txs acc rule: take_until_tx.induct)
  case (1 hash r acc)
  then show ?case by simp
next
  case (2 hash r tx txs acc)
  then obtain l where tx: "tx = RawL2 l"
    by (cases tx) auto
  show ?case
  proof (cases "hash tx = r")
    case True
    then show ?thesis
      using 2(2) tx by (intro exI [of _ "[]"] exI [of _ l] exI [of _ txs]) simp
  next
    case False
    then obtain us u rest where "ts = (acc @ [l]) @ us @ [u]" "txs = map RawL2 (us @ [u]) @ rest"
        "hash (RawL2 u) = r" "r \<notin> (hash \<circ> RawL2) ` set us"
      using 2 tx by fastforce
    then show ?thesis
      using False tx by (intro exI [of _ "l # us"] exI [of _ u] exI [of _ rest]) auto
  qed
qed

lemma take_until_tx_ends:
  assumes "r \<in> hash ` set txs" and "\<forall>tx \<in> set txs. \<exists>l. tx = RawL2 l"
  shows "\<exists>ts. take_until_tx hash r txs acc = Ok ts"
  using assms
proof (induction txs arbitrary: acc)
  case (Cons tx txs)
  then obtain l where "tx = RawL2 l" by auto
  then show ?case using Cons by (cases "hash tx = r") auto
qed simp

text \<open>A fork whose remote answers, for the witnesses: every slot holds \<^verbatim>\<open>v\<close>, there is no bytecode.\<close>

definition constant_source :: "h256 \<Rightarrow> ForkSource" where
  "constant_source v =
     \<lparr>get_storage_at = (\<lambda>_ _ _. Some v), src_get_bytecode_by_hash = (\<lambda>_. Some None),
      src_get_transaction_by_hash = (\<lambda>_. Some None), src_get_transaction_details = (\<lambda>_. Some None),
      src_get_raw_block_transactions = (\<lambda>_. Some []), src_get_block_by_hash = (\<lambda>_ _. Some None),
      src_get_block_by_number = (\<lambda>_ _. Some None), src_get_block_details = (\<lambda>_. Some None),
      src_get_block_transaction_count_by_hash = (\<lambda>_. Some None),
      src_get_block_transaction_count_by_number = (\<lambda>_. Some None),
      src_get_transaction_by_block_hash_and_index = (\<lambda>_ _. Some None),
      src_get_transaction_by_block_number_and_index = (\<lambda>_ _. Some None),
      src_get_bridge_contracts = None, src_get_confirmed_tokens = (\<lambda>_ _. None)\<rparr>"

definition empty_block :: Block where
  "empty_block =
     \<lparr>block_hash = 0, block_parent_hash = 0, block_number = 0, block_timestamp = 0,
      block_l1_batch_number = None, block_transactions = [], block_gas_used = 0,
      block_gas_limit = 0\<rparr>"

definition fork_at :: "ForkSource \<Rightarrow> ForkDetails" where
  "fork_at src =
     \<lparr>fork_source = src, l1_block = 1, l2_block = empty_block, l2_miniblock = 2,
      l2_miniblock_hash = 3, block_timestamp_at_fork = 4, overwrite_chain_id = None,
      fork_l1_gas_price = 5\<rparr>"

text \<open>The transactions to replay before a given one are a prefix of its block that ends with
  that transaction itself, at its first occurrence.\<close>

theorem earlier_transactions_prefix:
  assumes "get_earlier_transactions_in_same_block hash f replay_tx = Ok ts"
  shows "\<exists>us u rest n. ts = us @ [u] \<and> hash (RawL2 u) = replay_tx \<and>
    replay_tx \<notin> (hash \<circ> RawL2) ` set us \<and>
    src_get_raw_block_transactions (fork_source f) n = Some (map RawL2 ts @ rest)"
proof -
  obtain n txs where "src_get_raw_block_transactions (fork_source f) n = Some txs"
    and "take_until_tx hash replay_tx txs [] = Ok ts"
    using assms by (auto simp: get_earlier_transactions_in_same_block_def
        split: option.splits if_splits)
  then show ?thesis
    using take_until_tx_Ok by fastforce
qed

definition example_tx :: "u32 \<Rightarrow> L2Tx" where
  "example_tx n =
     \<lparr>l2_nonce = n,
      l2_fee = \<lparr>gas_limit = 1000000, max_fee_per_gas = 250000000,
                max_priority_fee_per_gas = 250000000, gas_per_pubdata_limit = 20000\<rparr>,
      l2_initiator_address = 0xA, l2_signature = [], l2_transaction_type = EIP712Transaction,
      l2_input = None, l2_contract_address = 0xB, l2_calldata = [], l2_value = 1,
      l2_factory_deps = None, l2_paymaster = 0, l2_received_timestamp_ms = 0\<rparr>"

fun nonce_hash :: "RawTransaction \<Rightarrow> h256" where
  "nonce_hash (RawL2 t) = ucast (l2_nonce t)"
| "nonce_hash (RawOther h) = h"

definition example_api_tx :: Transaction where
  "example_api_tx =
     \<lparr>tx_hash = 7, tx_nonce = 0, tx_block_hash = None, tx_block_number = Some 2,
      tx_transaction_index = None, tx_from = None, tx_to = None, tx_value = 0, tx_gas_price = None,
      tx_gas = 0, tx_input = [], tx_v = None, tx_r = None, tx_s = None, tx_transaction_type = None,
      tx_max_fee_per_gas = None, tx_max_priority_fee_per_gas = None, tx_chain_id = 260,
      tx_l1_batch_number = None\<rparr>"

definition replay_source :: ForkSource where
  "replay_source = (constant_source 0)
     \<lparr>src_get_transaction_by_hash := (\<lambda>_. Some (Some example_api_tx)),
      src_get_raw_block_transactions := (\<lambda>_. Some (map (RawL2 \<circ> example_tx) [5, 6, 7, 8]))\<rparr>"

theorem earlier_transactions_prefix_witness:
  "\<exists>us u rest n. map example_tx [5, 6, 7] = us @ [u] \<and> nonce_hash (RawL2 u) = 7 \<and>
    7 \<notin> (nonce_hash \<circ> RawL2) ` set us \<and>
    src_get_raw_block_transactions (fork_source (fork_at replay_source)) n =
      Some (map RawL2 (map example_tx [5, 6, 7]) @ rest)"
proof (rule earlier_transactions_prefix)
  show "get_earlier_transactions_in_same_block nonce_hash (fork_at replay_source) 7 =
        Ok (map example_tx [5, 6, 7])"
    by (simp add: get_earlier_transactions_in_same_block_def fork_at_def replay_source_def
        example_api_tx_def example_tx_def)
qed

end
