(* ===== verification/ForkStorage.thy ===== *)
theory ForkStorage
  imports StorageView ForkSource
begin

text \<open>
  The storage of the node (\<^verbatim>\<open>ForkStorage\<close> of \<^verbatim>\<open>src/.test-node-subtree/src/fork.rs\<close>): a local in-memory
  storage behind a lock, which reads what it lacks from the fork and caches the answers. Every
  acquisition of the lock is \<^verbatim>\<open>write().unwrap()\<close>, so a poisoned lock panics, and so does a failed
  remote call, which in turn poisons the lock because the guard is alive.
\<close>

section \<open>State\<close>

record ForkStorageInner =
  raw_storage :: InMemoryStorage
  value_read_cache :: "StorageKey \<Rightarrow> h256 option"
  factory_dep_cache :: "h256 \<Rightarrow> bytes option option"
  fork :: "ForkDetails option"

record ForkStorage =
  fs_inner :: "ForkStorageInner rwlock"
  chain_id :: u64

definition TEST_NODE_NETWORK_ID :: u32 where
  "TEST_NODE_NETWORK_ID = 260"

text \<open>\<^verbatim>\<open>genesis\<close> is the storage that \<^verbatim>\<open>InMemoryStorage::with_system_contracts_and_chain_id\<close> builds for a
  chain id with the chosen system contracts.\<close>

definition ForkStorage_new :: "(u64 \<Rightarrow> InMemoryStorage) \<Rightarrow> ForkDetails option \<Rightarrow> ForkStorage" where
  "ForkStorage_new genesis frk =
     (let cid = (case Option.bind frk overwrite_chain_id of
                   Some c \<Rightarrow> c
                 | None \<Rightarrow> ucast TEST_NODE_NETWORK_ID)
      in \<lparr>fs_inner = \<lparr>lock_value = \<lparr>raw_storage = genesis cid, value_read_cache = (\<lambda>_. None),
                                   factory_dep_cache = (\<lambda>_. None), fork = frk\<rparr>,
                     lock_poisoned = False\<rparr>,
          chain_id = cid\<rparr>)"

section \<open>Operations\<close>

text \<open>\<^verbatim>\<open>self.inner.write().unwrap()\<close> followed by a body: the storage is left poisoned when the body
  panics.\<close>

definition locked :: "(ForkStorageInner, 'a) action \<Rightarrow> (ForkStorage, 'a) action" where
  "locked body s =
     (if lock_poisoned (fs_inner s) then (None, s)
      else case body (lock_value (fs_inner s)) of
        (r, v) \<Rightarrow> (r, s\<lparr>fs_inner := \<lparr>lock_value = v, lock_poisoned = (r = None)\<rparr>\<rparr>))"

definition read_value_body :: "StorageKey \<Rightarrow> (ForkStorageInner, StorageValue) action" where
  "read_value_body key i =
     (case mem_read_value key (raw_storage i) of
        (None, raw) \<Rightarrow> (None, i\<lparr>raw_storage := raw\<rparr>)
      | (Some local_storage, raw) \<Rightarrow>
          (let i = i\<lparr>raw_storage := raw\<rparr> in
           case fork i of
             None \<Rightarrow> (Some local_storage, i)
           | Some f \<Rightarrow>
               if local_storage \<noteq> 0 then (Some local_storage, i)
               else (case value_read_cache i key of
                       Some v \<Rightarrow> (Some v, i)
                     | None \<Rightarrow>
                         (case get_storage_at (fork_source f) (fst key) (snd key)
                                 (Some (BlockNumberId (Number (l2_miniblock f)))) of
                            None \<Rightarrow> (None, i)
                          | Some result \<Rightarrow>
                              (Some result,
                               i\<lparr>value_read_cache := (value_read_cache i)(key \<mapsto> result)\<rparr>)))))"

definition read_value_internal :: "StorageKey \<Rightarrow> (ForkStorage, StorageValue) action" where
  "read_value_internal key = locked (read_value_body key)"

definition load_factory_dep_body :: "h256 \<Rightarrow> (ForkStorageInner, bytes option) action" where
  "load_factory_dep_body hash i =
     (case mem_load_factory_dep hash (raw_storage i) of
        (None, raw) \<Rightarrow> (None, i\<lparr>raw_storage := raw\<rparr>)
      | (Some local_storage, raw) \<Rightarrow>
          (let i = i\<lparr>raw_storage := raw\<rparr> in
           case fork i of
             None \<Rightarrow> (Some local_storage, i)
           | Some f \<Rightarrow>
               if local_storage \<noteq> None then (Some local_storage, i)
               else (case factory_dep_cache i hash of
                       Some v \<Rightarrow> (Some v, i)
                     | None \<Rightarrow>
                         (case src_get_bytecode_by_hash (fork_source f) hash of
                            None \<Rightarrow> (None, i)
                          | Some result \<Rightarrow>
                              (Some result,
                               i\<lparr>factory_dep_cache := (factory_dep_cache i)(hash \<mapsto> result)\<rparr>)))))"

definition load_factory_dep_internal :: "h256 \<Rightarrow> (ForkStorage, bytes option) action" where
  "load_factory_dep_internal hash = locked (load_factory_dep_body hash)"

definition is_write_initial_internal :: "StorageKey \<Rightarrow> (ForkStorage, bool) action" where
  "is_write_initial_internal key s =
     (case read_value_internal key s of
        (None, s') \<Rightarrow> (None, s')
      | (Some v, s') \<Rightarrow>
          if v \<noteq> 0 then (Some False, s')
          else locked (\<lambda>i. case mem_is_write_initial key (raw_storage i) of
                             (r, raw) \<Rightarrow> (r, i\<lparr>raw_storage := raw\<rparr>)) s')"

definition get_enumeration_index_internal :: "StorageKey \<Rightarrow> (ForkStorage, u64 option) action" where
  "get_enumeration_index_internal key s = (Some (Some 0), s)"

definition fork_storage :: "ForkStorage read_storage" where
  "fork_storage =
     \<lparr>read_value = read_value_internal, is_write_initial = is_write_initial_internal,
      load_factory_dep = load_factory_dep_internal,
      get_enumeration_index = get_enumeration_index_internal\<rparr>"

definition fork_set_value :: "StorageKey \<Rightarrow> StorageValue \<Rightarrow> (ForkStorage, unit) action" where
  "fork_set_value key v =
     locked (\<lambda>i. (Some (), i\<lparr>raw_storage := mem_set_value key v (raw_storage i)\<rparr>))"

definition fork_store_factory_dep :: "h256 \<Rightarrow> bytes \<Rightarrow> (ForkStorage, unit) action" where
  "fork_store_factory_dep hash bytecode =
     locked (\<lambda>i. (Some (), i\<lparr>raw_storage := mem_store_factory_dep hash bytecode (raw_storage i)\<rparr>))"

section \<open>Abstraction\<close>

text \<open>What a read of a key yields: the local value when it is not zero, else what the fork answers at
  its block, else zero.\<close>

definition remote_value :: "ForkStorageInner \<Rightarrow> StorageKey \<Rightarrow> h256 option" where
  "remote_value i key =
     (case fork i of
        None \<Rightarrow> Some 0
      | Some f \<Rightarrow> get_storage_at (fork_source f) (fst key) (snd key)
                    (Some (BlockNumberId (Number (l2_miniblock f)))))"

definition local_value :: "ForkStorageInner \<Rightarrow> StorageKey \<Rightarrow> h256" where
  "local_value i key = (case state (raw_storage i) key of Some v \<Rightarrow> v | None \<Rightarrow> 0)"

definition fork_val :: "ForkStorage \<Rightarrow> StorageKey \<Rightarrow> StorageValue option" where
  "fork_val s key =
     (let i = lock_value (fs_inner s) in
      if local_value i key \<noteq> 0 then Some (local_value i key) else remote_value i key)"

definition fork_dep :: "ForkStorage \<Rightarrow> h256 \<Rightarrow> bytes option option" where
  "fork_dep s hash =
     (let i = lock_value (fs_inner s) in
      case factory_deps (raw_storage i) hash of
        Some code \<Rightarrow> Some (Some code)
      | None \<Rightarrow> (case fork i of None \<Rightarrow> Some None
                 | Some f \<Rightarrow> src_get_bytecode_by_hash (fork_source f) hash))"

definition fork_initial :: "ForkStorage \<Rightarrow> StorageKey \<Rightarrow> bool option" where
  "fork_initial s key =
     map_option (\<lambda>v. v = 0 \<and> state (raw_storage (lock_value (fs_inner s))) key = None)
       (fork_val s key)"

text \<open>The storage is healthy when its lock is not poisoned and the caches agree with the fork.\<close>

definition caches_agree :: "ForkStorageInner \<Rightarrow> bool" where
  "caches_agree i \<longleftrightarrow>
     (case fork i of
        None \<Rightarrow> True
      | Some f \<Rightarrow> value_read_cache i \<subseteq>\<^sub>m remote_value i \<and>
                  factory_dep_cache i \<subseteq>\<^sub>m src_get_bytecode_by_hash (fork_source f))"

definition fork_healthy :: "ForkStorage \<Rightarrow> bool" where
  "fork_healthy s \<longleftrightarrow> \<not> lock_poisoned (fs_inner s) \<and> caches_agree (lock_value (fs_inner s))"


section \<open>Laws\<close>

text \<open>The part of the storage that reads never change.\<close>

definition core :: "ForkStorageInner \<Rightarrow> InMemoryStorage \<times> ForkDetails option" where
  "core i = (raw_storage i, fork i)"

lemma core_eqD:
  assumes "core i = core j"
  shows "raw_storage i = raw_storage j" and "fork i = fork j"
    and "remote_value i = remote_value j" and "local_value i = local_value j"
  using assms by (simp_all add: core_def remote_value_def local_value_def fun_eq_iff)

lemma fork_vals_core:
  assumes "core (lock_value (fs_inner s)) = core (lock_value (fs_inner t))"
  shows "fork_val s = fork_val t" and "fork_dep s = fork_dep t" and "fork_initial s = fork_initial t"
proof -
  show v: "fork_val s = fork_val t"
    unfolding fork_val_def Let_def core_eqD [OF assms] ..
  show "fork_dep s = fork_dep t"
    unfolding fork_dep_def Let_def core_eqD [OF assms] ..
  show "fork_initial s = fork_initial t"
    unfolding fork_initial_def v core_eqD [OF assms] ..
qed

lemma read_value_body_result:
  assumes "caches_agree i"
  shows "fst (read_value_body key i) =
         (if local_value i key \<noteq> 0 then Some (local_value i key) else remote_value i key)"
  using assms map_le_SomeD [of "value_read_cache i" "remote_value i" key]
  by (auto simp: read_value_body_def mem_read_value_def caches_agree_def local_value_def
      remote_value_def Let_def split: option.splits)

lemma read_value_body_frame:
  assumes "caches_agree i" and "read_value_body key i = (Some v, i')"
  shows "core i' = core i \<and> caches_agree i'"
proof (cases "fork i")
  case None
  then show ?thesis
    using assms by (auto simp: read_value_body_def mem_read_value_def core_def Let_def)
next
  case (Some f)
  show ?thesis
  proof (cases "local_value i key = 0 \<and> value_read_cache i key = None")
    case True
    then have "i' = i\<lparr>value_read_cache := (value_read_cache i)(key \<mapsto> v)\<rparr>"
      and rv: "remote_value i key = Some v"
      using Some assms(2)
      by (auto simp: read_value_body_def mem_read_value_def local_value_def remote_value_def Let_def
          split: option.splits if_splits)
    moreover from this have "remote_value i' = remote_value i"
      by (intro core_eqD(3)) (simp add: core_def)
    ultimately show ?thesis
      using Some assms(1) True by (simp add: core_def caches_agree_def map_le_upd_iff)
  next
    case False
    then have "i' = i"
      using Some assms(2)
      by (auto simp: read_value_body_def mem_read_value_def local_value_def Let_def
          split: option.splits if_splits)
    then show ?thesis using assms(1) by simp
  qed
qed

lemma load_factory_dep_body_result:
  assumes "caches_agree i"
  shows "fst (load_factory_dep_body h i) =
         (case factory_deps (raw_storage i) h of
            Some code \<Rightarrow> Some (Some code)
          | None \<Rightarrow> (case fork i of None \<Rightarrow> Some None
                     | Some f \<Rightarrow> src_get_bytecode_by_hash (fork_source f) h))"
proof (cases "fork i")
  case None
  then show ?thesis
    by (simp add: load_factory_dep_body_def mem_load_factory_dep_def Let_def split: option.splits)
next
  case (Some f)
  have "src_get_bytecode_by_hash (fork_source f) h = Some d"
    if "factory_dep_cache i h = Some d" for d
    using assms Some that map_le_SomeD by (fastforce simp: caches_agree_def)
  then show ?thesis
    using Some
    by (auto simp: load_factory_dep_body_def mem_load_factory_dep_def Let_def split: option.splits)
qed

lemma load_factory_dep_body_frame:
  assumes "caches_agree i" and "load_factory_dep_body h i = (Some d, i')"
  shows "core i' = core i \<and> caches_agree i'"
proof (cases "fork i")
  case None
  then show ?thesis
    using assms by (auto simp: load_factory_dep_body_def mem_load_factory_dep_def core_def Let_def)
next
  case (Some f)
  show ?thesis
  proof (cases "factory_deps (raw_storage i) h = None \<and> factory_dep_cache i h = None")
    case True
    then have "i' = i\<lparr>factory_dep_cache := (factory_dep_cache i)(h \<mapsto> d)\<rparr>"
      and "src_get_bytecode_by_hash (fork_source f) h = Some d"
      using Some assms(2)
      by (auto simp: load_factory_dep_body_def mem_load_factory_dep_def Let_def
          split: option.splits if_splits)
    moreover from this have "remote_value i' = remote_value i"
      by (intro core_eqD(3)) (simp add: core_def)
    ultimately show ?thesis
      using Some assms(1) True by (simp add: core_def caches_agree_def map_le_upd_iff)
  next
    case False
    then have "i' = i"
      using Some assms(2)
      by (auto simp: load_factory_dep_body_def mem_load_factory_dep_def Let_def
          split: option.splits if_splits)
    then show ?thesis using assms(1) by simp
  qed
qed

lemma locked_healthy:
  assumes "fork_healthy s" and "body (lock_value (fs_inner s)) = (r, v)"
  shows "locked body s = (r, s\<lparr>fs_inner := \<lparr>lock_value = v, lock_poisoned = (r = None)\<rparr>\<rparr>)"
  using assms by (simp add: locked_def fork_healthy_def)

lemma locked_core:
  assumes "fork_healthy s" and "locked body s = (Some a, s')"
    and "\<And>v. body (lock_value (fs_inner s)) = (Some a, v) \<Longrightarrow>
              core v = core (lock_value (fs_inner s)) \<and> caches_agree v"
  shows "fork_healthy s' \<and> fork_val s' = fork_val s \<and> fork_dep s' = fork_dep s \<and>
         fork_initial s' = fork_initial s"
proof -
  obtain v where v: "body (lock_value (fs_inner s)) = (Some a, v)"
    and s': "s' = s\<lparr>fs_inner := \<lparr>lock_value = v, lock_poisoned = False\<rparr>\<rparr>"
    using assms(1,2) by (auto simp: locked_def fork_healthy_def split: prod.splits)
  then show ?thesis
    using assms(3) [OF v] fork_vals_core [of s' s] by (simp add: fork_healthy_def)
qed


lemma read_value_internal_result:
  "fork_healthy s \<Longrightarrow> fst (read_value_internal key s) = fork_val s key"
  using read_value_body_result [of "lock_value (fs_inner s)" key]
  by (auto simp: read_value_internal_def locked_def fork_healthy_def fork_val_def Let_def
      split: prod.splits)

lemma read_value_internal_frame:
  assumes "fork_healthy s" and "read_value_internal key s = (Some v, s')"
  shows "fork_healthy s' \<and> fork_val s' = fork_val s \<and> fork_dep s' = fork_dep s \<and>
         fork_initial s' = fork_initial s"
  using assms(2) unfolding read_value_internal_def
  by (rule locked_core [OF assms(1)])
    (use assms(1) read_value_body_frame in \<open>unfold fork_healthy_def, blast\<close>)

lemma read_value_internal_raw:
  assumes "fork_healthy s" and "read_value_internal key s = (Some v, s')"
  shows "raw_storage (lock_value (fs_inner s')) = raw_storage (lock_value (fs_inner s))"
proof -
  obtain i where i: "read_value_body key (lock_value (fs_inner s)) = (Some v, i)"
    and s': "lock_value (fs_inner s') = i"
    using assms by (auto simp: read_value_internal_def locked_def fork_healthy_def split: prod.splits)
  have "core i = core (lock_value (fs_inner s))"
    using read_value_body_frame [OF _ i] assms(1) by (simp add: fork_healthy_def)
  then show ?thesis
    using s' by (simp add: core_def)
qed

lemma load_factory_dep_internal_result:
  "fork_healthy s \<Longrightarrow> fst (load_factory_dep_internal h s) = fork_dep s h"
  using load_factory_dep_body_result [of "lock_value (fs_inner s)" h]
  by (auto simp: load_factory_dep_internal_def locked_def fork_healthy_def fork_dep_def Let_def
      split: prod.splits)

lemma load_factory_dep_internal_frame:
  assumes "fork_healthy s" and "load_factory_dep_internal h s = (Some d, s')"
  shows "fork_healthy s' \<and> fork_val s' = fork_val s \<and> fork_dep s' = fork_dep s \<and>
         fork_initial s' = fork_initial s"
  using assms(2) unfolding load_factory_dep_internal_def
  by (rule locked_core [OF assms(1)])
    (use assms(1) load_factory_dep_body_frame in \<open>unfold fork_healthy_def, blast\<close>)

lemma initial_body_run:
  assumes "fork_healthy s"
  shows "locked (\<lambda>i. case mem_is_write_initial key (raw_storage i) of
                      (r, raw) \<Rightarrow> (r, i\<lparr>raw_storage := raw\<rparr>)) s =
         (Some (state (raw_storage (lock_value (fs_inner s))) key = None), s)"
  using assms by (simp add: locked_def fork_healthy_def mem_is_write_initial_def)

lemma is_write_initial_internal_result:
  assumes "fork_healthy s"
  shows "fst (is_write_initial_internal key s) = fork_initial s key"
proof -
  obtain r s' where r: "read_value_internal key s = (r, s')"
    by fastforce
  show ?thesis
  proof (cases r)
    case None
    then show ?thesis
      using r read_value_internal_result [OF assms, of key]
      by (simp add: is_write_initial_internal_def fork_initial_def)
  next
    case (Some v)
    then have v: "fork_val s key = Some v"
      using r read_value_internal_result [OF assms, of key] by simp
    have "fork_healthy s'"
      using r Some read_value_internal_frame [OF assms] by blast
    moreover have "raw_storage (lock_value (fs_inner s')) = raw_storage (lock_value (fs_inner s))"
      using r Some read_value_internal_raw [OF assms] by blast
    ultimately show ?thesis
      using r Some v
      by (auto simp: is_write_initial_internal_def fork_initial_def initial_body_run)
  qed
qed

lemma is_write_initial_internal_frame:
  assumes "fork_healthy s" and "is_write_initial_internal key s = (Some b, s')"
  shows "fork_healthy s' \<and> fork_val s' = fork_val s \<and> fork_dep s' = fork_dep s \<and>
         fork_initial s' = fork_initial s"
proof -
  obtain v s1 where s1: "read_value_internal key s = (Some v, s1)"
    using assms(2) by (auto simp: is_write_initial_internal_def split: prod.splits option.splits)
  from read_value_internal_frame [OF assms(1) s1] show ?thesis
    using assms(2) s1
    by (auto simp: is_write_initial_internal_def initial_body_run split: if_splits)
qed

interpretation fork_storage:
  readable_storage fork_storage fork_healthy fork_val fork_dep fork_initial
proof (unfold_locales, simp_all add: fork_storage_def)
  fix s k v s' h d b i
  assume H: "fork_healthy s"
  show "fst (read_value_internal k s) = fork_val s k"
    by (rule read_value_internal_result [OF H])
  show "fst (load_factory_dep_internal h s) = fork_dep s h"
    by (rule load_factory_dep_internal_result [OF H])
  show "fst (is_write_initial_internal k s) = fork_initial s k"
    by (rule is_write_initial_internal_result [OF H])
  show "fork_healthy s' \<and> fork_val s' = fork_val s \<and> fork_dep s' = fork_dep s \<and>
      fork_initial s' = fork_initial s" if "read_value_internal k s = (Some v, s')"
    by (rule read_value_internal_frame [OF H that])
  show "fork_healthy s' \<and> fork_val s' = fork_val s \<and> fork_dep s' = fork_dep s \<and>
      fork_initial s' = fork_initial s" if "load_factory_dep_internal h s = (Some d, s')"
    by (rule load_factory_dep_internal_frame [OF H that])
  show "fork_healthy s' \<and> fork_val s' = fork_val s \<and> fork_dep s' = fork_dep s \<and>
      fork_initial s' = fork_initial s" if "is_write_initial_internal k s = (Some b, s')"
    by (rule is_write_initial_internal_frame [OF H that])
  show "fork_healthy s' \<and> fork_val s' = fork_val s \<and> fork_dep s' = fork_dep s \<and>
      fork_initial s' = fork_initial s" if "get_enumeration_index_internal k s = (Some i, s')"
    using that H by (simp add: get_enumeration_index_internal_def)
qed

interpretation fork_view:
  writable_storage "storage_view fork_storage"
    "view_inv fork_healthy fork_val fork_initial" "view_val fork_val"
    "\<lambda>s. fork_dep (storage_handle s)" "\<lambda>s. fork_initial (storage_handle s)"
  by (rule fork_storage.view_writable)


section \<open>Committing the writes of a view\<close>

text \<open>The loop \<^verbatim>\<open>for (key, value) in keys.iter() { fork_storage.set_value(*key, *value) }\<close> with which the
  node commits a transaction (\<^verbatim>\<open>run_l2_tx\<close>, \<^verbatim>\<open>mine_empty_blocks\<close>, \<^verbatim>\<open>set_rich_account\<close>).\<close>

fun write_all :: "(StorageKey \<times> StorageValue) list \<Rightarrow> (ForkStorage, unit) action" where
  "write_all [] s = (Some (), s)"
| "write_all ((k, v) # kvs) s = act_bind (fork_set_value k v) (\<lambda>_. write_all kvs) s"

definition update_raw :: "(InMemoryStorage \<Rightarrow> InMemoryStorage) \<Rightarrow> ForkStorage \<Rightarrow> ForkStorage" where
  "update_raw f s =
     (let i = lock_value (fs_inner s)
      in s\<lparr>fs_inner := (fs_inner s)\<lparr>lock_value := i\<lparr>raw_storage := f (raw_storage i)\<rparr>\<rparr>\<rparr>)"

lemma rwlock_eq_intro: "lock_value l = v \<Longrightarrow> lock_poisoned l = p \<Longrightarrow> l = \<lparr>lock_value = v, lock_poisoned = p\<rparr>"
  by simp

lemma fork_set_value_run:
  assumes "fork_healthy s"
  shows "fork_set_value k v s = (Some (), update_raw (mem_set_value k v) s)"
  using assms by (simp add: fork_set_value_def locked_def fork_healthy_def update_raw_def Let_def)

lemma fork_store_factory_dep_run:
  assumes "fork_healthy s"
  shows "fork_store_factory_dep h c s = (Some (), update_raw (mem_store_factory_dep h c) s)"
  using assms by (simp add: fork_store_factory_dep_def locked_def fork_healthy_def update_raw_def Let_def)

lemma remote_value_update [simp]: "remote_value (i\<lparr>raw_storage := r\<rparr>) = remote_value i"
  by (simp add: remote_value_def fun_eq_iff)

lemma update_raw_inner [simp]:
  "lock_value (fs_inner (update_raw f s)) =
   (lock_value (fs_inner s))\<lparr>raw_storage := f (raw_storage (lock_value (fs_inner s)))\<rparr>"
  "lock_poisoned (fs_inner (update_raw f s)) = lock_poisoned (fs_inner s)"
  "chain_id (update_raw f s) = chain_id s"
  by (simp_all add: update_raw_def Let_def)

lemma caches_agree_update [simp]: "caches_agree (i\<lparr>raw_storage := r\<rparr>) = caches_agree i"
  by (cases "fork i") (simp_all add: caches_agree_def)

lemma update_raw_healthy [simp]: "fork_healthy (update_raw f s) = fork_healthy s"
  by (simp add: fork_healthy_def)

lemma update_raw_comp: "update_raw f (update_raw g s) = update_raw (f \<circ> g) s"
  by (simp add: update_raw_def Let_def)

lemma update_raw_id: "update_raw (\<lambda>r. r) s = s"
  by (simp add: update_raw_def Let_def)

lemma write_all_run:
  "fork_healthy s \<Longrightarrow>
   write_all kvs s = (Some (), update_raw (fold (\<lambda>(k, v). mem_set_value k v) kvs) s)"
proof (induction kvs arbitrary: s)
  case Nil
  then show ?case by (simp add: update_raw_id)
next
  case (Cons kv kvs)
  obtain k v where kv: "kv = (k, v)" by fastforce
  have "write_all kvs (update_raw (mem_set_value k v) s) =
        (Some (), update_raw (fold (\<lambda>(k, v). mem_set_value k v) kvs) (update_raw (mem_set_value k v) s))"
    using Cons by simp
  then show ?case
    using fork_set_value_run [OF Cons.prems, of k v]
    by (simp add: kv update_raw_comp comp_def)
qed

lemma state_fold_set:
  "state (fold (\<lambda>(k, v). mem_set_value k v) kvs m) = state m ++ map_of (rev kvs)"
  by (induction kvs arbitrary: m) (auto simp: mem_set_value_def)

lemma factory_deps_fold_set [simp]:
  "factory_deps (fold (\<lambda>(k, v). mem_set_value k v) kvs m) = factory_deps m"
  by (induction kvs arbitrary: m) (auto simp: mem_set_value_def)

lemma map_of_rev_distinct: "distinct (map fst kvs) \<Longrightarrow> map_of (rev kvs) = map_of kvs"
  by (rule map_of_eqI [symmetric]; fastforce simp: rev_map [symmetric] distinct_rev map_of_inject_set
      dest: map_of_is_SomeI map_of_SomeD)

lemma fork_val_update_state:
  "fork_val (update_raw f s) k =
     (let i = lock_value (fs_inner s);
          v = (case state (f (raw_storage i)) k of Some v \<Rightarrow> v | None \<Rightarrow> 0)
      in if v \<noteq> 0 then Some v else remote_value i k)"
  by (simp add: fork_val_def local_value_def Let_def)

lemma fork_val_write_all:
  assumes "fork_healthy s" and "distinct (map fst kvs)" and "write_all kvs s = (r, s')"
  shows "r = Some () \<and> fork_healthy s' \<and>
    (\<forall>k. fork_val s' k =
       (case map_of kvs k of
          None \<Rightarrow> fork_val s k
        | Some v \<Rightarrow> if v \<noteq> 0 then Some v else remote_value (lock_value (fs_inner s)) k))"
proof -
  have s': "r = Some ()" "s' = update_raw (fold (\<lambda>(k, v). mem_set_value k v) kvs) s"
    using assms(3) write_all_run [OF assms(1), of kvs] by auto
  have "fork_val s' k =
       (case map_of kvs k of
          None \<Rightarrow> fork_val s k
        | Some v \<Rightarrow> if v \<noteq> 0 then Some v else remote_value (lock_value (fs_inner s)) k)" for k
    unfolding s'(2) fork_val_update_state state_fold_set map_of_rev_distinct [OF assms(2)]
    by (auto simp: fork_val_def local_value_def Let_def map_add_def split: option.splits)
  then show ?thesis
    using s' assms(1) by simp
qed


section \<open>Properties\<close>

definition empty_genesis :: "u64 \<Rightarrow> InMemoryStorage" where
  "empty_genesis _ = \<lparr>state = (\<lambda>_. None), factory_deps = (\<lambda>_. None)\<rparr>"

lemma fork_healthy_new [simp]: "fork_healthy (ForkStorage_new genesis frk)"
  by (simp add: fork_healthy_def ForkStorage_new_def caches_agree_def map_le_def Let_def
      split: option.splits)

lemma example_simps [simp]:
  "fork_source (fork_at src) = src"
  "get_storage_at (constant_source v) a i b = Some v"
  "src_get_bytecode_by_hash (constant_source v) h = Some None"
  "fork_val (ForkStorage_new empty_genesis (Some f)) k =
     get_storage_at (fork_source f) (fst k) (snd k) (Some (BlockNumberId (Number (l2_miniblock f))))"
  "fork_dep (ForkStorage_new empty_genesis (Some f)) h = src_get_bytecode_by_hash (fork_source f) h"
  "remote_value (lock_value (fs_inner (ForkStorage_new empty_genesis (Some f)))) k =
     get_storage_at (fork_source f) (fst k) (snd k) (Some (BlockNumberId (Number (l2_miniblock f))))"
  "state (raw_storage (lock_value (fs_inner (ForkStorage_new empty_genesis frk)))) = (\<lambda>_. None)"
  by (simp_all add: fork_at_def constant_source_def fork_val_def fork_dep_def ForkStorage_new_def
      empty_genesis_def local_value_def remote_value_def Let_def)

text \<open>C9: A fresh view over a healthy fork storage answers any sequence of accesses as the abstract
  storage does: reads see the last write, else the local non-zero value, else the fork's value at
  the fork block, whatever the caches of view and storage hold; if no remote call fails, the
  storage below still means the same and the buffered writes are exactly those made.\<close>

theorem view_over_fork_accesses:
  assumes "fork_healthy s"
    and "run_accesses (storage_view fork_storage) accs (StorageView_new s) = (r, v)"
  shows "r = answers_spec (fork_dep s) (fork_initial s) (fork_val s) accs \<and>
    (r = None \<or> fork_healthy (storage_handle v) \<and> fork_val (storage_handle v) = fork_val s \<and>
       map_of (modified_keys v) = fold write_effect accs Map.empty)"
proof -
  have I: "view_inv fork_healthy fork_val fork_initial (StorageView_new s)"
    using assms(1) by (rule view_inv_new)
  have new: "storage_handle (StorageView_new s) = s" "modified_keys (StorageView_new s) = []"
    by (simp_all add: StorageView_new_def)
  have "r = answers_spec (fork_dep s) (fork_initial s) (fork_val s) accs"
    using fork_view.run_accesses_result [OF I, of accs] assms(2) by (simp add: new)
  moreover have "fork_healthy (storage_handle v) \<and> fork_val (storage_handle v) = fork_val s \<and>
      map_of (modified_keys v) = fold write_effect accs Map.empty" if "r = Some rs" for rs
    using fork_view.run_accesses_frame [OF I, of accs rs v]
      fork_storage.view_accesses_handle [OF I, of accs rs v] assms(2) that
    by (simp add: new view_inv_def)
  ultimately show ?thesis by blast
qed

theorem view_over_fork_accesses_witness:
  "fst (run_accesses (storage_view fork_storage)
     [Read (1, 2), Write (1, 2) 5, Read (1, 2), Write (1, 3) 0, Read (1, 3), Initial (1, 2)]
     (StorageView_new (ForkStorage_new empty_genesis (Some (fork_at (constant_source 9))))))
   = Some [Value 9, Value 9, Value 5, Value 9, Value 0, Flag False]"
  using view_over_fork_accesses
    [of "ForkStorage_new empty_genesis (Some (fork_at (constant_source 9)))"
        "[Read (1, 2), Write (1, 2) 5, Read (1, 2), Write (1, 3) 0, Read (1, 3), Initial (1, 2)]"
        "fst (run_accesses (storage_view fork_storage)
     [Read (1, 2), Write (1, 2) 5, Read (1, 2), Write (1, 3) 0, Read (1, 3), Initial (1, 2)]
     (StorageView_new (ForkStorage_new empty_genesis (Some (fork_at (constant_source 9))))))"
        "snd (run_accesses (storage_view fork_storage)
     [Read (1, 2), Write (1, 2) 5, Read (1, 2), Write (1, 3) 0, Read (1, 3), Initial (1, 2)]
     (StorageView_new (ForkStorage_new empty_genesis (Some (fork_at (constant_source 9))))))"]
  by (simp add: fork_initial_def)

text \<open>Committing buffered writes to a healthy storage never panics; afterwards every key reads as
  written, except that a write of zero makes the key read as the fork's value, and all other keys
  are unchanged.\<close>

theorem commit_then_read:
  assumes "fork_healthy s" and "distinct (map fst kvs)" and "write_all kvs s = (r, s')"
  shows "r = Some () \<and> fork_healthy s' \<and>
    fork_val s' = (\<lambda>k. case map_of kvs k of
          None \<Rightarrow> fork_val s k
        | Some v \<Rightarrow> if v \<noteq> 0 then Some v else remote_value (lock_value (fs_inner s)) k)"
  using fork_val_write_all [OF assms] by auto

theorem commit_then_read_witness:
  "fork_val (snd (write_all [((1, 2), 5), ((1, 3), 0)]
     (ForkStorage_new empty_genesis (Some (fork_at (constant_source 9)))))) (1, 2) = Some 5"
  using commit_then_read
    [of "ForkStorage_new empty_genesis (Some (fork_at (constant_source 9)))"
        "[((1, 2), 5), ((1, 3), 0)]" _
        "snd (write_all [((1, 2), 5), ((1, 3), 0)]
           (ForkStorage_new empty_genesis (Some (fork_at (constant_source 9)))))", OF _ _ prod.collapse [symmetric]]
  by simp

text \<open>Clearing a slot on a fork is lost: a local write of zero to a slot that is non-zero at the
  fork block leaves the slot reading as the fork's value.\<close>

theorem zero_write_reads_fork:
  assumes "fork_healthy s" and "remote_value (lock_value (fs_inner s)) k = Some w" and "w \<noteq> 0"
  shows "fst (act_bind (fork_set_value k 0) (\<lambda>_. read_value_internal k) s) = Some w"
  using assms by (simp add: fork_set_value_run read_value_internal_result fork_val_update_state
      mem_set_value_def)

theorem zero_write_reads_fork_witness:
  "fst (act_bind (fork_set_value (1, 2) 0) (\<lambda>_. read_value_internal (1, 2))
     (ForkStorage_new empty_genesis (Some (fork_at (constant_source 9))))) = Some 9"
  using zero_write_reads_fork
    [of "ForkStorage_new empty_genesis (Some (fork_at (constant_source 9)))" "(1, 2)" 9]
  by simp

text \<open>A remote failure during a read panics and poisons the storage for good: from then on every
  read, initial-write test, bytecode lookup and write panics.\<close>

theorem remote_failure_poisons:
  assumes "fork_healthy s" and "fork_val s key = None" and "read_value_internal key s = (r, s')"
  shows "r = None \<and>
    read_value_internal k s' = (None, s') \<and> is_write_initial_internal k s' = (None, s') \<and>
    load_factory_dep_internal h s' = (None, s') \<and> fork_set_value k v s' = (None, s') \<and>
    fork_store_factory_dep h c s' = (None, s')"
proof -
  have "r = None"
    using read_value_internal_result [OF assms(1), of key] assms(2,3) by simp
  moreover from this have "lock_poisoned (fs_inner s')"
    using assms(1,3) by (auto simp: read_value_internal_def locked_def fork_healthy_def
        split: prod.splits)
  ultimately show ?thesis
    by (simp add: read_value_internal_def is_write_initial_internal_def locked_def
        load_factory_dep_internal_def fork_set_value_def fork_store_factory_dep_def)
qed

definition failing_fork :: ForkStorage where
  "failing_fork = ForkStorage_new empty_genesis
     (Some (fork_at ((constant_source 0)\<lparr>get_storage_at := (\<lambda>_ _ _. None)\<rparr>)))"

theorem remote_failure_poisons_witness:
  "fst (fork_set_value (7, 7) 1 (snd (read_value_internal (1, 2) failing_fork))) = None"
  using remote_failure_poisons
    [of failing_fork "(1, 2)" "fst (read_value_internal (1, 2) failing_fork)"
        "snd (read_value_internal (1, 2) failing_fork)" "(7, 7)" 0 1 "[]"]
  by (simp add: failing_fork_def)

end
