(* ===== verification/Cache.thy ===== *)
theory Cache
  imports ForkStorage
begin

text \<open>
  The cache of remote data of \<^verbatim>\<open>src/.test-node-subtree/src/cache.rs\<close>: blocks by hash (full and
  minimal), block hashes by number, raw block transactions, transactions, bridge addresses and
  confirmed tokens; optionally persisted in one directory per kind and read back at start.
\<close>

section \<open>Disk\<close>

text \<open>The directories of a cache are named by the base directory and the kind; a directory maps file
  names to contents. Contents are of an arbitrary type: \<^verbatim>\<open>serde_json\<close> and the printing and parsing of
  hashes are the parameter \<^verbatim>\<open>codec\<close>. A disk that is not writable refuses every creation and
  removal.\<close>

record 'c disk =
  dirs :: "string \<times> string \<Rightarrow> (string \<times> 'c) list option"
  writable :: bool

record 'c codec =
  ser_block :: "Block \<Rightarrow> 'c"
  de_block :: "'c \<Rightarrow> Block option"
  ser_raw_transactions :: "RawTransaction list \<Rightarrow> 'c"
  de_raw_transactions :: "'c \<Rightarrow> RawTransaction list option"
  ser_transaction :: "Transaction \<Rightarrow> 'c"
  de_transaction :: "'c \<Rightarrow> Transaction option"
  ser_bridge :: "BridgeAddresses \<Rightarrow> 'c"
  de_bridge :: "'c \<Rightarrow> BridgeAddresses option"
  print_hash :: "h256 \<Rightarrow> string"
  parse_hash :: "string \<Rightarrow> h256 option"
  print_number :: "u64 \<Rightarrow> string"
  parse_number :: "string \<Rightarrow> u64 option"

text \<open>What the sources rely on: what was written can be read back.\<close>

definition codec_ok :: "'c codec \<Rightarrow> bool" where
  "codec_ok c \<longleftrightarrow>
     (\<forall>b. de_block c (ser_block c b) = Some b) \<and>
     (\<forall>t. de_raw_transactions c (ser_raw_transactions c t) = Some t) \<and>
     (\<forall>t. de_transaction c (ser_transaction c t) = Some t) \<and>
     (\<forall>b. de_bridge c (ser_bridge c b) = Some b) \<and>
     (\<forall>h. parse_hash c (print_hash c h) = Some h) \<and>
     (\<forall>n. parse_number c (print_number c n) = Some n)"

definition CACHE_TYPE_BLOCKS_FULL :: string where "CACHE_TYPE_BLOCKS_FULL = ''blocks_full''"
definition CACHE_TYPE_BLOCKS_MIN :: string where "CACHE_TYPE_BLOCKS_MIN = ''blocks_min''"
definition CACHE_TYPE_BLOCK_RAW_TRANSACTIONS :: string where
  "CACHE_TYPE_BLOCK_RAW_TRANSACTIONS = ''block_raw_transactions''"
definition CACHE_TYPE_TRANSACTIONS :: string where "CACHE_TYPE_TRANSACTIONS = ''transactions''"
definition CACHE_TYPE_KEY_VALUE :: string where "CACHE_TYPE_KEY_VALUE = ''key_value''"
definition CACHE_KEY_BRIDGE_ADDRESSES :: string where
  "CACHE_KEY_BRIDGE_ADDRESSES = ''bridge_addresses''"

definition cache_types :: "string list" where
  "cache_types =
     [CACHE_TYPE_BLOCKS_FULL, CACHE_TYPE_BLOCKS_MIN, CACHE_TYPE_BLOCK_RAW_TRANSACTIONS,
      CACHE_TYPE_TRANSACTIONS, CACHE_TYPE_KEY_VALUE]"

lemmas cache_type_defs =
  CACHE_TYPE_BLOCKS_FULL_def CACHE_TYPE_BLOCKS_MIN_def CACHE_TYPE_BLOCK_RAW_TRANSACTIONS_def
  CACHE_TYPE_TRANSACTIONS_def CACHE_TYPE_KEY_VALUE_def CACHE_KEY_BRIDGE_ADDRESSES_def

section \<open>State\<close>

datatype CacheConfig = NoCache | Memory | Disk string bool

record Cache =
  config :: CacheConfig
  block_hashes :: "u64 \<Rightarrow> h256 option"
  blocks_full :: "h256 \<Rightarrow> Block option"
  blocks_min :: "h256 \<Rightarrow> Block option"
  block_raw_transactions :: "u64 \<Rightarrow> RawTransaction list option"
  transactions :: "h256 \<Rightarrow> Transaction option"
  bridge_addresses :: "BridgeAddresses option"
  confirmed_tokens :: "u32 \<times> u8 \<Rightarrow> Token list option"

definition empty_cache :: "CacheConfig \<Rightarrow> Cache" where
  "empty_cache cfg =
     \<lparr>config = cfg, block_hashes = (\<lambda>_. None), blocks_full = (\<lambda>_. None), blocks_min = (\<lambda>_. None),
      block_raw_transactions = (\<lambda>_. None), transactions = (\<lambda>_. None), bridge_addresses = None,
      confirmed_tokens = (\<lambda>_. None)\<rparr>"

section \<open>Reading the cache from disk\<close>

text \<open>Each loaded file inserts one entry; an unreadable name or content is an error that stops the
  load, keeping what was loaded before.\<close>

definition insert_full :: "h256 \<Rightarrow> Block \<Rightarrow> Cache \<Rightarrow> Cache" where
  "insert_full h b c =
     c\<lparr>block_hashes := (block_hashes c)(block_number b \<mapsto> block_hash b),
       blocks_full := (blocks_full c)(h \<mapsto> b)\<rparr>"

definition insert_min :: "h256 \<Rightarrow> Block \<Rightarrow> Cache \<Rightarrow> Cache" where
  "insert_min h b c =
     c\<lparr>block_hashes := (block_hashes c)(block_number b \<mapsto> block_hash b),
       blocks_min := (blocks_min c)(h \<mapsto> b)\<rparr>"

definition load_file :: "'c codec \<Rightarrow> string \<Rightarrow> string \<times> 'c \<Rightarrow> Cache \<Rightarrow> (string, Cache) rust" where
  "load_file cd cache_type kf c =
     (if cache_type = CACHE_TYPE_BLOCKS_FULL then
        (case parse_hash cd (fst kf) of
           None \<Rightarrow> Err ''invalid key for cache file''
         | Some key \<Rightarrow>
             (case de_block cd (snd kf) of
                None \<Rightarrow> Err ''failed parsing json for cache file''
              | Some b \<Rightarrow> Ok (insert_full key b c)))
      else if cache_type = CACHE_TYPE_BLOCKS_MIN then
        (case parse_hash cd (fst kf) of
           None \<Rightarrow> Err ''invalid key for cache file''
         | Some key \<Rightarrow>
             (case de_block cd (snd kf) of
                None \<Rightarrow> Err ''failed parsing json for cache file''
              | Some b \<Rightarrow> Ok (insert_min key b c)))
      else if cache_type = CACHE_TYPE_BLOCK_RAW_TRANSACTIONS then
        (case parse_number cd (fst kf) of
           None \<Rightarrow> Err ''invalid key for cache file''
         | Some key \<Rightarrow>
             (case de_raw_transactions cd (snd kf) of
                None \<Rightarrow> Err ''failed parsing json for cache file''
              | Some ts \<Rightarrow>
                  Ok (c\<lparr>block_raw_transactions := (block_raw_transactions c)(key \<mapsto> ts)\<rparr>)))
      else if cache_type = CACHE_TYPE_TRANSACTIONS then
        (case parse_hash cd (fst kf) of
           None \<Rightarrow> Err ''invalid key for cache file''
         | Some key \<Rightarrow>
             (case de_transaction cd (snd kf) of
                None \<Rightarrow> Err ''failed parsing json for cache file''
              | Some t \<Rightarrow> Ok (c\<lparr>transactions := (transactions c)(key \<mapsto> t)\<rparr>)))
      else if cache_type = CACHE_TYPE_KEY_VALUE then
        (if fst kf = CACHE_KEY_BRIDGE_ADDRESSES then
           (case de_bridge cd (snd kf) of
              None \<Rightarrow> Err ''failed parsing json for cache file''
            | Some b \<Rightarrow> Ok (c\<lparr>bridge_addresses := Some b\<rparr>))
         else Err ''invalid cache_type_value key'')
      else Err ''invalid cache_type'')"

fun load_files ::
  "'c codec \<Rightarrow> string \<Rightarrow> (string \<times> 'c) list \<Rightarrow> Cache \<Rightarrow> (string, unit) rust \<times> Cache" where
  "load_files cd cache_type [] c = (Ok (), c)"
| "load_files cd cache_type (kf # kfs) c =
     (case load_file cd cache_type kf c of
        Ok c' \<Rightarrow> load_files cd cache_type kfs c'
      | Err e \<Rightarrow> (Err e, c)
      | Panic \<Rightarrow> (Panic, c))"

fun load_dirs ::
  "'c codec \<Rightarrow> string \<Rightarrow> 'c disk \<Rightarrow> string list \<Rightarrow> Cache \<Rightarrow> (string, unit) rust \<times> Cache" where
  "load_dirs cd dir d [] c = (Ok (), c)"
| "load_dirs cd dir d (t # ts) c =
     (case dirs d (dir, t) of
        None \<Rightarrow> (Err ''failed reading dir'', c)
      | Some files \<Rightarrow>
          (case load_files cd t files c of
             (Ok _, c') \<Rightarrow> load_dirs cd dir d ts c'
           | (r, c') \<Rightarrow> (r, c')))"

definition read_all_from_disk ::
  "'c codec \<Rightarrow> string \<Rightarrow> 'c disk \<Rightarrow> Cache \<Rightarrow> (string, unit) rust \<times> Cache" where
  "read_all_from_disk cd dir d c = load_dirs cd dir d cache_types c"

section \<open>Operations\<close>

definition remove_dir_all :: "string \<times> string \<Rightarrow> 'c disk \<Rightarrow> 'c disk" where
  "remove_dir_all p d = (if writable d then d\<lparr>dirs := (dirs d)(p := None)\<rparr> else d)"

definition create_dir_all :: "string \<times> string \<Rightarrow> 'c disk \<Rightarrow> 'c disk option" where
  "create_dir_all p d =
     (if dirs d p \<noteq> None then Some d
      else if writable d then Some (d\<lparr>dirs := (dirs d)(p := Some [])\<rparr>) else None)"

fun create_dirs :: "string \<Rightarrow> string list \<Rightarrow> 'c disk \<Rightarrow> 'c disk option" where
  "create_dirs dir [] d = Some d"
| "create_dirs dir (t # ts) d = Option.bind (create_dir_all (dir, t) d) (create_dirs dir ts)"

text \<open>\<^verbatim>\<open>Cache::new\<close>: with \<^verbatim>\<open>reset\<close> the directories are removed first (a failure is only logged); failing
  to create one panics; an error while loading is only logged.\<close>

definition Cache_new :: "'c codec \<Rightarrow> CacheConfig \<Rightarrow> 'c disk \<Rightarrow> Cache option \<times> 'c disk" where
  "Cache_new cd cfg d =
     (case cfg of
        Disk dir reset \<Rightarrow>
          (let d1 = (if reset then fold (\<lambda>t. remove_dir_all (dir, t)) cache_types d else d)
           in case create_dirs dir cache_types d1 of
                None \<Rightarrow> (None, d1)
              | Some d2 \<Rightarrow> (Some (snd (read_all_from_disk cd dir d2 (empty_cache cfg))), d2))
      | _ \<Rightarrow> (Some (empty_cache cfg), d))"

definition write_to_disk :: "Cache \<Rightarrow> string \<Rightarrow> string \<Rightarrow> 'c \<Rightarrow> 'c disk \<Rightarrow> 'c disk" where
  "write_to_disk c cache_type key data d =
     (case config c of
        Disk dir _ \<Rightarrow>
          (case dirs d (dir, cache_type) of
             None \<Rightarrow> d
           | Some files \<Rightarrow>
               if writable d
               then d\<lparr>dirs := (dirs d)((dir, cache_type) := Some (AList.update key data files))\<rparr>
               else d)
      | _ \<Rightarrow> d)"

definition get_block :: "Cache \<Rightarrow> h256 \<Rightarrow> bool \<Rightarrow> Block option" where
  "get_block c hash full_transactions =
     (if config c = NoCache then None
      else if full_transactions then blocks_full c hash else blocks_min c hash)"

definition insert_block ::
  "'c codec \<Rightarrow> h256 \<Rightarrow> bool \<Rightarrow> Block \<Rightarrow> Cache \<times> 'c disk \<Rightarrow> Cache \<times> 'c disk" where
  "insert_block cd hash full_transactions b s =
     (case s of (c, d) \<Rightarrow>
       if config c = NoCache then (c, d)
       else if full_transactions
       then (insert_full hash b c,
             write_to_disk c CACHE_TYPE_BLOCKS_FULL (print_hash cd hash) (ser_block cd b) d)
       else (insert_min hash b c,
             write_to_disk c CACHE_TYPE_BLOCKS_MIN (print_hash cd hash) (ser_block cd b) d))"

definition get_block_hash :: "Cache \<Rightarrow> u64 \<Rightarrow> h256 option" where
  "get_block_hash c number = (if config c = NoCache then None else block_hashes c number)"

definition get_block_raw_transactions :: "Cache \<Rightarrow> u64 \<Rightarrow> RawTransaction list option" where
  "get_block_raw_transactions c number =
     (if config c = NoCache then None else block_raw_transactions c number)"

definition get_confirmed_tokens :: "Cache \<Rightarrow> u32 \<Rightarrow> u8 \<Rightarrow> Token list option" where
  "get_confirmed_tokens c from_idx limit =
     (if config c = NoCache then None else confirmed_tokens c (from_idx, limit))"

definition set_confirmed_tokens ::
  "u32 \<Rightarrow> u8 \<Rightarrow> Token list \<Rightarrow> Cache \<times> 'c disk \<Rightarrow> Cache \<times> 'c disk" where
  "set_confirmed_tokens from_idx limit tokens s =
     (case s of (c, d) \<Rightarrow>
       if config c = NoCache then (c, d)
       else (c\<lparr>confirmed_tokens := (confirmed_tokens c)((from_idx, limit) \<mapsto> tokens)\<rparr>, d))"

definition insert_block_raw_transactions ::
  "'c codec \<Rightarrow> u64 \<Rightarrow> RawTransaction list \<Rightarrow> Cache \<times> 'c disk \<Rightarrow> Cache \<times> 'c disk" where
  "insert_block_raw_transactions cd number ts s =
     (case s of (c, d) \<Rightarrow>
       if config c = NoCache then (c, d)
       else (c\<lparr>block_raw_transactions := (block_raw_transactions c)(number \<mapsto> ts)\<rparr>,
             write_to_disk c CACHE_TYPE_BLOCK_RAW_TRANSACTIONS (print_number cd number)
               (ser_raw_transactions cd ts) d))"

definition get_transaction :: "Cache \<Rightarrow> h256 \<Rightarrow> Transaction option" where
  "get_transaction c hash = (if config c = NoCache then None else transactions c hash)"

definition insert_transaction ::
  "'c codec \<Rightarrow> h256 \<Rightarrow> Transaction \<Rightarrow> Cache \<times> 'c disk \<Rightarrow> Cache \<times> 'c disk" where
  "insert_transaction cd hash t s =
     (case s of (c, d) \<Rightarrow>
       if config c = NoCache then (c, d)
       else (c\<lparr>transactions := (transactions c)(hash \<mapsto> t)\<rparr>,
             write_to_disk c CACHE_TYPE_TRANSACTIONS (print_hash cd hash) (ser_transaction cd t) d))"

definition get_bridge_addresses :: "Cache \<Rightarrow> BridgeAddresses option" where
  "get_bridge_addresses c = (if config c = NoCache then None else bridge_addresses c)"

definition set_bridge_addresses ::
  "'c codec \<Rightarrow> BridgeAddresses \<Rightarrow> Cache \<times> 'c disk \<Rightarrow> Cache \<times> 'c disk" where
  "set_bridge_addresses cd b s =
     (case s of (c, d) \<Rightarrow>
       if config c = NoCache then (c, d)
       else (c\<lparr>bridge_addresses := Some b\<rparr>,
             write_to_disk c CACHE_TYPE_KEY_VALUE CACHE_KEY_BRIDGE_ADDRESSES (ser_bridge cd b) d))"


section \<open>The disk mirrors the cache\<close>

text \<open>A directory holds an encoded association list of a map.\<close>

definition encodes ::
  "('k \<Rightarrow> string) \<Rightarrow> ('v \<Rightarrow> 'c) \<Rightarrow> ('k \<Rightarrow> 'v option) \<Rightarrow> (string \<times> 'c) list option \<Rightarrow> bool" where
  "encodes pk sv m files \<longleftrightarrow>
     (\<exists>kvs. distinct (map fst kvs) \<and> m = map_of kvs \<and>
            files = Some (map (\<lambda>(k, v). (pk k, sv v)) kvs))"

definition mirrors :: "'c codec \<Rightarrow> string \<Rightarrow> Cache \<Rightarrow> 'c disk \<Rightarrow> bool" where
  "mirrors cd dir c d \<longleftrightarrow>
     encodes (print_hash cd) (ser_block cd) (blocks_full c) (dirs d (dir, CACHE_TYPE_BLOCKS_FULL)) \<and>
     encodes (print_hash cd) (ser_block cd) (blocks_min c) (dirs d (dir, CACHE_TYPE_BLOCKS_MIN)) \<and>
     encodes (print_number cd) (ser_raw_transactions cd) (block_raw_transactions c)
       (dirs d (dir, CACHE_TYPE_BLOCK_RAW_TRANSACTIONS)) \<and>
     encodes (print_hash cd) (ser_transaction cd) (transactions c)
       (dirs d (dir, CACHE_TYPE_TRANSACTIONS)) \<and>
     dirs d (dir, CACHE_TYPE_KEY_VALUE) =
       Some (case bridge_addresses c of
               None \<Rightarrow> []
             | Some b \<Rightarrow> [(CACHE_KEY_BRIDGE_ADDRESSES, ser_bridge cd b)])"

lemma update_encoded:
  assumes "inj pk"
  shows "AList.update (pk k) (sv v) (map (\<lambda>(k, v). (pk k, sv v)) kvs) =
         map (\<lambda>(k, v). (pk k, sv v)) (AList.update k v kvs)"
  using assms by (induction kvs) (auto simp: inj_eq)

lemma encodes_update:
  assumes "inj pk" and "encodes pk sv m (Some files)"
  shows "encodes pk sv (m(k \<mapsto> v)) (Some (AList.update (pk k) (sv v) files))"
proof -
  obtain kvs where "distinct (map fst kvs)" "m = map_of kvs"
      "files = map (\<lambda>(k, v). (pk k, sv v)) kvs"
    using assms(2) by (auto simp: encodes_def)
  then show ?thesis
    unfolding encodes_def
    by (intro exI [of _ "AList.update k v kvs"])
      (simp add: update_encoded [OF assms(1)] distinct_update)
qed

lemma encodes_Some: "encodes pk sv m f \<Longrightarrow> \<exists>files. f = Some files"
  by (auto simp: encodes_def)

lemma codec_inj:
  assumes "codec_ok cd"
  shows "inj (print_hash cd)" and "inj (print_number cd)"
  using assms unfolding codec_ok_def inj_def by (metis option.inject)+

datatype cache_op =
  InsertBlock h256 bool Block
| InsertRaw u64 "RawTransaction list"
| InsertTransaction h256 Transaction
| SetBridge BridgeAddresses
| SetTokens u32 u8 "Token list"

fun apply_cache_op :: "'c codec \<Rightarrow> cache_op \<Rightarrow> Cache \<times> 'c disk \<Rightarrow> Cache \<times> 'c disk" where
  "apply_cache_op cd (InsertBlock h f b) s = insert_block cd h f b s"
| "apply_cache_op cd (InsertRaw n ts) s = insert_block_raw_transactions cd n ts s"
| "apply_cache_op cd (InsertTransaction h t) s = insert_transaction cd h t s"
| "apply_cache_op cd (SetBridge b) s = set_bridge_addresses cd b s"
| "apply_cache_op cd (SetTokens f l ts) s = set_confirmed_tokens f l ts s"

lemmas cache_op_defs =
  insert_block_def insert_block_raw_transactions_def insert_transaction_def
  set_bridge_addresses_def set_confirmed_tokens_def insert_full_def insert_min_def write_to_disk_def

lemma cache_types_distinct [simp]:
  "CACHE_TYPE_BLOCKS_FULL \<noteq> CACHE_TYPE_BLOCKS_MIN"
  "CACHE_TYPE_BLOCKS_FULL \<noteq> CACHE_TYPE_BLOCK_RAW_TRANSACTIONS"
  "CACHE_TYPE_BLOCKS_FULL \<noteq> CACHE_TYPE_TRANSACTIONS"
  "CACHE_TYPE_BLOCKS_FULL \<noteq> CACHE_TYPE_KEY_VALUE"
  "CACHE_TYPE_BLOCKS_MIN \<noteq> CACHE_TYPE_BLOCK_RAW_TRANSACTIONS"
  "CACHE_TYPE_BLOCKS_MIN \<noteq> CACHE_TYPE_TRANSACTIONS"
  "CACHE_TYPE_BLOCKS_MIN \<noteq> CACHE_TYPE_KEY_VALUE"
  "CACHE_TYPE_BLOCK_RAW_TRANSACTIONS \<noteq> CACHE_TYPE_TRANSACTIONS"
  "CACHE_TYPE_BLOCK_RAW_TRANSACTIONS \<noteq> CACHE_TYPE_KEY_VALUE"
  "CACHE_TYPE_TRANSACTIONS \<noteq> CACHE_TYPE_KEY_VALUE"
  by (simp_all add: cache_type_defs)

lemmas cache_types_distinct' [simp] = cache_types_distinct [symmetric]

lemma mirrors_apply:
  assumes "codec_ok cd" and "mirrors cd dir c d" and "writable d" and "config c = Disk dir r"
    and "apply_cache_op cd op (c, d) = (c', d')"
  shows "mirrors cd dir c' d' \<and> writable d' \<and> config c' = Disk dir r"
proof -
  obtain f1 f2 f3 f4 where f: "dirs d (dir, CACHE_TYPE_BLOCKS_FULL) = Some f1"
    "dirs d (dir, CACHE_TYPE_BLOCKS_MIN) = Some f2"
    "dirs d (dir, CACHE_TYPE_BLOCK_RAW_TRANSACTIONS) = Some f3"
    "dirs d (dir, CACHE_TYPE_TRANSACTIONS) = Some f4"
    using assms(2) encodes_Some unfolding mirrors_def by metis
  note enc = assms(2) [unfolded mirrors_def f]
  note upd = encodes_update [OF codec_inj(1) [OF assms(1)]]
    encodes_update [OF codec_inj(2) [OF assms(1)]]
  show ?thesis
    using assms(3-5) f enc
    by (cases op; cases "bridge_addresses c")
      (auto simp: cache_op_defs mirrors_def split: if_splits intro!: upd)
qed

lemma mirrors_run:
  assumes "codec_ok cd" and "mirrors cd dir c d" and "writable d" and "config c = Disk dir r"
    and "fold (apply_cache_op cd) ops (c, d) = (c', d')"
  shows "mirrors cd dir c' d' \<and> writable d' \<and> config c' = Disk dir r"
  using assms(2-5)
proof (induction ops arbitrary: c d)
  case (Cons op ops)
  obtain c1 d1 where s1: "apply_cache_op cd op (c, d) = (c1, d1)" by fastforce
  then show ?case
    using Cons mirrors_apply [OF assms(1) Cons.prems(1-3) s1] by auto
qed simp


lemma load_files_full:
  assumes "codec_ok cd"
  shows "load_files cd CACHE_TYPE_BLOCKS_FULL
           (map (\<lambda>(k, v). (print_hash cd k, ser_block cd v)) kvs) c =
         (Ok (), fold (\<lambda>(k, v). insert_full k v) kvs c)"
  using assms
  by (induction kvs arbitrary: c) (auto simp: load_file_def codec_ok_def split: prod.splits)

lemma load_files_min:
  assumes "codec_ok cd"
  shows "load_files cd CACHE_TYPE_BLOCKS_MIN
           (map (\<lambda>(k, v). (print_hash cd k, ser_block cd v)) kvs) c =
         (Ok (), fold (\<lambda>(k, v). insert_min k v) kvs c)"
  using assms
  by (induction kvs arbitrary: c) (auto simp: load_file_def codec_ok_def split: prod.splits)

lemma load_files_raw:
  assumes "codec_ok cd"
  shows "load_files cd CACHE_TYPE_BLOCK_RAW_TRANSACTIONS
           (map (\<lambda>(k, v). (print_number cd k, ser_raw_transactions cd v)) kvs) c =
         (Ok (), c\<lparr>block_raw_transactions := block_raw_transactions c ++ map_of (rev kvs)\<rparr>)"
  using assms
  by (induction kvs arbitrary: c) (auto simp: load_file_def codec_ok_def split: prod.splits)

lemma load_files_transactions:
  assumes "codec_ok cd"
  shows "load_files cd CACHE_TYPE_TRANSACTIONS
           (map (\<lambda>(k, v). (print_hash cd k, ser_transaction cd v)) kvs) c =
         (Ok (), c\<lparr>transactions := transactions c ++ map_of (rev kvs)\<rparr>)"
  using assms
  by (induction kvs arbitrary: c) (auto simp: load_file_def codec_ok_def split: prod.splits)

lemma load_files_key_value:
  assumes "codec_ok cd"
  shows "load_files cd CACHE_TYPE_KEY_VALUE
           (case b of None \<Rightarrow> [] | Some b \<Rightarrow> [(CACHE_KEY_BRIDGE_ADDRESSES, ser_bridge cd b)]) c =
         (Ok (), case b of None \<Rightarrow> c | Some b \<Rightarrow> c\<lparr>bridge_addresses := Some b\<rparr>)"
  using assms by (auto simp: load_file_def codec_ok_def split: option.splits)

lemma fold_insert_full:
  "blocks_full (fold (\<lambda>(k, v). insert_full k v) kvs c) = blocks_full c ++ map_of (rev kvs)"
  "blocks_min (fold (\<lambda>(k, v). insert_full k v) kvs c) = blocks_min c"
  "block_raw_transactions (fold (\<lambda>(k, v). insert_full k v) kvs c) = block_raw_transactions c"
  "transactions (fold (\<lambda>(k, v). insert_full k v) kvs c) = transactions c"
  "bridge_addresses (fold (\<lambda>(k, v). insert_full k v) kvs c) = bridge_addresses c"
  "confirmed_tokens (fold (\<lambda>(k, v). insert_full k v) kvs c) = confirmed_tokens c"
  "config (fold (\<lambda>(k, v). insert_full k v) kvs c) = config c"
  by (induction kvs arbitrary: c) (auto simp: insert_full_def)

lemma fold_insert_min:
  "blocks_min (fold (\<lambda>(k, v). insert_min k v) kvs c) = blocks_min c ++ map_of (rev kvs)"
  "blocks_full (fold (\<lambda>(k, v). insert_min k v) kvs c) = blocks_full c"
  "block_raw_transactions (fold (\<lambda>(k, v). insert_min k v) kvs c) = block_raw_transactions c"
  "transactions (fold (\<lambda>(k, v). insert_min k v) kvs c) = transactions c"
  "bridge_addresses (fold (\<lambda>(k, v). insert_min k v) kvs c) = bridge_addresses c"
  "confirmed_tokens (fold (\<lambda>(k, v). insert_min k v) kvs c) = confirmed_tokens c"
  "config (fold (\<lambda>(k, v). insert_min k v) kvs c) = config c"
  by (induction kvs arbitrary: c) (auto simp: insert_min_def)

lemma fold_insert_hashes:
  "block_hashes (fold (\<lambda>(k, v). insert_full k v) kvs c) n = Some h \<Longrightarrow>
   block_hashes c n = Some h \<or> (\<exists>b \<in> snd ` set kvs. block_number b = n \<and> block_hash b = h)"
  "block_hashes (fold (\<lambda>(k, v). insert_min k v) kvs c) n = Some h \<Longrightarrow>
   block_hashes c n = Some h \<or> (\<exists>b \<in> snd ` set kvs. block_number b = n \<and> block_hash b = h)"
  by (induction kvs arbitrary: c) (fastforce simp: insert_full_def insert_min_def split: if_splits)+

text \<open>What a reloaded cache shares with the one that wrote the files: everything but the confirmed
  tokens, and block hashes that belong to cached blocks.\<close>

definition same_persisted :: "Cache \<Rightarrow> Cache \<Rightarrow> bool" where
  "same_persisted c c' \<longleftrightarrow>
     blocks_full c' = blocks_full c \<and> blocks_min c' = blocks_min c \<and>
     block_raw_transactions c' = block_raw_transactions c \<and> transactions c' = transactions c \<and>
     bridge_addresses c' = bridge_addresses c \<and> confirmed_tokens c' = (\<lambda>_. None) \<and>
     (\<forall>n h. block_hashes c' n = Some h \<longrightarrow>
        (\<exists>b \<in> ran (blocks_full c) \<union> ran (blocks_min c). block_number b = n \<and> block_hash b = h))"

lemma ran_map_of_distinct: "distinct (map fst kvs) \<Longrightarrow> ran (map_of kvs) = snd ` set kvs"
  by (rule ran_distinct)

lemma read_all_mirrored:
  assumes "codec_ok cd" and "mirrors cd dir c d"
  shows "\<exists>c'. read_all_from_disk cd dir d (empty_cache cfg) = (Ok (), c') \<and>
              same_persisted c c' \<and> config c' = cfg"
proof -
  obtain full mi raw txs where
    full: "distinct (map fst full)" "blocks_full c = map_of full"
      "dirs d (dir, CACHE_TYPE_BLOCKS_FULL) =
         Some (map (\<lambda>(k, v). (print_hash cd k, ser_block cd v)) full)"
    and mi: "distinct (map fst mi)" "blocks_min c = map_of mi"
      "dirs d (dir, CACHE_TYPE_BLOCKS_MIN) =
         Some (map (\<lambda>(k, v). (print_hash cd k, ser_block cd v)) mi)"
    and raw: "distinct (map fst raw)" "block_raw_transactions c = map_of raw"
      "dirs d (dir, CACHE_TYPE_BLOCK_RAW_TRANSACTIONS) =
         Some (map (\<lambda>(k, v). (print_number cd k, ser_raw_transactions cd v)) raw)"
    and txs: "distinct (map fst txs)" "transactions c = map_of txs"
      "dirs d (dir, CACHE_TYPE_TRANSACTIONS) =
         Some (map (\<lambda>(k, v). (print_hash cd k, ser_transaction cd v)) txs)"
    using assms(2) unfolding mirrors_def encodes_def by blast
  have kv: "dirs d (dir, CACHE_TYPE_KEY_VALUE) =
      Some (case bridge_addresses c of None \<Rightarrow> []
            | Some b \<Rightarrow> [(CACHE_KEY_BRIDGE_ADDRESSES, ser_bridge cd b)])"
    using assms(2) by (simp add: mirrors_def)
  define c1 where "c1 = fold (\<lambda>(k, v). insert_full k v) full (empty_cache cfg)"
  define c2 where "c2 = fold (\<lambda>(k, v). insert_min k v) mi c1"
  define c3 where "c3 = c2\<lparr>block_raw_transactions := block_raw_transactions c2 ++ map_of (rev raw)\<rparr>"
  define c4 where "c4 = c3\<lparr>transactions := transactions c3 ++ map_of (rev txs)\<rparr>"
  define c5 where "c5 = (case bridge_addresses c of None \<Rightarrow> c4 | Some b \<Rightarrow> c4\<lparr>bridge_addresses := Some b\<rparr>)"
  have "read_all_from_disk cd dir d (empty_cache cfg) = (Ok (), c5)"
    by (simp add: read_all_from_disk_def cache_types_def full(3) mi(3) raw(3) txs(3) kv
        load_files_full [OF assms(1), of full "empty_cache cfg", folded c1_def]
        load_files_min [OF assms(1), of mi c1, folded c2_def]
        load_files_raw [OF assms(1), of raw c2, folded c3_def]
        load_files_transactions [OF assms(1), of txs c3, folded c4_def]
        load_files_key_value [OF assms(1), of "bridge_addresses c" c4, folded c5_def])
  moreover have "\<exists>b \<in> ran (blocks_full c) \<union> ran (blocks_min c). block_number b = n \<and> block_hash b = h"
    if "block_hashes c5 n = Some h" for n h
  proof -
    have "block_hashes c2 n = Some h"
      using that by (simp add: c5_def c4_def c3_def split: option.splits)
    then show ?thesis
      using fold_insert_hashes(2) [of mi c1 n h] fold_insert_hashes(1) [of full "empty_cache cfg" n h]
        full mi by (auto simp: c1_def c2_def ran_map_of_distinct empty_cache_def)
  qed
  moreover have "blocks_full c5 = blocks_full c" "blocks_min c5 = blocks_min c"
    "block_raw_transactions c5 = block_raw_transactions c" "transactions c5 = transactions c"
    "bridge_addresses c5 = bridge_addresses c" "confirmed_tokens c5 = (\<lambda>_. None)" "config c5 = cfg"
    using full(1,2) mi(1,2) raw(1,2) txs(1,2)
    by (simp_all add: c5_def c4_def c3_def c2_def c1_def fold_insert_full fold_insert_min
        empty_cache_def map_of_rev_distinct split: option.splits)
  ultimately show ?thesis
    by (auto simp: same_persisted_def)
qed


section \<open>Properties\<close>

lemma create_dirs_present:
  "\<forall>t \<in> set ts. dirs d (dir, t) \<noteq> None \<Longrightarrow> create_dirs dir ts d = Some d"
  by (induction ts) (auto simp: create_dir_all_def)

lemma removed_dirs:
  assumes "writable d"
  shows "dirs (fold (\<lambda>t. remove_dir_all (dir, t)) ts d) (dir, t) =
           (if t \<in> set ts then None else dirs d (dir, t))"
    and "writable (fold (\<lambda>t. remove_dir_all (dir, t)) ts d)"
  using assms by (induction ts arbitrary: d) (auto simp: remove_dir_all_def)

lemma create_dirs_fresh:
  assumes "writable d"
  shows "\<exists>d'. create_dirs dir ts d = Some d' \<and> writable d' \<and>
     (\<forall>t. dirs d' (dir, t) =
        (if t \<in> set ts \<and> dirs d (dir, t) = None then Some [] else dirs d (dir, t)))"
  using assms
proof (induction ts arbitrary: d)
  case Nil
  then show ?case by simp
next
  case (Cons t ts)
  obtain d1 where d1: "create_dir_all (dir, t) d = Some d1" "writable d1"
      "\<forall>u. dirs d1 (dir, u) = (if u = t \<and> dirs d (dir, u) = None then Some [] else dirs d (dir, u))"
  proof (cases "dirs d (dir, t)")
    case None
    then show ?thesis
      using Cons.prems
      by (intro that [of "d\<lparr>dirs := (dirs d)((dir, t) \<mapsto> [])\<rparr>"]) (auto simp: create_dir_all_def)
  next
    case (Some files)
    then show ?thesis
      using Cons.prems by (intro that [of d]) (auto simp: create_dir_all_def)
  qed
  obtain d' where d': "create_dirs dir ts d1 = Some d'" "writable d'"
      "\<forall>u. dirs d' (dir, u) = (if u \<in> set ts \<and> dirs d1 (dir, u) = None then Some [] else dirs d1 (dir, u))"
    using Cons.IH [OF d1(2)] by blast
  show ?case
    using d1(1) d' d1(3) by (auto intro!: exI [of _ d'])
qed

lemma mirrors_empty:
  assumes "\<forall>t \<in> set cache_types. dirs d (dir, t) = Some []"
  shows "mirrors cd dir (empty_cache cfg) d"
  using assms
  by (auto simp: mirrors_def encodes_def cache_types_def empty_cache_def intro!: exI [of _ "[]"])

lemma Cache_new_reset:
  assumes "codec_ok cd" and "writable d" and "Cache_new cd (Disk dir True) d = (r, d0)"
  shows "\<exists>c0. r = Some c0 \<and> mirrors cd dir c0 d0 \<and> writable d0 \<and> config c0 = Disk dir True"
proof -
  define d1 where "d1 = fold (\<lambda>t. remove_dir_all (dir, t)) cache_types d"
  have gone: "dirs d1 (dir, t) = None" if "t \<in> set cache_types" for t
    using that removed_dirs(1) [OF assms(2), of dir cache_types t] by (simp add: d1_def)
  obtain d2 where d2: "create_dirs dir cache_types d1 = Some d2" "writable d2"
      "\<forall>t. dirs d2 (dir, t) =
         (if t \<in> set cache_types \<and> dirs d1 (dir, t) = None then Some [] else dirs d1 (dir, t))"
    using create_dirs_fresh [of d1 dir cache_types] removed_dirs(2) [OF assms(2)] d1_def by blast
  have emp: "mirrors cd dir (empty_cache (Disk dir True)) d2"
    using d2(3) gone by (intro mirrors_empty) auto
  obtain c' where c': "read_all_from_disk cd dir d2 (empty_cache (Disk dir True)) = (Ok (), c')"
      "same_persisted (empty_cache (Disk dir True)) c'" "config c' = Disk dir True"
    using read_all_mirrored [OF assms(1) emp] by blast
  have "mirrors cd dir c' d2"
    using emp c'(2) by (simp add: mirrors_def same_persisted_def)
  then show ?thesis
    using assms(3) d2 c'(1,3) by (auto simp: Cache_new_def d1_def [symmetric])
qed

text \<open>C20: On a writable disk, a cache created with \<^verbatim>\<open>reset\<close> never fails to start and starts empty on
  disk; after any sequence of insertions a restart on the same directory succeeds and restores
  every block, raw transaction list, transaction and the bridge addresses that were cached, and
  only those; confirmed tokens are not persisted.\<close>

theorem cache_survives_restart:
  assumes "codec_ok cd" and "writable d"
    and "Cache_new cd (Disk dir True) d = (r, d0)"
    and "fold (apply_cache_op cd) ops (the r, d0) = (c, d1)"
  shows "r \<noteq> None \<and> (\<exists>c'. Cache_new cd (Disk dir False) d1 = (Some c', d1) \<and> same_persisted c c')"
proof -
  obtain c0 where c0: "r = Some c0" "mirrors cd dir c0 d0" "writable d0" "config c0 = Disk dir True"
    using Cache_new_reset [OF assms(1-3)] by blast
  have run: "fold (apply_cache_op cd) ops (c0, d0) = (c, d1)"
    using assms(4) c0(1) by simp
  have mir: "mirrors cd dir c d1"
    using mirrors_run [OF assms(1) c0(2-4) run] by blast
  have "\<forall>t \<in> set cache_types. dirs d1 (dir, t) \<noteq> None"
    using mir by (auto simp: mirrors_def encodes_def cache_types_def)
  then have "create_dirs dir cache_types d1 = Some d1"
    by (rule create_dirs_present)
  moreover obtain c' where "read_all_from_disk cd dir d1 (empty_cache (Disk dir False)) = (Ok (), c')"
      "same_persisted c c'"
    using read_all_mirrored [OF assms(1) mir] by blast
  ultimately show ?thesis
    using c0(1) by (simp add: Cache_new_def)
qed

text \<open>A codec that can be run: contents are tagged values, names are the bits of the key.\<close>

datatype tagged =
  TBlock Block | TRaw "RawTransaction list" | TTransaction Transaction | TBridge BridgeAddresses

definition print_bits :: "'a::len word \<Rightarrow> string" where
  "print_bits w = map (\<lambda>i. if bit w i then CHR ''1'' else CHR ''0'') [0..<LENGTH('a)]"

definition parse_bits :: "string \<Rightarrow> 'a::len word option" where
  "parse_bits s =
     (if length s = LENGTH('a) then Some (horner_sum of_bool 2 (map (\<lambda>c. c = CHR ''1'') s)) else None)"

lemma parse_print_bits: "parse_bits (print_bits w) = Some (w :: 'a::len word)"
proof -
  have "map (\<lambda>c. c = CHR ''1'') (print_bits w) = map (bit w) [0..<LENGTH('a)]"
    by (simp add: print_bits_def)
  then show ?thesis
    by (simp add: parse_bits_def horner_sum_bit_eq_take_bit) (simp add: print_bits_def)
qed

definition tagged_codec :: "tagged codec" where
  "tagged_codec =
     \<lparr>ser_block = TBlock, de_block = (\<lambda>t. case t of TBlock b \<Rightarrow> Some b | _ \<Rightarrow> None),
      ser_raw_transactions = TRaw, de_raw_transactions = (\<lambda>t. case t of TRaw r \<Rightarrow> Some r | _ \<Rightarrow> None),
      ser_transaction = TTransaction,
      de_transaction = (\<lambda>t. case t of TTransaction x \<Rightarrow> Some x | _ \<Rightarrow> None),
      ser_bridge = TBridge, de_bridge = (\<lambda>t. case t of TBridge b \<Rightarrow> Some b | _ \<Rightarrow> None),
      print_hash = print_bits, parse_hash = parse_bits,
      print_number = print_bits, parse_number = parse_bits\<rparr>"

lemma tagged_codec_ok: "codec_ok tagged_codec"
  by (simp add: codec_ok_def tagged_codec_def parse_print_bits)

definition empty_disk :: "tagged disk" where
  "empty_disk = \<lparr>dirs = (\<lambda>_. None), writable = True\<rparr>"

definition started :: "Cache \<times> tagged disk" where
  "started = (case Cache_new tagged_codec (Disk ''cache'' True) empty_disk of (c, d) \<Rightarrow> (the c, d))"

definition filled :: "Cache \<times> tagged disk" where
  "filled = fold (apply_cache_op tagged_codec)
     [InsertTransaction 7 example_api_tx, InsertBlock 0 True empty_block] started"

theorem cache_survives_restart_witness:
  "\<exists>c'. Cache_new tagged_codec (Disk ''cache'' False) (snd filled) = (Some c', snd filled) \<and>
        same_persisted (fst filled) c'"
proof -
  obtain r d0 where n: "Cache_new tagged_codec (Disk ''cache'' True) empty_disk = (r, d0)"
    by fastforce
  have f: "fold (apply_cache_op tagged_codec)
     [InsertTransaction 7 example_api_tx, InsertBlock 0 True empty_block] (the r, d0) =
     (fst filled, snd filled)"
    using n by (simp add: filled_def started_def)
  have "writable empty_disk"
    by (simp add: empty_disk_def)
  from cache_survives_restart [OF tagged_codec_ok this n f] show ?thesis by blast
qed

text \<open>A cache that is disabled answers nothing and no operation changes it or the disk.\<close>

theorem disabled_cache_inert:
  assumes "config c = NoCache"
  shows "fold (apply_cache_op cd) ops (c, d) = (c, d) \<and> get_block c h f = None \<and>
    get_block_hash c n = None \<and> get_block_raw_transactions c n = None \<and>
    get_transaction c h = None \<and> get_bridge_addresses c = None \<and> get_confirmed_tokens c i l = None"
proof -
  have "apply_cache_op cd op (c, d) = (c, d)" for op
    using assms by (cases op) (simp_all add: cache_op_defs)
  then have "fold (apply_cache_op cd) ops (c, d) = (c, d)"
    by (induction ops) auto
  then show ?thesis
    using assms by (simp add: get_block_def get_block_hash_def get_block_raw_transactions_def
        get_transaction_def get_bridge_addresses_def get_confirmed_tokens_def)
qed

theorem disabled_cache_inert_witness:
  "fold (apply_cache_op tagged_codec) [InsertTransaction 7 example_api_tx] (empty_cache NoCache, empty_disk) =
     (empty_cache NoCache, empty_disk)"
  using disabled_cache_inert [of "empty_cache NoCache" tagged_codec
      "[InsertTransaction 7 example_api_tx]" empty_disk]
  by (simp add: empty_cache_def)

end
