(* ===== verification/HttpForkSource.thy ===== *)
theory HttpForkSource
  imports Cache
begin

text \<open>
  The fork source over HTTP of \<^verbatim>\<open>src/.test-node-subtree/src/http_fork_source.rs\<close>: every method asks the
  client of the fork's URL; six of them look into the cache first and store what they fetched. The
  client of a URL is a parameter (\<^const>\<open>None\<close>: it cannot be built, which panics).
\<close>

section \<open>State\<close>

record HttpForkSource =
  fork_url :: string
  http_cache :: "Cache rwlock"

type_synonym 'c http = "HttpForkSource \<times> 'c disk"
type_synonym clients = "string \<Rightarrow> ForkSource option"

definition HttpForkSource_new ::
  "'c codec \<Rightarrow> string \<Rightarrow> CacheConfig \<Rightarrow> 'c disk \<Rightarrow> HttpForkSource option \<times> 'c disk" where
  "HttpForkSource_new cd url cfg d =
     (case Cache_new cd cfg d of
        (None, d') \<Rightarrow> (None, d')
      | (Some c, d') \<Rightarrow>
          (Some \<lparr>fork_url = url, http_cache = \<lparr>lock_value = c, lock_poisoned = False\<rparr>\<rparr>, d'))"

definition create_client :: "clients \<Rightarrow> HttpForkSource \<Rightarrow> (string, ForkSource) rust" where
  "create_client clients s = unwrap (clients (fork_url s))"

text \<open>\<^verbatim>\<open>self.cache.read()\<close> that treats a poisoned lock as a miss, and \<^verbatim>\<open>self.cache.write()\<close> that only logs
  it.\<close>

definition cached :: "(Cache \<Rightarrow> 'a option) \<Rightarrow> HttpForkSource \<Rightarrow> 'a option" where
  "cached look s =
     (if lock_poisoned (http_cache s) then None else look (lock_value (http_cache s)))"

definition store :: "(Cache \<times> 'c disk \<Rightarrow> Cache \<times> 'c disk) \<Rightarrow> 'c http \<Rightarrow> 'c http" where
  "store ins sd =
     (case sd of (s, d) \<Rightarrow>
       if lock_poisoned (http_cache s) then (s, d)
       else case ins (lock_value (http_cache s), d) of
         (c, d') \<Rightarrow> (s\<lparr>http_cache := (http_cache s)\<lparr>lock_value := c\<rparr>\<rparr>, d'))"

text \<open>\<^verbatim>\<open>block_on(client.call()).wrap_err("fork http client failed")\<close>.\<close>

definition ask ::
  "clients \<Rightarrow> HttpForkSource \<Rightarrow> (ForkSource \<Rightarrow> 'a option) \<Rightarrow> (string, 'a) rust" where
  "ask clients s call =
     (case create_client clients s of
        Ok client \<Rightarrow> ok_or ''fork http client failed'' (call client)
      | Err e \<Rightarrow> Err e
      | Panic \<Rightarrow> Panic)"

section \<open>Cached methods\<close>

definition http_get_transaction_by_hash ::
  "'c codec \<Rightarrow> clients \<Rightarrow> h256 \<Rightarrow> 'c http \<Rightarrow> (string, Transaction option) rust \<times> 'c http" where
  "http_get_transaction_by_hash cd clients hash sd =
     (case cached (\<lambda>c. get_transaction c hash) (fst sd) of
        Some t \<Rightarrow> (Ok (Some t), sd)
      | None \<Rightarrow>
          (case ask clients (fst sd) (\<lambda>cl. src_get_transaction_by_hash cl hash) of
             Ok (Some t) \<Rightarrow> (Ok (Some t), store (insert_transaction cd hash t) sd)
           | r \<Rightarrow> (r, sd)))"

definition http_get_raw_block_transactions ::
  "'c codec \<Rightarrow> clients \<Rightarrow> u32 \<Rightarrow> 'c http \<Rightarrow> (string, RawTransaction list) rust \<times> 'c http" where
  "http_get_raw_block_transactions cd clients bn sd =
     (let number = ucast bn :: u64
      in case cached (\<lambda>c. get_block_raw_transactions c number) (fst sd) of
           Some ts \<Rightarrow> (Ok ts, sd)
         | None \<Rightarrow>
             (case ask clients (fst sd) (\<lambda>cl. src_get_raw_block_transactions cl bn) of
                Ok ts \<Rightarrow>
                  (Ok ts, if ts \<noteq> [] then store (insert_block_raw_transactions cd number ts) sd else sd)
              | r \<Rightarrow> (r, sd)))"

definition http_get_block_by_hash ::
  "'c codec \<Rightarrow> clients \<Rightarrow> h256 \<Rightarrow> bool \<Rightarrow> 'c http \<Rightarrow> (string, Block option) rust \<times> 'c http" where
  "http_get_block_by_hash cd clients hash full sd =
     (case cached (\<lambda>c. get_block c hash full) (fst sd) of
        Some b \<Rightarrow> (Ok (Some b), sd)
      | None \<Rightarrow>
          (case ask clients (fst sd) (\<lambda>cl. src_get_block_by_hash cl hash full) of
             Ok (Some b) \<Rightarrow> (Ok (Some b), store (insert_block cd hash full b) sd)
           | r \<Rightarrow> (r, sd)))"

definition http_get_block_by_number ::
  "'c codec \<Rightarrow> clients \<Rightarrow> BlockNumber \<Rightarrow> bool \<Rightarrow> 'c http \<Rightarrow>
   (string, Block option) rust \<times> 'c http" where
  "http_get_block_by_number cd clients bn full sd =
     (let maybe_number = (case bn of Number n \<Rightarrow> Some n | _ \<Rightarrow> None)
      in case (case maybe_number of
                 None \<Rightarrow> None
               | Some n \<Rightarrow>
                   cached (\<lambda>c. Option.bind (get_block_hash c n) (\<lambda>h. get_block c h full)) (fst sd)) of
           Some b \<Rightarrow> (Ok (Some b), sd)
         | None \<Rightarrow>
             (case ask clients (fst sd) (\<lambda>cl. src_get_block_by_number cl bn full) of
                Ok (Some b) \<Rightarrow> (Ok (Some b), store (insert_block cd (block_hash b) full b) sd)
              | r \<Rightarrow> (r, sd)))"

definition http_get_bridge_contracts ::
  "'c codec \<Rightarrow> clients \<Rightarrow> 'c http \<Rightarrow> (string, BridgeAddresses) rust \<times> 'c http" where
  "http_get_bridge_contracts cd clients sd =
     (case cached get_bridge_addresses (fst sd) of
        Some b \<Rightarrow> (Ok b, sd)
      | None \<Rightarrow>
          (case ask clients (fst sd) src_get_bridge_contracts of
             Ok b \<Rightarrow> (Ok b, store (set_bridge_addresses cd b) sd)
           | r \<Rightarrow> (r, sd)))"

definition http_get_confirmed_tokens ::
  "clients \<Rightarrow> u32 \<Rightarrow> u8 \<Rightarrow> 'c http \<Rightarrow> (string, Token list) rust \<times> 'c http" where
  "http_get_confirmed_tokens clients frm limit sd =
     (case cached (\<lambda>c. get_confirmed_tokens c frm limit) (fst sd) of
        Some ts \<Rightarrow> (Ok ts, sd)
      | None \<Rightarrow>
          (case ask clients (fst sd) (\<lambda>cl. src_get_confirmed_tokens cl frm limit) of
             Ok ts \<Rightarrow> (Ok ts, store (set_confirmed_tokens frm limit ts) sd)
           | r \<Rightarrow> (r, sd)))"

section \<open>Methods that are not cached\<close>

definition http_get_storage_at ::
  "clients \<Rightarrow> address \<Rightarrow> u256 \<Rightarrow> BlockIdVariant option \<Rightarrow> HttpForkSource \<Rightarrow> (string, h256) rust" where
  "http_get_storage_at clients address idx block s =
     ask clients s (\<lambda>cl. get_storage_at cl address idx block)"

definition http_get_bytecode_by_hash ::
  "clients \<Rightarrow> h256 \<Rightarrow> HttpForkSource \<Rightarrow> (string, bytes option) rust" where
  "http_get_bytecode_by_hash clients hash s = ask clients s (\<lambda>cl. src_get_bytecode_by_hash cl hash)"

definition http_get_transaction_details ::
  "clients \<Rightarrow> h256 \<Rightarrow> HttpForkSource \<Rightarrow> (string, TransactionDetails option) rust" where
  "http_get_transaction_details clients hash s =
     ask clients s (\<lambda>cl. src_get_transaction_details cl hash)"

definition http_get_block_transaction_count_by_hash ::
  "clients \<Rightarrow> h256 \<Rightarrow> HttpForkSource \<Rightarrow> (string, u256 option) rust" where
  "http_get_block_transaction_count_by_hash clients hash s =
     ask clients s (\<lambda>cl. src_get_block_transaction_count_by_hash cl hash)"

definition http_get_block_transaction_count_by_number ::
  "clients \<Rightarrow> BlockNumber \<Rightarrow> HttpForkSource \<Rightarrow> (string, u256 option) rust" where
  "http_get_block_transaction_count_by_number clients bn s =
     ask clients s (\<lambda>cl. src_get_block_transaction_count_by_number cl bn)"

definition http_get_transaction_by_block_hash_and_index ::
  "clients \<Rightarrow> h256 \<Rightarrow> nat \<Rightarrow> HttpForkSource \<Rightarrow> (string, Transaction option) rust" where
  "http_get_transaction_by_block_hash_and_index clients hash index s =
     ask clients s (\<lambda>cl. src_get_transaction_by_block_hash_and_index cl hash index)"

definition http_get_transaction_by_block_number_and_index ::
  "clients \<Rightarrow> BlockNumber \<Rightarrow> nat \<Rightarrow> HttpForkSource \<Rightarrow> (string, Transaction option) rust" where
  "http_get_transaction_by_block_number_and_index clients bn index s =
     ask clients s (\<lambda>cl. src_get_transaction_by_block_number_and_index cl bn index)"

definition http_get_block_details ::
  "clients \<Rightarrow> u32 \<Rightarrow> HttpForkSource \<Rightarrow> (string, BlockDetails option) rust" where
  "http_get_block_details clients miniblock s =
     ask clients s (\<lambda>cl. src_get_block_details cl miniblock)"


section \<open>Requests\<close>

datatype request =
  ReqTransaction h256
| ReqRaw u32
| ReqBlockByHash h256 bool
| ReqBlockByNumber BlockNumber bool
| ReqBridge
| ReqTokens u32 u8

datatype response =
  RespTransaction "Transaction option"
| RespRaw "RawTransaction list"
| RespBlock "Block option"
| RespBridge BridgeAddresses
| RespTokens "Token list"

fun map_rust :: "('a \<Rightarrow> 'b) \<Rightarrow> ('e, 'a) rust \<Rightarrow> ('e, 'b) rust" where
  "map_rust f (Ok a) = Ok (f a)"
| "map_rust f (Err e) = Err e"
| "map_rust f Panic = Panic"

fun serve :: "'c codec \<Rightarrow> clients \<Rightarrow> request \<Rightarrow> 'c http \<Rightarrow> (string, response) rust \<times> 'c http" where
  "serve cd cl (ReqTransaction h) s =
     map_prod (map_rust RespTransaction) id (http_get_transaction_by_hash cd cl h s)"
| "serve cd cl (ReqRaw n) s =
     map_prod (map_rust RespRaw) id (http_get_raw_block_transactions cd cl n s)"
| "serve cd cl (ReqBlockByHash h f) s =
     map_prod (map_rust RespBlock) id (http_get_block_by_hash cd cl h f s)"
| "serve cd cl (ReqBlockByNumber n f) s =
     map_prod (map_rust RespBlock) id (http_get_block_by_number cd cl n f s)"
| "serve cd cl ReqBridge s =
     map_prod (map_rust RespBridge) id (http_get_bridge_contracts cd cl s)"
| "serve cd cl (ReqTokens f l) s =
     map_prod (map_rust RespTokens) id (http_get_confirmed_tokens cl f l s)"

text \<open>What the remote answers to a request, without any cache.\<close>

fun remote_answer :: "ForkSource \<Rightarrow> request \<Rightarrow> (string, response) rust" where
  "remote_answer cl (ReqTransaction h) =
     map_rust RespTransaction (ok_or ''fork http client failed'' (src_get_transaction_by_hash cl h))"
| "remote_answer cl (ReqRaw n) =
     map_rust RespRaw (ok_or ''fork http client failed'' (src_get_raw_block_transactions cl n))"
| "remote_answer cl (ReqBlockByHash h f) =
     map_rust RespBlock (ok_or ''fork http client failed'' (src_get_block_by_hash cl h f))"
| "remote_answer cl (ReqBlockByNumber n f) =
     map_rust RespBlock (ok_or ''fork http client failed'' (src_get_block_by_number cl n f))"
| "remote_answer cl ReqBridge =
     map_rust RespBridge (ok_or ''fork http client failed'' (src_get_bridge_contracts cl))"
| "remote_answer cl (ReqTokens f l) =
     map_rust RespTokens (ok_or ''fork http client failed'' (src_get_confirmed_tokens cl f l))"

text \<open>The remote is consistent: a block found by hash has that hash, and a block found by hash or by
  number (in either form) is the one found by its hash and the one at its number.\<close>

definition consistent_remote :: "ForkSource \<Rightarrow> bool" where
  "consistent_remote cl \<longleftrightarrow>
     (\<forall>h f b. src_get_block_by_hash cl h f = Some (Some b) \<longrightarrow>
        block_hash b = h \<and>
        (\<forall>g b'. src_get_block_by_hash cl h g = Some (Some b') \<longrightarrow>
           src_get_block_by_number cl (Number (block_number b)) g = Some (Some b'))) \<and>
     (\<forall>n f b. src_get_block_by_number cl n f = Some (Some b) \<longrightarrow>
        src_get_block_by_hash cl (block_hash b) f = Some (Some b))"

text \<open>The cache is sound: each entry is what the remote answers; the hash stored for a number is that
  of the remote's block at the number in either form, when the block is found.\<close>

definition cache_sound :: "ForkSource \<Rightarrow> Cache \<Rightarrow> bool" where
  "cache_sound cl c \<longleftrightarrow>
     (\<forall>h t. transactions c h = Some t \<longrightarrow> src_get_transaction_by_hash cl h = Some (Some t)) \<and>
     (\<forall>n ts. block_raw_transactions c (ucast n) = Some ts \<longrightarrow>
        src_get_raw_block_transactions cl n = Some ts) \<and>
     (\<forall>h b. blocks_full c h = Some b \<longrightarrow> src_get_block_by_hash cl h True = Some (Some b)) \<and>
     (\<forall>h b. blocks_min c h = Some b \<longrightarrow> src_get_block_by_hash cl h False = Some (Some b)) \<and>
     (\<forall>n h g b. block_hashes c n = Some h \<longrightarrow> src_get_block_by_hash cl h g = Some (Some b) \<longrightarrow>
        src_get_block_by_number cl (Number n) g = Some (Some b)) \<and>
     (\<forall>b. bridge_addresses c = Some b \<longrightarrow> src_get_bridge_contracts cl = Some b) \<and>
     (\<forall>f l ts. confirmed_tokens c (f, l) = Some ts \<longrightarrow> src_get_confirmed_tokens cl f l = Some ts)"

definition http_sound :: "clients \<Rightarrow> string \<Rightarrow> ForkSource \<Rightarrow> 'c http \<Rightarrow> bool" where
  "http_sound clients url cl sd \<longleftrightarrow>
     fork_url (fst sd) = url \<and> clients url = Some cl \<and> consistent_remote cl \<and>
     cache_sound cl (lock_value (http_cache (fst sd)))"

fun handle_all :: "('req \<Rightarrow> 's \<Rightarrow> 'resp \<times> 's) \<Rightarrow> 'req list \<Rightarrow> 's \<Rightarrow> 'resp list \<times> 's" where
  "handle_all handle [] s = ([], s)"
| "handle_all handle (r # rs) s =
     (case handle r s of (x, s') \<Rightarrow> case handle_all handle rs s' of (xs, s'') \<Rightarrow> (x # xs, s''))"

text \<open>The contract of a server that answers as a reference does.\<close>

locale transparent_server =
  fixes handle :: "'req \<Rightarrow> 's \<Rightarrow> 'resp \<times> 's"
    and sound :: "'s \<Rightarrow> bool"
    and truth :: "'req \<Rightarrow> 'resp"
  assumes handle_truth: "sound s \<Longrightarrow> fst (handle r s) = truth r"
    and handle_sound: "sound s \<Longrightarrow> sound (snd (handle r s))"
begin

lemma handle_all_truth: "sound s \<Longrightarrow> fst (handle_all handle rs s) = map truth rs"
proof (induction rs arbitrary: s)
  case (Cons r rs)
  obtain x s' where h: "handle r s = (x, s')" by fastforce
  obtain xs s'' where t: "handle_all handle rs s' = (xs, s'')" by fastforce
  have "x = truth r" "sound s'"
    using handle_truth [OF Cons.prems, of r] handle_sound [OF Cons.prems, of r] h by simp_all
  then show ?case
    using h t Cons.IH [of s'] by simp
qed simp

end


section \<open>The HTTP source is transparent\<close>

lemma ask_sound:
  assumes "http_sound clients url cl sd"
  shows "ask clients (fst sd) call = ok_or ''fork http client failed'' (call cl)"
  using assms by (auto simp: http_sound_def ask_def create_client_def)

lemma cached_sound:
  assumes "cached look s = Some x"
  shows "look (lock_value (http_cache s)) = Some x"
  using assms by (auto simp: cached_def split: if_splits)

lemma store_sound:
  assumes "http_sound clients url cl sd"
    and "\<And>c d c' d'. cache_sound cl c \<Longrightarrow> ins (c, d) = (c', d') \<Longrightarrow> cache_sound cl c'"
  shows "http_sound clients url cl (store ins sd)"
  using assms(1) assms(2) [of "lock_value (http_cache (fst sd))" "snd sd"]
  by (auto simp: http_sound_def store_def split: prod.splits)

lemma ucast_u32_u64_inj [simp]: "(ucast m :: u64) = ucast n \<longleftrightarrow> m = n" for m n :: u32
proof
  assume "(ucast m :: u64) = ucast n"
  then have "unat (ucast m :: u64) = unat (ucast n :: u64)"
    by (rule arg_cong)
  moreover have "unat (ucast k :: u64) = unat k" for k :: u32
    by (rule unat_ucast_up) simp
  ultimately show "m = n"
    by (simp add: word_unat_eq_iff)
qed simp

lemma cache_sound_insert_transaction:
  assumes "src_get_transaction_by_hash cl h = Some (Some t)" and "cache_sound cl c"
    and "insert_transaction cd h t (c, d) = (c', d')"
  shows "cache_sound cl c'"
  using assms by (auto simp: insert_transaction_def cache_sound_def split: if_splits)

lemma cache_sound_insert_raw:
  assumes "src_get_raw_block_transactions cl n = Some ts" and "cache_sound cl c"
    and "insert_block_raw_transactions cd (ucast n) ts (c, d) = (c', d')"
  shows "cache_sound cl c'"
  using assms by (auto simp: insert_block_raw_transactions_def cache_sound_def split: if_splits)

lemma cache_sound_set_bridge:
  assumes "src_get_bridge_contracts cl = Some b" and "cache_sound cl c"
    and "set_bridge_addresses cd b (c, d) = (c', d')"
  shows "cache_sound cl c'"
  using assms by (auto simp: set_bridge_addresses_def cache_sound_def split: if_splits)

lemma cache_sound_set_tokens:
  assumes "src_get_confirmed_tokens cl f l = Some ts" and "cache_sound cl c"
    and "set_confirmed_tokens f l ts (c, d) = (c', d')"
  shows "cache_sound cl c'"
  using assms by (auto simp: set_confirmed_tokens_def cache_sound_def split: if_splits)

lemma cache_sound_insert_block:
  assumes "consistent_remote cl" and "src_get_block_by_hash cl h f = Some (Some b)"
    and "cache_sound cl c" and "insert_block cd h f b (c, d) = (c', d')"
  shows "cache_sound cl c'"
proof -
  have "block_hash b = h" and
    num: "\<And>g b'. src_get_block_by_hash cl h g = Some (Some b') \<Longrightarrow>
       src_get_block_by_number cl (Number (block_number b)) g = Some (Some b')"
    using assms(1,2) unfolding consistent_remote_def by blast+
  then show ?thesis
    using assms(2-4)
    by (auto simp: insert_block_def insert_full_def insert_min_def cache_sound_def split: if_splits)
qed

text \<open>The common shape of a cached method: a miss asks the remote and stores what it found.\<close>

lemma sound_miss:
  assumes "http_sound clients url cl sd"
    and "\<And>x. call cl = Some x \<Longrightarrow> http_sound clients url cl (upd x)"
  shows "fst (case ask clients (fst sd) call of Ok x \<Rightarrow> (Ok x, upd x) | r \<Rightarrow> (r, sd)) =
           ok_or ''fork http client failed'' (call cl)
    \<and> http_sound clients url cl
        (snd (case ask clients (fst sd) call of Ok x \<Rightarrow> (Ok x, upd x) | r \<Rightarrow> (r, sd)))"
  using assms(1) assms(2) by (cases "call cl") (simp_all add: ask_sound [OF assms(1)])

lemma sound_miss_option:
  assumes "http_sound clients url cl sd"
    and "\<And>x. call cl = Some (Some x) \<Longrightarrow> http_sound clients url cl (upd x)"
  shows "fst (case ask clients (fst sd) call of Ok (Some x) \<Rightarrow> (Ok (Some x), upd x) | r \<Rightarrow> (r, sd)) =
           ok_or ''fork http client failed'' (call cl)
    \<and> http_sound clients url cl
        (snd (case ask clients (fst sd) call of Ok (Some x) \<Rightarrow> (Ok (Some x), upd x) | r \<Rightarrow> (r, sd)))"
proof (cases "call cl")
  case None
  then show ?thesis using assms(1) by (simp add: ask_sound [OF assms(1)])
next
  case (Some r)
  then show ?thesis using assms by (cases r) (simp_all add: ask_sound [OF assms(1)])
qed

lemma http_soundD:
  assumes "http_sound clients url cl sd"
  shows "consistent_remote cl" and "cache_sound cl (lock_value (http_cache (fst sd)))"
  using assms by (simp_all add: http_sound_def)

lemma sound_transaction:
  assumes "http_sound clients url cl sd"
  shows "fst (http_get_transaction_by_hash cd clients h sd) =
           ok_or ''fork http client failed'' (src_get_transaction_by_hash cl h)
    \<and> http_sound clients url cl (snd (http_get_transaction_by_hash cd clients h sd))"
proof (cases "cached (\<lambda>c. get_transaction c h) (fst sd)")
  case (Some t)
  then have "transactions (lock_value (http_cache (fst sd))) h = Some t"
    using cached_sound by (fastforce simp: get_transaction_def split: if_splits)
  then show ?thesis
    using assms Some http_soundD(2) [OF assms]
    by (simp add: http_get_transaction_by_hash_def cache_sound_def)
next
  case None
  show ?thesis
    unfolding http_get_transaction_by_hash_def None option.case
    by (rule sound_miss_option [OF assms])
      (rule store_sound [OF assms], rule cache_sound_insert_transaction)
qed

lemma sound_raw:
  assumes "http_sound clients url cl sd"
  shows "fst (http_get_raw_block_transactions cd clients n sd) =
           ok_or ''fork http client failed'' (src_get_raw_block_transactions cl n)
    \<and> http_sound clients url cl (snd (http_get_raw_block_transactions cd clients n sd))"
proof (cases "cached (\<lambda>c. get_block_raw_transactions c (ucast n)) (fst sd)")
  case (Some ts)
  then have "block_raw_transactions (lock_value (http_cache (fst sd))) (ucast n) = Some ts"
    using cached_sound by (fastforce simp: get_block_raw_transactions_def split: if_splits)
  then show ?thesis
    using assms Some http_soundD(2) [OF assms]
    by (simp add: http_get_raw_block_transactions_def cache_sound_def)
next
  case None
  show ?thesis
    unfolding http_get_raw_block_transactions_def Let_def None option.case
    by (rule sound_miss [OF assms])
      (auto intro: assms store_sound [OF assms] cache_sound_insert_raw)
qed

lemma sound_block_by_hash:
  assumes "http_sound clients url cl sd"
  shows "fst (http_get_block_by_hash cd clients h f sd) =
           ok_or ''fork http client failed'' (src_get_block_by_hash cl h f)
    \<and> http_sound clients url cl (snd (http_get_block_by_hash cd clients h f sd))"
proof (cases "cached (\<lambda>c. get_block c h f) (fst sd)")
  case (Some b)
  then have "get_block (lock_value (http_cache (fst sd))) h f = Some b"
    using cached_sound by fastforce
  then show ?thesis
    using assms Some http_soundD(2) [OF assms]
    by (auto simp: http_get_block_by_hash_def cache_sound_def get_block_def split: if_splits)
next
  case None
  show ?thesis
    unfolding http_get_block_by_hash_def None option.case
    by (rule sound_miss_option [OF assms])
      (rule store_sound [OF assms], rule cache_sound_insert_block [OF http_soundD(1) [OF assms]])
qed

lemma sound_block_by_number:
  assumes "http_sound clients url cl sd"
  shows "fst (http_get_block_by_number cd clients n f sd) =
           ok_or ''fork http client failed'' (src_get_block_by_number cl n f)
    \<and> http_sound clients url cl (snd (http_get_block_by_number cd clients n f sd))"
proof (cases "case (case n of Number n \<Rightarrow> Some n | _ \<Rightarrow> None) of None \<Rightarrow> None
    | Some n \<Rightarrow> cached (\<lambda>c. Option.bind (get_block_hash c n) (\<lambda>h. get_block c h f)) (fst sd)")
  case (Some b)
  then obtain m where n: "n = Number m" and
    "cached (\<lambda>c. Option.bind (get_block_hash c m) (\<lambda>h. get_block c h f)) (fst sd) = Some b"
    by (cases n) simp_all
  from cached_sound [OF this(2)] obtain h where
      "get_block_hash (lock_value (http_cache (fst sd))) m = Some h"
      "get_block (lock_value (http_cache (fst sd))) h f = Some b"
    by (auto simp: bind_eq_Some_conv)
  then have "src_get_block_by_number cl n f = Some (Some b)"
    using http_soundD(2) [OF assms] n
    by (auto simp: cache_sound_def get_block_def get_block_hash_def split: if_splits)
  then show ?thesis
    using assms Some by (simp add: http_get_block_by_number_def)
next
  case None
  have found: "src_get_block_by_hash cl (block_hash b) f = Some (Some b)"
    if "src_get_block_by_number cl n f = Some (Some b)" for b
    using http_soundD(1) [OF assms] that by (auto simp: consistent_remote_def)
  show ?thesis
    unfolding http_get_block_by_number_def Let_def None option.case
    by (rule sound_miss_option [OF assms])
      (rule store_sound [OF assms],
        rule cache_sound_insert_block [OF http_soundD(1) [OF assms] found])
qed

lemma sound_bridge:
  assumes "http_sound clients url cl sd"
  shows "fst (http_get_bridge_contracts cd clients sd) =
           ok_or ''fork http client failed'' (src_get_bridge_contracts cl)
    \<and> http_sound clients url cl (snd (http_get_bridge_contracts cd clients sd))"
proof (cases "cached get_bridge_addresses (fst sd)")
  case (Some b)
  then have "bridge_addresses (lock_value (http_cache (fst sd))) = Some b"
    using cached_sound by (fastforce simp: get_bridge_addresses_def split: if_splits)
  then show ?thesis
    using assms Some http_soundD(2) [OF assms]
    by (simp add: http_get_bridge_contracts_def cache_sound_def)
next
  case None
  show ?thesis
    unfolding http_get_bridge_contracts_def None option.case
    by (rule sound_miss [OF assms]) (rule store_sound [OF assms], rule cache_sound_set_bridge)
qed

lemma sound_tokens:
  assumes "http_sound clients url cl sd"
  shows "fst (http_get_confirmed_tokens clients f l sd) =
           ok_or ''fork http client failed'' (src_get_confirmed_tokens cl f l)
    \<and> http_sound clients url cl (snd (http_get_confirmed_tokens clients f l sd))"
proof (cases "cached (\<lambda>c. get_confirmed_tokens c f l) (fst sd)")
  case (Some ts)
  then have "confirmed_tokens (lock_value (http_cache (fst sd))) (f, l) = Some ts"
    using cached_sound by (fastforce simp: get_confirmed_tokens_def split: if_splits)
  then show ?thesis
    using assms Some http_soundD(2) [OF assms]
    by (simp add: http_get_confirmed_tokens_def cache_sound_def)
next
  case None
  show ?thesis
    unfolding http_get_confirmed_tokens_def None option.case
    by (rule sound_miss [OF assms]) (rule store_sound [OF assms], rule cache_sound_set_tokens)
qed

lemmas sound_methods =
  sound_transaction sound_raw sound_block_by_hash sound_block_by_number sound_bridge sound_tokens

interpretation http_source:
  transparent_server "serve cd clients" "http_sound clients url cl" "remote_answer cl"
proof unfold_locales
  fix s :: "'a http" and r
  assume S: "http_sound clients url cl s"
  show "fst (serve cd clients r s) = remote_answer cl r"
    by (cases r) (simp_all add: sound_methods [OF S])
  show "http_sound clients url cl (snd (serve cd clients r s))"
    by (cases r) (simp_all add: sound_methods [OF S])
qed


section \<open>Properties\<close>

text \<open>C15: Against a consistent remote, starting from a sound cache (for instance a disabled or an empty
  one), every request of any sequence is answered exactly as the remote answers it, errors
  included: the cache is invisible.\<close>

theorem http_cache_transparent:
  assumes "http_sound clients url cl sd"
  shows "fst (handle_all (serve cd clients) reqs sd) = map (remote_answer cl) reqs"
  by (rule http_source.handle_all_truth [OF assms])

definition example_http :: "tagged http" where
  "example_http =
     (\<lparr>fork_url = ''u'', http_cache = \<lparr>lock_value = empty_cache Memory, lock_poisoned = False\<rparr>\<rparr>,
      empty_disk)"

theorem http_cache_transparent_witness:
  "fst (handle_all (serve tagged_codec (\<lambda>_. Some replay_source))
      [ReqTransaction 7, ReqTransaction 7, ReqRaw 2] example_http) =
   [Ok (RespTransaction (Some example_api_tx)), Ok (RespTransaction (Some example_api_tx)),
    Ok (RespRaw (map (RawL2 \<circ> example_tx) [5, 6, 7, 8]))]"
  using http_cache_transparent [of "\<lambda>_. Some replay_source" "''u''" replay_source example_http
      tagged_codec "[ReqTransaction 7, ReqTransaction 7, ReqRaw 2]"]
  by (simp add: http_sound_def example_http_def cache_sound_def empty_cache_def
      consistent_remote_def replay_source_def constant_source_def)

end
