(* ===== verification/Utils.thy ===== *)
theory Utils
  imports ApiTypes
begin

unbundle bit_operations_syntax

text \<open>
  The pure helpers of \<^verbatim>\<open>src/.test-node-subtree/src/utils.rs\<close>: block number resolution, the gas
  price adjustment of a transaction, the number printer, the conversions and the construction of
  the debug output of a transaction.
\<close>

section \<open>Block numbers\<close>

fun to_real_block_number :: "BlockNumber \<Rightarrow> u64 \<Rightarrow> u64" where
  "to_real_block_number Finalized latest = latest"
| "to_real_block_number Pending latest = latest"
| "to_real_block_number Committed latest = latest"
| "to_real_block_number Latest latest = latest"
| "to_real_block_number Earliest latest = 0"
| "to_real_block_number (Number n) latest = n"

section \<open>Bytes\<close>

text \<open>Big-endian bytes of a word (\<^verbatim>\<open>to_be_bytes\<close>, \<^verbatim>\<open>to_big_endian\<close>, \<^verbatim>\<open>as_bytes\<close>) and back.\<close>

definition to_be_bytes :: "'a::len word \<Rightarrow> bytes" where
  "to_be_bytes w =
     map (\<lambda>i. ucast (drop_bit (8 * i) w)) (rev [0..<LENGTH('a) div 8])"

fun from_be_bytes :: "'a::len word \<Rightarrow> bytes \<Rightarrow> 'a word" where
  "from_be_bytes acc [] = acc"
| "from_be_bytes acc (b # bs) = from_be_bytes (acc * 256 + ucast b) bs"

text \<open>\<^verbatim>\<open>value[24..]\<close> keeps the last eight bytes of the 32.\<close>

definition h256_to_u64 :: "h256 \<Rightarrow> u64" where
  "h256_to_u64 value = from_be_bytes 0 (drop 24 (to_be_bytes value))"

text \<open>\<^verbatim>\<open>hash_bytecode\<close> and \<^verbatim>\<open>bytes_to_be_words\<close> are external.\<close>

definition bytecode_to_factory_dep ::
  "(bytes \<Rightarrow> h256) \<Rightarrow> (bytes \<Rightarrow> u256 list) \<Rightarrow> bytes \<Rightarrow> u256 \<times> u256 list" where
  "bytecode_to_factory_dep hash_bytecode bytes_to_be_words bytecode =
     (let bytecode_hash = hash_bytecode bytecode;
          bytecode_words = bytes_to_be_words bytecode
      in (bytecode_hash, bytecode_words))"

section \<open>Gas price\<close>

text \<open>\<^verbatim>\<open>derive\<close> stands for \<^verbatim>\<open>derive_base_fee_and_gas_per_pubdata\<close>; \<^const>\<open>None\<close> is the panic of a
  256-bit subtraction below zero or of \<^verbatim>\<open>as_u64\<close> on a value above 64 bits.\<close>

definition adjust_l1_gas_price_for_tx ::
  "(u64 \<Rightarrow> u64 \<Rightarrow> u64 \<times> u64) \<Rightarrow> u64 \<Rightarrow> u64 \<Rightarrow> u256 \<Rightarrow> u64 option" where
  "adjust_l1_gas_price_for_tx derive l1_gas_price fair_l2_gas_price tx_gas_per_pubdata_limit =
     (let current_pubdata_price = snd (derive l1_gas_price fair_l2_gas_price)
      in if (ucast current_pubdata_price :: u256) \<le> tx_gas_per_pubdata_limit then Some l1_gas_price
         else if tx_gas_per_pubdata_limit < 1 then None
         else (let product = unat fair_l2_gas_price * unat (tx_gas_per_pubdata_limit - 1)
               in if product \<ge> 2 ^ 256 then None
                  else if product div 17 \<ge> 2 ^ 64 then None
                  else Some (of_nat (product div 17))))"

section \<open>Printing numbers\<close>

fun decimal :: "nat \<Rightarrow> string" where
  "decimal n =
     (if n < 10 then [char_of (48 + n)] else decimal (n div 10) @ [char_of (48 + n mod 10)])"

declare decimal.simps [simp del]

definition to_human_size :: "u256 \<Rightarrow> string" where
  "to_human_size input =
     rev (concat (map (\<lambda>(index, val).
            if index > 0 \<and> index mod 3 = 0 then [CHR ''_'', val] else [val])
          (enumerate 0 (rev (decimal (unat input))))))"

text \<open>The timestamp as whole seconds and nanoseconds; \<^verbatim>\<open>from_timestamp\<close> takes the seconds as a signed
  64-bit value (\<^verbatim>\<open>secs as i64\<close>, which is never negative here) and rejects dates beyond the range of
  the calendar (\<^verbatim>\<open>max_secs\<close>), which panics.\<close>

definition utc_datetime_from_epoch_ms :: "nat \<Rightarrow> u64 \<Rightarrow> (int \<times> nat) option" where
  "utc_datetime_from_epoch_ms max_secs millis =
     (let secs = millis div 1000;
          nanos = (millis mod 1000) * 1000000
      in if unat secs > max_secs then None
         else Some (sint secs, unat (ucast nanos :: u32)))"

section \<open>Debug output\<close>

text \<open>\<^verbatim>\<open>into\<close> converts a VM call into a debug call (external); the deployer address is a constant of
  the protocol.\<close>

definition create_debug_output ::
  "address \<Rightarrow> (Call \<Rightarrow> DebugCall) \<Rightarrow> L2Tx \<Rightarrow> VmExecutionResultAndLogs \<Rightarrow> Call list \<Rightarrow>
   (RpcError, DebugCall) rust" where
  "create_debug_output contract_deployer_address call_into l2_tx result traces =
     (let calltype = (if l2_contract_address l2_tx = contract_deployer_address
                      then DebugTypeCreate else DebugTypeCall)
      in case vr_result result of
           Success output \<Rightarrow>
             Ok (DebugCall calltype (l2_initiator_address l2_tx) (l2_contract_address l2_tx)
                  (gas_limit (l2_fee l2_tx)) (ucast (vr_gas_used result)) (l2_value l2_tx)
                  output (l2_calldata l2_tx) None None (map call_into traces))
         | Revert output \<Rightarrow>
             Ok (DebugCall calltype (l2_initiator_address l2_tx) (l2_contract_address l2_tx)
                  (gas_limit (l2_fee l2_tx)) (ucast (vr_gas_used result)) (l2_value l2_tx)
                  [] (l2_calldata l2_tx) None (Some (revert_string output)) (map call_into traces))
         | Halt reason \<Rightarrow> Err (SubmitTransactionError reason []))"

section \<open>Properties\<close>

lemma from_be_bytes_append: "from_be_bytes acc (xs @ ys) = from_be_bytes (from_be_bytes acc xs) ys"
  by (induction xs arbitrary: acc) auto

lemma drop_be_bytes:
  "k \<le> LENGTH('a) div 8 \<Longrightarrow>
   drop (LENGTH('a) div 8 - k) (to_be_bytes (w :: 'a::len word)) =
     map (\<lambda>i. ucast (drop_bit (8 * i) w)) (rev [0..<k])"
  by (simp add: to_be_bytes_def drop_map drop_rev take_map)

lemma from_be_bytes_acc:
  "from_be_bytes acc bs = acc * 256 ^ length bs + from_be_bytes 0 bs"
proof (induction bs arbitrary: acc)
  case (Cons b bs)
  show ?case
    unfolding from_be_bytes.simps
    by (subst Cons, subst (2) Cons) (simp add: algebra_simps)
qed simp

lemma byte_step:
  fixes w :: "'a::len word"
  assumes "LENGTH('b::len) \<le> LENGTH('a)"
  shows "(ucast (drop_bit (8 * Suc k) w) :: 'b word) * 256 + ucast (ucast (drop_bit (8 * k) w) :: u8)
      = ucast (drop_bit (8 * k) w)"
proof -
  let ?x = "ucast (drop_bit (8 * Suc k) w) :: 'b word"
    and ?y = "ucast (ucast (drop_bit (8 * k) w) :: u8) :: 'b word"
  have "?x * 256 = push_bit 8 ?x"
    by (simp add: push_bit_eq_mult)
  moreover have "push_bit 8 ?x + ?y = push_bit 8 ?x OR ?y"
    by (rule disjunctive_add) (auto simp: bit_simps)
  moreover have "push_bit 8 ?x OR ?y = ucast (drop_bit (8 * k) w)"
    using assms by (intro bit_word_eqI) (auto simp: bit_simps)
  ultimately show ?thesis by simp
qed

lemma from_be_bytes_low:
  fixes w :: "'a::len word"
  assumes "LENGTH('b) \<le> LENGTH('a)"
  shows "from_be_bytes (ucast (drop_bit (8 * k) w))
           (map (\<lambda>i. ucast (drop_bit (8 * i) w)) (rev [0..<k])) = (ucast w :: 'b::len word)"
proof (induction k)
  case 0
  then show ?case by simp
next
  case (Suc k)
  then show ?case
    using byte_step [OF assms, of k w] by simp
qed

text \<open>Reading the last eight bytes of a 32-byte value big endian yields its low 64 bits.\<close>

theorem h256_to_u64_low_bits: "h256_to_u64 v = ucast v"
proof -
  have zero: "(18446744073709551616 :: u64) = 0"
    by simp
  have "h256_to_u64 v =
      from_be_bytes 0 (map (\<lambda>i. ucast (drop_bit (8 * i) v)) (rev [0..<8]))"
    using drop_be_bytes [of 8 v] by (simp add: h256_to_u64_def)
  also have "\<dots> = from_be_bytes (ucast (drop_bit (8 * 8) v))
      (map (\<lambda>i. ucast (drop_bit (8 * i) v)) (rev [0..<8]))"
    by (subst (2) from_be_bytes_acc) (simp add: zero)
  also have "\<dots> = ucast v"
    by (rule from_be_bytes_low) simp
  finally show ?thesis .
qed


definition group_from :: "nat \<Rightarrow> string \<Rightarrow> string" where
  "group_from m xs =
     concat (map (\<lambda>(index, val). if index > 0 \<and> index mod 3 = 0 then [CHR ''_'', val] else [val])
       (enumerate m xs))"

lemma group_from_simps [simp]:
  "group_from m [] = []"
  "group_from m (x # xs) =
     (if m > 0 \<and> m mod 3 = 0 then [CHR ''_'', x] else [x]) @ group_from (Suc m) xs"
  by (simp_all add: group_from_def)

lemma group_from_append: "group_from m (xs @ ys) = group_from m xs @ group_from (m + length xs) ys"
  by (induction xs arbitrary: m) auto

lemma group_from_shift: "0 < m \<Longrightarrow> group_from (m + 3) xs = group_from m xs"
proof (induction xs arbitrary: m)
  case (Cons x xs)
  then have "group_from (Suc m + 3) xs = group_from (Suc m) xs"
    by blast
  then show ?case
    using Cons.prems by simp
qed simp

lemma group_from_three:
  assumes "xs \<noteq> []"
  shows "group_from (Suc (Suc (Suc 0))) xs = CHR ''_'' # group_from 0 xs"
proof (cases xs)
  case Nil
  then show ?thesis using assms by simp
next
  case (Cons x ys)
  have four: "Suc (Suc (Suc (Suc 0))) = Suc 0 + 3"
    by simp
  have "group_from (Suc (Suc (Suc (Suc 0)))) ys = group_from (Suc 0) ys"
    unfolding four by (rule group_from_shift) simp
  then show ?thesis
    by (simp add: Cons)
qed

lemma to_human_size_group: "to_human_size input = rev (group_from 0 (rev (decimal (unat input))))"
  by (simp add: to_human_size_def group_from_def)

definition digit :: "nat \<Rightarrow> char" where
  "digit d = char_of (48 + d)"

lemma decimal_rec:
  "n < 10 \<Longrightarrow> decimal n = [digit n]"
  "10 \<le> n \<Longrightarrow> decimal n = decimal (n div 10) @ [digit (n mod 10)]"
  by (subst decimal.simps; simp add: digit_def)+

lemma decimal_nonempty [simp]: "decimal n \<noteq> []"
  by (subst decimal.simps) simp

lemma decimal_length_small: "n < 1000 \<Longrightarrow> length (decimal n) \<le> 3"
proof -
  assume "n < 1000"
  then have "n div 10 < 10 \<or> 10 \<le> n div 10 \<and> n div 10 div 10 < 10"
    by linarith
  then show ?thesis
    by (cases "n < 10"; cases "n div 10 < 10") (auto simp: decimal_rec not_less)
qed

lemma decimal_thousand:
  assumes "1000 \<le> n"
  shows "decimal n =
         decimal (n div 1000) @ [digit (n div 100 mod 10), digit (n div 10 mod 10), digit (n mod 10)]"
proof -
  have "10 \<le> n" "10 \<le> n div 10" "10 \<le> n div 100"
    using assms by linarith+
  moreover have "n div 10 div 10 = n div 100" "n div 100 div 10 = n div 1000"
    by (simp_all flip: div_mult2_eq)
  ultimately show ?thesis
    by (simp add: decimal_rec(2))
qed

lemma group_from_small: "length xs \<le> 3 \<Longrightarrow> group_from 0 xs = xs"
  by (cases xs; cases "tl xs"; cases "tl (tl xs)") auto

text \<open>Numbers below a thousand are printed in decimal; any other number is printed as its
  thousands, an underscore and its last three digits.\<close>

theorem to_human_size_groups:
  "to_human_size n =
     (if unat n < 1000 then decimal (unat n)
      else to_human_size (n div 1000) @ ''_'' @
        [digit (unat n div 100 mod 10), digit (unat n div 10 mod 10), digit (unat n mod 10)])"
proof (cases "unat n < 1000")
  case True
  then show ?thesis
    using decimal_length_small [of "unat n"] by (simp add: to_human_size_group group_from_small)
next
  case False
  have "unat (n div 1000) = unat n div 1000"
    by (simp add: unat_div)
  then show ?thesis
    using False group_from_three [of "rev (decimal (unat n div 1000))"]
    by (simp add: to_human_size_group decimal_thousand group_from_append)
qed

text \<open>When the price of a transaction's pubdata exceeds its limit, the adjusted L1 gas price never
  panics for a positive limit unless it does not fit 64 bits, and the pubdata price derived from
  it no longer exceeds the limit; otherwise the price is unchanged. The derivation is assumed to
  round \<^verbatim>\<open>17 * l1 / fair\<close> up at most.\<close>

theorem adjusted_price_fits:
  assumes "\<And>l1 fair. 0 < fair \<Longrightarrow>
      unat (snd (derive l1 fair)) \<le> (17 * unat l1 + unat fair - 1) div unat fair"
    and "0 < fair" and "0 < limit"
    and "adjust_l1_gas_price_for_tx derive l1 fair limit = Some l1'"
  shows "(ucast (snd (derive l1' fair)) :: u256) \<le> limit"
proof (cases "(ucast (snd (derive l1 fair)) :: u256) \<le> limit")
  case True
  then show ?thesis
    using assms(4) by (simp add: adjust_l1_gas_price_for_tx_def Let_def)
next
  case False
  define p where "p = unat fair * unat (limit - 1)"
  have l1': "l1' = of_nat (p div 17)" and small: "p div 17 < 2 ^ 64"
    using False assms(4)
    by (auto simp: adjust_l1_gas_price_for_tx_def Let_def p_def split: if_splits)
  have f: "0 < unat fair"
    using assms(2) by (simp add: word_less_nat_alt)
  have l: "0 < unat limit" "unat (limit - 1) = unat limit - 1"
    using assms(3) by (simp_all add: word_less_nat_alt unat_sub_if')
  have "unat l1' = p div 17"
    using small by (simp add: l1' unat_of_nat take_bit_nat_eq_self)
  then have "17 * unat l1' \<le> unat fair * (unat limit - 1)"
    by (simp add: p_def l)
  moreover have "unat limit * unat fair = unat fair * (unat limit - 1) + unat fair"
    using l(1) by (metis Suc_pred' add.commute mult.commute mult_Suc_right)
  ultimately have "17 * unat l1' + unat fair - 1 < unat limit * unat fair"
    using f by linarith
  then have "(17 * unat l1' + unat fair - 1) div unat fair \<le> unat limit"
    by (intro less_imp_le less_mult_imp_div_less)
  then have "unat (snd (derive l1' fair)) \<le> unat limit"
    using assms(1) [OF assms(2), of l1'] by linarith
  then show ?thesis
    by (simp add: word_le_nat_alt unat_ucast_up)
qed


definition example_derive :: "u64 \<Rightarrow> u64 \<Rightarrow> u64 \<times> u64" where
  "example_derive l1 fair = (fair, of_nat ((17 * unat l1) div unat fair))"

theorem adjusted_price_fits_witness:
  "adjust_l1_gas_price_for_tx example_derive 1000 10 100 = Some 58 \<and>
   (ucast (snd (example_derive 58 10)) :: u256) \<le> 100"
proof -
  have a: "adjust_l1_gas_price_for_tx example_derive 1000 10 100 = Some 58"
    by (simp add: adjust_l1_gas_price_for_tx_def example_derive_def)
  have d: "unat (snd (example_derive l1 fair)) \<le> (17 * unat l1 + unat fair - 1) div unat fair"
    if "0 < fair" for l1 fair
  proof -
    have "unat (snd (example_derive l1 fair)) \<le> (17 * unat l1) div unat fair"
      by (simp add: example_derive_def unat_of_nat)
    also have "\<dots> \<le> (17 * unat l1 + unat fair - 1) div unat fair"
      using that by (intro div_le_mono) (simp add: word_less_nat_alt)
    finally show ?thesis .
  qed
  show ?thesis
    using a adjusted_price_fits [OF d _ _ a] by simp
qed

end
