(* ===== verification/Filters.thy ===== *)
theory Filters
  imports Utils
begin

text \<open>
  The installed Ethereum filters of \<^verbatim>\<open>src/.test-node-subtree/src/filters.rs\<close>: block, log and
  pending-transaction filters, each with the updates it has collected since it was last polled.
  The map of filters is an association list because the notifications iterate over it; the
  operations are specified through its \<^const>\<open>map_of\<close>.
\<close>

section \<open>Data\<close>

record BlockFilter =
  bf_updates :: "h256 list"

record LogFilter =
  lf_from_block :: BlockNumber
  lf_to_block :: BlockNumber
  lf_addresses :: "address list"
  lf_topics :: "h256 set option list"  \<comment> \<open>an array of length four\<close>
  lf_updates :: "Log list"

record PendingTransactionFilter =
  pf_updates :: "h256 list"

datatype FilterType =
  FBlock BlockFilter
| FLog LogFilter
| FPendingTransaction PendingTransactionFilter

datatype FilterChanges =
  Hashes "h256 list"
| Logs "Log list"
| EmptyChanges

record EthFilters =
  id_counter :: u256
  filters :: "(u256 \<times> FilterType) list"

definition EthFilters_default :: EthFilters where
  "EthFilters_default = \<lparr>id_counter = 0, filters = []\<rparr>"

definition LogFilter_new ::
  "BlockNumber \<Rightarrow> BlockNumber \<Rightarrow> address list \<Rightarrow> h256 set option list \<Rightarrow> LogFilter" where
  "LogFilter_new from_block to_block addresses topics =
     \<lparr>lf_from_block = from_block, lf_to_block = to_block, lf_addresses = addresses,
      lf_topics = topics, lf_updates = []\<rparr>"

section \<open>Matching a log\<close>

text \<open>The loop over \<^verbatim>\<open>log.topics.iter().take(4).enumerate()\<close> clears the entry of the array
  \<^verbatim>\<open>matched_topic\<close> of every topic that a non-empty topic set does not contain.\<close>

fun match_topics :: "h256 set option list \<Rightarrow> (nat \<times> h256) list \<Rightarrow> bool list \<Rightarrow> bool list" where
  "match_topics topics [] matched = matched"
| "match_topics topics ((i, topic) # rest) matched =
     match_topics topics rest
       (case topics ! i of
          Some topic_set \<Rightarrow>
            if topic_set \<noteq> {} \<and> topic \<notin> topic_set then matched[i := False] else matched
        | None \<Rightarrow> matched)"

text \<open>\<^const>\<open>None\<close> is the panic of \<^verbatim>\<open>expect("block number must exist")\<close>.\<close>

definition matches :: "LogFilter \<Rightarrow> Log \<Rightarrow> u64 \<Rightarrow> bool option" where
  "matches f lg latest_block_number =
     (let from_bn = to_real_block_number (lf_from_block f) latest_block_number;
          to_bn = to_real_block_number (lf_to_block f) latest_block_number
      in case log_block_number lg of
           None \<Rightarrow> None
         | Some n \<Rightarrow>
             if n < from_bn \<or> to_bn < n then Some False
             else if lf_addresses f \<noteq> [] \<and>
                     list_all (\<lambda>address. address \<noteq> log_address lg) (lf_addresses f)
             then Some False
             else Some (list_all (\<lambda>m. m)
                    (match_topics (lf_topics f) (enumerate 0 (take 4 (log_topics lg)))
                       (replicate 4 True))))"

section \<open>Operations\<close>

definition add_block_filter :: "EthFilters \<Rightarrow> (string, u256) rust \<times> EthFilters" where
  "add_block_filter s =
     (case checked_add (id_counter s) 1 of
        None \<Rightarrow> (Err ''overflow'', s)
      | Some i \<Rightarrow>
          (Ok i, s\<lparr>id_counter := i,
                   filters := AList.update i (FBlock \<lparr>bf_updates = []\<rparr>) (filters s)\<rparr>))"

definition add_log_filter ::
  "BlockNumber \<Rightarrow> BlockNumber \<Rightarrow> address list \<Rightarrow> h256 set option list \<Rightarrow>
   EthFilters \<Rightarrow> (string, u256) rust \<times> EthFilters" where
  "add_log_filter from_block to_block addresses topics s =
     (case checked_add (id_counter s) 1 of
        None \<Rightarrow> (Err ''overflow'', s)
      | Some i \<Rightarrow>
          (Ok i, s\<lparr>id_counter := i,
                   filters := AList.update i
                     (FLog \<lparr>lf_from_block = from_block, lf_to_block = to_block,
                             lf_addresses = addresses, lf_topics = topics, lf_updates = []\<rparr>)
                     (filters s)\<rparr>))"

definition add_pending_transaction_filter :: "EthFilters \<Rightarrow> (string, u256) rust \<times> EthFilters" where
  "add_pending_transaction_filter s =
     (case checked_add (id_counter s) 1 of
        None \<Rightarrow> (Err ''overflow'', s)
      | Some i \<Rightarrow>
          (Ok i, s\<lparr>id_counter := i,
                   filters := AList.update i (FPendingTransaction \<lparr>pf_updates = []\<rparr>) (filters s)\<rparr>))"

definition remove_filter :: "u256 \<Rightarrow> EthFilters \<Rightarrow> bool \<times> EthFilters" where
  "remove_filter i s =
     (map_of (filters s) i \<noteq> None, s\<lparr>filters := AList.delete i (filters s)\<rparr>)"

fun take_updates :: "FilterType \<Rightarrow> FilterChanges \<times> FilterType" where
  "take_updates (FBlock f) =
     (if bf_updates f = [] then (EmptyChanges, FBlock f)
      else (Hashes (bf_updates f), FBlock (f\<lparr>bf_updates := []\<rparr>)))"
| "take_updates (FLog f) =
     (if lf_updates f = [] then (EmptyChanges, FLog f)
      else (Logs (lf_updates f), FLog (f\<lparr>lf_updates := []\<rparr>)))"
| "take_updates (FPendingTransaction f) =
     (if pf_updates f = [] then (EmptyChanges, FPendingTransaction f)
      else (Hashes (pf_updates f), FPendingTransaction (f\<lparr>pf_updates := []\<rparr>)))"

definition get_new_changes :: "u256 \<Rightarrow> EthFilters \<Rightarrow> (string, FilterChanges) rust \<times> EthFilters" where
  "get_new_changes i s =
     (case map_of (filters s) i of
        None \<Rightarrow> (Err ''invalid filter'', s)
      | Some flt \<Rightarrow>
          (case take_updates flt of
             (changes, flt') \<Rightarrow> (Ok changes, s\<lparr>filters := AList.update i flt' (filters s)\<rparr>)))"

definition get_filter :: "u256 \<Rightarrow> EthFilters \<Rightarrow> FilterType option" where
  "get_filter i s = map_of (filters s) i"

fun push_block :: "h256 \<Rightarrow> FilterType \<Rightarrow> FilterType" where
  "push_block hash (FBlock f) = FBlock (f\<lparr>bf_updates := bf_updates f @ [hash]\<rparr>)"
| "push_block hash flt = flt"

fun push_pending :: "h256 \<Rightarrow> FilterType \<Rightarrow> FilterType" where
  "push_pending hash (FPendingTransaction f) =
     FPendingTransaction (f\<lparr>pf_updates := pf_updates f @ [hash]\<rparr>)"
| "push_pending hash flt = flt"

fun push_log :: "Log \<Rightarrow> u64 \<Rightarrow> FilterType \<Rightarrow> FilterType option" where
  "push_log lg latest (FLog f) =
     (case matches f lg latest of
        None \<Rightarrow> None
      | Some b \<Rightarrow> Some (FLog (if b then f\<lparr>lf_updates := lf_updates f @ [lg]\<rparr> else f)))"
| "push_log lg latest flt = Some flt"

definition notify_new_block :: "h256 \<Rightarrow> EthFilters \<Rightarrow> EthFilters" where
  "notify_new_block hash s = s\<lparr>filters := map (\<lambda>(i, flt). (i, push_block hash flt)) (filters s)\<rparr>"

definition notify_new_pending_transaction :: "h256 \<Rightarrow> EthFilters \<Rightarrow> EthFilters" where
  "notify_new_pending_transaction hash s =
     s\<lparr>filters := map (\<lambda>(i, flt). (i, push_pending hash flt)) (filters s)\<rparr>"

text \<open>The loop of \<^verbatim>\<open>notify_new_log\<close> updates the entries in place and stops at a panic; the second
  component is the list as the loop leaves it.\<close>

fun notify_log_loop ::
  "Log \<Rightarrow> u64 \<Rightarrow> (u256 \<times> FilterType) list \<Rightarrow> (string, unit) rust \<times> (u256 \<times> FilterType) list" where
  "notify_log_loop lg latest [] = (Ok (), [])"
| "notify_log_loop lg latest ((i, flt) # rest) =
     (case push_log lg latest flt of
        None \<Rightarrow> (Panic, (i, flt) # rest)
      | Some flt' \<Rightarrow> (case notify_log_loop lg latest rest of (r, rest') \<Rightarrow> (r, (i, flt') # rest')))"

definition notify_new_log :: "Log \<Rightarrow> u64 \<Rightarrow> EthFilters \<Rightarrow> (string, unit) rust \<times> EthFilters" where
  "notify_new_log lg latest_block_number s =
     (case notify_log_loop lg latest_block_number (filters s) of
        (r, fs) \<Rightarrow> (r, s\<lparr>filters := fs\<rparr>))"


section \<open>Matching, characterised\<close>

lemma match_topics_length [simp]: "length (match_topics topics es m) = length m"
  by (induction topics es m rule: match_topics.induct) (auto split: option.splits)

lemma match_topics_all:
  assumes "\<forall>(i, t) \<in> set es. i < length m"
  shows "list_all (\<lambda>m. m) (match_topics topics es m) \<longleftrightarrow>
         list_all (\<lambda>m. m) m \<and>
         (\<forall>(i, t) \<in> set es. case topics ! i of None \<Rightarrow> True | Some S \<Rightarrow> S = {} \<or> t \<in> S)"
  using assms
proof (induction topics es m rule: match_topics.induct)
  case (1 topics m)
  then show ?case by simp
next
  case (2 topics i t rest m)
  have upd: "\<not> list_all (\<lambda>m. m) (m[i := False])"
    using 2(2) by (auto simp: list_all_length intro!: exI [of _ i])
  show ?case
  proof (cases "case topics ! i of None \<Rightarrow> True | Some S \<Rightarrow> S = {} \<or> t \<in> S")
    case True
    then have "match_topics topics ((i, t) # rest) m = match_topics topics rest m"
      by (auto split: option.splits)
    then show ?thesis
      using True 2 by (auto split: option.splits)
  next
    case False
    then obtain S where S: "topics ! i = Some S" "S \<noteq> {}" "t \<notin> S"
      by (auto split: option.splits)
    then show ?thesis
      using 2 upd by auto
  qed
qed

lemma enumerate_set: "set (enumerate 0 xs) = {(i, x). i < length xs \<and> xs ! i = x}"
  by (force simp: in_set_enumerate_eq)

lemma matches_Some_True:
  "matches f lg latest = Some True \<longleftrightarrow>
   (\<exists>n. log_block_number lg = Some n \<and>
        to_real_block_number (lf_from_block f) latest \<le> n \<and>
        n \<le> to_real_block_number (lf_to_block f) latest) \<and>
   (lf_addresses f = [] \<or> log_address lg \<in> set (lf_addresses f)) \<and>
   (\<forall>i < min 4 (length (log_topics lg)).
      case lf_topics f ! i of None \<Rightarrow> True | Some S \<Rightarrow> S = {} \<or> log_topics lg ! i \<in> S)"
proof (cases "log_block_number lg")
  case None
  then show ?thesis by (simp add: matches_def)
next
  case (Some n)
  let ?es = "enumerate 0 (take 4 (log_topics lg))"
  have "list_all (\<lambda>m. m) (match_topics (lf_topics f) ?es (replicate 4 True)) \<longleftrightarrow>
        (\<forall>(i, t) \<in> set ?es. case lf_topics f ! i of None \<Rightarrow> True | Some S \<Rightarrow> S = {} \<or> t \<in> S)"
    by (subst match_topics_all) (auto simp: enumerate_set list_all_length)
  also have "\<dots> \<longleftrightarrow> (\<forall>i < min 4 (length (log_topics lg)).
      case lf_topics f ! i of None \<Rightarrow> True | Some S \<Rightarrow> S = {} \<or> log_topics lg ! i \<in> S)"
    by (auto simp: enumerate_set split: option.splits)
  finally show ?thesis
    using Some by (auto simp: matches_def Let_def not_less list_all_iff)
qed

lemma matches_None [simp]: "matches f lg latest = None \<longleftrightarrow> log_block_number lg = None"
  by (auto simp: matches_def Let_def split: option.splits)


lemma matches_no_block [simp]: "log_block_number lg = None \<Longrightarrow> matches f lg n = None"
  by simp

section \<open>The contract of a subscription\<close>

text \<open>What a client of the filters relies on: between two polls the queue of a subscriber grows by
  exactly what each operation delivers to its (immutable) descriptor, in the order of the
  operations.\<close>

locale subscription =
  fixes apply_op :: "'op \<Rightarrow> 's \<Rightarrow> 's"
    and inv :: "'s \<Rightarrow> bool"
    and subscriber :: "'s \<Rightarrow> 'id \<Rightarrow> ('k \<times> 'u list) option"
    and delivers :: "'op \<Rightarrow> 'k \<Rightarrow> 'u list"
    and touches :: "'op \<Rightarrow> 'id \<Rightarrow> bool"
  assumes inv_apply: "inv s \<Longrightarrow> inv (apply_op op s)"
    and subscriber_apply:
      "inv s \<Longrightarrow> \<not> touches op i \<Longrightarrow> subscriber s i = Some (k, q) \<Longrightarrow>
       subscriber (apply_op op s) i = Some (k, q @ delivers op k)"
begin

lemma inv_run: "inv s \<Longrightarrow> inv (fold apply_op ops s)"
  by (induction ops arbitrary: s) (auto intro: inv_apply)

lemma subscriber_run:
  assumes "inv s" and "\<forall>op \<in> set ops. \<not> touches op i" and "subscriber s i = Some (k, q)"
  shows "subscriber (fold apply_op ops s) i =
         Some (k, q @ concat (map (\<lambda>op. delivers op k) ops))"
  using assms
proof (induction ops arbitrary: s q)
  case Nil
  then show ?case by simp
next
  case (Cons op ops)
  then have "subscriber (apply_op op s) i = Some (k, q @ delivers op k)"
    by (simp add: subscriber_apply)
  then show ?case
    using Cons inv_apply by fastforce
qed

end

section \<open>Operations as a sequence of calls\<close>

datatype filter_op =
  AddBlock
| AddLog BlockNumber BlockNumber "address list" "h256 set option list"
| AddPending
| Remove u256
| Poll u256
| NotifyBlock h256
| NotifyPending h256
| NotifyLog Log u64

fun apply_filter_op :: "filter_op \<Rightarrow> EthFilters \<Rightarrow> EthFilters" where
  "apply_filter_op AddBlock s = snd (add_block_filter s)"
| "apply_filter_op (AddLog f t a ts) s = snd (add_log_filter f t a ts s)"
| "apply_filter_op AddPending s = snd (add_pending_transaction_filter s)"
| "apply_filter_op (Remove i) s = snd (remove_filter i s)"
| "apply_filter_op (Poll i) s = snd (get_new_changes i s)"
| "apply_filter_op (NotifyBlock h) s = notify_new_block h s"
| "apply_filter_op (NotifyPending h) s = notify_new_pending_transaction h s"
| "apply_filter_op (NotifyLog lg n) s = snd (notify_new_log lg n s)"

text \<open>An update is a block or transaction hash, or a log. The descriptor of a filter is the filter
  without its updates.\<close>

datatype update = UHash h256 | ULog Log

fun updates :: "FilterType \<Rightarrow> update list" where
  "updates (FBlock f) = map UHash (bf_updates f)"
| "updates (FLog f) = map ULog (lf_updates f)"
| "updates (FPendingTransaction f) = map UHash (pf_updates f)"

fun descriptor :: "FilterType \<Rightarrow> FilterType" where
  "descriptor (FBlock f) = FBlock (f\<lparr>bf_updates := []\<rparr>)"
| "descriptor (FLog f) = FLog (f\<lparr>lf_updates := []\<rparr>)"
| "descriptor (FPendingTransaction f) = FPendingTransaction (f\<lparr>pf_updates := []\<rparr>)"

text \<open>What an operation delivers to a filter, stated from the outside.\<close>

fun delivers :: "filter_op \<Rightarrow> FilterType \<Rightarrow> update list" where
  "delivers (NotifyBlock h) (FBlock _) = [UHash h]"
| "delivers (NotifyPending h) (FPendingTransaction _) = [UHash h]"
| "delivers (NotifyLog lg n) (FLog f) = (if matches f lg n = Some True then [ULog lg] else [])"
| "delivers _ _ = []"

fun touches :: "filter_op \<Rightarrow> u256 \<Rightarrow> bool" where
  "touches (Remove j) i = (i = j)"
| "touches (Poll j) i = (i = j)"
| "touches _ i = False"

text \<open>The invariant of the registry: ids are handed out in increasing order and never reused,
  and every id occurs once.\<close>

definition filters_wf :: "EthFilters \<Rightarrow> bool" where
  "filters_wf s \<longleftrightarrow> distinct (map fst (filters s)) \<and>
     (\<forall>i \<in> fst ` set (filters s). 0 < i \<and> i \<le> id_counter s)"

definition subscriber :: "EthFilters \<Rightarrow> u256 \<Rightarrow> (FilterType \<times> update list) option" where
  "subscriber s i = map_option (\<lambda>flt. (descriptor flt, updates flt)) (map_of (filters s) i)"


lemma notify_log_loop_None:
  "log_block_number lg = None \<Longrightarrow> snd (notify_log_loop lg n fs) = fs"
proof (induction lg n fs rule: notify_log_loop.induct)
  case (2 lg latest i flt rest)
  then show ?case by (cases flt) (auto split: prod.splits option.splits)
qed simp

lemma push_log_Some: "log_block_number lg \<noteq> None \<Longrightarrow> \<exists>flt'. push_log lg n flt = Some flt'"
  by (cases flt) (auto split: option.splits)

lemma notify_log_loop_Some:
  "log_block_number lg \<noteq> None \<Longrightarrow>
   notify_log_loop lg n fs = (Ok (), map (\<lambda>(i, flt). (i, the (push_log lg n flt))) fs)"
proof (induction lg n fs rule: notify_log_loop.induct)
  case (2 lg latest i flt rest)
  then show ?case using push_log_Some [of lg latest flt] by auto
qed simp

lemma notify_new_log_ok:
  "log_block_number lg \<noteq> None \<Longrightarrow> notify_new_log lg n s =
     (Ok (), s\<lparr>filters := map (\<lambda>(i, flt). (i, the (push_log lg n flt))) (filters s)\<rparr>)"
  by (simp add: notify_new_log_def notify_log_loop_Some)

lemma updates_push_block [simp]:
  "updates (push_block h flt) = updates flt @ delivers (NotifyBlock h) (descriptor flt)"
  "descriptor (push_block h flt) = descriptor flt"
  by (cases flt; simp)+

lemma updates_push_pending [simp]:
  "updates (push_pending h flt) = updates flt @ delivers (NotifyPending h) (descriptor flt)"
  "descriptor (push_pending h flt) = descriptor flt"
  by (cases flt; simp)+

lemma matches_updates [simp]: "matches (f\<lparr>lf_updates := us\<rparr>) lg n = matches f lg n"
  by (cases "log_block_number lg") (simp_all add: matches_def)

lemma updates_push_log:
  "push_log lg n flt = Some flt' \<Longrightarrow>
   updates flt' = updates flt @ delivers (NotifyLog lg n) (descriptor flt) \<and>
   descriptor flt' = descriptor flt"
  by (cases flt) (auto split: option.splits)

lemma subscriber_notify_log:
  assumes "subscriber s i = Some (k, q)"
  shows "subscriber (snd (notify_new_log lg n s)) i = Some (k, q @ delivers (NotifyLog lg n) k)"
proof (cases "log_block_number lg = None")
  case True
  then have "delivers (NotifyLog lg n) k = []"
    by (cases k) (simp_all add: matches_def)
  moreover have "snd (notify_new_log lg n s) = s"
    using notify_log_loop_None [OF True, of n "filters s"]
    by (auto simp: notify_new_log_def split: prod.splits)
  ultimately show ?thesis using assms by simp
next
  case False
  obtain flt where flt: "map_of (filters s) i = Some flt" "k = descriptor flt" "q = updates flt"
    using assms by (auto simp: subscriber_def)
  obtain flt' where "push_log lg n flt = Some flt'"
    using push_log_Some [OF False] by blast
  then show ?thesis
    using updates_push_log [of lg n flt flt'] False flt
    by (simp add: subscriber_def notify_new_log_ok map_of_map_keyed)
qed

lemma map_of_fresh:
  assumes "filters_wf s" and "checked_add (id_counter s) 1 = Some i"
  shows "map_of (filters s) i = None"
proof -
  have "id_counter s < i"
    using checked_add_Some [OF assms(2)] by (simp add: word_less_nat_alt)
  then have "i \<notin> fst ` set (filters s)"
    using assms(1) by (force simp: filters_wf_def)
  then show ?thesis
    by (simp add: map_of_eq_None_iff)
qed

lemma subscriber_install:
  assumes "filters_wf s" and "checked_add (id_counter s) 1 = Some j"
    and "subscriber s i = Some (k, q)"
  shows "subscriber (s\<lparr>id_counter := j, filters := AList.update j flt (filters s)\<rparr>) i = Some (k, q)"
  using map_of_fresh [OF assms(1,2)] assms(3) by (auto simp: subscriber_def)

lemma filters_wf_install:
  assumes "filters_wf s" and "checked_add (id_counter s) 1 = Some j"
  shows "filters_wf (s\<lparr>id_counter := j, filters := AList.update j flt (filters s)\<rparr>)"
proof -
  have j: "id_counter s < j"
    using checked_add_Some [OF assms(2)] by (simp add: word_less_nat_alt)
  then have "0 < j" by (metis word_neq_0_conv word_not_simps(1))
  have "i \<le> j" if "i \<le> id_counter s" for i using that j by simp
  then show ?thesis
    using assms \<open>0 < j\<close>
    by (fastforce simp: filters_wf_def dom_update[unfolded dom_map_of_conv_image_fst] distinct_update)
qed


lemma take_updates_facts:
  assumes "take_updates flt = (c, flt')"
  shows "descriptor flt' = descriptor flt" and "updates flt' = []"
  using assms by (cases flt; auto split: if_splits)+

lemma map_fst_keyed [simp]: "map fst (map (\<lambda>(k, v). (k, f k v)) al) = map fst al"
  by (induction al) auto

lemma filters_wf_map:
  "map fst fs = map fst (filters s) \<Longrightarrow> filters_wf (s\<lparr>filters := fs\<rparr>) = filters_wf s"
  unfolding filters_wf_def by (simp flip: set_map)

lemma filters_wf_keyed [simp]:
  "filters_wf (s\<lparr>filters := map (\<lambda>(k, v). (k, f k v)) (filters s)\<rparr>) = filters_wf s"
  by (rule filters_wf_map) (rule map_fst_keyed)

lemma map_fst_notify_log_loop:
  "map fst (snd (notify_log_loop lg n fs)) = map fst fs"
  by (induction lg n fs rule: notify_log_loop.induct) (auto split: option.splits prod.splits)

lemma map_fst_update_present:
  "k \<in> fst ` set al \<Longrightarrow> map fst (AList.update k v al) = map fst al"
  by (induction al) auto

lemma filters_wf_poll:
  assumes "filters_wf s"
  shows "filters_wf (snd (get_new_changes i s))"
proof (cases "map_of (filters s) i")
  case None
  then show ?thesis using assms by (simp add: get_new_changes_def)
next
  case (Some flt)
  then have "i \<in> fst ` set (filters s)"
    by (metis map_of_eq_None_iff option.distinct(1))
  then show ?thesis
    using Some assms
    by (simp add: get_new_changes_def filters_wf_map map_fst_update_present split: prod.splits)
qed

lemma filters_wf_remove:
  assumes "filters_wf s"
  shows "filters_wf (snd (remove_filter i s))"
  using assms
  by (auto simp: remove_filter_def filters_wf_def AList.delete_eq distinct_map_filter)

lemma filters_wf_apply: "filters_wf s \<Longrightarrow> filters_wf (apply_filter_op op s)"
proof (cases op)
  case (NotifyLog lg n)
  assume "filters_wf s"
  then show ?thesis
    using NotifyLog map_fst_notify_log_loop [of lg n "filters s"]
    by (auto simp: notify_new_log_def filters_wf_map split: prod.splits)
qed (auto simp: add_block_filter_def add_log_filter_def add_pending_transaction_filter_def
    filters_wf_install filters_wf_remove filters_wf_poll notify_new_block_def
    notify_new_pending_transaction_def filters_wf_map split: option.splits)

lemma subscriber_apply:
  assumes "filters_wf s" and "\<not> touches op i" and "subscriber s i = Some (k, q)"
  shows "subscriber (apply_filter_op op s) i = Some (k, q @ delivers op k)"
proof (cases op)
  case (NotifyLog lg n)
  then show ?thesis using assms subscriber_notify_log by simp
next
  case (Poll j)
  then show ?thesis
    using assms by (auto simp: get_new_changes_def subscriber_def split: option.splits prod.splits)
qed (use assms in \<open>auto simp: add_block_filter_def add_log_filter_def
    add_pending_transaction_filter_def remove_filter_def subscriber_install notify_new_block_def
    notify_new_pending_transaction_def subscriber_def map_of_map_keyed
    dest: map_of_fresh split: option.splits\<close>)

interpretation eth_filters:
  subscription apply_filter_op filters_wf subscriber delivers touches
  by unfold_locales (auto intro: filters_wf_apply subscriber_apply)


section \<open>Properties\<close>

text \<open>The answer to a poll with the given collected updates.\<close>

definition changes_of :: "FilterType \<Rightarrow> update list \<Rightarrow> FilterChanges" where
  "changes_of k us =
     (if us = [] then EmptyChanges
      else case k of
        FLog _ \<Rightarrow> Logs (concat (map (\<lambda>u. case u of ULog lg \<Rightarrow> [lg] | UHash _ \<Rightarrow> []) us))
      | _ \<Rightarrow> Hashes (concat (map (\<lambda>u. case u of UHash h \<Rightarrow> [h] | ULog _ \<Rightarrow> []) us)))"

lemma concat_map_singletons [simp]:
  "concat (map ((\<lambda>u. case u of ULog lg \<Rightarrow> [lg] | UHash _ \<Rightarrow> []) \<circ> ULog) xs) = xs"
  "concat (map ((\<lambda>u. case u of UHash h \<Rightarrow> [h] | ULog _ \<Rightarrow> []) \<circ> UHash) hs) = hs"
  by (induction xs) (auto, induction hs, auto)

lemma descriptor_idem_empty: "updates flt = [] \<Longrightarrow> flt = descriptor flt"
  by (cases flt) auto

lemma take_updates_changes:
  "take_updates flt = (changes_of (descriptor flt) (updates flt), descriptor flt)"
  by (cases flt) (auto simp: changes_of_def)

lemma get_new_changes_subscriber:
  assumes "subscriber s i = Some (k, us)"
  shows "get_new_changes i s =
         (Ok (changes_of k us), s\<lparr>filters := AList.update i k (filters s)\<rparr>)"
  using assms by (auto simp: subscriber_def get_new_changes_def take_updates_changes)

text \<open>C28: A poll of a filter returns the updates it already held followed by exactly what the calls
  since then delivered to it (every notification that concerns it, none other, in order), whatever
  other filters were installed, polled or removed in between; afterwards the filter is empty.\<close>

theorem poll_delivers_exactly:
  assumes "filters_wf s" and "get_filter i s = Some flt"
    and "\<forall>op \<in> set ops. \<not> touches op i"
  shows "\<exists>s'. get_new_changes i (fold apply_filter_op ops s) =
           (Ok (changes_of (descriptor flt)
              (updates flt @ concat (map (\<lambda>op. delivers op (descriptor flt)) ops))), s')
         \<and> get_filter i s' = Some (descriptor flt)"
proof -
  have "subscriber s i = Some (descriptor flt, updates flt)"
    using assms(2) by (simp add: subscriber_def get_filter_def)
  from eth_filters.subscriber_run [OF assms(1,3) this]
  show ?thesis
    by (simp add: get_new_changes_subscriber get_filter_def)
qed

theorem poll_delivers_exactly_witness:
  "\<exists>s'. get_new_changes 1
      (fold apply_filter_op [NotifyBlock 5, AddPending, NotifyPending 9, NotifyBlock 6]
         (snd (add_block_filter EthFilters_default))) = (Ok (Hashes [5, 6]), s')
    \<and> get_filter 1 s' = Some (FBlock \<lparr>bf_updates = []\<rparr>)"
  using poll_delivers_exactly
    [of "snd (add_block_filter EthFilters_default)" 1 "FBlock \<lparr>bf_updates = []\<rparr>"
        "[NotifyBlock 5, AddPending, NotifyPending 9, NotifyBlock 6]"]
  by (simp add: add_block_filter_def EthFilters_default_def checked_add_def filters_wf_def
      get_filter_def changes_of_def)

text \<open>A log filter accepts a log exactly when the log's block lies in the resolved range, its
  address is one of the filter's (or the filter names none) and each of the log's first four
  topics is in the filter's set at that position (or that set is absent or empty). Positions
  beyond the log's own topics impose nothing.\<close>

theorem matches_iff:
  "matches f lg latest = Some True \<longleftrightarrow>
   (\<exists>n. log_block_number lg = Some n \<and>
        to_real_block_number (lf_from_block f) latest \<le> n \<and>
        n \<le> to_real_block_number (lf_to_block f) latest) \<and>
   (lf_addresses f = [] \<or> log_address lg \<in> set (lf_addresses f)) \<and>
   (\<forall>i < min 4 (length (log_topics lg)).
      lf_topics f ! i = None \<or>
      (\<exists>S. lf_topics f ! i = Some S \<and> (S = {} \<or> log_topics lg ! i \<in> S)))"
  unfolding matches_Some_True case_option_True_iff by simp

theorem matches_iff_witness:
  "matches (LogFilter_new (Number 2) Latest [7] [Some {5}, None, None, None])
     \<lparr>log_address = 7, log_topics = [5, 6], log_data = [], log_block_hash = None,
      log_block_number = Some 3, log_l1_batch_number = None, log_transaction_hash = None,
      log_transaction_index = None, log_log_index = None, log_transaction_log_index = None,
      log_removed = None\<rparr> 4 = Some True"
  unfolding matches_iff by (auto simp: LogFilter_new_def less_Suc_eq)

text \<open>A filter that requires a second topic still accepts a log that has one topic only, while
  the documentation of \<^verbatim>\<open>eth_newFilter\<close> asks for that topic in second position.\<close>

theorem short_log_matches:
  "matches
     \<lparr>lf_from_block = Earliest, lf_to_block = Latest, lf_addresses = [],
      lf_topics = [None, Some {b}, None, None], lf_updates = []\<rparr>
     \<lparr>log_address = a, log_topics = [t], log_data = d, log_block_hash = bh,
      log_block_number = Some 1, log_l1_batch_number = l1, log_transaction_hash = th,
      log_transaction_index = ti, log_log_index = li, log_transaction_log_index = tli,
      log_removed = r\<rparr> 1 = Some True"
  by (simp add: matches_def numeral_eq_Suc)

text \<open>What installing a filter promises, for each outcome.\<close>

definition install_spec ::
  "FilterType \<Rightarrow> EthFilters \<Rightarrow> (string, u256) rust \<times> EthFilters \<Rightarrow> bool" where
  "install_spec flt s res =
     (case res of
        (Ok i, s') \<Rightarrow>
          unat i = Suc (unat (id_counter s)) \<and> get_filter i s = None \<and> get_filter i s' = Some flt \<and>
          (\<forall>j. j \<noteq> i \<longrightarrow> get_filter j s' = get_filter j s) \<and> filters_wf s'
      | (Err e, s') \<Rightarrow> e = ''overflow'' \<and> s' = s \<and> id_counter s = - 1
      | (Panic, s') \<Rightarrow> False)"

lemma install_spec_intro:
  assumes "filters_wf s"
  shows "install_spec flt s
     (case checked_add (id_counter s) 1 of
        None \<Rightarrow> (Err ''overflow'', s)
      | Some i \<Rightarrow> (Ok i, s\<lparr>id_counter := i, filters := AList.update i flt (filters s)\<rparr>))"
proof (cases "checked_add (id_counter s) 1")
  case None
  then have "id_counter s = - 1"
    by (simp only: checked_add_one_None)
  then show ?thesis
    unfolding None by (simp add: install_spec_def)
next
  case (Some i)
  then show ?thesis
    using assms map_of_fresh [OF assms Some] checked_add_Some [OF Some]
    by (simp add: install_spec_def get_filter_def filters_wf_install)
qed

text \<open>Installing a filter returns the next id, which no installed filter had, leaves every other
  filter alone and keeps the registry well formed; when the counter is exhausted it returns the
  overflow error and the registry is unchanged.\<close>

theorem install_fresh:
  assumes "filters_wf s"
  shows "install_spec (FBlock \<lparr>bf_updates = []\<rparr>) s (add_block_filter s)
    \<and> install_spec (FLog (LogFilter_new fb tb ads tps)) s (add_log_filter fb tb ads tps s)
    \<and> install_spec (FPendingTransaction \<lparr>pf_updates = []\<rparr>) s (add_pending_transaction_filter s)"
  using install_spec_intro [OF assms]
  by (simp add: add_block_filter_def add_log_filter_def add_pending_transaction_filter_def
      LogFilter_new_def)

theorem install_fresh_witness:
  "install_spec (FBlock \<lparr>bf_updates = []\<rparr>) EthFilters_default (add_block_filter EthFilters_default)"
  using install_fresh [of EthFilters_default Latest Latest "[]" "[]"]
  by (simp add: filters_wf_def EthFilters_default_def)

end
