(* ===== verification/ShowOptions.thy ===== *)
theory ShowOptions
  imports Prelude
begin

text \<open>
  The display options of the node (\<^verbatim>\<open>src/.test-node-subtree/src/node/in_memory.rs\<close>) with their parsers
  (\<^verbatim>\<open>FromStr\<close>) and printers (\<^verbatim>\<open>Display\<close>), and the log levels of \<^verbatim>\<open>observability.rs\<close>. The parsers lower
  the case of their input first; characters are those of ASCII.
\<close>

datatype ShowCalls = ShowCallsNone | ShowCallsUser | ShowCallsSystem | ShowCallsAll
datatype ShowStorageLogs =
  ShowStorageNone | ShowStorageRead | ShowStorageWrite | ShowStoragePaid | ShowStorageAll
datatype ShowVMDetails = ShowVMNone | ShowVMAll
datatype ShowGasDetails = ShowGasNone | ShowGasAll

definition to_lower_char :: "char \<Rightarrow> char" where
  "to_lower_char c =
     (let n = of_char c :: nat in if 65 \<le> n \<and> n \<le> 90 then char_of (n + 32) else c)"

definition to_lowercase :: "string \<Rightarrow> string" where
  "to_lowercase s = map to_lower_char s"

definition parse_show_calls :: "string \<Rightarrow> (string, ShowCalls) rust" where
  "parse_show_calls s =
     (let l = to_lowercase s
      in if l = ''none'' then Ok ShowCallsNone
         else if l = ''user'' then Ok ShowCallsUser
         else if l = ''system'' then Ok ShowCallsSystem
         else if l = ''all'' then Ok ShowCallsAll
         else Err (''Unknown ShowCalls value '' @ s @ '' - expected one of none|user|system|all.''))"

fun print_show_calls :: "ShowCalls \<Rightarrow> string" where
  "print_show_calls ShowCallsNone = ''None''"
| "print_show_calls ShowCallsUser = ''User''"
| "print_show_calls ShowCallsSystem = ''System''"
| "print_show_calls ShowCallsAll = ''All''"

definition parse_show_storage_logs :: "string \<Rightarrow> (string, ShowStorageLogs) rust" where
  "parse_show_storage_logs s =
     (let l = to_lowercase s
      in if l = ''none'' then Ok ShowStorageNone
         else if l = ''read'' then Ok ShowStorageRead
         else if l = ''write'' then Ok ShowStorageWrite
         else if l = ''paid'' then Ok ShowStoragePaid
         else if l = ''all'' then Ok ShowStorageAll
         else Err (''Unknown ShowStorageLogs value '' @ s @
                   '' - expected one of none|read|write|paid|all.''))"

fun print_show_storage_logs :: "ShowStorageLogs \<Rightarrow> string" where
  "print_show_storage_logs ShowStorageNone = ''None''"
| "print_show_storage_logs ShowStorageRead = ''Read''"
| "print_show_storage_logs ShowStorageWrite = ''Write''"
| "print_show_storage_logs ShowStoragePaid = ''Paid''"
| "print_show_storage_logs ShowStorageAll = ''All''"

definition parse_show_vm_details :: "string \<Rightarrow> (string, ShowVMDetails) rust" where
  "parse_show_vm_details s =
     (let l = to_lowercase s
      in if l = ''none'' then Ok ShowVMNone
         else if l = ''all'' then Ok ShowVMAll
         else Err (''Unknown ShowVMDetails value '' @ s @ '' - expected one of none|all.''))"

fun print_show_vm_details :: "ShowVMDetails \<Rightarrow> string" where
  "print_show_vm_details ShowVMNone = ''None''"
| "print_show_vm_details ShowVMAll = ''All''"

definition parse_show_gas_details :: "string \<Rightarrow> (string, ShowGasDetails) rust" where
  "parse_show_gas_details s =
     (let l = to_lowercase s
      in if l = ''none'' then Ok ShowGasNone
         else if l = ''all'' then Ok ShowGasAll
         else Err (''Unknown ShowGasDetails value '' @ s @ '' - expected one of none|all.''))"

fun print_show_gas_details :: "ShowGasDetails \<Rightarrow> string" where
  "print_show_gas_details ShowGasNone = ''None''"
| "print_show_gas_details ShowGasAll = ''All''"

section \<open>Log levels\<close>

datatype LogLevel = Trace | Debug | Info | Warn | Error

fun print_log_level :: "LogLevel \<Rightarrow> string" where
  "print_log_level Trace = ''TRACE''"
| "print_log_level Debug = ''DEBUG''"
| "print_log_level Info = ''INFO''"
| "print_log_level Warn = ''WARN''"
| "print_log_level Error = ''ERROR''"

text \<open>The observability handle: the name of the binary, and the filter in place, if the subscriber was
  initialised. Parsing one directive is external (\<^verbatim>\<open>EnvFilter\<close>); \<^const>\<open>None\<close> is its error.\<close>

record 'f Observability =
  binary_name :: string
  reload_handle :: "'f list option"

fun split_on :: "char \<Rightarrow> string \<Rightarrow> string list" where
  "split_on sep [] = [[]]"
| "split_on sep (c # cs) =
     (if c = sep then [] # split_on sep cs
      else case split_on sep cs of
             w # ws \<Rightarrow> (c # w) # ws
           | [] \<Rightarrow> [[c]])"

fun parse_directives :: "(string \<Rightarrow> 'f option) \<Rightarrow> string list \<Rightarrow> 'f list option" where
  "parse_directives parse [] = Some []"
| "parse_directives parse (d # ds) =
     (case parse d of
        None \<Rightarrow> None
      | Some f \<Rightarrow> map_option (\<lambda>fs. f # fs) (parse_directives parse ds))"

definition parse_filter :: "(string \<Rightarrow> 'f option) \<Rightarrow> string \<Rightarrow> 'f list option" where
  "parse_filter parse directive = parse_directives parse (split_on (CHR '','') directive)"

text \<open>Both setters return whether the new filter was put in place; an unparsable directive leaves the
  old one.\<close>

definition set_logging ::
  "(string \<Rightarrow> 'f option) \<Rightarrow> string \<Rightarrow> 'f Observability \<Rightarrow> (string, unit) rust \<times> 'f Observability" where
  "set_logging parse directive obs =
     (case parse_filter parse directive of
        None \<Rightarrow> (Err ''invalid directive'', obs)
      | Some new_filter \<Rightarrow>
          (Ok (), case reload_handle obs of
                    None \<Rightarrow> obs
                  | Some _ \<Rightarrow> obs\<lparr>reload_handle := Some new_filter\<rparr>))"

definition set_log_level ::
  "(string \<Rightarrow> 'f option) \<Rightarrow> LogLevel \<Rightarrow> 'f Observability \<Rightarrow> (string, unit) rust \<times> 'f Observability" where
  "set_log_level parse level obs =
     set_logging parse (binary_name obs @ ''='' @ to_lowercase (print_log_level level)) obs"

section \<open>Properties\<close>

lemma to_lowercase_words [simp]:
  "to_lowercase ''None'' = ''none''"
  "to_lowercase ''User'' = ''user''"
  "to_lowercase ''System'' = ''system''"
  "to_lowercase ''All'' = ''all''"
  "to_lowercase ''Read'' = ''read''"
  "to_lowercase ''Write'' = ''write''"
  "to_lowercase ''Paid'' = ''paid''"
  by code_simp+

lemma parse_print_show_calls: "parse_show_calls (print_show_calls c) = Ok c"
  by (cases c) (simp_all add: parse_show_calls_def)

lemma parse_print_show_storage_logs: "parse_show_storage_logs (print_show_storage_logs l) = Ok l"
  by (cases l) (simp_all add: parse_show_storage_logs_def)

lemma parse_print_show_vm_details: "parse_show_vm_details (print_show_vm_details v) = Ok v"
  by (cases v) (simp_all add: parse_show_vm_details_def)

lemma parse_print_show_gas_details: "parse_show_gas_details (print_show_gas_details g) = Ok g"
  by (cases g) (simp_all add: parse_show_gas_details_def)

text \<open>Parsing what an option prints gives the option back, for every option of the four kinds.\<close>

theorem show_options_roundtrip:
  "parse_show_calls (print_show_calls c) = Ok c \<and>
   parse_show_storage_logs (print_show_storage_logs l) = Ok l \<and>
   parse_show_vm_details (print_show_vm_details v) = Ok v \<and>
   parse_show_gas_details (print_show_gas_details g) = Ok g"
  by (simp add: parse_print_show_calls parse_print_show_storage_logs parse_print_show_vm_details
      parse_print_show_gas_details)

end
