(* ===== verification/SystemContracts.thy ===== *)
theory SystemContracts
  imports ApiTypes
begin

text \<open>
  The base contracts that the virtual machine runs with
  (\<^verbatim>\<open>src/.test-node-subtree/src/system_contracts.rs\<close>): a bootloader and a default account per execution
  mode, with or without impersonation.
\<close>

datatype TxExecutionMode = VerifyExecute | EstimateFee | EthCall

datatype Options = BuiltIn | Local | BuiltInWithoutSecurity

record SystemContractCode =
  scc_code :: "u256 list"
  scc_hash :: h256

record BaseSystemContracts =
  bootloader :: SystemContractCode
  default_aa :: SystemContractCode

record SystemContracts =
  baseline_contracts :: BaseSystemContracts
  playground_contracts :: BaseSystemContracts
  fee_estimate_contracts :: BaseSystemContracts
  baseline_impersonating_contracts :: BaseSystemContracts
  fee_estimate_impersonating_contracts :: BaseSystemContracts

text \<open>The files compiled into the binary, the readers of the local artifacts and the hash functions are
  external.\<close>

record contract_sources =
  included :: "string \<Rightarrow> bytes"
  read_zbin :: "string \<Rightarrow> bytes"
  read_sys_contract :: "string \<Rightarrow> bytes"
  read_playground_bootloader :: bytes
  read_proved_bootloader :: bytes
  bytecode_from_slice :: "string \<Rightarrow> bytes \<Rightarrow> bytes"
  hash_of :: "bytes \<Rightarrow> h256"
  words_of :: "bytes \<Rightarrow> u256 list"
  compiled_in_contracts :: "(address \<times> bytes) list"
  local_contracts :: "(address \<times> bytes) list"

fun get_deployed_contracts :: "contract_sources \<Rightarrow> Options \<Rightarrow> (address \<times> bytes) list" where
  "get_deployed_contracts src BuiltIn = compiled_in_contracts src"
| "get_deployed_contracts src BuiltInWithoutSecurity = compiled_in_contracts src"
| "get_deployed_contracts src Local = local_contracts src"

definition bsc_load_with_bootloader ::
  "contract_sources \<Rightarrow> bytes \<Rightarrow> Options \<Rightarrow> BaseSystemContracts" where
  "bsc_load_with_bootloader src bootloader_bytecode options =
     (let bl = \<lparr>scc_code = words_of src bootloader_bytecode, scc_hash = hash_of src bootloader_bytecode\<rparr>;
          bytecode = (case options of
              BuiltIn \<Rightarrow> bytecode_from_slice src ''DefaultAccount''
                           (included src ''deps/contracts/DefaultAccount.json'')
            | Local \<Rightarrow> read_sys_contract src ''DefaultAccount''
            | BuiltInWithoutSecurity \<Rightarrow> bytecode_from_slice src ''DefaultAccountNoSecurity''
                           (included src ''deps/contracts/DefaultAccountNoSecurity.json''));
          aa = \<lparr>scc_code = words_of src bytecode, scc_hash = hash_of src bytecode\<rparr>
      in \<lparr>bootloader = bl, default_aa = aa\<rparr>)"

definition playground :: "contract_sources \<Rightarrow> Options \<Rightarrow> BaseSystemContracts" where
  "playground src options =
     bsc_load_with_bootloader src
       (if options = Local then read_playground_bootloader src
        else included src ''deps/contracts/playground_batch.yul.zbin'') options"

definition fee_estimate_path :: string where
  "fee_estimate_path =
     ''etc/system-contracts/bootloader/build/artifacts/fee_estimate.yul/fee_estimate.yul.zbin''"

definition make_fee_estimate_contracts :: "contract_sources \<Rightarrow> Options \<Rightarrow> BaseSystemContracts" where
  "make_fee_estimate_contracts src options =
     bsc_load_with_bootloader src
       (if options = Local then read_zbin src fee_estimate_path
        else included src ''deps/contracts/fee_estimate.yul.zbin'') options"

definition make_fee_estimate_impersonating_contracts ::
  "contract_sources \<Rightarrow> Options \<Rightarrow> BaseSystemContracts" where
  "make_fee_estimate_impersonating_contracts src options =
     bsc_load_with_bootloader src
       (if options = Local then read_zbin src fee_estimate_path
        else included src ''deps/contracts/fee_estimate_impersonating.yul.zbin'') options"

definition make_baseline_contracts :: "contract_sources \<Rightarrow> Options \<Rightarrow> BaseSystemContracts" where
  "make_baseline_contracts src options =
     bsc_load_with_bootloader src
       (if options = Local then read_proved_bootloader src
        else included src ''deps/contracts/proved_batch.yul.zbin'') options"

definition make_baseline_impersonating_contracts ::
  "contract_sources \<Rightarrow> Options \<Rightarrow> BaseSystemContracts" where
  "make_baseline_impersonating_contracts src options =
     bsc_load_with_bootloader src
       (if options = Local then read_proved_bootloader src
        else included src ''deps/contracts/proved_batch_impersonating.yul.zbin'') options"

definition from_options :: "contract_sources \<Rightarrow> Options \<Rightarrow> SystemContracts" where
  "from_options src options =
     \<lparr>baseline_contracts = make_baseline_contracts src options,
      playground_contracts = playground src options,
      fee_estimate_contracts = make_fee_estimate_contracts src options,
      baseline_impersonating_contracts = make_baseline_impersonating_contracts src options,
      fee_estimate_impersonating_contracts = make_fee_estimate_impersonating_contracts src options\<rparr>"

text \<open>\<^const>\<open>None\<close> is the panic of an impersonated \<^verbatim>\<open>eth_call\<close>.\<close>

fun contracts :: "SystemContracts \<Rightarrow> TxExecutionMode \<Rightarrow> bool \<Rightarrow> BaseSystemContracts option" where
  "contracts s VerifyExecute False = Some (baseline_contracts s)"
| "contracts s EstimateFee False = Some (fee_estimate_contracts s)"
| "contracts s EthCall False = Some (playground_contracts s)"
| "contracts s VerifyExecute True = Some (baseline_impersonating_contracts s)"
| "contracts s EstimateFee True = Some (fee_estimate_impersonating_contracts s)"
| "contracts s EthCall True = None"

definition contracts_for_l2_call :: "SystemContracts \<Rightarrow> BaseSystemContracts option" where
  "contracts_for_l2_call s = contracts s EthCall False"

definition contracts_for_fee_estimate :: "SystemContracts \<Rightarrow> bool \<Rightarrow> BaseSystemContracts option" where
  "contracts_for_fee_estimate s impersonating = contracts s EstimateFee impersonating"

end
