(* ===== verification/BootloaderDebug.thy ===== *)
theory BootloaderDebug
  imports Utils
begin

text \<open>
  The debug slots that the bootloader leaves in memory after a transaction
  (\<^verbatim>\<open>src/.test-node-subtree/src/bootloader_debug.rs\<close>) and the gas report computed from them
  (\<^verbatim>\<open>display_detailed_gas_info\<close> of \<^verbatim>\<open>node/in_memory.rs\<close>).
\<close>

section \<open>Memory layout\<close>

definition DEBUG_START_SENTINEL :: u64 where "DEBUG_START_SENTINEL = 1337"
definition MAX_MEMORY_BYTES :: nat where "MAX_MEMORY_BYTES = 2 ^ 24"
definition MAX_TRANSACTIONS :: nat where "MAX_TRANSACTIONS = 1024"
definition RESULTS_BYTES_OFFSET :: nat where
  "RESULTS_BYTES_OFFSET = MAX_MEMORY_BYTES - MAX_TRANSACTIONS * 32"
definition VM_HOOKS_PARAMS :: nat where "VM_HOOKS_PARAMS = 2"
definition VM_HOOKS_START :: nat where
  "VM_HOOKS_START = RESULTS_BYTES_OFFSET - (VM_HOOKS_PARAMS + 1) * 32"
definition DEBUG_SLOTS :: nat where "DEBUG_SLOTS = 32"
definition DEBUG_START_BYTE :: nat where "DEBUG_START_BYTE = VM_HOOKS_START - DEBUG_SLOTS * 32"
definition DEBUG_START_SLOT :: nat where "DEBUG_START_SLOT = DEBUG_START_BYTE div 32"

record BootloaderDebug =
  total_gas_limit_from_user :: u256
  reserved_gas :: u256
  gas_per_pubdata :: u256
  gas_limit_after_intrinsic :: u256
  gas_after_validation :: u256
  gas_spent_on_execution :: u256
  gas_spent_on_bytecode_preparation :: u256
  refund_computed :: u256
  refund_by_operator :: u256
  intrinsic_overhead :: u256
  total_overhead_for_block :: u256
  required_overhead :: u256
  operator_overhead :: u256
  overhead_for_circuits :: u256
  overhead_for_length :: u256
  overhead_for_slot :: u256

text \<open>The memory of the bootloader's heap page, by slot.\<close>

definition load_debug_slot :: "(nat \<Rightarrow> u256) \<Rightarrow> nat \<Rightarrow> u256" where
  "load_debug_slot memory slot = memory (DEBUG_START_SLOT + slot)"

definition load_from_memory :: "(nat \<Rightarrow> u256) \<Rightarrow> string + BootloaderDebug" where
  "load_from_memory memory =
     (if load_debug_slot memory 0 \<noteq> ucast DEBUG_START_SENTINEL
      then Inl ''Debug slot has wrong value. Probably bootloader slot mapping has changed.''
      else Inr
        \<lparr>total_gas_limit_from_user = load_debug_slot memory 1,
         reserved_gas = load_debug_slot memory 2,
         gas_per_pubdata = load_debug_slot memory 3,
         gas_limit_after_intrinsic = load_debug_slot memory 4,
         gas_after_validation = load_debug_slot memory 5,
         gas_spent_on_execution = load_debug_slot memory 6,
         gas_spent_on_bytecode_preparation = load_debug_slot memory 7,
         refund_computed = load_debug_slot memory 8,
         refund_by_operator = load_debug_slot memory 9,
         intrinsic_overhead = load_debug_slot memory 10,
         total_overhead_for_block = load_debug_slot memory 13,
         required_overhead = load_debug_slot memory 12,
         operator_overhead = load_debug_slot memory 11,
         overhead_for_circuits = load_debug_slot memory 14,
         overhead_for_length = load_debug_slot memory 15,
         overhead_for_slot = load_debug_slot memory 16\<rparr>)"

section \<open>The gas report\<close>

text \<open>256-bit arithmetic of the \<^verbatim>\<open>U256\<close> type panics on overflow, on a negative difference and on a
  division by zero.\<close>

definition u256_add :: "u256 \<Rightarrow> u256 \<Rightarrow> u256 option" where
  "u256_add a b = checked_add a b"

definition u256_sub :: "u256 \<Rightarrow> u256 \<Rightarrow> u256 option" where
  "u256_sub a b = checked_sub a b"

definition u256_mul :: "u256 \<Rightarrow> u256 \<Rightarrow> u256 option" where
  "u256_mul a b = (if unat a * unat b < 2 ^ 256 then Some (a * b) else None)"

definition u256_div :: "u256 \<Rightarrow> u256 \<Rightarrow> u256 option" where
  "u256_div a b = (if b = 0 then None else Some (a div b))"

definition as_u32 :: "u256 \<Rightarrow> u32 option" where
  "as_u32 a = (if unat a < 2 ^ 32 then Some (ucast a) else None)"

text \<open>\<^verbatim>\<open>x * 100 / y\<close>.\<close>

definition percent :: "u256 \<Rightarrow> u256 \<Rightarrow> u256 option" where
  "percent x y = Option.bind (u256_mul x 100) (\<lambda>p. u256_div p y)"

record gas_report =
  rep_total_gas_limit :: u256
  rep_gas_used :: u256
  rep_intrinsic_gas :: u256
  rep_gas_for_validation :: u256
  rep_gas_spent_on_compute :: u256
  rep_bytes_published :: u32

text \<open>The computations of the report in their order; the printing itself is left out. \<^const>\<open>Panic\<close> is a
  failed arithmetic operation, \<^const>\<open>Err\<close> a missing or invalid bootloader result.\<close>

definition gas_amounts :: "BootloaderDebug \<Rightarrow> (u256 \<times> u256 \<times> u256 \<times> u256 \<times> u256) option" where
  "gas_amounts d =
     (let total_gas_limit = sat_sub (total_gas_limit_from_user d) (reserved_gas d)
      in Option.bind (u256_sub total_gas_limit (gas_limit_after_intrinsic d)) (\<lambda>intrinsic_gas.
         Option.bind (u256_sub (gas_limit_after_intrinsic d) (gas_after_validation d)) (\<lambda>gas_for_validation.
         Option.bind (u256_sub (gas_spent_on_execution d) (gas_spent_on_bytecode_preparation d)) (\<lambda>gas_spent_on_compute.
         Option.bind (u256_add intrinsic_gas gas_for_validation) (\<lambda>s1.
         Option.bind (u256_add s1 (gas_spent_on_bytecode_preparation d)) (\<lambda>s2.
         Option.bind (u256_add s2 gas_spent_on_compute) (\<lambda>gas_used.
           Some (total_gas_limit, intrinsic_gas, gas_for_validation, gas_spent_on_compute, gas_used))))))))"

definition all_some :: "'a option list \<Rightarrow> unit option" where
  "all_some xs = (if None \<in> set xs then None else Some ())"

definition display_detailed_gas_info ::
  "u256 \<Rightarrow> (string + BootloaderDebug) option \<Rightarrow> u32 \<Rightarrow> (string, gas_report) rust" where
  "display_detailed_gas_info block_overhead_pubdata bootloader_debug_result spent_on_pubdata =
     (case bootloader_debug_result of
        None \<Rightarrow> Err ''Booloader tracer didn't finish.''
      | Some (Inl e) \<Rightarrow> Err e
      | Some (Inr d) \<Rightarrow>
         (case gas_amounts d of
            None \<Rightarrow> Panic
          | Some (total_gas_limit, intrinsic_gas, gas_for_validation, gas_spent_on_compute, gas_used) \<Rightarrow>
             (case u256_add (refund_computed d) gas_used of
                None \<Rightarrow> Panic
              | Some _ \<Rightarrow>
                 (case as_u32 (gas_per_pubdata d) of
                    None \<Rightarrow> Panic
                  | Some price \<Rightarrow>
                      if price = 0 then Panic
                      else (case all_some
                               [percent intrinsic_gas gas_used,
                                percent (gas_spent_on_bytecode_preparation d) gas_used,
                                percent gas_for_validation gas_used,
                                percent gas_spent_on_compute gas_used,
                                percent (intrinsic_overhead d) intrinsic_gas,
                                percent (operator_overhead d) intrinsic_gas,
                                Option.bind (u256_sub (required_overhead d) (operator_overhead d))
                                  (\<lambda>x. percent x (required_overhead d)),
                                u256_mul (gas_per_pubdata d) block_overhead_pubdata,
                                percent (overhead_for_circuits d) (total_overhead_for_block d)] of
                          None \<Rightarrow> Panic
                        | Some _ \<Rightarrow>
                            Ok \<lparr>rep_total_gas_limit = total_gas_limit, rep_gas_used = gas_used,
                                rep_intrinsic_gas = intrinsic_gas,
                                rep_gas_for_validation = gas_for_validation,
                                rep_gas_spent_on_compute = gas_spent_on_compute,
                                rep_bytes_published = spent_on_pubdata div price\<rparr>)))))"

end
