(* ===== verification/NodeTypes.thy ===== *)
theory NodeTypes
  imports Filters ForkStorage ShowOptions SystemContracts BootloaderDebug
begin

text \<open>
  The state of the node (\<^verbatim>\<open>InMemoryNodeInner\<close>, \<^verbatim>\<open>Snapshot\<close>, \<^verbatim>\<open>InMemoryNode\<close> of
  \<^verbatim>\<open>src/.test-node-subtree/src/node/in_memory.rs\<close>) and what it uses of other crates: the library
  functions (\<^verbatim>\<open>lib\<close>) and the virtual machine (\<^verbatim>\<open>vm_api\<close>) are parameters. The console log handler
  only prints and is left out.
\<close>

section \<open>Constants\<close>

definition MAX_TX_SIZE :: nat where "MAX_TX_SIZE = 1000000"
definition NON_FORK_FIRST_BLOCK_TIMESTAMP :: u64 where "NON_FORK_FIRST_BLOCK_TIMESTAMP = 1000"
definition L1_GAS_PRICE :: u64 where "L1_GAS_PRICE = 50000000000"
definition L2_GAS_PRICE :: u64 where "L2_GAS_PRICE = 250000000"
definition ESTIMATE_GAS_PUBLISH_BYTE_OVERHEAD :: u32 where "ESTIMATE_GAS_PUBLISH_BYTE_OVERHEAD = 100"
definition ESTIMATE_GAS_ACCEPTABLE_OVERESTIMATION :: u32 where
  "ESTIMATE_GAS_ACCEPTABLE_OVERESTIMATION = 1000"
definition MAX_PREVIOUS_STATES :: u16 where "MAX_PREVIOUS_STATES = 128"
definition PROTOCOL_VERSION :: string where "PROTOCOL_VERSION = ''zks/1''"

section \<open>Other crates\<close>

text \<open>Functions and constants of \<^verbatim>\<open>zksync_types\<close>, \<^verbatim>\<open>zksync_utils\<close> and \<^verbatim>\<open>multivm\<close>.\<close>

record lib_keys =
  storage_key_for_eth_balance :: "address \<Rightarrow> StorageKey"
  storage_key_for_standard_token_balance :: "address \<Rightarrow> address \<Rightarrow> StorageKey"
  get_nonce_key :: "address \<Rightarrow> StorageKey"
  get_code_key :: "address \<Rightarrow> StorageKey"
  decompose_full_nonce :: "u256 \<Rightarrow> u256 \<times> u256"
  nonces_to_full_nonce :: "u256 \<Rightarrow> u256 \<Rightarrow> u256"
  h256_to_account_address :: "h256 \<Rightarrow> address"
  unpack_block_info :: "u256 \<Rightarrow> u64 \<times> u64"
  system_context_address :: address
  system_context_block_info_position :: h256
  contract_deployer_address :: address
  account_code_storage_address :: address
  bootloader_address :: address
  l2_eth_token_address :: address

record lib_tx = lib_keys +
  keccak256 :: "bytes \<Rightarrow> h256"
  hash_bytecode :: "bytes \<Rightarrow> h256"
  bytes_to_be_words :: "bytes \<Rightarrow> u256 list"
  l2_tx_hash :: "L2Tx \<Rightarrow> h256"
  api_transaction_from :: "L2Tx \<Rightarrow> Transaction"
  call_into :: "Call \<Rightarrow> DebugCall"
  tx_payer :: "L2Tx \<Rightarrow> address"
  legacy_hash :: "u32 \<Rightarrow> h256"
  load_last_l2_block :: "(ForkStorage StorageView, (u32 \<times> h256 \<times> u64) option) action"

record lib = lib_tx +
  derive_base_fee_and_gas_per_pubdata :: "u64 \<Rightarrow> u64 \<Rightarrow> u64 \<times> u64"
  derive_overhead :: "u32 \<Rightarrow> u32 \<Rightarrow> nat \<Rightarrow> u32"
  encoding_len :: "L2Tx \<Rightarrow> nat"
  compress_bytecode :: "bytes \<Rightarrow> bytes option"
  known_codes_key :: "h256 \<Rightarrow> StorageKey"
  default_signature :: bytes
  block_gas_limit_const :: u32
  block_overhead_pubdata :: u32
  max_pubdata_per_block :: u32
  max_gas_per_pubdata_byte :: u64
  max_l2_tx_gas_limit :: u64
  eth_call_gas_limit :: u32

text \<open>\<^verbatim>\<open>L1BatchEnv\<close> with its first L2 block, \<^verbatim>\<open>SystemEnv\<close>.\<close>

record L1BatchEnv =
  be_number :: u32
  be_timestamp :: u64
  be_l1_gas_price :: u64
  be_fair_l2_gas_price :: u64
  be_fee_account :: address
  be_enforced_base_fee :: "u64 option"
  be_first_block_number :: u32
  be_first_block_timestamp :: u64
  be_prev_block_hash :: h256
  be_max_virtual_blocks_to_create :: u32

record SystemEnv =
  se_base_system_smart_contracts :: BaseSystemContracts
  se_gas_limit :: u32
  se_execution_mode :: TxExecutionMode
  se_default_validation_gas_limit :: u32
  se_chain_id :: u64

text \<open>The virtual machine over a storage view. \<^verbatim>\<open>vm_inspect\<close> executes one transaction with the call and
  bootloader debug tracers and yields what they collected; \<^const>\<open>None\<close> of an action is a panic.\<close>

record vm_outcome =
  out_result :: VmExecutionResultAndLogs
  out_calls :: "Call list option"
  out_debug :: "(string + BootloaderDebug) option"

type_synonym view = "ForkStorage StorageView"

record 'vm vm_api =
  vm_new :: "L1BatchEnv \<Rightarrow> SystemEnv \<Rightarrow> (view, 'vm) action"
  vm_push_transaction :: "L2Tx \<Rightarrow> 'vm \<Rightarrow> 'vm"
  vm_inspect :: "'vm \<Rightarrow> (view, vm_outcome \<times> 'vm) action"
  vm_execute_one_tx :: "'vm \<Rightarrow> (view, VmExecutionResultAndLogs \<times> 'vm) action"
  vm_execute_bootloader :: "'vm \<Rightarrow> (view, 'vm) action"
  vm_last_compressed_bytecodes :: "'vm \<Rightarrow> bytes list"

section \<open>Results of transactions\<close>

record TxExecutionInfo =
  info_tx :: L2Tx
  info_batch_number :: u32
  info_miniblock_number :: u64
  info_result :: VmExecutionResultAndLogs

record TransactionResult =
  tr_info :: TxExecutionInfo
  tr_receipt :: TransactionReceipt
  tr_debug :: DebugCall

definition debug_info :: "TransactionResult \<Rightarrow> bool \<Rightarrow> DebugCall" where
  "debug_info r only_top =
     (let d = tr_debug r
      in DebugCall (dc_type d) (dc_from d) (dc_to d) (dc_gas d) (dc_gas_used d) (dc_value d)
           (dc_output d) (dc_input d) (dc_error d) (dc_revert_reason d)
           (if only_top then [] else dc_calls d))"

section \<open>The node\<close>

text \<open>The results of transactions are an association list because the log queries iterate over them;
  the archived states are one because they are kept in insertion order.\<close>

type_synonym archive = "(h256 \<times> (StorageKey \<Rightarrow> StorageValue option)) list"

record InMemoryNodeInner =
  current_timestamp :: u64
  current_batch :: u32
  current_miniblock :: u64
  current_miniblock_hash :: h256
  l1_gas_price :: u64
  tx_results :: "(h256 \<times> TransactionResult) list"
  blocks :: "h256 \<Rightarrow> Block option"
  node_block_hashes :: "u64 \<Rightarrow> h256 option"
  node_filters :: EthFilters
  node_storage :: ForkStorage
  show_calls :: ShowCalls
  show_storage_logs :: ShowStorageLogs
  show_vm_details :: ShowVMDetails
  show_gas_details :: ShowGasDetails
  resolve_hashes :: bool
  system_contracts :: SystemContracts
  impersonated_accounts :: "address set"
  rich_accounts :: "address set"
  previous_states :: archive
  observability :: "string Observability option"

record Snapshot =
  snap_current_timestamp :: u64
  snap_current_batch :: u32
  snap_current_miniblock :: u64
  snap_current_miniblock_hash :: h256
  snap_l1_gas_price :: u64
  snap_tx_results :: "(h256 \<times> TransactionResult) list"
  snap_blocks :: "h256 \<Rightarrow> Block option"
  snap_block_hashes :: "u64 \<Rightarrow> h256 option"
  snap_filters :: EthFilters
  snap_impersonated_accounts :: "address set"
  snap_rich_accounts :: "address set"
  snap_previous_states :: archive
  snap_raw_storage :: InMemoryStorage
  snap_value_read_cache :: "StorageKey \<Rightarrow> h256 option"
  snap_factory_dep_cache :: "h256 \<Rightarrow> bytes option option"

record InMemoryNode =
  node_inner :: "InMemoryNodeInner rwlock"
  node_snapshots :: "Snapshot list rwlock"

record InMemoryNodeConfig =
  cfg_show_calls :: ShowCalls
  cfg_show_storage_logs :: ShowStorageLogs
  cfg_show_vm_details :: ShowVMDetails
  cfg_show_gas_details :: ShowGasDetails
  cfg_resolve_hashes :: bool
  cfg_system_contracts_options :: Options

record BlockContext =
  ctx_batch :: u32
  ctx_miniblock :: u64
  ctx_timestamp :: u64

definition from_current :: "u32 \<Rightarrow> u64 \<Rightarrow> u64 \<Rightarrow> BlockContext" where
  "from_current batch miniblock timestamp =
     \<lparr>ctx_batch = batch, ctx_miniblock = miniblock, ctx_timestamp = timestamp\<rparr>"

definition new_batch :: "BlockContext \<Rightarrow> BlockContext" where
  "new_batch c =
     \<lparr>ctx_batch = sat_add (ctx_batch c) 1, ctx_miniblock = sat_add (ctx_miniblock c) 1,
      ctx_timestamp = sat_add (ctx_timestamp c) 1\<rparr>"

definition new_block :: "BlockContext \<Rightarrow> BlockContext" where
  "new_block c =
     \<lparr>ctx_batch = ctx_batch c, ctx_miniblock = sat_add (ctx_miniblock c) 1,
      ctx_timestamp = sat_add (ctx_timestamp c) 1\<rparr>"

section \<open>Operations under a guard\<close>

text \<open>A body that runs while a guard is held: it returns an outcome and the state it leaves, also when
  it fails or panics.\<close>

type_synonym ('s, 'e, 'a) op = "'s \<Rightarrow> ('e, 'a) rust \<times> 's"

definition op_return :: "'a \<Rightarrow> ('s, 'e, 'a) op" where
  "op_return a s = (Ok a, s)"

definition op_fail :: "('e, 'a) rust \<Rightarrow> ('s, 'e, 'a) op" where
  "op_fail r s = (r, s)"

definition op_bind :: "('s, 'e, 'a) op \<Rightarrow> ('a \<Rightarrow> ('s, 'e, 'b) op) \<Rightarrow> ('s, 'e, 'b) op" where
  "op_bind m f s =
     (case m s of (Ok a, s') \<Rightarrow> f a s' | (Err e, s') \<Rightarrow> (Err e, s') | (Panic, s') \<Rightarrow> (Panic, s'))"

definition op_modify :: "('s \<Rightarrow> 's) \<Rightarrow> ('s, 'e, unit) op" where
  "op_modify f s = (Ok (), f s)"

definition op_get :: "('s \<Rightarrow> 'a) \<Rightarrow> ('s, 'e, 'a) op" where
  "op_get f s = (Ok (f s), s)"

fun op_list :: "('x \<Rightarrow> ('s, 'e, unit) op) \<Rightarrow> 'x list \<Rightarrow> ('s, 'e, unit) op" where
  "op_list f [] = op_return ()"
| "op_list f (x # xs) = op_bind (f x) (\<lambda>_. op_list f xs)"

lemma op_run [simp]:
  "op_return a s = (Ok a, s)"
  "op_fail r s = (r, s)"
  "op_modify g s = (Ok (), g s)"
  "op_get h s = (Ok (h s), s)"
  by (simp_all add: op_return_def op_fail_def op_modify_def op_get_def)

lemma op_bind_run [simp]:
  "m s = (Ok a, s') \<Longrightarrow> op_bind m f s = f a s'"
  "m s = (Err e, s') \<Longrightarrow> op_bind m f s = (Err e, s')"
  "m s = (Panic, s') \<Longrightarrow> op_bind m f s = (Panic, s')"
  by (simp_all add: op_bind_def)

text \<open>A storage action on the storage of the node, and an action on a fresh view of it. The clones of
  a \<^verbatim>\<open>ForkStorage\<close> share the locked storage, so what the view does to it stays; the buffered writes
  of the view are dropped unless the action returns them.\<close>

definition outcome_of :: "'a option \<Rightarrow> ('e, 'a) rust" where
  "outcome_of r = (case r of None \<Rightarrow> Panic | Some a \<Rightarrow> Ok a)"

lemma outcome_of_simps [simp]: "outcome_of None = Panic" "outcome_of (Some a) = Ok a"
  by (simp_all add: outcome_of_def)

definition storage_op :: "(ForkStorage, 'a) action \<Rightarrow> (InMemoryNodeInner, 'e, 'a) op" where
  "storage_op act n =
     (case act (node_storage n) of (r, s) \<Rightarrow> (outcome_of r, n\<lparr>node_storage := s\<rparr>))"

definition view_op :: "(view, 'a) action \<Rightarrow> (InMemoryNodeInner, 'e, 'a) op" where
  "view_op act n =
     (case act (StorageView_new (node_storage n)) of
        (r, v) \<Rightarrow> (outcome_of r, n\<lparr>node_storage := storage_handle v\<rparr>))"

text \<open>An operation of the node takes the lock of its inner state.\<close>

definition LOCK_POISONED :: string where
  "LOCK_POISONED = ''poisoned lock: another task failed inside''"

definition LOCK_POISONED_DEBUG :: string where
  "LOCK_POISONED_DEBUG = ''PoisonError { .. }''"

definition with_inner ::
  "'e \<Rightarrow> (InMemoryNodeInner, 'e, 'a) op \<Rightarrow> (InMemoryNode, 'e, 'a) op" where
  "with_inner e f node =
     (case with_write e f (node_inner node) of (r, l) \<Rightarrow> (r, node\<lparr>node_inner := l\<rparr>))"

definition read_inner ::
  "'e \<Rightarrow> (InMemoryNodeInner \<Rightarrow> ('e, 'a) rust) \<Rightarrow> (InMemoryNode, 'e, 'a) op" where
  "read_inner e f node = (with_read e f (node_inner node), node)"

lemma with_inner_poisoned [simp]:
  "lock_poisoned (node_inner node) \<Longrightarrow> with_inner e f node = (Err e, node)"
  by (simp add: with_inner_def)

lemma with_inner_healthy:
  "\<not> lock_poisoned (node_inner node) \<Longrightarrow> f (lock_value (node_inner node)) = (r, v) \<Longrightarrow>
   with_inner e f node =
     (r, node\<lparr>node_inner := (node_inner node)\<lparr>lock_value := v, lock_poisoned := is_panic r\<rparr>\<rparr>)"
  by (simp add: with_inner_def with_write_healthy)

lemma read_inner_run [simp]:
  "lock_poisoned (node_inner node) \<Longrightarrow> read_inner e g node = (Err e, node)"
  "\<not> lock_poisoned (node_inner node) \<Longrightarrow> read_inner e g node = (g (lock_value (node_inner node)), node)"
  by (simp_all add: read_inner_def with_read_def)

end
