(* ===== verification/InMemoryNode.thy ===== *)
theory InMemoryNode
  imports NodeTypes
begin

text \<open>
  The operations of the node (\<^verbatim>\<open>src/.test-node-subtree/src/node/in_memory.rs\<close>): the environment of a
  batch, calls and transactions run in the virtual machine, the commit of a transaction to two new
  blocks, the archive of past states and the snapshots.
\<close>

section \<open>Blocks\<close>

definition compute_hash :: "('z) lib_tx_scheme \<Rightarrow> u64 \<Rightarrow> h256 \<Rightarrow> h256" where
  "compute_hash L number hash =
     (let digest = to_be_bytes number @ to_be_bytes hash in keccak256 L digest)"

definition create_empty_block ::
  "lib \<Rightarrow> u64 \<Rightarrow> u64 \<Rightarrow> u32 \<Rightarrow> h256 option \<Rightarrow> Block" where
  "create_empty_block L number timestamp batch parent_block_hash =
     (let hash = compute_hash L number 0;
          parent_hash = (case parent_block_hash of
              Some h \<Rightarrow> h
            | None \<Rightarrow> if number = 0 then 0 else compute_hash L (number - 1) 0)
      in \<lparr>block_hash = hash, block_parent_hash = parent_hash, block_number = number,
          block_timestamp = ucast timestamp, block_l1_batch_number = Some (ucast batch),
          block_transactions = [], block_gas_used = 0,
          block_gas_limit = ucast (block_gas_limit_const L)\<rparr>)"

section \<open>The environment of the next batch\<close>

definition load_last_l1_batch :: "lib \<Rightarrow> (view, (u64 \<times> u64) option) action" where
  "load_last_l1_batch L =
     (let key = (system_context_address L, system_context_block_info_position L)
      in act_bind (read_value (storage_view fork_storage) key) (\<lambda>info.
         let (batch_number, batch_timestamp) = unpack_block_info L info;
             number = (ucast batch_number :: u32)
         in act_return (if number = 0 then None else Some (batch_number, batch_timestamp))))"

definition create_l1_batch_env ::
  "lib \<Rightarrow> InMemoryNodeInner \<Rightarrow> (view, L1BatchEnv \<times> BlockContext) action" where
  "create_l1_batch_env L n =
     act_bind (load_last_l1_batch L) (\<lambda>last_l1_batch.
     act_bind (load_last_l2_block L) (\<lambda>stored_l2_block.
     let (last_l1_block_num, last_l1_block_ts) =
           (case last_l1_batch of
              Some (num, ts) \<Rightarrow> (ucast num, ts)
            | None \<Rightarrow> (current_batch n, current_timestamp n));
         (l2_number, l2_hash, l2_timestamp) =
           (case stored_l2_block of
              Some b \<Rightarrow> b
            | None \<Rightarrow> (ucast (current_miniblock n), legacy_hash L (ucast (current_miniblock n)),
                       current_timestamp n));
         latest_timestamp = max (max last_l1_block_ts l2_timestamp) (current_timestamp n);
         block_ctx = new_batch (from_current last_l1_block_num (ucast l2_number) latest_timestamp)
     in act_return
          (\<lparr>be_number = ctx_batch block_ctx, be_timestamp = ctx_timestamp block_ctx,
            be_l1_gas_price = l1_gas_price n, be_fair_l2_gas_price = L2_GAS_PRICE,
            be_fee_account = 0, be_enforced_base_fee = None,
            be_first_block_number = ucast (ctx_miniblock block_ctx),
            be_first_block_timestamp = ctx_timestamp block_ctx,
            be_prev_block_hash = l2_hash, be_max_virtual_blocks_to_create = 1\<rparr>,
           block_ctx)))"

definition create_system_env ::
  "lib \<Rightarrow> InMemoryNodeInner \<Rightarrow> BaseSystemContracts \<Rightarrow> TxExecutionMode \<Rightarrow> SystemEnv" where
  "create_system_env L n base_system_contracts execution_mode =
     \<lparr>se_base_system_smart_contracts = base_system_contracts,
      se_gas_limit = block_gas_limit_const L, se_execution_mode = execution_mode,
      se_default_validation_gas_limit = block_gas_limit_const L,
      se_chain_id = chain_id (node_storage n)\<rparr>"

section \<open>Impersonation\<close>

definition set_impersonated_account ::
  "address \<Rightarrow> InMemoryNodeInner \<Rightarrow> bool \<times> InMemoryNodeInner" where
  "set_impersonated_account a n =
     (a \<notin> impersonated_accounts n,
      n\<lparr>impersonated_accounts := insert a (impersonated_accounts n)\<rparr>)"

definition stop_impersonating_account ::
  "address \<Rightarrow> InMemoryNodeInner \<Rightarrow> bool \<times> InMemoryNodeInner" where
  "stop_impersonating_account a n =
     (a \<in> impersonated_accounts n, n\<lparr>impersonated_accounts := impersonated_accounts n - {a}\<rparr>)"

section \<open>Archive and snapshots\<close>

text \<open>An \<^verbatim>\<open>IndexMap\<close> keeps the place of a key that is inserted again; \<^verbatim>\<open>shift_remove_index(0)\<close> drops the
  oldest entry.\<close>

definition archive_state :: "(InMemoryNodeInner, string, unit) op" where
  "archive_state n =
     (let n = (if length (previous_states n) > unat MAX_PREVIOUS_STATES
               then n\<lparr>previous_states := tl (previous_states n)\<rparr> else n);
          storage = fs_inner (node_storage n)
      in if lock_poisoned storage then (Err LOCK_POISONED, n)
         else (Ok (), n\<lparr>previous_states :=
                 AList.update (current_miniblock_hash n)
                   (state (raw_storage (lock_value storage))) (previous_states n)\<rparr>))"

definition inner_snapshot :: "InMemoryNodeInner \<Rightarrow> (string, Snapshot) rust" where
  "inner_snapshot n =
     (if lock_poisoned (fs_inner (node_storage n))
      then Err (''failed acquiring read lock on storage: '' @ LOCK_POISONED_DEBUG)
      else let storage = lock_value (fs_inner (node_storage n)) in Ok
        \<lparr>snap_current_timestamp = current_timestamp n, snap_current_batch = current_batch n,
         snap_current_miniblock = current_miniblock n,
         snap_current_miniblock_hash = current_miniblock_hash n,
         snap_l1_gas_price = l1_gas_price n, snap_tx_results = tx_results n,
         snap_blocks = blocks n, snap_block_hashes = node_block_hashes n,
         snap_filters = node_filters n, snap_impersonated_accounts = impersonated_accounts n,
         snap_rich_accounts = rich_accounts n, snap_previous_states = previous_states n,
         snap_raw_storage = raw_storage storage,
         snap_value_read_cache = value_read_cache storage,
         snap_factory_dep_cache = factory_dep_cache storage\<rparr>)"

definition restore_snapshot :: "Snapshot \<Rightarrow> (InMemoryNodeInner, string, unit) op" where
  "restore_snapshot s n =
     (if lock_poisoned (fs_inner (node_storage n))
      then (Err (''failed acquiring write lock on storage: '' @ LOCK_POISONED_DEBUG), n)
      else (Ok (),
        n\<lparr>current_timestamp := snap_current_timestamp s, current_batch := snap_current_batch s,
          current_miniblock := snap_current_miniblock s,
          current_miniblock_hash := snap_current_miniblock_hash s,
          l1_gas_price := snap_l1_gas_price s, tx_results := snap_tx_results s,
          blocks := snap_blocks s, node_block_hashes := snap_block_hashes s,
          node_filters := snap_filters s, impersonated_accounts := snap_impersonated_accounts s,
          rich_accounts := snap_rich_accounts s, previous_states := snap_previous_states s,
          node_storage := (node_storage n)\<lparr>fs_inner := (fs_inner (node_storage n))\<lparr>lock_value :=
            (lock_value (fs_inner (node_storage n)))\<lparr>raw_storage := snap_raw_storage s,
              value_read_cache := snap_value_read_cache s,
              factory_dep_cache := snap_factory_dep_cache s\<rparr>\<rparr>\<rparr>\<rparr>))"

section \<open>A new node\<close>

definition InMemoryNode_new ::
  "lib \<Rightarrow> (Options \<Rightarrow> u64 \<Rightarrow> InMemoryStorage) \<Rightarrow> contract_sources \<Rightarrow> ForkDetails option \<Rightarrow>
   string Observability option \<Rightarrow> InMemoryNodeConfig \<Rightarrow> InMemoryNode" where
  "InMemoryNode_new L genesis src frk obs cfg =
     (let common = (\<lambda>timestamp batch miniblock miniblock_hash gas_price bs hashes.
            \<lparr>current_timestamp = timestamp, current_batch = batch, current_miniblock = miniblock,
             current_miniblock_hash = miniblock_hash, l1_gas_price = gas_price, tx_results = [],
             blocks = bs, node_block_hashes = hashes, node_filters = EthFilters_default,
             node_storage = ForkStorage_new (genesis (cfg_system_contracts_options cfg)) frk,
             show_calls = cfg_show_calls cfg, show_storage_logs = cfg_show_storage_logs cfg,
             show_vm_details = cfg_show_vm_details cfg,
             show_gas_details = cfg_show_gas_details cfg, resolve_hashes = cfg_resolve_hashes cfg,
             system_contracts = from_options src (cfg_system_contracts_options cfg),
             impersonated_accounts = {}, rich_accounts = {}, previous_states = [],
             observability = obs\<rparr>);
          inner = (case frk of
              Some f \<Rightarrow>
                common (block_timestamp_at_fork f) (l1_block f) (l2_miniblock f) (l2_miniblock_hash f)
                  (fork_l1_gas_price f) [block_hash (l2_block f) \<mapsto> l2_block f]
                  [block_number (l2_block f) \<mapsto> block_hash (l2_block f)]
            | None \<Rightarrow>
                (let hash = compute_hash L 0 0 in
                 common NON_FORK_FIRST_BLOCK_TIMESTAMP 0 0 hash L1_GAS_PRICE
                   [hash \<mapsto> create_empty_block L 0 NON_FORK_FIRST_BLOCK_TIMESTAMP 0 None]
                   [0 \<mapsto> hash]))
      in \<lparr>node_inner = \<lparr>lock_value = inner, lock_poisoned = False\<rparr>,
          node_snapshots = \<lparr>lock_value = [], lock_poisoned = False\<rparr>\<rparr>)"

section \<open>Calls and raw runs\<close>

definition contract_address_from_tx_result ::
  "lib \<Rightarrow> VmExecutionResultAndLogs \<Rightarrow> address option" where
  "contract_address_from_tx_result L r =
     map_option (\<lambda>q. h256_to_account_address L (slq_key q))
       (find (\<lambda>q. slq_log_type q = InitialWrite \<and> slq_address q = account_code_storage_address L)
         (rev (vr_storage_logs r)))"

text \<open>The modified keys of the view at the end of a run.\<close>

definition take_modified :: "(view, (StorageKey \<times> StorageValue) list) action" where
  "take_modified v = (Some (modified_storage_keys (storage_view fork_storage) v), v)"

definition set_rich_account :: "lib \<Rightarrow> address \<Rightarrow> (InMemoryNode, string, unit) op" where
  "set_rich_account L a node =
     (let key = storage_key_for_eth_balance L a in
      case with_inner LOCK_POISONED
             (op_bind
               (view_op (act_bind (set_value (storage_view fork_storage) key (10 ^ 30))
                                  (\<lambda>_. take_modified)))
               (\<lambda>keys. op_bind (storage_op (write_all keys)) (\<lambda>_.
                 op_modify (\<lambda>n. n\<lparr>rich_accounts := insert a (rich_accounts n)\<rparr>)))) node of
        (Err _, node') \<Rightarrow> (Ok (), node')
      | r \<Rightarrow> r)"

text \<open>The call tracer is read with \<^verbatim>\<open>unwrap_or_default\<close> here, so a missing trace does not panic.\<close>

definition called_run ::
  "lib \<Rightarrow> 'vm vm_api \<Rightarrow> L2Tx \<Rightarrow> InMemoryNodeInner \<Rightarrow> (view, VmExecutionResultAndLogs) action" where
  "called_run L V l2_tx n =
     (case contracts_for_l2_call (system_contracts n) of
        None \<Rightarrow> act_panic
      | Some bootloader_code \<Rightarrow>
          act_bind (create_l1_batch_env L n) (\<lambda>(batch_env, _).
          act_bind (vm_new V batch_env (create_system_env L n bootloader_code EthCall)) (\<lambda>vm.
          let tx = (if l2_signature l2_tx = []
                    then l2_tx\<lparr>l2_signature := default_signature L\<rparr> else l2_tx)
          in act_bind (vm_inspect V (vm_push_transaction V tx vm)) (\<lambda>(out, _).
             act_return (out_result out)))))"

definition run_l2_call ::
  "lib \<Rightarrow> 'vm vm_api \<Rightarrow> L2Tx \<Rightarrow> (InMemoryNode, string, VmExecutionResultAndLogs) op" where
  "run_l2_call L V l2_tx =
     with_inner (''Failed to acquire write lock: '' @ LOCK_POISONED)
       (\<lambda>n. view_op (called_run L V l2_tx n) n)"

definition validate_tx :: "L2Tx \<Rightarrow> (string, unit) rust" where
  "validate_tx tx =
     (let max_gas = (ucast (- 1 :: u32) :: u256); fee = l2_fee tx in
      if gas_limit fee > max_gas \<or> gas_per_pubdata_limit fee > max_gas
      then Err ''exceeds block gas limit''
      else if max_fee_per_gas fee < ucast L2_GAS_PRICE
      then Err ''block base fee higher than max fee per gas''
      else if max_fee_per_gas fee < max_priority_fee_per_gas fee
      then Err ''max priority fee per gas higher than max fee per gas''
      else Ok ())"

record L2TxResult =
  raw_keys :: "(StorageKey \<times> StorageValue) list"
  raw_result :: VmExecutionResultAndLogs
  raw_call_traces :: "Call list"
  raw_block :: Block
  raw_bytecodes :: "(u256 \<times> u256 list) list"
  raw_block_ctx :: BlockContext

text \<open>Collecting the published bytecodes into a hash map keeps one entry per hash, the last.\<close>

definition collect_bytecodes :: "lib \<Rightarrow> bytes list \<Rightarrow> (u256 \<times> u256 list) list" where
  "collect_bytecodes L bs =
     fold (\<lambda>b. let (h, ws) = bytecode_to_factory_dep (hash_bytecode L) (bytes_to_be_words L) b
                in AList.update h ws) bs []"

definition tx_block ::
  "lib \<Rightarrow> InMemoryNodeInner \<Rightarrow> L2Tx \<Rightarrow> L1BatchEnv \<Rightarrow> BlockContext \<Rightarrow>
   VmExecutionResultAndLogs \<Rightarrow> Block" where
  "tx_block L n l2_tx batch_env block_ctx result =
     (let hash = compute_hash L (ctx_miniblock block_ctx) (l2_tx_hash L l2_tx);
          transaction = (api_transaction_from L l2_tx)
            \<lparr>tx_block_hash := Some (current_miniblock_hash n),
             tx_block_number := Some (current_miniblock n)\<rparr>;
          parent_block_hash =
            (case node_block_hashes n (ctx_miniblock block_ctx - 1) of Some h \<Rightarrow> h | None \<Rightarrow> 0)
      in \<lparr>block_hash = hash, block_parent_hash = parent_block_hash,
          block_number = ctx_miniblock block_ctx, block_timestamp = ucast (be_timestamp batch_env),
          block_l1_batch_number = Some (ucast (be_number batch_env)),
          block_transactions = [FullTx transaction], block_gas_used = ucast (vr_gas_used result),
          block_gas_limit = ucast (block_gas_limit_const L)\<rparr>)"

text \<open>The panics of the summary: the limit of the transaction minus the refund, and the arithmetic of
  the gas report when it is switched on. \<^verbatim>\<open>spent_on_pubdata\<close> is a 32-bit difference, which wraps in a
  release build.\<close>

definition summary_panics ::
  "lib \<Rightarrow> InMemoryNodeInner \<Rightarrow> L2Tx \<Rightarrow> vm_outcome \<Rightarrow> bool" where
  "summary_panics L n l2_tx out =
     (let r = out_result out; spent_on_pubdata = vr_gas_used r - vr_computational_gas_used r
      in u256_sub (gas_limit (l2_fee l2_tx)) (ucast (vr_gas_refunded r)) = None \<or>
         show_gas_details n = ShowGasAll \<and>
           is_panic (display_detailed_gas_info (ucast (block_overhead_pubdata L)) (out_debug out)
                       spent_on_pubdata))"

text \<open>The run with no tracers beside its own (\<^verbatim>\<open>tracers\<close> is empty in its only call of the crate).\<close>

definition run_raw_body ::
  "lib \<Rightarrow> 'vm vm_api \<Rightarrow> L2Tx \<Rightarrow> TxExecutionMode \<Rightarrow> bool \<Rightarrow> InMemoryNodeInner \<Rightarrow>
   (view, L2TxResult) action" where
  "run_raw_body L V l2_tx execution_mode execute_bootloader n =
     act_bind (create_l1_batch_env L n) (\<lambda>(batch_env, block_ctx).
     case contracts (system_contracts n) execution_mode
            (l2_initiator_address l2_tx \<in> impersonated_accounts n) of
       None \<Rightarrow> act_panic
     | Some bootloader_code \<Rightarrow>
     act_bind (vm_new V batch_env (create_system_env L n bootloader_code execution_mode)) (\<lambda>vm.
     act_bind (vm_inspect V (vm_push_transaction V l2_tx vm)) (\<lambda>(out, vm).
     case out_calls out of
       None \<Rightarrow> act_panic
     | Some call_traces \<Rightarrow>
     if summary_panics L n l2_tx out then act_panic
     else
       act_bind (if execute_bootloader
                 then act_bind (vm_execute_bootloader V vm) (\<lambda>_. act_return ())
                 else act_return ()) (\<lambda>_.
       act_bind take_modified (\<lambda>modified.
       act_return
         \<lparr>raw_keys = modified, raw_result = out_result out, raw_call_traces = call_traces,
          raw_block = tx_block L n l2_tx batch_env block_ctx (out_result out),
          raw_bytecodes = collect_bytecodes L (vm_last_compressed_bytecodes V vm),
          raw_block_ctx = block_ctx\<rparr>)))))"

definition run_l2_tx_raw ::
  "lib \<Rightarrow> 'vm vm_api \<Rightarrow> L2Tx \<Rightarrow> TxExecutionMode \<Rightarrow> bool \<Rightarrow> (InMemoryNode, string, L2TxResult) op" where
  "run_l2_tx_raw L V l2_tx execution_mode execute_bootloader =
     with_inner (''Failed to acquire write lock: '' @ LOCK_POISONED)
       (\<lambda>n. view_op (run_raw_body L V l2_tx execution_mode execute_bootloader n) n)"

section \<open>The commit of a transaction\<close>

definition event_log :: "Block \<Rightarrow> h256 \<Rightarrow> nat \<times> VmEvent \<Rightarrow> Log" where
  "event_log block hash = (\<lambda>(log_idx, event).
     \<lparr>log_address = ev_address event, log_topics = ev_indexed_topics event,
      log_data = ev_value event, log_block_hash = Some (block_hash block),
      log_block_number = Some (block_number block),
      log_l1_batch_number = block_l1_batch_number block, log_transaction_hash = Some hash,
      log_transaction_index = Some 0, log_log_index = Some (of_nat log_idx),
      log_transaction_log_index = Some (of_nat log_idx), log_removed = Some False\<rparr>)"

definition tx_logs :: "Block \<Rightarrow> h256 \<Rightarrow> VmExecutionResultAndLogs \<Rightarrow> Log list" where
  "tx_logs block hash result = map (event_log block hash) (enumerate 0 (vr_events result))"

definition notify_log_op :: "Block \<Rightarrow> Log \<Rightarrow> (InMemoryNodeInner, string, unit) op" where
  "notify_log_op block l n =
     (case notify_new_log l (block_number block) (node_filters n) of
        (r, f) \<Rightarrow> (r, n\<lparr>node_filters := f\<rparr>))"

definition store_dep_op :: "u256 \<times> u256 list \<Rightarrow> (InMemoryNodeInner, string, unit) op" where
  "store_dep_op = (\<lambda>(hash, code).
     storage_op (fork_store_factory_dep hash (concat (map to_be_bytes code))))"

text \<open>\<^verbatim>\<open>as_u32\<close> of a 64-bit number panics when the number does not fit.\<close>

definition u64_as_u32 :: "u64 \<Rightarrow> u32 option" where
  "u64_as_u32 a = (if unat a < 2 ^ 32 then Some (ucast a) else None)"

definition tx_receipt ::
  "lib \<Rightarrow> L2Tx \<Rightarrow> Block \<Rightarrow> VmExecutionResultAndLogs \<Rightarrow> u256 \<Rightarrow> TransactionReceipt" where
  "tx_receipt L l2_tx block result used =
     \<lparr>rc_transaction_hash = l2_tx_hash L l2_tx, rc_transaction_index = 0,
      rc_block_hash = Some (block_hash block), rc_block_number = Some (block_number block),
      rc_l1_batch_number = block_l1_batch_number block,
      rc_from = l2_initiator_address l2_tx, rc_to = Some (l2_contract_address l2_tx),
      rc_gas_used = Some used,
      rc_contract_address = contract_address_from_tx_result L result,
      rc_logs = tx_logs block (l2_tx_hash L l2_tx) result,
      rc_status = Some (if is_failed (vr_result result) then 0 else 1),
      rc_effective_gas_price = Some (ucast L2_GAS_PRICE)\<rparr>"

definition tx_record ::
  "lib \<Rightarrow> L2Tx \<Rightarrow> L2TxResult \<Rightarrow> TransactionResult option" where
  "tx_record L l2_tx raw =
     (let block = raw_block raw; result = raw_result raw in
      case u256_sub (gas_limit (l2_fee l2_tx)) (ucast (vr_gas_refunded result)) of
        None \<Rightarrow> None
      | Some used \<Rightarrow>
          (case (create_debug_output (contract_deployer_address L) (call_into L) l2_tx result
                   (raw_call_traces raw),
                 u64_as_u32 (case block_l1_batch_number block of Some b \<Rightarrow> b | None \<Rightarrow> 0)) of
             (Ok debug, Some batch) \<Rightarrow>
               Some \<lparr>tr_info = \<lparr>info_tx = l2_tx, info_batch_number = batch,
                               info_miniblock_number = block_number block, info_result = result\<rparr>,
                     tr_receipt = tx_receipt L l2_tx block result used, tr_debug = debug\<rparr>
           | _ \<Rightarrow> None))"

text \<open>One of the two blocks of a transaction: the state before it is archived (a failure is only
  logged), the counters advance, and the block has to carry their new values.\<close>

definition place_block :: "Block \<Rightarrow> InMemoryNodeInner \<Rightarrow> InMemoryNodeInner" where
  "place_block b n =
     n\<lparr>current_miniblock_hash := block_hash b,
       node_block_hashes := (node_block_hashes n)(block_number b \<mapsto> block_hash b),
       blocks := (blocks n)(block_hash b \<mapsto> b),
       node_filters := notify_new_block (block_hash b) (node_filters n)\<rparr>"

definition produce_block :: "Block \<Rightarrow> (InMemoryNodeInner, string, unit) op" where
  "produce_block block n =
     (let n = snd (archive_state n);
          n = n\<lparr>current_miniblock := sat_add (current_miniblock n) 1,
                current_timestamp := sat_add (current_timestamp n) 1\<rparr>
      in case Option.bind (block_l1_batch_number block) u64_as_u32 of
           None \<Rightarrow> (Panic, n)
         | Some batch \<Rightarrow>
             if batch \<noteq> current_batch n then (Panic, n)
             else if block_number block \<noteq> current_miniblock n then (Panic, n)
             else if unat (block_timestamp block) \<ge> 2 ^ 64 then (Panic, n)
             else if ucast (block_timestamp block) \<noteq> current_timestamp n then (Panic, n)
             else (Ok (), place_block block n))"

definition commit_body :: "lib \<Rightarrow> L2Tx \<Rightarrow> L2TxResult \<Rightarrow> (InMemoryNodeInner, string, unit) op" where
  "commit_body L l2_tx raw =
     (let block = raw_block raw; tx_hash = l2_tx_hash L l2_tx in
      op_bind (storage_op (write_all (raw_keys raw))) (\<lambda>_.
      op_bind (op_list store_dep_op (raw_bytecodes raw)) (\<lambda>_.
      op_bind (op_list (notify_log_op block) (tx_logs block tx_hash (raw_result raw))) (\<lambda>_.
      case tx_record L l2_tx raw of
        None \<Rightarrow> op_fail Panic
      | Some rec \<Rightarrow>
          op_bind (op_modify (\<lambda>n. n\<lparr>tx_results := AList.update tx_hash rec (tx_results n),
                                    current_batch := sat_add (current_batch n) 1\<rparr>)) (\<lambda>_.
          let ctx = new_block (raw_block_ctx raw)
          in op_list produce_block
               [block, create_empty_block L (ctx_miniblock ctx) (ctx_timestamp ctx) (ctx_batch ctx)
                         (Some (block_hash block))])))))"

definition commit_l2_tx :: "lib \<Rightarrow> L2Tx \<Rightarrow> L2TxResult \<Rightarrow> (InMemoryNode, string, unit) op" where
  "commit_l2_tx L l2_tx raw =
     with_inner (''Failed to acquire write lock: '' @ LOCK_POISONED) (commit_body L l2_tx raw)"

text \<open>\<^verbatim>\<open>run_l2_tx\<close> takes the lock three times: to announce the transaction, to run it and to commit
  it.\<close>

definition announce_l2_tx :: "lib \<Rightarrow> L2Tx \<Rightarrow> (InMemoryNode, string, unit) op" where
  "announce_l2_tx L l2_tx =
     with_inner (''Failed to acquire write lock: '' @ LOCK_POISONED)
       (op_modify (\<lambda>n. n\<lparr>node_filters :=
          notify_new_pending_transaction (l2_tx_hash L l2_tx) (node_filters n)\<rparr>))"

definition run_l2_tx ::
  "lib \<Rightarrow> 'vm vm_api \<Rightarrow> L2Tx \<Rightarrow> TxExecutionMode \<Rightarrow> (InMemoryNode, string, unit) op" where
  "run_l2_tx L V l2_tx execution_mode =
     (case validate_tx l2_tx of
        Ok _ \<Rightarrow>
          op_bind (announce_l2_tx L l2_tx) (\<lambda>_.
          op_bind (run_l2_tx_raw L V l2_tx execution_mode True) (\<lambda>raw.
          case vr_result (raw_result raw) of
            Halt reason \<Rightarrow> op_fail (Err (''Transaction HALT: '' @ reason))
          | _ \<Rightarrow> commit_l2_tx L l2_tx raw))
      | r \<Rightarrow> op_fail r)"

definition apply_txs :: "lib \<Rightarrow> 'vm vm_api \<Rightarrow> L2Tx list \<Rightarrow> (InMemoryNode, string, unit) op" where
  "apply_txs L V = op_list (\<lambda>tx. run_l2_tx L V tx VerifyExecute)"

section \<open>Actions that go through the storage interface\<close>

text \<open>An action on a view that panics or has the effect of a sequence of accesses. The virtual machine
  is such an action: it uses the storage only through \<^verbatim>\<open>ReadStorage\<close> and \<^verbatim>\<open>WriteStorage\<close>.\<close>

definition by_accesses :: "(view, 'a) action \<Rightarrow> bool" where
  "by_accesses act \<longleftrightarrow>
     (\<forall>v a v'. act v = (Some a, v') \<longrightarrow>
        (\<exists>accs ans. run_accesses (storage_view fork_storage) accs v = (Some ans, v')))"

lemma run_accesses_append:
  assumes "run_accesses ws as s = (Some r, s1)" and "run_accesses ws bs s1 = (Some q, s2)"
  shows "run_accesses ws (as @ bs) s = (Some (r @ q), s2)"
  using assms
proof (induction as arbitrary: s r)
  case (Cons a as)
  from Cons.prems(1) obtain x s' r' where
    "run_access ws a s = (Some x, s')" "run_accesses ws as s' = (Some r', s1)" "r = x # r'"
    by (auto simp: act_bind_def split: prod.splits option.splits)
  then show ?case
    using Cons.IH [of s' r'] Cons.prems(2) by simp
qed simp

lemma act_bind_SomeE:
  assumes "act_bind m f s = (Some b, s')"
  obtains a s1 where "m s = (Some a, s1)" and "f a s1 = (Some b, s')"
  using assms by (auto simp: act_bind_def split: prod.splits option.splits)

lemma by_accesses_return [intro]: "by_accesses (act_return a)"
  unfolding by_accesses_def by (auto intro: exI [of _ "[]"])

lemma by_accesses_panic [intro]: "by_accesses act_panic"
  unfolding by_accesses_def by simp

lemma by_accesses_bind [intro]:
  assumes "by_accesses m" and "\<And>a. by_accesses (f a)"
  shows "by_accesses (act_bind m f)"
  unfolding by_accesses_def
proof (intro allI impI)
  fix v b v'
  assume "act_bind m f v = (Some b, v')"
  then obtain a v1 where "m v = (Some a, v1)" and "f a v1 = (Some b, v')"
    by (rule act_bind_SomeE)
  then obtain as r bs q where "run_accesses (storage_view fork_storage) as v = (Some r, v1)"
    and "run_accesses (storage_view fork_storage) bs v1 = (Some q, v')"
    using assms unfolding by_accesses_def by blast
  then show "\<exists>accs ans. run_accesses (storage_view fork_storage) accs v = (Some ans, v')"
    by (blast intro: run_accesses_append)
qed

lemma by_accesses_access:
  assumes "\<And>v a v'. act v = (Some a, v') \<Longrightarrow>
             \<exists>r. run_access (storage_view fork_storage) acc v = (Some r, v')"
  shows "by_accesses act"
  unfolding by_accesses_def
proof (intro allI impI)
  fix v a v'
  assume "act v = (Some a, v')"
  then obtain r where "run_access (storage_view fork_storage) acc v = (Some r, v')"
    using assms by blast
  then have "run_accesses (storage_view fork_storage) [acc] v = (Some [r], v')"
    by simp
  then show "\<exists>accs ans. run_accesses (storage_view fork_storage) accs v = (Some ans, v')"
    by blast
qed

lemma by_accesses_read [intro]: "by_accesses (read_value (storage_view fork_storage) k)"
  by (rule by_accesses_access [of _ "Read k"]) (simp add: run_access_def)

lemma by_accesses_write [intro]: "by_accesses (set_value (storage_view fork_storage) k x)"
  by (rule by_accesses_access [of _ "Write k x"]) (simp add: run_access_def)

lemma by_accesses_modified [intro]: "by_accesses take_modified"
  unfolding by_accesses_def by (auto simp: take_modified_def intro: exI [of _ "[]"])

abbreviation fork_view_inv :: "view \<Rightarrow> bool" where
  "fork_view_inv \<equiv> view_inv fork_healthy fork_val fork_initial"

lemma distinct_accesses:
  assumes "run_accesses (storage_view fork_storage) accs v = (Some ans, v')"
    and "distinct (map fst (modified_keys v))"
  shows "distinct (map fst (modified_keys v'))"
  using assms
proof (induction accs arbitrary: v ans)
  case (Cons a accs)
  from Cons.prems(1) obtain x v1 r' where
    step: "run_access (storage_view fork_storage) a v = (Some x, v1)"
    and rest: "run_accesses (storage_view fork_storage) accs v1 = (Some r', v')"
    by (auto simp: act_bind_def split: prod.splits option.splits)
  have "distinct (map fst (modified_keys v1))"
    using step Cons.prems(2)
    by (cases a) (auto simp: run_access_def act_bind_def storage_view_def view_read_value_def
        view_set_value_def view_load_factory_dep_def view_is_write_initial_def get_value_no_log_def
        distinct_update split: prod.splits option.splits)
  then show ?case
    using Cons.IH rest by blast
qed simp

lemma by_accesses_frame:
  assumes "by_accesses act" and "act v = (Some a, v')" and "fork_view_inv v"
  shows "fork_view_inv v'" and "fork_val (storage_handle v') = fork_val (storage_handle v)"
    and "fork_healthy (storage_handle v')"
    and "distinct (map fst (modified_keys v)) \<Longrightarrow> distinct (map fst (modified_keys v'))"
proof -
  obtain accs ans where run: "run_accesses (storage_view fork_storage) accs v = (Some ans, v')"
    using assms(1,2) unfolding by_accesses_def by blast
  show i: "fork_view_inv v'"
    using fork_view.run_accesses_frame [OF assms(3) run] by blast
  show "fork_val (storage_handle v') = fork_val (storage_handle v)"
    using fork_storage.view_accesses_handle [OF assms(3) run] by blast
  show "fork_healthy (storage_handle v')"
    using i by (simp add: view_inv_def)
  show "distinct (map fst (modified_keys v)) \<Longrightarrow> distinct (map fst (modified_keys v'))"
    by (rule distinct_accesses [OF run])
qed

text \<open>What the development assumes of the virtual machine and of \<^verbatim>\<open>load_last_l2_block\<close>.\<close>

definition lawful_vm :: "lib \<Rightarrow> 'vm vm_api \<Rightarrow> bool" where
  "lawful_vm L V \<longleftrightarrow>
     by_accesses (load_last_l2_block L) \<and>
     (\<forall>b s. by_accesses (vm_new V b s)) \<and>
     (\<forall>vm. by_accesses (vm_inspect V vm)) \<and>
     (\<forall>vm. by_accesses (vm_execute_one_tx V vm)) \<and>
     (\<forall>vm. by_accesses (vm_execute_bootloader V vm))"

lemma lawful_vmD:
  assumes "lawful_vm L V"
  shows "by_accesses (load_last_l2_block L)" and "by_accesses (vm_new V b s)"
    and "by_accesses (vm_inspect V vm)" and "by_accesses (vm_execute_one_tx V vm)"
    and "by_accesses (vm_execute_bootloader V vm)"
  using assms by (auto simp: lawful_vm_def)

lemma by_accesses_env:
  "by_accesses (load_last_l2_block L) \<Longrightarrow> by_accesses (create_l1_batch_env L n)"
  unfolding create_l1_batch_env_def load_last_l1_batch_def Let_def
  by (intro by_accesses_bind) (auto split: prod.splits option.splits)

lemma by_accesses_run_raw:
  assumes "lawful_vm L V"
  shows "by_accesses (run_raw_body L V l2_tx mode boot n)"
  unfolding run_raw_body_def
  by (intro by_accesses_bind)
    (auto split: prod.splits option.splits
      intro!: by_accesses_bind by_accesses_env lawful_vmD [OF assms])

section \<open>The next batch follows the node\<close>

text \<open>The block that a run builds carries the numbers of its context.\<close>

definition raw_wf :: "L2TxResult \<Rightarrow> bool" where
  "raw_wf raw \<longleftrightarrow>
     block_number (raw_block raw) = ctx_miniblock (raw_block_ctx raw) \<and>
     block_l1_batch_number (raw_block raw) = Some (ucast (ctx_batch (raw_block_ctx raw))) \<and>
     block_timestamp (raw_block raw) = ucast (ctx_timestamp (raw_block_ctx raw))"

lemma env_ctx:
  assumes "create_l1_batch_env L n v = (Some (env, ctx), v')"
  shows "be_number env = ctx_batch ctx \<and> be_timestamp env = ctx_timestamp ctx"
  using assms unfolding create_l1_batch_env_def
  by (auto simp: Let_def elim!: act_bind_SomeE split: prod.splits)

lemma run_raw_wf:
  assumes "run_raw_body L V l2_tx mode boot n v = (Some raw, v')"
  shows "raw_wf raw"
proof -
  obtain env ctx v1 where env: "create_l1_batch_env L n v = (Some (env, ctx), v1)"
    and blk: "\<exists>result. raw_block raw = tx_block L n l2_tx env ctx result" and "raw_block_ctx raw = ctx"
    using assms unfolding run_raw_body_def
    by (fastforce elim!: act_bind_SomeE split: prod.splits option.splits if_splits)
  then show ?thesis
    using env_ctx [OF env] by (auto simp: raw_wf_def tx_block_def Let_def)
qed

text \<open>The stored block information is in step with the node when it is missing or carries the node's
  numbers and no later timestamp.\<close>

definition stored_in_step ::
  "InMemoryNodeInner \<Rightarrow> (u64 \<times> u64) option \<Rightarrow> (u32 \<times> h256 \<times> u64) option \<Rightarrow> bool" where
  "stored_in_step n l1 l2 \<longleftrightarrow>
     (case l1 of None \<Rightarrow> True
      | Some (num, ts) \<Rightarrow> ucast num = current_batch n \<and> ts \<le> current_timestamp n) \<and>
     (case l2 of None \<Rightarrow> unat (current_miniblock n) < 2 ^ 32
      | Some (num, _, ts) \<Rightarrow> ucast num = current_miniblock n \<and> ts \<le> current_timestamp n)"

definition in_step :: "InMemoryNodeInner \<Rightarrow> BlockContext \<Rightarrow> bool" where
  "in_step n ctx \<longleftrightarrow>
     ctx_batch ctx = sat_add (current_batch n) 1 \<and>
     ctx_miniblock ctx = sat_add (current_miniblock n) 1 \<and>
     ctx_timestamp ctx = sat_add (current_timestamp n) 1"

lemma env_in_step:
  assumes "load_last_l1_batch L v = (Some l1, v1)" and "load_last_l2_block L v1 = (Some l2, v2)"
    and "stored_in_step n l1 l2"
  shows "\<exists>env ctx. create_l1_batch_env L n v = (Some (env, ctx), v2) \<and> in_step n ctx"
proof -
  have "max (max a b) c = c" if "a \<le> c" "b \<le> c" for a b c :: u64
    using that by (simp add: max_def)
  then show ?thesis
    using assms
    by (cases l1; cases l2)
      (auto simp: create_l1_batch_env_def Let_def stored_in_step_def in_step_def new_batch_def
        from_current_def ucast_down_up)
qed

section \<open>The commit\<close>

text \<open>The archive after a state is added to it.\<close>

definition archived :: "InMemoryNodeInner \<Rightarrow> archive" where
  "archived n =
     AList.update (current_miniblock_hash n) (state (raw_storage (lock_value (fs_inner (node_storage n)))))
       (if length (previous_states n) > 128 then tl (previous_states n) else previous_states n)"

lemma archive_state_run:
  assumes "\<not> lock_poisoned (fs_inner (node_storage n))"
  shows "archive_state n = (Ok (), n\<lparr>previous_states := archived n\<rparr>)"
  using assms by (simp add: archive_state_def archived_def MAX_PREVIOUS_STATES_def Let_def)

definition advance :: "InMemoryNodeInner \<Rightarrow> InMemoryNodeInner" where
  "advance n =
     n\<lparr>previous_states := archived n, current_miniblock := sat_add (current_miniblock n) 1,
       current_timestamp := sat_add (current_timestamp n) 1\<rparr>"

definition fits :: "Block \<Rightarrow> InMemoryNodeInner \<Rightarrow> bool" where
  "fits b n \<longleftrightarrow>
     block_l1_batch_number b = Some (ucast (current_batch n)) \<and>
     block_number b = sat_add (current_miniblock n) 1 \<and>
     block_timestamp b = ucast (sat_add (current_timestamp n) 1)"

lemma u64_as_u32_ucast [simp]: "u64_as_u32 (ucast (b :: u32)) = Some b"
  using unat_ucast_less [of b, where 'b = 64] by (simp add: u64_as_u32_def)

lemma u64_as_u32_eq: "u64_as_u32 a = Some b \<Longrightarrow> a = ucast b"
  by (auto simp: u64_as_u32_def ucast_down_up split: if_splits)

lemma produce_block_ok:
  assumes "\<not> lock_poisoned (fs_inner (node_storage n))" and "fits b n"
  shows "produce_block b n = (Ok (), place_block b (advance n))"
  using assms unat_ucast_less [of "sat_add (current_timestamp n) 1", where 'b = 256]
  by (simp add: produce_block_def archive_state_run fits_def advance_def Let_def not_le [symmetric]
      del: not_le)

lemma produce_block_panic:
  assumes "\<not> fits b n"
  shows "\<exists>n'. produce_block b n = (Panic, n')"
proof -
  have same: "current_batch (snd (archive_state n)) = current_batch n"
    "current_miniblock (snd (archive_state n)) = current_miniblock n"
    "current_timestamp (snd (archive_state n)) = current_timestamp n"
    by (simp_all add: archive_state_def Let_def)
  show ?thesis
    using assms
    by (auto simp: produce_block_def Let_def same fits_def not_le bind_eq_Some_conv
        split: option.splits dest!: u64_as_u32_eq dest: ucast_down_eqD)
qed

definition stored_deps :: "(u256 \<times> u256 list) list \<Rightarrow> InMemoryStorage \<Rightarrow> InMemoryStorage" where
  "stored_deps = fold (\<lambda>(h, code). mem_store_factory_dep h (concat (map to_be_bytes code)))"

lemma store_deps_run:
  "fork_healthy (node_storage n) \<Longrightarrow>
   op_list store_dep_op deps n =
     (Ok (), n\<lparr>node_storage := update_raw (stored_deps deps) (node_storage n)\<rparr>)"
proof (induction deps arbitrary: n)
  case Nil
  then show ?case by (simp add: stored_deps_def update_raw_id)
next
  case (Cons d deps)
  obtain h c where d: "d = (h, c)" by fastforce
  let ?s = "update_raw (mem_store_factory_dep h (concat (map to_be_bytes c))) (node_storage n)"
  have "store_dep_op d n = (Ok (), n\<lparr>node_storage := ?s\<rparr>)"
    using fork_store_factory_dep_run [OF Cons.prems] by (simp add: store_dep_op_def storage_op_def d)
  then show ?case
    using Cons by (simp add: stored_deps_def update_raw_comp comp_def d)
qed

lemma write_all_op_run:
  assumes "fork_healthy (node_storage n)"
  shows "storage_op (write_all kvs) n =
    (Ok (), n\<lparr>node_storage := update_raw (fold (\<lambda>(k, v). mem_set_value k v) kvs) (node_storage n)\<rparr>)"
  by (simp add: storage_op_def write_all_run [OF assms])

lemma push_log_numbered:
  assumes "log_block_number l \<noteq> None" shows "\<exists>flt'. push_log l k flt = Some flt'"
proof (cases flt)
  case (FLog f)
  have "matches f l k \<noteq> None"
    using assms by simp
  then show ?thesis
    using FLog by (auto split: option.splits)
qed simp_all

lemma notify_log_loop_numbered:
  "log_block_number l \<noteq> None \<Longrightarrow> fst (notify_log_loop l k fs) = Ok ()"
proof (induction l k fs rule: notify_log_loop.induct)
  case (2 lg latest i flt rest)
  then show ?case
    using push_log_numbered [of lg latest flt] by (auto split: prod.splits)
qed simp

lemma notify_logs_run:
  "\<forall>l \<in> set logs. log_block_number l \<noteq> None \<Longrightarrow>
   op_list (notify_log_op b) logs n =
     (Ok (), n\<lparr>node_filters :=
        fold apply_filter_op (map (\<lambda>l. NotifyLog l (block_number b)) logs) (node_filters n)\<rparr>)"
proof (induction logs arbitrary: n)
  case (Cons l logs)
  let ?f = "apply_filter_op (NotifyLog l (block_number b)) (node_filters n)"
  have "notify_log_op b l n = (Ok (), n\<lparr>node_filters := ?f\<rparr>)"
    using Cons.prems notify_log_loop_numbered [of l "block_number b" "filters (node_filters n)"]
    by (cases "notify_log_loop l (block_number b) (filters (node_filters n))")
      (simp add: notify_log_op_def notify_new_log_def)
  then show ?case
    using Cons by simp
qed simp

lemma tx_logs_numbered: "\<forall>l \<in> set (tx_logs b h r). log_block_number l = Some (block_number b)"
  by (auto simp: tx_logs_def event_log_def)

text \<open>The state of the node when the transaction is stored, before its blocks are, and the block that
  closes the batch.\<close>

definition stored_tx ::
  "lib \<Rightarrow> L2Tx \<Rightarrow> L2TxResult \<Rightarrow> TransactionResult \<Rightarrow> InMemoryNodeInner \<Rightarrow> InMemoryNodeInner" where
  "stored_tx L l2_tx raw rec n =
     (let b = raw_block raw; h = l2_tx_hash L l2_tx in
      n\<lparr>node_storage := update_raw (stored_deps (raw_bytecodes raw) \<circ>
          fold (\<lambda>(k, v). mem_set_value k v) (raw_keys raw)) (node_storage n),
        node_filters := fold apply_filter_op
          (map (\<lambda>l. NotifyLog l (block_number b)) (tx_logs b h (raw_result raw))) (node_filters n),
        tx_results := AList.update h rec (tx_results n),
        current_batch := sat_add (current_batch n) 1\<rparr>)"

definition end_block :: "lib \<Rightarrow> L2TxResult \<Rightarrow> Block" where
  "end_block L raw =
     (let ctx = new_block (raw_block_ctx raw)
      in create_empty_block L (ctx_miniblock ctx) (ctx_timestamp ctx) (ctx_batch ctx)
           (Some (block_hash (raw_block raw))))"

lemma commit_body_run:
  assumes "fork_healthy (node_storage n)" and "tx_record L l2_tx raw = Some rec"
  shows "commit_body L l2_tx raw n =
         op_list produce_block [raw_block raw, end_block L raw] (stored_tx L l2_tx raw rec n)"
proof -
  let ?n1 = "n\<lparr>node_storage :=
      update_raw (fold (\<lambda>(k, v). mem_set_value k v) (raw_keys raw)) (node_storage n)\<rparr>"
  let ?n2 = "n\<lparr>node_storage := update_raw (stored_deps (raw_bytecodes raw) \<circ>
          fold (\<lambda>(k, v). mem_set_value k v) (raw_keys raw)) (node_storage n)\<rparr>"
  have "op_list store_dep_op (raw_bytecodes raw) ?n1 = (Ok (), ?n2)"
    using assms(1) by (subst store_deps_run) (simp_all add: update_raw_comp)
  moreover have "\<forall>l \<in> set (tx_logs (raw_block raw) (l2_tx_hash L l2_tx) (raw_result raw)).
      log_block_number l \<noteq> None"
    using tx_logs_numbered by fastforce
  ultimately show ?thesis
    using assms
    by (simp add: commit_body_def write_all_op_run notify_logs_run Let_def stored_tx_def end_block_def
        del: op_list.simps)
qed

lemma fits_raw:
  assumes "raw_wf raw" and "current_batch m = sat_add (current_batch n) 1"
    and "current_miniblock m = current_miniblock n" and "current_timestamp m = current_timestamp n"
  shows "fits (raw_block raw) m \<longleftrightarrow> in_step n (raw_block_ctx raw)"
  using assms by (auto simp: fits_def raw_wf_def in_step_def ucast_up_inj)

lemma fits_end_block:
  assumes "in_step n (raw_block_ctx raw)" and "current_batch m = sat_add (current_batch n) 1"
    and "current_miniblock m = sat_add (current_miniblock n) 1"
    and "current_timestamp m = sat_add (current_timestamp n) 1"
  shows "fits (end_block L raw) m"
  using assms by (simp add: fits_def end_block_def create_empty_block_def in_step_def new_block_def Let_def)

lemma insert_advance_simps [simp]:
  "current_batch (place_block b n) = current_batch n"
  "current_miniblock (place_block b n) = current_miniblock n"
  "current_timestamp (place_block b n) = current_timestamp n"
  "node_storage (place_block b n) = node_storage n"
  "tx_results (place_block b n) = tx_results n"
  "previous_states (place_block b n) = previous_states n"
  "current_batch (advance n) = current_batch n"
  "current_miniblock (advance n) = sat_add (current_miniblock n) 1"
  "current_timestamp (advance n) = sat_add (current_timestamp n) 1"
  "node_storage (advance n) = node_storage n"
  "tx_results (advance n) = tx_results n"
  "node_filters (advance n) = node_filters n"
  "blocks (advance n) = blocks n"
  "node_block_hashes (advance n) = node_block_hashes n"
  by (simp_all add: place_block_def advance_def)

lemma stored_tx_simps [simp]:
  "current_batch (stored_tx L t raw rec n) = sat_add (current_batch n) 1"
  "current_miniblock (stored_tx L t raw rec n) = current_miniblock n"
  "current_timestamp (stored_tx L t raw rec n) = current_timestamp n"
  "blocks (stored_tx L t raw rec n) = blocks n"
  "node_block_hashes (stored_tx L t raw rec n) = node_block_hashes n"
  "current_miniblock_hash (stored_tx L t raw rec n) = current_miniblock_hash n"
  "previous_states (stored_tx L t raw rec n) = previous_states n"
  "tx_results (stored_tx L t raw rec n) = AList.update (l2_tx_hash L t) rec (tx_results n)"
  "lock_poisoned (fs_inner (node_storage (stored_tx L t raw rec n))) =
     lock_poisoned (fs_inner (node_storage n))"
  by (simp_all add: stored_tx_def Let_def)

definition after_commit ::
  "lib \<Rightarrow> L2Tx \<Rightarrow> L2TxResult \<Rightarrow> TransactionResult \<Rightarrow> InMemoryNodeInner \<Rightarrow> InMemoryNodeInner" where
  "after_commit L l2_tx raw rec n =
     place_block (end_block L raw)
       (advance (place_block (raw_block raw) (advance (stored_tx L l2_tx raw rec n))))"

lemma commit_in_step:
  assumes "fork_healthy (node_storage n)" and "tx_record L l2_tx raw = Some rec"
    and "raw_wf raw" and "in_step n (raw_block_ctx raw)"
  shows "commit_body L l2_tx raw n = (Ok (), after_commit L l2_tx raw rec n)"
proof -
  let ?c = "stored_tx L l2_tx raw rec n"
  have np: "\<not> lock_poisoned (fs_inner (node_storage ?c))"
    using assms(1) by (simp add: fork_healthy_def)
  have "produce_block (raw_block raw) ?c = (Ok (), place_block (raw_block raw) (advance ?c))"
    using np assms(3,4) by (intro produce_block_ok) (simp_all add: fits_raw)
  moreover have "produce_block (end_block L raw) (place_block (raw_block raw) (advance ?c)) =
      (Ok (), after_commit L l2_tx raw rec n)"
    using np assms(4) unfolding after_commit_def
    by (intro produce_block_ok fits_end_block [of n]) simp_all
  ultimately show ?thesis
    using assms by (simp add: commit_body_run)
qed

lemma commit_out_of_step:
  assumes "fork_healthy (node_storage n)" and "tx_record L l2_tx raw = Some rec"
    and "raw_wf raw" and "\<not> in_step n (raw_block_ctx raw)"
  shows "\<exists>n'. commit_body L l2_tx raw n = (Panic, n')"
proof -
  have "\<not> fits (raw_block raw) (stored_tx L l2_tx raw rec n)"
    using assms(3,4) by (simp add: fits_raw)
  then obtain n' where "produce_block (raw_block raw) (stored_tx L l2_tx raw rec n) = (Panic, n')"
    using produce_block_panic by blast
  then show ?thesis
    using assms by (simp add: commit_body_run)
qed

end
