(* ===== verification/NodeRuns.thy ===== *)
theory NodeRuns
  imports InMemoryNode
begin

text \<open>
  Transactions on the node: a concrete node to run, the frame of a run, the chain of blocks that commits
  build, and the properties of \<^verbatim>\<open>run_l2_tx\<close>, of the snapshots and of the archive
  (\<^verbatim>\<open>src/.test-node-subtree/src/node/in_memory.rs\<close>).
\<close>

section \<open>A concrete node\<close>

text \<open>Instances of the external parts, to run the node on.\<close>

definition example_lib_at :: "(u32 \<times> h256 \<times> u64) option \<Rightarrow> lib" where
  "example_lib_at l2 =
     \<lparr>storage_key_for_eth_balance = (\<lambda>a. (0x800A, ucast a)),
      storage_key_for_standard_token_balance = (\<lambda>t a. (t, ucast a)),
      get_nonce_key = (\<lambda>a. (0x8003, ucast a)), get_code_key = (\<lambda>a. (0x8002, ucast a)),
      decompose_full_nonce = (\<lambda>n. (take_bit 128 n, drop_bit 128 n)),
      nonces_to_full_nonce = (\<lambda>n d. push_bit 128 d + n),
      h256_to_account_address = ucast, unpack_block_info = (\<lambda>w. (ucast (drop_bit 128 w), ucast w)),
      system_context_address = 0x800B, system_context_block_info_position = 7,
      contract_deployer_address = 0x8006, account_code_storage_address = 0x8002,
      bootloader_address = 0x8001, l2_eth_token_address = 0x800A,
      keccak256 = (\<lambda>bs. ucast (bs ! 7) + 1000 * ucast (bs ! 39)), hash_bytecode = (\<lambda>bs. of_nat (length bs)),
      bytes_to_be_words = (\<lambda>_. []), l2_tx_hash = (\<lambda>t. ucast (l2_nonce t) + 100),
      api_transaction_from = (\<lambda>t. example_api_tx\<lparr>tx_hash := ucast (l2_nonce t) + 100\<rparr>),
      call_into = (\<lambda>c. DebugCall DebugTypeCall 0 0 0 0 0 [] [] None None []),
      tx_payer = l2_initiator_address, legacy_hash = ucast,
      load_last_l2_block = act_return l2,
      derive_base_fee_and_gas_per_pubdata = (\<lambda>l1 l2. (l2, 8)),
      derive_overhead = (\<lambda>_ _ _. 5), encoding_len = (\<lambda>_. 100), compress_bytecode = (\<lambda>_. None),
      known_codes_key = (\<lambda>h. (0x8004, h)), default_signature = [27],
      block_gas_limit_const = 80000000, block_overhead_pubdata = 40, max_pubdata_per_block = 120000,
      max_gas_per_pubdata_byte = 50000, max_l2_tx_gas_limit = 80000000,
      eth_call_gas_limit = 80000000\<rparr>"

abbreviation example_lib :: lib where
  "example_lib \<equiv> example_lib_at None"

definition example_sources :: contract_sources where
  "example_sources =
     \<lparr>included = (\<lambda>_. []), read_zbin = (\<lambda>_. []), read_sys_contract = (\<lambda>_. []),
      read_playground_bootloader = [], read_proved_bootloader = [],
      bytecode_from_slice = (\<lambda>_ b. b), hash_of = (\<lambda>_. 0), words_of = (\<lambda>_. []),
      compiled_in_contracts = [], local_contracts = []\<rparr>"

definition example_config :: InMemoryNodeConfig where
  "example_config =
     \<lparr>cfg_show_calls = ShowCallsNone, cfg_show_storage_logs = ShowStorageNone,
      cfg_show_vm_details = ShowVMNone, cfg_show_gas_details = ShowGasNone,
      cfg_resolve_hashes = False, cfg_system_contracts_options = BuiltIn\<rparr>"

definition example_node :: InMemoryNode where
  "example_node =
     InMemoryNode_new example_lib (\<lambda>_. empty_genesis) example_sources None None example_config"

text \<open>A machine that writes one slot, emits one event and ends each transaction with a given result; it
  succeeds exactly with a gas limit of at least \<^verbatim>\<open>need\<close>.\<close>

definition example_outcome :: "ExecutionResult \<Rightarrow> VmExecutionResultAndLogs" where
  "example_outcome res =
     \<lparr>vr_result = res, vr_events = [\<lparr>ev_address = 0xB, ev_indexed_topics = [9], ev_value = [1]\<rparr>],
      vr_storage_logs = [], vr_gas_used = 1000, vr_computational_gas_used = 900,
      vr_gas_refunded = 10\<rparr>"

definition example_vm :: "u256 \<Rightarrow> ExecutionResult \<Rightarrow> (L2Tx list) vm_api" where
  "example_vm need res =
     \<lparr>vm_new = (\<lambda>_ _. act_return []), vm_push_transaction = (\<lambda>t vm. vm @ [t]),
      vm_inspect = (\<lambda>vm. act_bind (set_value (storage_view fork_storage) (0xB, 2) 3) (\<lambda>_.
         act_return (\<lparr>out_result = example_outcome res, out_calls = Some [], out_debug = None\<rparr>, vm))),
      vm_execute_one_tx = (\<lambda>vm. act_return
         (example_outcome (if list_all (\<lambda>t. need \<le> gas_limit (l2_fee t)) vm then res
            else Halt ''Not enough gas''), vm)),
      vm_execute_bootloader = act_return, vm_last_compressed_bytecodes = (\<lambda>_. [])\<rparr>"

lemma lawful_example [simp]: "lawful_vm (example_lib_at l2) (example_vm need res)"
  unfolding lawful_vm_def by (auto simp: example_lib_at_def example_vm_def)

lemma example_node_simps [simp]:
  "lock_poisoned (node_inner example_node) = False"
  "fork_healthy (node_storage (lock_value (node_inner example_node)))"
  "current_batch (lock_value (node_inner example_node)) = 0"
  "current_miniblock (lock_value (node_inner example_node)) = 0"
  "current_timestamp (lock_value (node_inner example_node)) = 1000"
  by (simp_all add: example_node_def InMemoryNode_new_def Let_def NON_FORK_FIRST_BLOCK_TIMESTAMP_def)

definition example_storage :: ForkStorage where
  "example_storage = ForkStorage_new empty_genesis None"

lemma example_node_storage: "node_storage (lock_value (node_inner example_node)) = example_storage"
  by (simp add: example_node_def InMemoryNode_new_def example_storage_def Let_def)

lemma example_reads [simp]:
  "read_value (storage_view fork_storage) k (StorageView_new example_storage) =
     (Some 0, (StorageView_new example_storage)\<lparr>read_storage_keys := [k \<mapsto> 0]\<rparr>)"
  by (simp add: storage_view_def view_read_value_def get_value_no_log_def StorageView_new_def
      fork_storage_def read_value_internal_def locked_def read_value_body_def mem_read_value_def
      example_storage_def ForkStorage_new_def empty_genesis_def Let_def)

lemma example_env:
  assumes "node_storage n = example_storage"
  shows "\<exists>env ctx v. create_l1_batch_env (example_lib_at l2) n (StorageView_new (node_storage n)) =
           (Some (env, ctx), v) \<and>
         (stored_in_step n None l2 \<longrightarrow> in_step n ctx) \<and> storage_handle v = example_storage \<and>
         modified_keys v = []"
proof -
  let ?v = "StorageView_new example_storage"
  have l1: "load_last_l1_batch (example_lib_at l2) ?v =
      (Some None, ?v\<lparr>read_storage_keys := [(0x800B, 7) \<mapsto> 0]\<rparr>)"
    by (simp add: load_last_l1_batch_def example_lib_at_def)
  have l2': "load_last_l2_block (example_lib_at l2) v = (Some l2, v)" for v
    by (simp add: example_lib_at_def)
  have "\<exists>env ctx. create_l1_batch_env (example_lib_at l2) n ?v =
      (Some (env, ctx), ?v\<lparr>read_storage_keys := [(0x800B, 7) \<mapsto> 0]\<rparr>) \<and>
      (stored_in_step n None l2 \<longrightarrow> in_step n ctx)"
  proof (cases "stored_in_step n None l2")
    case True
    then show ?thesis
      using env_in_step [OF l1 l2'] by blast
  next
    case False
    then show ?thesis
      by (simp add: create_l1_batch_env_def l1 l2' Let_def split: option.splits prod.splits)
  qed
  then show ?thesis
    using assms by (auto simp: StorageView_new_def)
qed

lemma example_write:
  assumes "storage_handle v = example_storage" and "modified_keys v = []"
  shows "\<exists>o' v'. set_value (storage_view fork_storage) k x v = (Some o', v') \<and>
           storage_handle v' = example_storage \<and> modified_keys v' = [(k, x)]"
  using assms
  by (simp add: storage_view_def view_set_value_def get_value_no_log_def fork_storage_def
      read_value_internal_def locked_def read_value_body_def mem_read_value_def
      example_storage_def ForkStorage_new_def empty_genesis_def Let_def split: option.splits)

lemma example_raw:
  assumes "node_storage n = example_storage" and "show_gas_details n = ShowGasNone"
    and fee: "l2_fee tx = l2_fee (example_tx 0)"
  shows "\<exists>raw v. run_raw_body (example_lib_at l2) (example_vm need res) tx VerifyExecute True n
             (StorageView_new (node_storage n)) = (Some raw, v) \<and>
           vr_result (raw_result raw) = res \<and> (stored_in_step n None l2 \<longrightarrow> in_step n (raw_block_ctx raw)) \<and> raw_wf raw \<and>
           raw_keys raw = [((0xB, 2), 3)] \<and> storage_handle v = example_storage \<and>
           raw_block raw = tx_block (example_lib_at l2) n tx
             (fst (the (fst (create_l1_batch_env (example_lib_at l2) n (StorageView_new (node_storage n))))))
             (raw_block_ctx raw) (example_outcome res) \<and>
           ((\<forall>reason. res \<noteq> Halt reason) \<longrightarrow> tx_record (example_lib_at l2) tx raw \<noteq> None)"
proof -
  obtain env ctx v where env: "create_l1_batch_env (example_lib_at l2) n (StorageView_new (node_storage n)) =
      (Some (env, ctx), v)" "stored_in_step n None l2 \<longrightarrow> in_step n ctx" "storage_handle v = example_storage" "modified_keys v = []"
    using example_env [OF assms(1)] by blast
  obtain o' v' where w: "set_value (storage_view fork_storage) (0xB, 2) 3 v = (Some o', v')"
    "storage_handle v' = example_storage" "modified_keys v' = [((0xB, 2), 3)]"
    using example_write [OF env(3,4)] by blast
  have some_contracts: "contracts (system_contracts n) VerifyExecute b \<noteq> None" for b
    by (cases b) auto
  have sum: "\<not> summary_panics (example_lib_at l2) n tx
      \<lparr>out_result = example_outcome res, out_calls = Some [], out_debug = None\<rparr>"
    using assms(2) by (simp add: summary_panics_def example_outcome_def fee example_tx_def u256_sub_def
        checked_sub_def Let_def)
  define raw where "raw = \<lparr>raw_keys = modified_keys v', raw_result = example_outcome res,
      raw_call_traces = [], raw_block = tx_block (example_lib_at l2) n tx env ctx (example_outcome res),
      raw_bytecodes = [], raw_block_ctx = ctx\<rparr>"
  have run: "run_raw_body (example_lib_at l2) (example_vm need res) tx VerifyExecute True n
      (StorageView_new (node_storage n)) = (Some raw, v')"
    using env(1) w some_contracts sum
    by (auto simp: run_raw_body_def example_vm_def raw_def take_modified_def collect_bytecodes_def
        storage_view_def view_modified_storage_keys_def split: option.splits)
  have "tx_record (example_lib_at l2) tx raw \<noteq> None" if "\<forall>reason. res \<noteq> Halt reason"
    using that run_raw_wf [OF run]
    by (cases res) (auto simp: tx_record_def raw_def raw_wf_def example_outcome_def fee example_tx_def
        u256_sub_def checked_sub_def create_debug_output_def Let_def)
  then show ?thesis
    using run run_raw_wf [OF run] env w by (auto simp: raw_def example_outcome_def)
qed

section \<open>Properties\<close>

definition announced :: "lib \<Rightarrow> L2Tx \<Rightarrow> InMemoryNodeInner \<Rightarrow> InMemoryNodeInner" where
  "announced L tx n =
     n\<lparr>node_filters := notify_new_pending_transaction (l2_tx_hash L tx) (node_filters n)\<rparr>"

lemma announced_simps [simp]:
  "node_storage (announced L tx n) = node_storage n"
  "current_batch (announced L tx n) = current_batch n"
  "current_miniblock (announced L tx n) = current_miniblock n"
  "current_timestamp (announced L tx n) = current_timestamp n"
  "current_miniblock_hash (announced L tx n) = current_miniblock_hash n"
  "blocks (announced L tx n) = blocks n"
  "node_block_hashes (announced L tx n) = node_block_hashes n"
  "tx_results (announced L tx n) = tx_results n"
  "previous_states (announced L tx n) = previous_states n"
  "show_gas_details (announced L tx n) = show_gas_details n"
  by (simp_all add: announced_def)

lemma announce_run:
  "\<not> lock_poisoned (node_inner node) \<Longrightarrow>
   announce_l2_tx L tx node =
     (Ok (), node\<lparr>node_inner := (node_inner node)
        \<lparr>lock_value := announced L tx (lock_value (node_inner node)), lock_poisoned := False\<rparr>\<rparr>)"
  by (simp add: announce_l2_tx_def announced_def with_inner_def with_write_def)

text \<open>The state that the raw run leaves: the announced transaction and the storage of the view.\<close>

definition raw_left :: "lib \<Rightarrow> L2Tx \<Rightarrow> view \<Rightarrow> InMemoryNode \<Rightarrow> InMemoryNode" where
  "raw_left L tx v node =
     node\<lparr>node_inner := \<lparr>lock_value = (announced L tx (lock_value (node_inner node)))
            \<lparr>node_storage := storage_handle v\<rparr>, lock_poisoned = False\<rparr>\<rparr>"

text \<open>A run of a valid transaction on a healthy node that reaches its result.\<close>

definition ran ::
  "lib \<Rightarrow> 'vm vm_api \<Rightarrow> L2Tx \<Rightarrow> TxExecutionMode \<Rightarrow> InMemoryNode \<Rightarrow> L2TxResult \<Rightarrow> view \<Rightarrow> bool" where
  "ran L V tx mode node raw v \<longleftrightarrow>
     \<not> lock_poisoned (node_inner node) \<and> fork_healthy (node_storage (lock_value (node_inner node))) \<and>
     validate_tx tx = Ok () \<and>
     run_raw_body L V tx mode True (announced L tx (lock_value (node_inner node)))
       (StorageView_new (node_storage (lock_value (node_inner node)))) = (Some raw, v)"

lemma run_l2_tx_ran:
  assumes "ran L V tx mode node raw v"
  shows "run_l2_tx L V tx mode node =
    (case vr_result (raw_result raw) of
       Halt reason \<Rightarrow> (Err (''Transaction HALT: '' @ reason), raw_left L tx v node)
     | _ \<Rightarrow> commit_l2_tx L tx raw (raw_left L tx v node))"
proof -
  let ?n = "lock_value (node_inner node)"
  let ?node1 = "node\<lparr>node_inner := (node_inner node)\<lparr>lock_value := announced L tx ?n, lock_poisoned := False\<rparr>\<rparr>"
  have "run_l2_tx_raw L V tx mode True ?node1 = (Ok raw, raw_left L tx v node)"
    using assms
    by (simp add: run_l2_tx_raw_def ran_def with_inner_def with_write_def view_op_def raw_left_def)
  then show ?thesis
    using assms by (auto simp: run_l2_tx_def ran_def announce_run split: ExecutionResult.splits)
qed

lemma ran_frame:
  assumes "lawful_vm L V" and "ran L V tx mode node raw v"
  shows "fork_val (storage_handle v) = fork_val (node_storage (lock_value (node_inner node)))"
    and "fork_healthy (storage_handle v)" and "distinct (map fst (raw_keys raw))"
proof -
  let ?s = "node_storage (lock_value (node_inner node))"
  have run: "run_raw_body L V tx mode True (announced L tx (lock_value (node_inner node)))
      (StorageView_new ?s) = (Some raw, v)" and h: "fork_healthy ?s"
    using assms(2) by (simp_all add: ran_def)
  have i: "fork_view_inv (StorageView_new ?s)"
    by (rule view_inv_new, rule h)
  note f = by_accesses_frame [OF by_accesses_run_raw [OF assms(1)] run i]
  show "fork_val (storage_handle v) = fork_val ?s"
    using f(2) by (simp add: StorageView_new_def)
  show "fork_healthy (storage_handle v)"
    by (rule f(3))
  have "raw_keys raw = modified_keys v"
    using run unfolding run_raw_body_def
    by (auto simp: take_modified_def storage_view_def view_modified_storage_keys_def
        elim!: act_bind_SomeE split: prod.splits option.splits if_splits)
  then show "distinct (map fst (raw_keys raw))"
    using f(4) by (simp add: StorageView_new_def)
qed

lemma ran_wf: "ran L V tx mode node raw v \<Longrightarrow> raw_wf raw"
  unfolding ran_def using run_raw_wf by blast

lemma commit_raw_left:
  assumes "fork_healthy (storage_handle v)" and "tx_record L tx raw = Some rec" and "raw_wf raw"
  shows "commit_l2_tx L tx raw (raw_left L tx v node) =
     (let n = (announced L tx (lock_value (node_inner node)))\<lparr>node_storage := storage_handle v\<rparr>
      in if in_step n (raw_block_ctx raw)
         then (Ok (), node\<lparr>node_inner := \<lparr>lock_value = after_commit L tx raw rec n, lock_poisoned = False\<rparr>\<rparr>)
         else (Panic, node\<lparr>node_inner :=
                \<lparr>lock_value = snd (commit_body L tx raw n), lock_poisoned = True\<rparr>\<rparr>))"
proof -
  let ?n = "(announced L tx (lock_value (node_inner node)))\<lparr>node_storage := storage_handle v\<rparr>"
  have "fork_healthy (node_storage ?n)"
    using assms(1) by simp
  note ok = commit_in_step [OF this assms(2,3)] and bad = commit_out_of_step [OF this assms(2,3)]
  show ?thesis
  proof (cases "in_step ?n (raw_block_ctx raw)")
    case True
    then show ?thesis
      using ok by (simp add: commit_l2_tx_def with_inner_def with_write_def raw_left_def Let_def)
  next
    case False
    then obtain n' where "commit_body L tx raw ?n = (Panic, n')"
      using bad by blast
    then show ?thesis
      using False by (simp add: commit_l2_tx_def with_inner_def with_write_def raw_left_def Let_def)
  qed
qed

lemma in_step_left [simp]:
  "in_step ((announced L tx n)\<lparr>node_storage := s\<rparr>) ctx = in_step n ctx"
  "in_step (announced L tx n) ctx = in_step n ctx"
  by (simp_all add: in_step_def)

definition not_halted :: "L2TxResult \<Rightarrow> bool" where
  "not_halted raw = (case vr_result (raw_result raw) of Halt _ \<Rightarrow> False | _ \<Rightarrow> True)"

lemma run_l2_tx_commit:
  assumes "lawful_vm L V" and "ran L V tx mode node raw v" and "not_halted raw"
    and "tx_record L tx raw = Some rec"
  shows "run_l2_tx L V tx mode node =
     (let n = (announced L tx (lock_value (node_inner node)))\<lparr>node_storage := storage_handle v\<rparr>
      in if in_step (lock_value (node_inner node)) (raw_block_ctx raw)
         then (Ok (), node\<lparr>node_inner := \<lparr>lock_value = after_commit L tx raw rec n, lock_poisoned = False\<rparr>\<rparr>)
         else (Panic, node\<lparr>node_inner :=
                \<lparr>lock_value = snd (commit_body L tx raw n), lock_poisoned = True\<rparr>\<rparr>))"
  using assms(3) commit_raw_left [OF ran_frame(2) [OF assms(1,2)] assms(4) ran_wf [OF assms(2)]]
  by (auto simp: run_l2_tx_ran [OF assms(2)] not_halted_def Let_def split: ExecutionResult.splits)

lemma example_ran_at:
  assumes "\<not> lock_poisoned (node_inner node)"
    and "node_storage (lock_value (node_inner node)) = example_storage"
    and "show_gas_details (lock_value (node_inner node)) = ShowGasNone"
    and fee: "l2_fee tx = l2_fee (example_tx 0)"
  shows "\<exists>raw v. ran (example_lib_at l2) (example_vm need res) tx VerifyExecute node raw v \<and>
     vr_result (raw_result raw) = res \<and>
     (stored_in_step (lock_value (node_inner node)) None l2 \<longrightarrow>
        in_step (lock_value (node_inner node)) (raw_block_ctx raw)) \<and>
     raw_keys raw = [((0xB, 2), 3)] \<and>
     ((\<forall>reason. res \<noteq> Halt reason) \<longrightarrow>
        not_halted raw \<and> (\<exists>rec. tx_record (example_lib_at l2) tx raw = Some rec))"
proof -
  let ?L = "example_lib_at l2"
  let ?n = "announced ?L tx (lock_value (node_inner node))"
  have "node_storage ?n = example_storage" "show_gas_details ?n = ShowGasNone"
    using assms by simp_all
  then obtain raw v where
    "run_raw_body ?L (example_vm need res) tx VerifyExecute True ?n
       (StorageView_new (node_storage ?n)) = (Some raw, v)"
    "vr_result (raw_result raw) = res" "stored_in_step ?n None l2 \<longrightarrow> in_step ?n (raw_block_ctx raw)"
    "raw_keys raw = [((0xB, 2), 3)]"
    "(\<forall>reason. res \<noteq> Halt reason) \<longrightarrow> tx_record ?L tx raw \<noteq> None"
    using example_raw [of ?n tx l2 need res] fee by blast
  moreover have "validate_tx tx = Ok ()"
    by (simp add: validate_tx_def fee example_tx_def L2_GAS_PRICE_def word_less_nat_alt unat_ucast_up
        Let_def)
  moreover have "fork_healthy example_storage"
    by (simp add: example_storage_def)
  moreover have "stored_in_step ?n None l2 = stored_in_step (lock_value (node_inner node)) None l2"
    by (cases l2) (simp_all add: stored_in_step_def)
  ultimately show ?thesis
    using assms by (intro exI [of _ raw] exI [of _ v])
      (auto simp: ran_def not_halted_def split: ExecutionResult.splits)
qed

lemma example_ran:
  "\<exists>raw v. ran example_lib (example_vm need res) (example_tx i) VerifyExecute example_node raw v \<and>
     vr_result (raw_result raw) = res \<and>
     in_step (lock_value (node_inner example_node)) (raw_block_ctx raw) \<and>
     raw_keys raw = [((0xB, 2), 3)] \<and>
     ((\<forall>reason. res \<noteq> Halt reason) \<longrightarrow>
        not_halted raw \<and> (\<exists>rec. tx_record example_lib (example_tx i) raw = Some rec))"
proof -
  have "show_gas_details (lock_value (node_inner example_node)) = ShowGasNone"
    by (simp add: example_node_def InMemoryNode_new_def example_config_def Let_def)
  moreover have "stored_in_step (lock_value (node_inner example_node)) None None"
    by (simp add: stored_in_step_def)
  ultimately show ?thesis
    using example_ran_at [of example_node "example_tx i" None need res] by (auto simp: example_node_storage example_tx_def)
qed

subsection \<open>The chain\<close>

text \<open>The chain as a map from numbers to blocks, and its invariant: every number leads to a block that
  carries it, and the head is the block of the current miniblock.\<close>

definition ledger :: "InMemoryNodeInner \<Rightarrow> u64 \<Rightarrow> Block option" where
  "ledger n k = Option.bind (node_block_hashes n k) (blocks n)"

definition chain_linked :: "InMemoryNodeInner \<Rightarrow> bool" where
  "chain_linked n \<longleftrightarrow>
     (\<forall>k h. node_block_hashes n k = Some h \<longrightarrow>
        (\<exists>b. blocks n h = Some b \<and> block_hash b = h \<and> block_number b = k))"

definition chain_wf :: "InMemoryNodeInner \<Rightarrow> bool" where
  "chain_wf n \<longleftrightarrow>
     node_block_hashes n (current_miniblock n) = Some (current_miniblock_hash n) \<and> chain_linked n"

lemma ledger_insert:
  assumes "chain_linked n" and "blocks n (block_hash b) = None"
  shows "chain_linked (place_block b n)"
    and "ledger (place_block b n) = (ledger n)(block_number b \<mapsto> b)"
proof -
  show "chain_linked (place_block b n)"
    using assms by (fastforce simp: chain_linked_def place_block_def)
  show "ledger (place_block b n) = (ledger n)(block_number b \<mapsto> b)"
  proof
    fix k
    show "ledger (place_block b n) k = ((ledger n)(block_number b \<mapsto> b)) k"
      using assms by (cases "node_block_hashes n k")
        (fastforce simp: ledger_def place_block_def chain_linked_def)+
  qed
qed

lemma chain_advance [simp]:
  "chain_linked (advance n) = chain_linked n" "ledger (advance n) = ledger n"
  by (auto simp: chain_linked_def ledger_def fun_eq_iff)

lemma chain_left [simp]:
  "chain_linked (stored_tx L tx raw rec n) = chain_linked n"
  "ledger (stored_tx L tx raw rec n) = ledger n"
  "chain_linked ((announced L tx n)\<lparr>node_storage := s\<rparr>) = chain_linked n"
  "ledger ((announced L tx n)\<lparr>node_storage := s\<rparr>) = ledger n"
  by (auto simp: chain_linked_def ledger_def fun_eq_iff)

lemma sat_add_one: "unat a + 1 < 2 ^ LENGTH('a) \<Longrightarrow> sat_add a 1 = a + (1 :: 'a::len word)"
  by (simp add: sat_add_def word_add_no_wrap_iff)

lemma ran_parent:
  assumes "ran L V tx mode node raw v"
  shows "block_parent_hash (raw_block raw) =
    (case node_block_hashes (lock_value (node_inner node)) (ctx_miniblock (raw_block_ctx raw) - 1) of
       Some h \<Rightarrow> h | None \<Rightarrow> 0)"
  using assms unfolding ran_def run_raw_body_def
  by (auto simp: tx_block_def Let_def elim!: act_bind_SomeE split: prod.splits option.splits if_splits)

lemma ran_hash:
  assumes "ran L V tx mode node raw v"
  shows "block_hash (raw_block raw) =
    compute_hash L (ctx_miniblock (raw_block_ctx raw)) (l2_tx_hash L tx)"
  using assms unfolding ran_def run_raw_body_def
  by (auto simp: tx_block_def Let_def elim!: act_bind_SomeE split: prod.splits option.splits if_splits)

lemma after_commit_chain:
  assumes "raw_wf raw" and "in_step n (raw_block_ctx raw)" and "chain_linked n"
    and "blocks n (block_hash (raw_block raw)) = None"
    and "blocks n (block_hash (end_block L raw)) = None"
    and "block_hash (raw_block raw) \<noteq> block_hash (end_block L raw)"
    and "unat (current_miniblock n) + 2 < 2 ^ 64"
  shows "chain_wf (after_commit L tx raw rec n)"
    and "ledger (after_commit L tx raw rec n) =
       (ledger n)(current_miniblock n + 1 \<mapsto> raw_block raw, current_miniblock n + 2 \<mapsto> end_block L raw)"
    and "current_miniblock (after_commit L tx raw rec n) = current_miniblock n + 2"
proof -
  let ?m = "place_block (raw_block raw) (advance (stored_tx L tx raw rec n))"
  have m1: "sat_add (current_miniblock n) 1 = current_miniblock n + 1"
    using assms(7) by (intro sat_add_one) simp
  have "unat (current_miniblock n + 1) = unat (current_miniblock n) + 1"
    using assms(7) by (simp add: unat_word_ariths)
  then have m2: "sat_add (current_miniblock n + 1) 1 = current_miniblock n + 2"
    using assms(7) by (subst sat_add_one) simp_all
  have b1: "block_number (raw_block raw) = current_miniblock n + 1"
    and b2: "block_number (end_block L raw) = current_miniblock n + 2"
    using assms(1,2) m1 m2
    by (simp_all add: raw_wf_def in_step_def end_block_def create_empty_block_def new_block_def Let_def)
  have "blocks (advance ?m) (block_hash (end_block L raw)) = None"
    using assms(5,6) by (simp add: place_block_def)
  moreover have "blocks (advance (stored_tx L tx raw rec n)) (block_hash (raw_block raw)) = None"
    using assms(4) by simp
  ultimately have "chain_linked (after_commit L tx raw rec n)"
    and l: "ledger (after_commit L tx raw rec n) =
       (ledger n)(block_number (raw_block raw) \<mapsto> raw_block raw, block_number (end_block L raw) \<mapsto> end_block L raw)"
    using assms(3) by (simp_all add: after_commit_def ledger_insert)
  then show "chain_wf (after_commit L tx raw rec n)"
    using b2 m1 m2 by (simp add: chain_wf_def after_commit_def place_block_def)
  show "ledger (after_commit L tx raw rec n) =
       (ledger n)(current_miniblock n + 1 \<mapsto> raw_block raw, current_miniblock n + 2 \<mapsto> end_block L raw)"
    using l b1 b2 by simp
  show "current_miniblock (after_commit L tx raw rec n) = current_miniblock n + 2"
    using m1 m2 by (simp add: after_commit_def)
qed

subsection \<open>Transactions\<close>

text \<open>C36: A transaction passes validation exactly when its gas limit and pubdata limit fit 32 bits, its fee
  per gas is at least the fixed L2 gas price and its priority fee is not above its fee; any other
  is rejected before the node's state is touched.\<close>

theorem validation_gate:
  "(validate_tx tx = Ok () \<longleftrightarrow>
      unat (gas_limit (l2_fee tx)) < 2 ^ 32 \<and> unat (gas_per_pubdata_limit (l2_fee tx)) < 2 ^ 32 \<and>
      250000000 \<le> unat (max_fee_per_gas (l2_fee tx)) \<and>
      max_priority_fee_per_gas (l2_fee tx) \<le> max_fee_per_gas (l2_fee tx)) \<and>
   (validate_tx tx = Ok () \<or> (\<exists>e. run_l2_tx L V tx mode node = (Err e, node)))"
proof -
  have max: "unat (ucast (- 1 :: u32) :: u256) = 4294967295"
    by (simp add: unat_ucast_up)
  show ?thesis
    by (auto simp: validate_tx_def run_l2_tx_def L2_GAS_PRICE_def Let_def word_less_nat_alt
        word_le_nat_alt max not_less)
qed

text \<open>C11: A transaction that halts is rolled back: the caller gets the halt reason, and the node is what
  it was but for the pending-transaction notifications and the read caches of its storage; every
  storage slot reads as before.\<close>

theorem halted_tx_rolled_back:
  assumes "lawful_vm L V" and "ran L V tx mode node raw v"
    and "vr_result (raw_result raw) = Halt reason"
  shows "run_l2_tx L V tx mode node =
      (Err (''Transaction HALT: '' @ reason),
       node\<lparr>node_inner := \<lparr>lock_value = (lock_value (node_inner node))
         \<lparr>node_filters := notify_new_pending_transaction (l2_tx_hash L tx)
                           (node_filters (lock_value (node_inner node))),
          node_storage := storage_handle v\<rparr>, lock_poisoned = False\<rparr>\<rparr>) \<and>
    fork_val (storage_handle v) = fork_val (node_storage (lock_value (node_inner node))) \<and>
    fork_healthy (storage_handle v)"
  using run_l2_tx_ran [OF assms(2)] ran_frame [OF assms(1,2)] assms(3)
  by (simp add: raw_left_def announced_def)

theorem halted_tx_rolled_back_witness:
  "\<exists>node'. run_l2_tx example_lib (example_vm 0 (Halt ''bad signature'')) (example_tx 1) VerifyExecute
       example_node = (Err ''Transaction HALT: bad signature'', node') \<and>
     current_miniblock (lock_value (node_inner node')) = 0"
proof -
  obtain raw v where r: "ran example_lib (example_vm 0 (Halt ''bad signature'')) (example_tx 1)
      VerifyExecute example_node raw v" "vr_result (raw_result raw) = Halt ''bad signature''"
    using example_ran by blast
  show ?thesis
    using halted_tx_rolled_back [OF lawful_example r] by simp
qed

text \<open>C14: A run that reaches its commit succeeds exactly when the batch, miniblock and timestamp it was
  run for are the next ones of the node; otherwise it panics and leaves the node's lock poisoned.\<close>

theorem commit_requires_step:
  assumes "lawful_vm L V" and "ran L V tx mode node raw v" and "not_halted raw"
    and "tx_record L tx raw = Some rec"
  shows "fst (run_l2_tx L V tx mode node) =
      (if in_step (lock_value (node_inner node)) (raw_block_ctx raw) then Ok () else Panic) \<and>
    lock_poisoned (node_inner (snd (run_l2_tx L V tx mode node))) =
      (\<not> in_step (lock_value (node_inner node)) (raw_block_ctx raw))"
  by (simp add: run_l2_tx_commit [OF assms] Let_def)

theorem commit_requires_step_witness:
  "fst (run_l2_tx example_lib (example_vm 0 (Success [])) (example_tx 1) VerifyExecute example_node)
     = Ok ()"
proof -
  obtain raw v rec where r: "ran example_lib (example_vm 0 (Success [])) (example_tx 1)
      VerifyExecute example_node raw v" "not_halted raw"
      "tx_record example_lib (example_tx 1) raw = Some rec"
      "in_step (lock_value (node_inner example_node)) (raw_block_ctx raw)"
    using example_ran [of 0 "Success []" 1] by blast
  show ?thesis
    using commit_requires_step [OF lawful_example r(1-3)] r(4) by simp
qed

text \<open>C10: A committed transaction extends the chain by exactly two blocks, its own and the empty block
  that closes the batch, each naming its predecessor as parent; the head moves to the second one,
  the result is stored under the hash of the transaction and the chain stays well formed.\<close>

theorem run_l2_tx_extends_chain:
  assumes "lawful_vm L V" and "ran L V tx mode node raw v" and "not_halted raw"
    and "tx_record L tx raw = Some rec"
    and "in_step (lock_value (node_inner node)) (raw_block_ctx raw)"
    and "chain_wf (lock_value (node_inner node))"
    and "blocks (lock_value (node_inner node)) (block_hash (raw_block raw)) = None"
    and "blocks (lock_value (node_inner node)) (block_hash (end_block L raw)) = None"
    and "block_hash (raw_block raw) \<noteq> block_hash (end_block L raw)"
    and "unat (current_miniblock (lock_value (node_inner node))) + 2 < 2 ^ 64"
  shows "let n = lock_value (node_inner node);
             n' = lock_value (node_inner (snd (run_l2_tx L V tx mode node)))
    in chain_wf n' \<and>
       ledger n' = (ledger n)(current_miniblock n + 1 \<mapsto> raw_block raw,
                              current_miniblock n + 2 \<mapsto> end_block L raw) \<and>
       current_miniblock n' = current_miniblock n + 2 \<and>
       current_batch n' = sat_add (current_batch n) 1 \<and>
       block_parent_hash (raw_block raw) = current_miniblock_hash n \<and>
       block_parent_hash (end_block L raw) = block_hash (raw_block raw) \<and>
       map_of (tx_results n') = (map_of (tx_results n))(l2_tx_hash L tx \<mapsto> rec)"
proof -
  let ?n = "lock_value (node_inner node)"
  let ?m = "(announced L tx ?n)\<lparr>node_storage := storage_handle v\<rparr>"
  have fin: "lock_value (node_inner (snd (run_l2_tx L V tx mode node))) = after_commit L tx raw rec ?m"
    using assms(5) by (simp add: run_l2_tx_commit [OF assms(1-4)])
  have "ctx_miniblock (raw_block_ctx raw) - 1 = current_miniblock ?n"
    using assms(5,10) by (simp add: in_step_def sat_add_one)
  then have "block_parent_hash (raw_block raw) = current_miniblock_hash ?n"
    using ran_parent [OF assms(2)] assms(6) by (simp add: chain_wf_def)
  moreover have "block_parent_hash (end_block L raw) = block_hash (raw_block raw)"
    by (simp add: end_block_def create_empty_block_def Let_def)
  moreover have "chain_linked ?m"
    using assms(6) by (simp add: chain_wf_def)
  ultimately show ?thesis
    using after_commit_chain [of raw ?m L tx rec] assms(5-10) ran_wf [OF assms(2)]
    unfolding fin by (simp add: Let_def) (simp add: after_commit_def)
qed

lemma example_hashes:
  "compute_hash example_lib 0 0 = 0" "compute_hash example_lib 1 101 = 101001"
  "compute_hash example_lib 2 0 = 2"
  by (simp_all add: compute_hash_def example_lib_at_def to_be_bytes_def rev_nth nth_append)

lemma example_tx_hash: "l2_tx_hash example_lib (example_tx 1) = 101"
  by (simp add: example_lib_at_def example_tx_def)

theorem run_l2_tx_extends_chain_witness:
  "let n' = lock_value (node_inner (snd (run_l2_tx example_lib (example_vm 0 (Success []))
               (example_tx 1) VerifyExecute example_node)))
   in chain_wf n' \<and> current_miniblock n' = 2 \<and> current_batch n' = 1 \<and>
      map_option block_hash (ledger n' 1) = Some 101001"
proof -
  let ?n = "lock_value (node_inner example_node)"
  obtain raw v rec where r: "ran example_lib (example_vm 0 (Success [])) (example_tx 1)
      VerifyExecute example_node raw v" "not_halted raw"
      "tx_record example_lib (example_tx 1) raw = Some rec" "in_step ?n (raw_block_ctx raw)"
    using example_ran [of 0 "Success []" 1] by blast
  have ctx: "ctx_miniblock (raw_block_ctx raw) = 1"
    using r(4) by (simp add: in_step_def sat_add_def)
  have h1: "block_hash (raw_block raw) = 101001"
    using ran_hash [OF r(1)] ctx example_hashes(2) by (simp add: example_tx_hash)
  have h2: "block_hash (end_block example_lib raw) = 2"
    using ctx example_hashes(3)
    by (simp add: end_block_def create_empty_block_def new_block_def sat_add_def Let_def)
  have wf: "chain_wf ?n"
    and bl: "blocks ?n 101001 = None" "blocks ?n 2 = None"
    using example_hashes(1)
    by (auto simp: example_node_def InMemoryNode_new_def chain_wf_def chain_linked_def
        create_empty_block_def Let_def)
  show ?thesis
    using run_l2_tx_extends_chain [OF lawful_example r wf] h1 h2 bl
    by (simp add: Let_def sat_add_def)
qed

text \<open>C25: After a commit every storage slot that the transaction wrote reads the written value (a written
  zero reads what the fork holds, or zero without a fork), every other slot reads as before.\<close>

theorem committed_storage_reads:
  assumes "lawful_vm L V" and "ran L V tx mode node raw v" and "not_halted raw"
    and "tx_record L tx raw = Some rec"
    and "in_step (lock_value (node_inner node)) (raw_block_ctx raw)"
  shows "fork_val (node_storage (lock_value (node_inner (snd (run_l2_tx L V tx mode node))))) k =
    (case map_of (raw_keys raw) k of
       None \<Rightarrow> fork_val (node_storage (lock_value (node_inner node))) k
     | Some x \<Rightarrow> if x \<noteq> 0 then Some x
                else remote_value (lock_value (fs_inner (storage_handle v))) k)"
proof -
  note f = ran_frame [OF assms(1,2)]
  let ?h = "storage_handle v"
  let ?w = "fold (\<lambda>(k, v). mem_set_value k v) (raw_keys raw)"
  have fin: "node_storage (lock_value (node_inner (snd (run_l2_tx L V tx mode node)))) =
      update_raw (stored_deps (raw_bytecodes raw) \<circ> ?w) ?h"
    using assms(5) by (simp add: run_l2_tx_commit [OF assms(1-4)] after_commit_def stored_tx_def Let_def)
  have "state (stored_deps deps m) = state m" for deps m
    unfolding stored_deps_def
    by (induction deps arbitrary: m) (auto simp: mem_store_factory_dep_def)
  then have "fork_val (update_raw (stored_deps (raw_bytecodes raw) \<circ> ?w) ?h) k =
      fork_val (update_raw ?w ?h) k"
    by (simp add: fork_val_update_state)
  also have "\<dots> = (case map_of (raw_keys raw) k of None \<Rightarrow> fork_val ?h k
     | Some x \<Rightarrow> if x \<noteq> 0 then Some x else remote_value (lock_value (fs_inner ?h)) k)"
    using fork_val_write_all [OF f(2,3) write_all_run [OF f(2)]] by blast
  finally show ?thesis
    unfolding fin f(1) .
qed

theorem committed_storage_reads_witness:
  "fork_val (node_storage (lock_value (node_inner (snd (run_l2_tx example_lib
     (example_vm 0 (Success [])) (example_tx 1) VerifyExecute example_node))))) (0xB, 2) = Some 3"
proof -
  obtain raw v rec where r: "ran example_lib (example_vm 0 (Success [])) (example_tx 1)
      VerifyExecute example_node raw v" "not_halted raw"
      "tx_record example_lib (example_tx 1) raw = Some rec"
      "in_step (lock_value (node_inner example_node)) (raw_block_ctx raw)"
    and k: "raw_keys raw = [((0xB, 2), 3)]"
    using example_ran [of 0 "Success []" 1] by blast
  show ?thesis
    using committed_storage_reads [OF lawful_example r, of "(0xB, 2)"] k by simp
qed

text \<open>C29: The lock is released between the run and the commit of a transaction. When two transactions are
  run before either is committed, both for the next batch, the first commit succeeds and the second
  one panics and poisons the node: every later operation fails.\<close>

theorem racing_commits_poison:
  assumes "\<not> lock_poisoned (node_inner node)" and "n = lock_value (node_inner node)"
    and "fork_healthy (node_storage n)"
    and "raw_wf raw1" and "tx_record L tx1 raw1 = Some rec1" and "in_step n (raw_block_ctx raw1)"
    and "raw_wf raw2" and "tx_record L tx2 raw2 = Some rec2" and "in_step n (raw_block_ctx raw2)"
    and "unat (current_miniblock n) + 2 < 2 ^ 64"
  shows "let node1 = snd (commit_l2_tx L tx1 raw1 node); r2 = commit_l2_tx L tx2 raw2 node1
    in fst (commit_l2_tx L tx1 raw1 node) = Ok () \<and> fst r2 = Panic \<and>
       lock_poisoned (node_inner (snd r2)) \<and> run_l2_tx_raw L V tx mode b (snd r2) =
         (Err (''Failed to acquire write lock: '' @ LOCK_POISONED), snd r2)"
proof -
  let ?n1 = "after_commit L tx1 raw1 rec1 n"
  have c1: "commit_l2_tx L tx1 raw1 node =
      (Ok (), node\<lparr>node_inner := \<lparr>lock_value = ?n1, lock_poisoned = False\<rparr>\<rparr>)"
    using commit_in_step [OF assms(3,5,4,6)] assms(1,2)
    by (simp add: commit_l2_tx_def with_inner_def with_write_def)
  have h1: "fork_healthy (node_storage ?n1)"
    using assms(3) by (simp add: after_commit_def stored_tx_def Let_def)
  have "unat (sat_add (sat_add (current_miniblock n) 1) 1) \<noteq> unat (sat_add (current_miniblock n) 1)"
    using assms(10) by (simp add: unat_sat_add)
  then have "sat_add (sat_add (sat_add (current_miniblock n) 1) 1) 1 \<noteq> sat_add (current_miniblock n) 1"
    using sat_add_ge [of "sat_add (sat_add (current_miniblock n) 1) 1" 1]
      sat_add_ge [of "sat_add (current_miniblock n) 1" 1] by force
  then have "\<not> in_step ?n1 (raw_block_ctx raw2)"
    using assms(9) by (simp add: in_step_def after_commit_def)
  then obtain n2 where "commit_body L tx2 raw2 ?n1 = (Panic, n2)"
    using commit_out_of_step [OF h1 assms(8,7)] by blast
  then have c2: "commit_l2_tx L tx2 raw2 (node\<lparr>node_inner := \<lparr>lock_value = ?n1, lock_poisoned = False\<rparr>\<rparr>) =
      (Panic, node\<lparr>node_inner := \<lparr>lock_value = n2, lock_poisoned = True\<rparr>\<rparr>)"
    by (simp add: commit_l2_tx_def with_inner_def with_write_def)
  show ?thesis
    by (simp add: c1 c2 run_l2_tx_raw_def)
qed

theorem racing_commits_poison_witness:
  "\<exists>raw1 raw2 node2. commit_l2_tx example_lib (example_tx 2) raw2
       (snd (commit_l2_tx example_lib (example_tx 1) raw1 example_node)) = (Panic, node2) \<and>
     lock_poisoned (node_inner node2)"
proof -
  let ?V = "example_vm 0 (Success [])"
  have "\<exists>raw rec. raw_wf raw \<and> tx_record example_lib (example_tx i) raw = Some rec \<and>
      in_step (lock_value (node_inner example_node)) (raw_block_ctx raw)" for i
    using example_ran [of 0 "Success []" i] ran_wf by blast
  then obtain raw1 rec1 raw2 rec2 where
    r1: "raw_wf raw1" "tx_record example_lib (example_tx 1) raw1 = Some rec1"
      "in_step (lock_value (node_inner example_node)) (raw_block_ctx raw1)"
    and r2: "raw_wf raw2" "tx_record example_lib (example_tx 2) raw2 = Some rec2"
      "in_step (lock_value (node_inner example_node)) (raw_block_ctx raw2)"
    by metis
  have "\<not> lock_poisoned (node_inner example_node)"
    and "fork_healthy (node_storage (lock_value (node_inner example_node)))"
    and "unat (current_miniblock (lock_value (node_inner example_node))) + 2 < 2 ^ 64"
    by simp_all
  note race = racing_commits_poison [OF this(1) refl this(2) r1 r2 this(3), of ?V undefined VerifyExecute True]
  show ?thesis
    using race unfolding Let_def
    by (intro exI [of _ raw1] exI [of _ raw2]
        exI [of _ "snd (commit_l2_tx example_lib (example_tx 2) raw2
           (snd (commit_l2_tx example_lib (example_tx 1) raw1 example_node)))"])
      (simp add: prod_eq_iff)
qed

subsection \<open>Snapshots and the archive\<close>

text \<open>Restoring a snapshot brings back every field it covers, whatever happened in between: taking a
  snapshot of the restored node gives the same snapshot. The display options, the contracts and the
  fork are those of the node it is restored on.\<close>

theorem snapshot_roundtrip:
  assumes "inner_snapshot n = Ok s" and "\<not> lock_poisoned (fs_inner (node_storage m))"
  shows "\<exists>m'. restore_snapshot s m = (Ok (), m') \<and> inner_snapshot m' = Ok s \<and>
    current_miniblock m' = current_miniblock n \<and> tx_results m' = tx_results n \<and>
    blocks m' = blocks n \<and> node_filters m' = node_filters n \<and>
    raw_storage (lock_value (fs_inner (node_storage m'))) =
      raw_storage (lock_value (fs_inner (node_storage n))) \<and>
    fork (lock_value (fs_inner (node_storage m'))) = fork (lock_value (fs_inner (node_storage m))) \<and>
    show_calls m' = show_calls m \<and> system_contracts m' = system_contracts m"
  using assms by (auto simp: inner_snapshot_def restore_snapshot_def Let_def split: if_splits)

theorem snapshot_roundtrip_witness:
  "\<exists>s m'. inner_snapshot (lock_value (node_inner example_node)) = Ok s \<and>
     restore_snapshot s ((lock_value (node_inner example_node))\<lparr>current_miniblock := 5\<rparr>) = (Ok (), m') \<and>
     current_miniblock m' = 0"
proof -
  let ?n = "lock_value (node_inner example_node)"
  have np: "\<not> lock_poisoned (fs_inner (node_storage ?n))"
    using example_node_simps(2) unfolding fork_healthy_def by blast
  then obtain s where s: "inner_snapshot ?n = Ok s"
    by (simp add: inner_snapshot_def Let_def)
  show ?thesis
    using snapshot_roundtrip [OF s, of "?n\<lparr>current_miniblock := 5\<rparr>"] np s by auto
qed

text \<open>C38: The archive holds at most 129 states, one more than the documented limit of 128, which it
  reaches; archiving drops at most the oldest one and stores the current state under the current
  block hash.\<close>

theorem archive_bounds:
  assumes "\<not> lock_poisoned (fs_inner (node_storage n))" and "length (previous_states n) \<le> 129"
  shows "let n' = snd (archive_state n);
             kept = (if length (previous_states n) > 128 then tl (previous_states n) else previous_states n)
    in length (previous_states n') \<le> 129 \<and>
       map_of (previous_states n') =
         (map_of kept)(current_miniblock_hash n \<mapsto>
            state (raw_storage (lock_value (fs_inner (node_storage n))))) \<and>
       (length (previous_states n) = 128 \<and> current_miniblock_hash n \<notin> fst ` set (previous_states n)
          \<longrightarrow> length (previous_states n') = 129)"
proof -
  let ?kept = "if length (previous_states n) > 128 then tl (previous_states n) else previous_states n"
  let ?s = "state (raw_storage (lock_value (fs_inner (node_storage n))))"
  have "length (AList.update (current_miniblock_hash n) ?s ?kept) \<le> Suc (length ?kept)"
    by (rule length_update_le)
  moreover have "length ?kept \<le> 128"
    using assms(2) by auto
  moreover have "length (AList.update k x al) = Suc (length al)" if "k \<notin> fst ` set al"
    for k and x :: "StorageKey \<Rightarrow> StorageValue option" and al :: archive
    using that by (induction al) auto
  ultimately show ?thesis
    by (simp add: archive_state_run [OF assms(1)] archived_def Let_def)
qed

theorem archive_bounds_witness:
  "length (previous_states (snd (archive_state (lock_value (node_inner example_node))))) \<le> 129"
proof -
  let ?n = "lock_value (node_inner example_node)"
  have "\<not> lock_poisoned (fs_inner (node_storage ?n))"
    using example_node_simps(2) unfolding fork_healthy_def by blast
  moreover have "length (previous_states ?n) \<le> 129"
    by (simp add: example_node_def InMemoryNode_new_def Let_def)
  ultimately show ?thesis
    by (blast dest: archive_bounds [unfolded Let_def])
qed

end
