(* ===== verification/NodeExt.thy ===== *)
theory NodeExt
  imports NodeRuns
begin

text \<open>
  The operations that tests and tools use to steer the node
  (\<^verbatim>\<open>src/.test-node-subtree/src/node/in_memory_ext.rs\<close> and \<^verbatim>\<open>mine_empty_blocks\<close> of \<^verbatim>\<open>utils.rs\<close>): time,
  mining, snapshots, balances, nonces, code and impersonation.
\<close>

definition MAX_SNAPSHOTS :: nat where "MAX_SNAPSHOTS = 100"

definition LOCK_ERROR :: string where
  "LOCK_ERROR = ''failed acquiring lock: '' @ LOCK_POISONED_DEBUG"

definition quoted :: "string \<Rightarrow> string" where
  "quoted s = CHR 0x27 # s @ [CHR 0x27]"

section \<open>Time\<close>

definition increase_time :: "u64 \<Rightarrow> (InMemoryNode, string, u64) op" where
  "increase_time time_delta_seconds =
     with_inner LOCK_ERROR (\<lambda>n.
       if time_delta_seconds = 0 then (Ok time_delta_seconds, n)
       else let time_delta = sat_mul time_delta_seconds 1000
            in (Ok time_delta_seconds,
                n\<lparr>current_timestamp := sat_add (current_timestamp n) time_delta\<rparr>))"

definition set_next_block_timestamp :: "u64 \<Rightarrow> (InMemoryNode, string, u64) op" where
  "set_next_block_timestamp timestamp =
     with_inner LOCK_ERROR (\<lambda>n.
       if timestamp < current_timestamp n
       then (Err (''timestamp ('' @ decimal (unat timestamp)
                    @ '') must be greater than current timestamp (''
                    @ decimal (unat (current_timestamp n)) @ '')''), n)
       else (Ok timestamp, n\<lparr>current_timestamp := timestamp\<rparr>))"

definition set_time :: "u64 \<Rightarrow> (InMemoryNode, string, int) op" where
  "set_time time =
     with_inner LOCK_ERROR (\<lambda>n.
       (Ok (uint time - uint (current_timestamp n)), n\<lparr>current_timestamp := time\<rparr>))"

section \<open>Mining\<close>

text \<open>One block: the bootloader runs alone on a fresh view, the keys and bytecodes it leaves are
  written, and an empty block is inserted. Its parent is the hash of an empty block with the
  number before it, and neither the hash of the head, nor the archive, nor the filters are
  touched.\<close>

definition mine_vm ::
  "lib \<Rightarrow> 'vm vm_api \<Rightarrow> nat \<Rightarrow> u64 \<Rightarrow> InMemoryNodeInner \<Rightarrow>
   (view, (StorageKey \<times> StorageValue) list \<times> (u256 \<times> u256 list) list \<times> BlockContext) action" where
  "mine_vm L V i interval_ms n =
     (case contracts_for_l2_call (system_contracts n) of
        None \<Rightarrow> act_panic
      | Some bootloader_code \<Rightarrow>
          act_bind (create_l1_batch_env L n) (\<lambda>(batch_env, ctx).
          let ctx = (if i \<noteq> 0
                     then ctx\<lparr>ctx_timestamp := sat_add (current_timestamp n) interval_ms\<rparr> else ctx)
          in act_bind (vm_new V batch_env (create_system_env L n bootloader_code VerifyExecute)) (\<lambda>vm.
             act_bind (vm_execute_bootloader V vm) (\<lambda>vm.
             let bytecodes = collect_bytecodes L (vm_last_compressed_bytecodes V vm)
             in act_bind take_modified (\<lambda>modified. act_return (modified, bytecodes, ctx))))))"

definition insert_mined :: "lib \<Rightarrow> BlockContext \<Rightarrow> InMemoryNodeInner \<Rightarrow> InMemoryNodeInner" where
  "insert_mined L ctx n =
     (let block = create_empty_block L (ctx_miniblock ctx) (ctx_timestamp ctx) (ctx_batch ctx) None
      in n\<lparr>node_block_hashes := (node_block_hashes n)(block_number block \<mapsto> block_hash block),
           blocks := (blocks n)(block_hash block \<mapsto> block),
           current_batch := ctx_batch ctx, current_miniblock := ctx_miniblock ctx,
           current_timestamp := ctx_timestamp ctx\<rparr>)"

definition mine_one ::
  "lib \<Rightarrow> 'vm vm_api \<Rightarrow> u64 \<Rightarrow> nat \<Rightarrow> (InMemoryNodeInner, string, unit) op" where
  "mine_one L V interval_ms i =
     op_bind (\<lambda>n. view_op (mine_vm L V i interval_ms n) n) (\<lambda>(keys, bytecodes, ctx).
     op_bind (storage_op (write_all keys)) (\<lambda>_.
     op_bind (op_list store_dep_op bytecodes) (\<lambda>_.
     op_modify (insert_mined L ctx))))"

definition mine_empty_blocks ::
  "lib \<Rightarrow> 'vm vm_api \<Rightarrow> u64 \<Rightarrow> u64 \<Rightarrow> (InMemoryNodeInner, string, unit) op" where
  "mine_empty_blocks L V num_blocks interval_ms = op_list (mine_one L V interval_ms) [0..<unat num_blocks]"

definition mine_block :: "lib \<Rightarrow> 'vm vm_api \<Rightarrow> (InMemoryNode, string, string) op" where
  "mine_block L V =
     with_inner LOCK_ERROR (op_bind (mine_empty_blocks L V 1 1000) (\<lambda>_. op_return ''0x0''))"

definition mine_blocks ::
  "lib \<Rightarrow> 'vm vm_api \<Rightarrow> u64 option \<Rightarrow> u64 option \<Rightarrow> (InMemoryNode, string, bool) op" where
  "mine_blocks L V num_blocks interval =
     with_inner LOCK_ERROR
       (let num = (case num_blocks of Some k \<Rightarrow> k | None \<Rightarrow> 1);
            interval_ms = sat_mul (case interval of Some k \<Rightarrow> k | None \<Rightarrow> 1) 1000
        in if num = 0 then op_fail (Err ''Number of blocks must be greater than 0'')
           else op_bind (mine_empty_blocks L V num interval_ms) (\<lambda>_. op_return True))"

section \<open>Snapshots\<close>

definition snapshot :: "(InMemoryNode, string, u64) op" where
  "snapshot node =
     (if lock_poisoned (node_inner node) then (Err LOCK_ERROR, node)
      else if lock_poisoned (node_snapshots node)
      then (Err (''failed acquiring read lock for snapshot: '' @ LOCK_POISONED_DEBUG), node)
      else if MAX_SNAPSHOTS \<le> length (lock_value (node_snapshots node))
      then (Err (''maximum number of '' @ quoted (decimal MAX_SNAPSHOTS) @ '' snapshots exceeded''), node)
      else case inner_snapshot (lock_value (node_inner node)) of
             Ok s \<Rightarrow>
               (let snapshots = lock_value (node_snapshots node) @ [s]
                in (Ok (of_nat (length snapshots)),
                    node\<lparr>node_snapshots := (node_snapshots node)\<lparr>lock_value := snapshots\<rparr>\<rparr>))
           | Err e \<Rightarrow> (Err e, node)
           | Panic \<Rightarrow> (Panic, node))"

definition revert_snapshot :: "u64 \<Rightarrow> (InMemoryNode, string, bool) op" where
  "revert_snapshot snapshot_id node =
     (if lock_poisoned (node_inner node) then (Err LOCK_ERROR, node)
      else if lock_poisoned (node_snapshots node)
      then (Err (''failed acquiring read lock for snapshots: '' @ LOCK_POISONED_DEBUG), node)
      else let snapshots = lock_value (node_snapshots node);
               index = unat (sat_sub snapshot_id 1)
           in if length snapshots \<le> index
              then (Err (''no snapshot exists for the id '' @ quoted (decimal (unat snapshot_id))), node)
              else case restore_snapshot (snapshots ! index) (lock_value (node_inner node)) of
                     (r, n) \<Rightarrow>
                       ((case r of Ok _ \<Rightarrow> Ok True | Err e \<Rightarrow> Err e | Panic \<Rightarrow> Panic),
                        node\<lparr>node_inner := (node_inner node)\<lparr>lock_value := n\<rparr>,
                             node_snapshots := (node_snapshots node)
                               \<lparr>lock_value := take index snapshots\<rparr>\<rparr>))"

section \<open>Accounts\<close>

definition set_balance :: "lib \<Rightarrow> address \<Rightarrow> u256 \<Rightarrow> (InMemoryNode, string, bool) op" where
  "set_balance L a balance =
     with_inner LOCK_ERROR
       (op_bind (storage_op (fork_set_value (storage_key_for_eth_balance L a) balance)) (\<lambda>_.
        op_return True))"

definition set_nonce :: "lib \<Rightarrow> address \<Rightarrow> u256 \<Rightarrow> (InMemoryNode, string, bool) op" where
  "set_nonce L a nonce =
     with_inner LOCK_ERROR
       (let nonce_key = get_nonce_key L a in
        op_bind (storage_op (read_value fork_storage nonce_key)) (\<lambda>full_nonce.
        let (account_nonce, deployment_nonce) = decompose_full_nonce L full_nonce
        in if nonce \<le> account_nonce
           then op_fail (Err (''Account Nonce is already set to a higher value (''
                  @ decimal (unat account_nonce) @ '', requested '' @ decimal (unat nonce) @ '')''))
           else if nonce \<le> deployment_nonce
           then op_fail (Err (''Deployment Nonce is already set to a higher value (''
                  @ decimal (unat deployment_nonce) @ '', requested '' @ decimal (unat nonce) @ '')''))
           else let enforced_full_nonce = nonces_to_full_nonce L nonce nonce
                in op_bind (storage_op (fork_set_value nonce_key enforced_full_nonce)) (\<lambda>_.
                   op_return True)))"

definition impersonate_account :: "address \<Rightarrow> (InMemoryNode, string, bool) op" where
  "impersonate_account a =
     with_inner LOCK_ERROR (\<lambda>n. case set_impersonated_account a n of (b, n') \<Rightarrow> (Ok b, n'))"

definition ext_stop_impersonating_account :: "address \<Rightarrow> (InMemoryNode, string, bool) op" where
  "ext_stop_impersonating_account a =
     with_inner LOCK_ERROR (\<lambda>n. case stop_impersonating_account a n of (b, n') \<Rightarrow> (Ok b, n'))"

definition set_code :: "lib \<Rightarrow> address \<Rightarrow> bytes \<Rightarrow> (InMemoryNode, string, unit) op" where
  "set_code L a code =
     with_inner LOCK_ERROR
       (let code_key = get_code_key L a;
            (hash, words) = bytecode_to_factory_dep (hash_bytecode L) (bytes_to_be_words L) code
        in op_bind (store_dep_op (hash, words)) (\<lambda>_.
           storage_op (fork_set_value code_key hash)))"

section \<open>Snapshot properties\<close>

lemma restore_not_poisoned:
  "\<not> lock_poisoned (fs_inner (node_storage m)) \<Longrightarrow>
   \<exists>m'. restore_snapshot s m = (Ok (), m') \<and> inner_snapshot m' = Ok s"
  by (simp add: restore_snapshot_def inner_snapshot_def Let_def)

lemma sat_sub_one: "sat_sub a 1 = (if a = 0 then 0 else a - (1 :: u64))"
  by (simp add: sat_sub_def word_less_1)

text \<open>C27: A snapshot can be undone while it exists: whatever has happened to the state of the node, and
  whatever snapshots were taken later and still exist, as long as the list still begins with the snapshots up to the one taken
  and no lock is poisoned, reverting to the returned id succeeds, brings back
  exactly the snapshot state and the list of snapshots as it was before the snapshot was taken.\<close>

theorem snapshot_revert_roundtrip:
  assumes "snapshot node = (Ok i, node1)"
    and "take (unat i) (lock_value (node_snapshots later)) = lock_value (node_snapshots node1)"
    and "\<not> lock_poisoned (node_snapshots later)" and "\<not> lock_poisoned (node_inner later)"
    and "\<not> lock_poisoned (fs_inner (node_storage (lock_value (node_inner later))))"
  shows "\<exists>node'. revert_snapshot i later = (Ok True, node') \<and>
    inner_snapshot (lock_value (node_inner node')) = inner_snapshot (lock_value (node_inner node)) \<and>
    node_snapshots node' = node_snapshots node \<and> 0 < i \<and> i \<le> 100"
proof -
  let ?ss = "lock_value (node_snapshots node)" and ?ls = "lock_value (node_snapshots later)"
  obtain s where s: "inner_snapshot (lock_value (node_inner node)) = Ok s"
    and np: "\<not> lock_poisoned (node_snapshots node)" and len: "length ?ss < 100"
    and i: "i = of_nat (Suc (length ?ss))"
    and node1: "node_snapshots node1 = (node_snapshots node)\<lparr>lock_value := ?ss @ [s]\<rparr>"
    using assms(1) by (auto simp: snapshot_def MAX_SNAPSHOTS_def Let_def split: if_splits rust.splits)
  have ui: "unat i = Suc (length ?ss)"
    using len unfolding i by (simp only: unat_of_nat) simp
  have idx: "unat (sat_sub i 1) = length ?ss"
    using ui by (simp add: unat_sat_sub)
  have pre: "take (Suc (length ?ss)) ?ls = ?ss @ [s]"
    using assms(2) by (simp add: ui node1)
  then have ls: "?ls = ?ss @ s # drop (Suc (length ?ss)) ?ls"
    by (metis append_Cons append_Nil append_assoc append_take_drop_id)
  have "?ls ! length ?ss = s" "take (length ?ss) ?ls = ?ss" "length ?ss < length ?ls"
    by (subst ls, simp)+
  moreover obtain m' where m': "restore_snapshot s (lock_value (node_inner later)) = (Ok (), m')"
    "inner_snapshot m' = Ok s"
    using restore_not_poisoned [OF assms(5)] by blast
  moreover have "(node_snapshots later)\<lparr>lock_value := ?ss\<rparr> = node_snapshots node"
    using assms(3) np by (cases "node_snapshots later"; cases "node_snapshots node") auto
  moreover have "0 < i" and "i \<le> 100"
    using ui len by (simp_all add: word_less_nat_alt word_le_nat_alt)
  ultimately show ?thesis
    using assms(3,4) idx s by (simp add: revert_snapshot_def Let_def)
qed

text \<open>In the witness the time moves on and another snapshot is taken before the revert.\<close>

theorem snapshot_revert_roundtrip_witness:
  "\<exists>node1 node2 node'. snapshot example_node = (Ok 1, node1) \<and>
     snapshot (node1\<lparr>node_inner := (node_inner node1)\<lparr>lock_value :=
        (lock_value (node_inner node1))\<lparr>current_timestamp := 7\<rparr>\<rparr>\<rparr>) = (Ok 2, node2) \<and>
     revert_snapshot 1 node2 = (Ok True, node') \<and>
     inner_snapshot (lock_value (node_inner node')) = inner_snapshot (lock_value (node_inner example_node)) \<and>
     node_snapshots node' = node_snapshots example_node"
proof -
  have np: "\<not> lock_poisoned (fs_inner (node_storage (lock_value (node_inner example_node))))"
    using example_node_simps(2) unfolding fork_healthy_def by blast
  have none: "lock_value (node_snapshots example_node) = []"
    "\<not> lock_poisoned (node_snapshots example_node)"
    by (simp_all add: example_node_def InMemoryNode_new_def Let_def)
  obtain node1 s where s: "snapshot example_node = (Ok 1, node1)"
    and same: "node_inner node1 = node_inner example_node"
    and list: "node_snapshots node1 = (node_snapshots example_node)\<lparr>lock_value := [s]\<rparr>"
    using np none by (simp add: snapshot_def MAX_SNAPSHOTS_def inner_snapshot_def Let_def)
  let ?moved = "node1\<lparr>node_inner := (node_inner node1)\<lparr>lock_value :=
        (lock_value (node_inner node1))\<lparr>current_timestamp := 7\<rparr>\<rparr>\<rparr>"
  obtain node2 t where s2: "snapshot ?moved = (Ok 2, node2)"
    and inner: "node_inner node2 = node_inner ?moved"
    and list2: "node_snapshots node2 = (node_snapshots node1)\<lparr>lock_value := [s, t]\<rparr>"
    using np none list same by (simp add: snapshot_def MAX_SNAPSHOTS_def inner_snapshot_def Let_def)
  show ?thesis
    using snapshot_revert_roundtrip [OF s, of node2] np none s s2 by (auto simp: inner list list2 same)
qed

text \<open>Reverting deletes the snapshot and every later one and keeps the earlier ones: their ids stay
  valid, while every id from the reverted one on is refused. The id 0 is accepted and means 1.\<close>

theorem revert_truncates:
  assumes "revert_snapshot i node = (Ok b, node')"
  shows "lock_value (node_snapshots node') = take (unat i - 1) (lock_value (node_snapshots node)) \<and>
    (j = 0 \<or> j < i \<or> (\<exists>e. fst (revert_snapshot j node') = Err e)) \<and>
    snd (revert_snapshot 0 node) = snd (revert_snapshot 1 node) \<and>
    is_ok (fst (revert_snapshot 0 node)) = is_ok (fst (revert_snapshot 1 node))"
proof -
  let ?k = "unat (sat_sub i 1)"
  have snaps: "lock_value (node_snapshots node') = take ?k (lock_value (node_snapshots node))"
    and nl: "node_snapshots node' = (node_snapshots node)\<lparr>lock_value := take ?k (lock_value (node_snapshots node))\<rparr>"
    and np: "\<not> lock_poisoned (node_inner node')"
    using assms by (auto simp: revert_snapshot_def Let_def split: if_splits prod.splits)
  have "\<exists>e. fst (revert_snapshot j node') = Err e" if "j \<noteq> 0" "\<not> j < i"
  proof -
    have "?k \<le> unat (sat_sub j 1)"
      using that by (simp add: unat_sat_sub word_less_nat_alt)
    then have "length (lock_value (node_snapshots node')) \<le> unat (sat_sub j 1)"
      by (simp add: snaps min_le_iff_disj)
    then show ?thesis
      using np by (simp add: revert_snapshot_def Let_def)
  qed
  moreover have "snd (revert_snapshot 0 node) = snd (revert_snapshot 1 node) \<and>
      is_ok (fst (revert_snapshot 0 node)) = is_ok (fst (revert_snapshot 1 node))"
    by (simp add: revert_snapshot_def sat_sub_one Let_def)
  ultimately show ?thesis
    using snaps by (auto simp: unat_sat_sub)
qed

theorem revert_truncates_witness:
  "let node1 = snd (snapshot (snd (snapshot example_node))); node2 = snd (revert_snapshot 1 node1)
   in lock_value (node_snapshots node2) = [] \<and> (\<exists>e. fst (revert_snapshot 2 node2) = Err e)"
proof -
  have np: "\<not> lock_poisoned (fs_inner (node_storage (lock_value (node_inner example_node))))"
    using example_node_simps(2) unfolding fork_healthy_def by blast
  have none: "lock_value (node_snapshots example_node) = []"
    "\<not> lock_poisoned (node_snapshots example_node)"
    by (simp_all add: example_node_def InMemoryNode_new_def Let_def)
  let ?node1 = "snd (snapshot (snd (snapshot example_node)))"
  have "fst (revert_snapshot 1 ?node1) = Ok True"
    using np none by (simp add: snapshot_def revert_snapshot_def inner_snapshot_def
        restore_snapshot_def MAX_SNAPSHOTS_def sat_sub_one Let_def)
  then have r: "revert_snapshot 1 ?node1 = (Ok True, snd (revert_snapshot 1 ?node1))"
    by (simp add: prod_eq_iff)
  show ?thesis
    using revert_truncates [OF r, of 2] by (simp add: Let_def)
qed

section \<open>Nonces\<close>

lemma locked_read_healthy:
  assumes "fork_healthy s" and "fork_val s k = Some x"
  shows "\<exists>s'. read_value fork_storage k s = (Some x, s') \<and> fork_healthy s' \<and> fork_val s' = fork_val s"
proof -
  obtain r s' where rd: "read_value fork_storage k s = (r, s')" by fastforce
  then have "r = Some x"
    using fork_storage.read_value_result [OF assms(1), of k] assms(2) by simp
  then show ?thesis
    using rd fork_storage.read_value_frame [OF assms(1)] by blast
qed

text \<open>On a healthy node \<^verbatim>\<open>set_nonce\<close> succeeds exactly when the requested nonce is above both the
  account's transaction nonce and its deployment nonce, and then both read back as that nonce; a
  refused request changes no slot. The hypotheses say that the packing of two nonces below
  2^128 into a slot can be undone and is not zero for a non-zero nonce.\<close>

theorem set_nonce_exact:
  assumes "\<not> lock_poisoned (node_inner node)" and "n = lock_value (node_inner node)"
    and "fork_healthy (node_storage n)"
    and "fork_val (node_storage n) (get_nonce_key L a) = Some full"
    and "decompose_full_nonce L full = (acc, dep)"
    and "decompose_full_nonce L (nonces_to_full_nonce L nonce nonce) = (nonce, nonce)"
    and "0 < nonce \<Longrightarrow> nonces_to_full_nonce L nonce nonce \<noteq> 0"
  shows "let (r, node') = set_nonce L a nonce node; s' = node_storage (lock_value (node_inner node'))
    in (r = Ok True \<longleftrightarrow> acc < nonce \<and> dep < nonce) \<and> (r = Ok True \<or> (\<exists>e. r = Err e)) \<and>
       (r = Ok True \<longrightarrow> map_option (decompose_full_nonce L) (fork_val s' (get_nonce_key L a)) =
                          Some (nonce, nonce)) \<and>
       (\<forall>k. k \<noteq> get_nonce_key L a \<or> r \<noteq> Ok True \<longrightarrow> fork_val s' k = fork_val (node_storage n) k)"
proof -
  let ?k = "get_nonce_key L a" and ?f = "nonces_to_full_nonce L nonce nonce"
  obtain s1 where rd: "read_value fork_storage ?k (node_storage n) = (Some full, s1)"
    and h1: "fork_healthy s1" and v1: "fork_val s1 = fork_val (node_storage n)"
    using locked_read_healthy [OF assms(3,4)] by blast
  have wr: "fork_val (update_raw (mem_set_value ?k ?f) s1) j =
      (if j = ?k then (if ?f \<noteq> 0 then Some ?f else remote_value (lock_value (fs_inner s1)) j)
       else fork_val s1 j)" for j
    by (simp add: fork_val_update_state mem_set_value_def fork_val_def local_value_def Let_def)
  have "0 < nonce" if "acc < nonce"
    using that by (rule order_le_less_trans [rotated]) simp
  then show ?thesis
    using assms(1,2,5,6,7) rd v1 fork_set_value_run [OF h1, of ?k ?f]
    by (auto simp: set_nonce_def with_inner_def with_write_def storage_op_def op_bind_def wr Let_def
        not_le not_less)
qed

theorem set_nonce_exact_witness: "fst (set_nonce example_lib 7 5 example_node) = Ok True"
proof -
  have r: "fork_val (node_storage (lock_value (node_inner example_node))) (get_nonce_key example_lib 7) = Some 0"
    by (simp add: example_node_storage example_storage_def fork_val_def ForkStorage_new_def
        empty_genesis_def local_value_def remote_value_def Let_def)
  have d: "decompose_full_nonce example_lib 0 = (0, 0)"
    "decompose_full_nonce example_lib (nonces_to_full_nonce example_lib 5 5) = (5, 5)"
    "nonces_to_full_nonce example_lib 5 5 \<noteq> 0"
    by (simp_all add: example_lib_at_def)
  show ?thesis
    using set_nonce_exact [OF _ refl _ r d(1) d(2), simplified] d(3)
    by (simp add: Let_def split_def)
qed

section \<open>Mining\<close>

lemma op_bind_OkE:
  assumes "op_bind m f s = (Ok b, s')"
  obtains a s1 where "m s = (Ok a, s1)" and "f a s1 = (Ok b, s')"
  using assms by (cases "m s"; cases "fst (m s)") auto

lemma op_list_append: "op_list f (xs @ ys) = op_bind (op_list f xs) (\<lambda>_. op_list f ys)"
  by (induction xs) (auto simp: op_bind_def fun_eq_iff split: prod.splits rust.splits)

text \<open>The parts of the node that mining does not touch.\<close>

definition unmined :: "InMemoryNodeInner \<Rightarrow> InMemoryNodeInner" where
  "unmined n =
     n\<lparr>current_timestamp := 0, current_batch := 0, current_miniblock := 0,
       node_storage := undefined, blocks := Map.empty, node_block_hashes := Map.empty\<rparr>"

lemma storage_op_unmined: "storage_op act n = (Ok a, n') \<Longrightarrow> \<exists>s. n' = n\<lparr>node_storage := s\<rparr>"
  by (auto simp: storage_op_def split: prod.splits)

lemma store_deps_unmined: "op_list store_dep_op deps n = (Ok a, n') \<Longrightarrow> \<exists>s. n' = n\<lparr>node_storage := s\<rparr>"
proof (induction deps arbitrary: n)
  case Nil
  then show ?case by (auto intro: exI [of _ "node_storage n"])
next
  case (Cons d deps)
  from Cons.prems obtain u n1 where "store_dep_op d n = (Ok u, n1)"
    and rest: "op_list store_dep_op deps n1 = (Ok a, n')"
    by (auto elim: op_bind_OkE)
  then obtain s where "n1 = n\<lparr>node_storage := s\<rparr>"
    using storage_op_unmined by (fastforce simp: store_dep_op_def split: prod.splits)
  then show ?case
    using Cons.IH [OF rest] by auto
qed

lemma mine_one_Ok:
  assumes "mine_one L V interval i n = (Ok u, n')"
  shows "\<exists>ctx s. n' = insert_mined L ctx (n\<lparr>node_storage := s\<rparr>) \<and>
     (\<exists>keys deps v. mine_vm L V i interval n (StorageView_new (node_storage n)) = (Some (keys, deps, ctx), v))"
proof -
  obtain r n1 where vm0: "view_op (mine_vm L V i interval n) n = (Ok r :: (string, _) rust, n1)"
    and rest: "(case r of (keys, bytecodes, ctx) \<Rightarrow>
       op_bind (storage_op (write_all keys)) (\<lambda>_. op_bind (op_list store_dep_op bytecodes) (\<lambda>_.
         op_modify (insert_mined L ctx)))) n1 = (Ok u, n')"
    using assms unfolding mine_one_def by (rule op_bind_OkE) (rule that)
  obtain keys deps ctx where r: "r = (keys, deps, ctx)"
    by (cases r)
  note vm = vm0 [unfolded r]
  from rest obtain n2 n3 where w: "storage_op (write_all keys) n1 = (Ok () :: (string, _) rust, n2)"
    and d: "op_list store_dep_op deps n2 = (Ok (), n3)" and n': "n' = insert_mined L ctx n3"
    by (auto simp: r elim!: op_bind_OkE)
  obtain v where v: "mine_vm L V i interval n (StorageView_new (node_storage n)) = (Some (keys, deps, ctx), v)"
    and n1: "n1 = n\<lparr>node_storage := storage_handle v\<rparr>"
    using vm by (auto simp: view_op_def outcome_of_def split: prod.splits option.splits)
  obtain s where "n3 = n\<lparr>node_storage := s\<rparr>"
    using storage_op_unmined [OF w] store_deps_unmined [OF d] n1 by auto
  then show ?thesis
    using v n' by blast
qed

lemma mine_vm_ctx:
  assumes "mine_vm L V i interval n v = (Some (keys, deps, ctx), v')" and "i \<noteq> 0"
  shows "ctx_timestamp ctx = sat_add (current_timestamp n) interval"
  using assms unfolding mine_vm_def
  by (auto simp: Let_def elim!: act_bind_SomeE split: option.splits prod.splits)

lemma insert_mined_simps [simp]:
  "current_timestamp (insert_mined L ctx n) = ctx_timestamp ctx"
  "current_miniblock (insert_mined L ctx n) = ctx_miniblock ctx"
  "current_miniblock_hash (insert_mined L ctx n) = current_miniblock_hash n"
  "node_block_hashes (insert_mined L ctx n) (ctx_miniblock ctx) = Some (compute_hash L (ctx_miniblock ctx) 0)"
  "unmined (insert_mined L ctx n) = unmined n"
  "unmined (n\<lparr>node_storage := s\<rparr>) = unmined n"
  by (simp_all add: insert_mined_def create_empty_block_def unmined_def Let_def)

lemma mine_list_Ok:
  assumes "op_list (mine_one L V interval) [1..<Suc k] n = (Ok u, n')"
    and "node_block_hashes n (current_miniblock n) = Some (compute_hash L (current_miniblock n) 0)"
  shows "unat (current_timestamp n') = min (unat (current_timestamp n) + k * unat interval) (2 ^ 64 - 1) \<and>
    unmined n' = unmined n \<and>
    node_block_hashes n' (current_miniblock n') = Some (compute_hash L (current_miniblock n') 0)"
  using assms
proof (induction k arbitrary: n' u)
  case 0
  then show ?case
    using unsigned_less [of "current_timestamp n", where 'a = nat] by simp
next
  case (Suc k)
  then obtain n1 where one: "op_list (mine_one L V interval) [1..<Suc k] n = (Ok (), n1)"
    and two: "mine_one L V interval (Suc k) n1 = (Ok (), n')"
    by (auto simp: op_list_append elim!: op_bind_OkE)
  obtain ctx s where n': "n' = insert_mined L ctx (n1\<lparr>node_storage := s\<rparr>)"
    and t: "ctx_timestamp ctx = sat_add (current_timestamp n1) interval"
    using mine_one_Ok [OF two] mine_vm_ctx by blast
  show ?case
    using Suc.IH [OF one Suc.prems(2)] by (simp add: n' t unat_sat_add)
qed

text \<open>C39: Mining \<^verbatim>\<open>k + 1\<close> empty blocks sets the clock to the first block's timestamp plus \<^verbatim>\<open>k\<close> intervals
  (saturating), and records under the new head number the hash of an empty block. The recorded hash
  of the head, the filters, the archive and the results of transactions stay as they were: the
  node's head hash is the one of the block before mining, and no filter hears of the new blocks.\<close>

theorem mining_leaves_head_hash:
  assumes "mine_empty_blocks L V num interval n = (Ok (), n')" and "unat num = Suc k"
    and "mine_one L V interval 0 n = (Ok (), n1)"
  shows "unat (current_timestamp n') = min (unat (current_timestamp n1) + k * unat interval) (2 ^ 64 - 1) \<and>
    node_block_hashes n' (current_miniblock n') = Some (compute_hash L (current_miniblock n') 0) \<and>
    current_miniblock_hash n' = current_miniblock_hash n \<and> node_filters n' = node_filters n \<and>
    previous_states n' = previous_states n \<and> tx_results n' = tx_results n"
proof -
  have "op_list (mine_one L V interval) [1..<Suc k] n1 = (Ok (), n')"
    using assms by (simp add: mine_empty_blocks_def upt_conv_Cons [of 0] del: upt_Suc)
  moreover obtain ctx s where n1: "n1 = insert_mined L ctx (n\<lparr>node_storage := s\<rparr>)"
    using mine_one_Ok [OF assms(3)] by blast
  moreover have "node_block_hashes n1 (current_miniblock n1) = Some (compute_hash L (current_miniblock n1) 0)"
    by (simp add: n1)
  ultimately have *: "unat (current_timestamp n') =
      min (unat (current_timestamp n1) + k * unat interval) (2 ^ 64 - 1) \<and> unmined n' = unmined n \<and>
      node_block_hashes n' (current_miniblock n') = Some (compute_hash L (current_miniblock n') 0)"
    using mine_list_Ok [of L V interval k n1] by simp
  then have "f (unmined n') = f (unmined n)" for f :: "InMemoryNodeInner \<Rightarrow> 'x"
    by simp
  from this [of current_miniblock_hash] this [of node_filters] this [of previous_states] this [of tx_results] *
  show ?thesis
    by (simp add: unmined_def)
qed

lemma example_mine_one:
  assumes "node_storage n = example_storage" and "unat (current_miniblock n) < 2 ^ 32"
  shows "\<exists>ctx. mine_one example_lib (example_vm need res) interval i n = (Ok (), insert_mined example_lib ctx n) \<and>
     ctx_miniblock ctx = sat_add (current_miniblock n) 1 \<and>
     (i = 0 \<longrightarrow> ctx_timestamp ctx = sat_add (current_timestamp n) 1)"
proof -
  obtain env ctx v where env: "create_l1_batch_env example_lib n (StorageView_new (node_storage n)) =
      (Some (env, ctx), v)" "stored_in_step n None None \<longrightarrow> in_step n ctx"
      "storage_handle v = example_storage" "modified_keys v = []"
    using example_env [OF assms(1)] by blast
  let ?ctx = "if i \<noteq> 0 then ctx\<lparr>ctx_timestamp := sat_add (current_timestamp n) interval\<rparr> else ctx"
  have code: "\<exists>c. contracts_for_l2_call (system_contracts n) = Some c"
    by (simp add: contracts_for_l2_call_def)
  have "mine_vm example_lib (example_vm need res) i interval n (StorageView_new (node_storage n)) =
      (Some ([], [], ?ctx), v)"
    using env(1,4) code
    by (auto simp: mine_vm_def example_vm_def collect_bytecodes_def take_modified_def storage_view_def
        view_modified_storage_keys_def Let_def)
  moreover have stay: "n\<lparr>node_storage := example_storage\<rparr> = n"
    using assms(1) by simp
  ultimately have "mine_one example_lib (example_vm need res) interval i n =
      (Ok (), insert_mined example_lib ?ctx n)"
    using env(3) assms(1) by (simp add: mine_one_def view_op_def storage_op_def stay)
  then show ?thesis
    using env(2) assms(2) by (intro exI [of _ ?ctx]) (simp add: in_step_def stored_in_step_def)
qed

theorem mining_leaves_head_hash_witness:
  "\<exists>n'. mine_empty_blocks example_lib (example_vm 0 (Success [])) 2 5
       (lock_value (node_inner example_node)) = (Ok (), n') \<and>
     unat (current_timestamp n') = 1006 \<and> current_miniblock_hash n' = 0"
proof -
  let ?n = "lock_value (node_inner example_node)" and ?V = "example_vm 0 (Success [])"
  obtain c1 where one: "mine_one example_lib ?V 5 0 ?n = (Ok (), insert_mined example_lib c1 ?n)"
    and c1: "ctx_miniblock c1 = 1" "ctx_timestamp c1 = 1001"
    using example_mine_one [of ?n 0 "Success []" 5 0] by (auto simp: example_node_storage sat_add_def)
  let ?n1 = "insert_mined example_lib c1 ?n"
  have "node_storage ?n1 = example_storage" "unat (current_miniblock ?n1) < 2 ^ 32"
    by (simp_all add: c1) (simp add: insert_mined_def example_node_storage Let_def)
  from example_mine_one [OF this]
  obtain n' where "mine_one example_lib ?V 5 1 ?n1 = (Ok (), n')"
    by blast
  then have two: "mine_empty_blocks example_lib ?V 2 5 ?n = (Ok (), n')"
    using one by (simp add: mine_empty_blocks_def upt_rec)
  have "current_miniblock_hash ?n = 0"
    using example_hashes(1) by (simp add: example_node_def InMemoryNode_new_def Let_def)
  then show ?thesis
    using mining_leaves_head_hash [OF two _ one, of 1] c1(2) two by auto
qed

section \<open>Moving time backwards\<close>

lemma late_not_in_step:
  assumes "create_l1_batch_env L n v = (Some (env, ctx), v')"
    and "load_last_l1_batch L v = (Some l1, v1)" and "load_last_l2_block L v1 = (Some (Some (k, h, ts)), v2)"
    and "current_timestamp n < ts" and "unat (current_timestamp n) + 2 < 2 ^ 64"
  shows "\<not> in_step n ctx"
proof -
  have "\<exists>t. ctx_timestamp ctx = sat_add t 1 \<and> ts \<le> t"
    using assms(1-3) by (auto simp: create_l1_batch_env_def Let_def new_batch_def from_current_def
        le_max_iff_disj split: prod.splits option.splits)
  then obtain t where ctx: "ctx_timestamp ctx = sat_add t 1" and le: "ts \<le> t"
    by blast
  have "unat (sat_add (current_timestamp n) 1) = unat (current_timestamp n) + 1"
    using assms(5) by (simp add: unat_sat_add)
  moreover have "unat (current_timestamp n) < unat t"
    using assms(4) le by (simp add: word_less_nat_alt word_le_nat_alt)
  ultimately have "unat (sat_add t 1) \<noteq> unat (sat_add (current_timestamp n) 1)"
    using assms(5) by (simp add: unat_sat_add)
  then show ?thesis
    using ctx by (auto simp: in_step_def)
qed

text \<open>C40: Setting the clock of the node back behind the timestamp that the chain's storage holds breaks the
  node: the next transaction that runs to its commit panics there, and the lock stays poisoned.\<close>

theorem backwards_time_poisons:
  assumes "set_time t node = (Ok d, node1)" and "lawful_vm L V" and "ran L V tx mode node1 raw v"
    and "not_halted raw" and "tx_record L tx raw = Some rec"
    and "load_last_l1_batch L (StorageView_new (node_storage (lock_value (node_inner node1)))) = (Some l1, v1)"
    and "load_last_l2_block L v1 = (Some (Some (k, h, ts)), v2)"
    and "t < ts" and "unat t + 2 < 2 ^ 64"
  shows "fst (run_l2_tx L V tx mode node1) = Panic \<and>
    lock_poisoned (node_inner (snd (run_l2_tx L V tx mode node1)))"
proof -
  let ?n = "lock_value (node_inner node1)"
  have t: "current_timestamp ?n = t"
    using assms(1) by (auto simp: set_time_def with_inner_def with_write_def split: if_splits)
  obtain env v' where "create_l1_batch_env L (announced L tx ?n) (StorageView_new (node_storage ?n)) =
      (Some (env, raw_block_ctx raw), v')"
    using assms(3) unfolding ran_def run_raw_body_def
    by (fastforce elim!: act_bind_SomeE split: prod.splits option.splits if_splits)
  from late_not_in_step [OF this assms(6,7)] assms(8,9)
  have "\<not> in_step (announced L tx ?n) (raw_block_ctx raw)"
    by (simp add: t)
  then show ?thesis
    by (simp add: run_l2_tx_commit [OF assms(2-5)] Let_def)
qed

theorem backwards_time_poisons_witness:
  "\<exists>node1 t. set_time 5 example_node = (Ok t, node1) \<and>
     fst (run_l2_tx (example_lib_at (Some (0, 0, 1000))) (example_vm 0 (Success [])) (example_tx 1)
            VerifyExecute node1) = Panic"
proof -
  let ?L = "example_lib_at (Some (0, 0, 1000))" and ?V = "example_vm 0 (Success [])"
  let ?n = "lock_value (node_inner example_node)"
  let ?node1 = "example_node\<lparr>node_inner := (node_inner example_node)\<lparr>lock_value := ?n\<lparr>current_timestamp := 5\<rparr>\<rparr>\<rparr>"
  obtain d where st: "set_time 5 example_node = (Ok d, ?node1)"
    by (simp add: set_time_def with_inner_def with_write_def)
  have sg: "show_gas_details ?n = ShowGasNone"
    by (simp add: example_node_def InMemoryNode_new_def example_config_def Let_def)
  obtain raw v rec where r: "ran ?L ?V (example_tx 1) VerifyExecute ?node1 raw v" "not_halted raw"
      "tx_record ?L (example_tx 1) raw = Some rec"
    using example_ran_at [of ?node1 "example_tx 1" "Some (0, 0, 1000)" 0 "Success []"] sg
    by (auto simp: example_node_storage example_tx_def)
  have l1: "load_last_l1_batch ?L (StorageView_new (node_storage (lock_value (node_inner ?node1)))) =
      (Some None, (StorageView_new example_storage)\<lparr>read_storage_keys := [(0x800B, 7) \<mapsto> 0]\<rparr>)"
    by (simp add: load_last_l1_batch_def example_lib_at_def example_node_storage)
  have l2: "load_last_l2_block ?L w = (Some (Some (0, 0, 1000)), w)" for w
    by (simp add: example_lib_at_def)
  have "(5 :: u64) < 1000" and "unat (5 :: u64) + 2 < 2 ^ 64"
    by simp_all
  from backwards_time_poisons [OF st lawful_example r l1 l2 this] st
  show ?thesis by blast
qed

end
