(* ===== verification/EthNamespace.thy ===== *)
theory EthNamespace
  imports NodeExt "HOL-Library.Multiset"
begin

text \<open>
  The \<^verbatim>\<open>eth\<close> namespace of the RPC interface (\<^verbatim>\<open>src/.test-node-subtree/src/node/eth.rs\<close>), one
  definition per handler. A handler takes the node and returns its response and the node it leaves.
\<close>

section \<open>Guards\<close>

text \<open>A handler under the write guard answers \<^verbatim>\<open>Web3Error::InternalError\<close> when the lock is poisoned. Under
  the read guard it cannot change the node except for what lies behind a lock of its own (the
  storage and the log filter), and its panic does not poison.\<close>

definition eth_write :: "(InMemoryNodeInner, RpcError, 'a) op \<Rightarrow> (InMemoryNode, RpcError, 'a) op" where
  "eth_write f = with_inner InternalError f"

definition eth_read :: "(InMemoryNodeInner \<Rightarrow> (RpcError, 'a) rust) \<Rightarrow> (InMemoryNode, RpcError, 'a) op" where
  "eth_read f = read_inner InternalError f"

definition shared_inner ::
  "'e \<Rightarrow> (InMemoryNodeInner, 'e, 'a) op \<Rightarrow> (InMemoryNode, 'e, 'a) op" where
  "shared_inner e f node =
     (if lock_poisoned (node_inner node) then (Err e, node)
      else case f (lock_value (node_inner node)) of
        (r, n) \<Rightarrow> (r, node\<lparr>node_inner := (node_inner node)\<lparr>lock_value := n\<rparr>\<rparr>))"

text \<open>\<^verbatim>\<open>fork_storage.inner.read().expect(..).fork.as_ref().and_then(..)\<close>, and the fallback to it.\<close>

definition from_fork :: "(ForkDetails \<Rightarrow> 'a option) \<Rightarrow> InMemoryNodeInner \<Rightarrow> ('e, 'a option) rust" where
  "from_fork f n =
     (if lock_poisoned (fs_inner (node_storage n)) then Panic
      else Ok (Option.bind (fork (lock_value (fs_inner (node_storage n)))) f))"

definition or_fork ::
  "'a option \<Rightarrow> (ForkDetails \<Rightarrow> 'a option) \<Rightarrow> InMemoryNodeInner \<Rightarrow> ('e, 'a option) rust" where
  "or_fork x f n = (case x of Some a \<Rightarrow> Ok (Some a) | None \<Rightarrow> from_fork f n)"

text \<open>\<^verbatim>\<open>.ok().flatten()\<close> of a remote answer.\<close>

definition flatten :: "'a option option \<Rightarrow> 'a option" where
  "flatten x = (case x of Some (Some a) \<Rightarrow> Some a | _ \<Rightarrow> None)"

text \<open>The block with a given number, resolved against the head.\<close>

definition real_number :: "BlockNumber \<Rightarrow> InMemoryNodeInner \<Rightarrow> u64" where
  "real_number bn n = to_real_block_number bn (current_miniblock n)"

definition local_block :: "BlockNumber \<Rightarrow> InMemoryNodeInner \<Rightarrow> Block option" where
  "local_block bn n = Option.bind (node_block_hashes n (real_number bn n)) (blocks n)"

section \<open>Requests\<close>

text \<open>The requests of \<^verbatim>\<open>zksync_types\<close> with the fields that the handlers use; the other fields are in the
  extension of the record. The conversions and encodings are external.\<close>

record Eip712Meta =
  gas_per_pubdata_of_meta :: u256

record CallRequest =
  call_gas_price :: "u256 option"
  call_max_fee_per_gas :: "u256 option"
  call_max_priority_fee_per_gas :: "u256 option"
  call_eip712_meta :: "Eip712Meta option"

record TransactionRequest =
  req_gas_price :: u256
  req_max_priority_fee_per_gas :: "u256 option"
  req_transaction_type :: "u64 option"
  req_r :: "u256 option"
  req_s :: "u256 option"
  req_v :: "u64 option"

record ('c, 'r) request_lib =
  request_from_call :: "'c CallRequest_scheme \<Rightarrow> 'r TransactionRequest_scheme"
  request_from_bytes :: "bytes \<Rightarrow> u64 \<Rightarrow> string + ('r TransactionRequest_scheme \<times> h256)"
  request_tx_hash :: "'r TransactionRequest_scheme \<Rightarrow> u64 \<Rightarrow> string + h256"
  request_signed_bytes :: "'r TransactionRequest_scheme \<Rightarrow> u64 \<Rightarrow> bytes"
  l2_tx_from_request :: "'r TransactionRequest_scheme \<Rightarrow> nat \<Rightarrow> string + L2Tx"
  extract_chain_id :: "L2Tx \<Rightarrow> u64 option"

record Filter =
  fl_from_block :: "BlockNumber option"
  fl_to_block :: "BlockNumber option"
  fl_address :: "address list option"
  fl_topics :: "h256 set option list option"

section \<open>Calls and transactions\<close>

definition eth_chain_id :: "(InMemoryNode, RpcError, u64) op" where
  "eth_chain_id = eth_read (\<lambda>n. Ok (chain_id (node_storage n)))"

text \<open>The message of a failed call.\<close>

definition with_colon :: "string \<Rightarrow> string \<Rightarrow> string" where
  "with_colon prefix message = prefix @ (if message = [] then '''' else '': '') @ message"

text \<open>The successful answer starts with the four little-endian bytes of the gas used.\<close>

definition call_answer :: "(string, VmExecutionResultAndLogs) rust \<Rightarrow> (RpcError, bytes) rust" where
  "call_answer q =
     (case q of
        Ok r \<Rightarrow>
          (case vr_result r of
             Success output \<Rightarrow> Ok (rev (to_be_bytes (vr_gas_used r)) @ output)
           | Revert output \<Rightarrow>
               Err (SubmitTransactionError
                 (with_colon ''execution reverted'' (revert_friendly output)) (revert_encoded output))
           | Halt reason \<Rightarrow>
               Err (SubmitTransactionError (with_colon ''execution halted '' reason) []))
      | Err e \<Rightarrow> Err (InvalidTransactionData e)
      | Panic \<Rightarrow> Panic)"

definition eth_call ::
  "lib \<Rightarrow> ('c, 'r) request_lib \<Rightarrow> 'vm vm_api \<Rightarrow> 'c CallRequest_scheme \<Rightarrow> BlockIdVariant option \<Rightarrow>
   (InMemoryNode, RpcError, bytes) op" where
  "eth_call L R V req blk =
     (case l2_tx_from_request R (request_from_call R req) MAX_TX_SIZE of
        Inl e \<Rightarrow> op_fail (Err (SerializationError e))
      | Inr tx \<Rightarrow> (\<lambda>node.
          let tx = tx\<lparr>l2_fee := (l2_fee tx)\<lparr>gas_limit := ucast (eth_call_gas_limit L)\<rparr>\<rparr> in
          case run_l2_call L V tx node of (q, node') \<Rightarrow> (call_answer q, node')))"

definition submit :: "lib \<Rightarrow> 'vm vm_api \<Rightarrow> L2Tx \<Rightarrow> (InMemoryNode, RpcError, h256) op" where
  "submit L V l2_tx node =
     (case run_l2_tx L V l2_tx VerifyExecute node of
        (Ok _, node') \<Rightarrow> (Ok (l2_tx_hash L l2_tx), node')
      | (Err e, node') \<Rightarrow>
          (Err (SubmitTransactionError (''Execution error: '' @ e) (to_be_bytes (l2_tx_hash L l2_tx))), node')
      | (Panic, node') \<Rightarrow> (Panic, node'))"

definition send_raw_transaction ::
  "lib \<Rightarrow> ('c, 'r) request_lib \<Rightarrow> 'vm vm_api \<Rightarrow> bytes \<Rightarrow> (InMemoryNode, RpcError, h256) op" where
  "send_raw_transaction L R V tx_bytes =
     op_bind (eth_read (\<lambda>n. Ok (chain_id (node_storage n)))) (\<lambda>cid.
     case request_from_bytes R tx_bytes cid of
       Inl e \<Rightarrow> op_fail (Err (SerializationError e))
     | Inr (tx_req, hash) \<Rightarrow>
         (case l2_tx_from_request R tx_req MAX_TX_SIZE of
            Inl e \<Rightarrow> op_fail (Err (SerializationError e))
          | Inr tx \<Rightarrow>
              let l2_tx = tx\<lparr>l2_input := Some (hash, tx_bytes)\<rparr> in
              if hash \<noteq> l2_tx_hash L l2_tx then op_fail (Err (InvalidTransactionData ''InvalidData''))
              else submit L V l2_tx))"

text \<open>The request of an impersonated account: gas fields as the type of the transaction asks, a dummy
  signature, and only initiators on the list of impersonated accounts.\<close>

definition impersonation_request ::
  "'c CallRequest_scheme \<Rightarrow> 'r TransactionRequest_scheme \<Rightarrow> 'r TransactionRequest_scheme option" where
  "impersonation_request tx req =
     map_option (\<lambda>req. req\<lparr>req_r := Some 0, req_s := Some 0, req_v := Some 27\<rparr>)
       (if call_gas_price tx \<noteq> None
        then (if call_max_fee_per_gas tx \<noteq> None \<or> call_max_priority_fee_per_gas tx \<noteq> None
              then None else Some req)
        else Some (req\<lparr>req_gas_price := (case call_max_fee_per_gas tx of Some g \<Rightarrow> g | None \<Rightarrow> 0),
                       req_max_priority_fee_per_gas := call_max_priority_fee_per_gas tx,
                       req_transaction_type :=
                         (case req_transaction_type req of None \<Rightarrow> Some 2 | Some t \<Rightarrow> Some t)\<rparr>))"

definition send_transaction ::
  "lib \<Rightarrow> ('c, 'r) request_lib \<Rightarrow> 'vm vm_api \<Rightarrow> 'c CallRequest_scheme \<Rightarrow> (InMemoryNode, RpcError, h256) op" where
  "send_transaction L R V tx =
     op_bind (eth_read (\<lambda>n. Ok (chain_id (node_storage n)))) (\<lambda>cid.
     case impersonation_request tx (request_from_call R tx) of
       None \<Rightarrow> op_fail (Err (InvalidTransactionData ''InvalidData''))
     | Some tx_req \<Rightarrow>
         (case request_tx_hash R tx_req cid of
            Inl e \<Rightarrow> op_fail (Err (SerializationError e))
          | Inr hash \<Rightarrow>
              (case l2_tx_from_request R tx_req MAX_TX_SIZE of
                 Inl e \<Rightarrow> op_fail (Err (SerializationError e))
               | Inr l2 \<Rightarrow>
                   let l2_tx = l2\<lparr>l2_signature := replicate 64 0 @ [27],
                                   l2_input := Some (hash, request_signed_bytes R tx_req cid)\<rparr>
                   in op_bind (eth_read (\<lambda>n.
                        if l2_initiator_address l2_tx \<in> impersonated_accounts n then Ok ()
                        else Err (InvalidTransactionData ''InvalidData''))) (\<lambda>_. submit L V l2_tx))))"

section \<open>State\<close>

definition get_balance :: "lib \<Rightarrow> address \<Rightarrow> BlockIdVariant option \<Rightarrow> (InMemoryNode, RpcError, u256) op" where
  "get_balance L a blk =
     eth_write (storage_op (read_value fork_storage
       (storage_key_for_standard_token_balance L (l2_eth_token_address L) a)))"

definition get_code :: "lib \<Rightarrow> address \<Rightarrow> BlockIdVariant option \<Rightarrow> (InMemoryNode, RpcError, bytes) op" where
  "get_code L a blk =
     eth_write
       (op_bind (storage_op (read_value fork_storage (get_code_key L a))) (\<lambda>code_hash.
        op_bind (storage_op (load_factory_dep fork_storage code_hash)) (\<lambda>code.
        op_return (case code of Some c \<Rightarrow> c | None \<Rightarrow> []))))"

definition get_transaction_count ::
  "lib \<Rightarrow> address \<Rightarrow> BlockIdVariant option \<Rightarrow> (InMemoryNode, RpcError, u256) op" where
  "get_transaction_count L a blk =
     eth_write
       (op_bind (storage_op (read_value fork_storage (get_nonce_key L a))) (\<lambda>result.
        op_return (ucast (h256_to_u64 result))))"

text \<open>Storage at a block: the current value for the head, the archived value for an older local block
  (the current one when the archive has none or zero), the remote value otherwise.\<close>

definition storage_block ::
  "BlockIdVariant option \<Rightarrow> InMemoryNodeInner \<Rightarrow> (RpcError, u64) rust" where
  "storage_block blk n =
     (case blk of
        None \<Rightarrow> Ok (current_miniblock n)
      | Some (BlockNumberId bn) \<Rightarrow> Ok (real_number bn n)
      | Some (BlockNumberObject bn) \<Rightarrow> Ok (real_number bn n)
      | Some (BlockHashObject h) \<Rightarrow> ok_or InternalError (map_option block_number (blocks n h)))"

definition archived_value :: "u64 \<Rightarrow> StorageKey \<Rightarrow> InMemoryNodeInner \<Rightarrow> StorageValue" where
  "archived_value number key n =
     (case Option.bind (node_block_hashes n number) (map_of (previous_states n)) of
        None \<Rightarrow> 0
      | Some st \<Rightarrow> (case st key of None \<Rightarrow> 0 | Some v \<Rightarrow> v))"

definition get_storage ::
  "address \<Rightarrow> u256 \<Rightarrow> BlockIdVariant option \<Rightarrow> (InMemoryNode, RpcError, h256) op" where
  "get_storage a idx blk =
     eth_write (\<lambda>n.
       let key = (a, idx) in
       case storage_block blk n of
         Ok number \<Rightarrow>
           if number = current_miniblock n then storage_op (read_value fork_storage key) n
           else if node_block_hashes n number \<noteq> None
           then (let v = archived_value number key n in
                 if v = 0 then storage_op (read_value fork_storage key) n else (Ok v, n))
           else (case from_fork (\<lambda>f. get_storage_at (fork_source f) a idx blk) n of
                   Ok r \<Rightarrow> (ok_or InternalError r, n)
                 | Err e \<Rightarrow> (Err e, n)
                 | Panic \<Rightarrow> (Panic, n))
       | Err e \<Rightarrow> (Err e, n)
       | Panic \<Rightarrow> (Panic, n))"

section \<open>Blocks and transactions\<close>

text \<open>The transactions of an answer as the caller asked for them; \<^const>\<open>None\<close> is the panic on a block that
  holds a hash where full transactions are asked for.\<close>

fun present_tx :: "bool \<Rightarrow> TransactionVariant \<Rightarrow> TransactionVariant option" where
  "present_tx full (FullTx tx) = Some (if full then FullTx tx else HashTx (tx_hash tx))"
| "present_tx full (HashTx h) = (if full then None else Some (HashTx h))"

fun present_txs :: "bool \<Rightarrow> TransactionVariant list \<Rightarrow> TransactionVariant list option" where
  "present_txs full [] = Some []"
| "present_txs full (tx # txs) =
     (case present_tx full tx of
        None \<Rightarrow> None
      | Some t \<Rightarrow> map_option (\<lambda>ts. t # ts) (present_txs full txs))"

definition present_block :: "bool \<Rightarrow> Block option \<Rightarrow> (RpcError, Block option) rust" where
  "present_block full b =
     (case b of
        None \<Rightarrow> Ok None
      | Some b \<Rightarrow>
          (case present_txs full (block_transactions b) of
             None \<Rightarrow> Panic
           | Some ts \<Rightarrow> Ok (Some (b\<lparr>block_transactions := ts\<rparr>))))"

definition eth_get_block_by_number ::
  "BlockNumber \<Rightarrow> bool \<Rightarrow> (InMemoryNode, RpcError, Block option) op" where
  "eth_get_block_by_number bn full_transactions =
     eth_read (\<lambda>n. rust_bind
       (or_fork (local_block bn n) (\<lambda>f. flatten (src_get_block_by_number (fork_source f) bn True)) n)
       (present_block full_transactions))"

definition eth_get_block_by_hash ::
  "h256 \<Rightarrow> bool \<Rightarrow> (InMemoryNode, RpcError, Block option) op" where
  "eth_get_block_by_hash hash full_transactions =
     eth_read (\<lambda>n. rust_bind
       (or_fork (blocks n hash) (\<lambda>f. flatten (src_get_block_by_hash (fork_source f) hash True)) n)
       (present_block full_transactions))"

definition get_transaction_receipt :: "h256 \<Rightarrow> (InMemoryNode, RpcError, TransactionReceipt option) op" where
  "get_transaction_receipt hash =
     eth_read (\<lambda>n. Ok (map_option tr_receipt (map_of (tx_results n) hash)))"

fun transaction_type_number :: "TransactionType \<Rightarrow> u64" where
  "transaction_type_number LegacyTransaction = 0"
| "transaction_type_number EIP2930Transaction = 1"
| "transaction_type_number EIP1559Transaction = 2"
| "transaction_type_number EIP712Transaction = 113"
| "transaction_type_number PriorityOpTransaction = 255"
| "transaction_type_number ProtocolUpgradeTransaction = 254"

text \<open>A stored transaction is answered only when it has its raw input and a chain id.\<close>

definition stored_transaction ::
  "('c, 'r) request_lib \<Rightarrow> h256 \<Rightarrow> TransactionResult \<Rightarrow> Transaction option" where
  "stored_transaction R hash res =
     (let info = tr_info res; tx = info_tx info in
      case (l2_input tx, extract_chain_id R tx) of
        (Some (_, input_data), Some cid) \<Rightarrow>
          Some \<lparr>tx_hash = hash, tx_nonce = ucast (l2_nonce tx), tx_block_hash = Some hash,
                tx_block_number = Some (info_miniblock_number info), tx_transaction_index = Some 1,
                tx_from = Some (l2_initiator_address tx), tx_to = Some (l2_contract_address tx),
                tx_value = l2_value tx, tx_gas_price = Some 0, tx_gas = 0, tx_input = input_data,
                tx_v = Some cid, tx_r = Some 0, tx_s = Some 0,
                tx_transaction_type = Some (transaction_type_number (l2_transaction_type tx)),
                tx_max_fee_per_gas = Some (max_fee_per_gas (l2_fee tx)),
                tx_max_priority_fee_per_gas = Some (max_priority_fee_per_gas (l2_fee tx)),
                tx_chain_id = ucast cid,
                tx_l1_batch_number = Some (ucast (info_batch_number info))\<rparr>
      | _ \<Rightarrow> None)"

definition eth_get_transaction_by_hash ::
  "('c, 'r) request_lib \<Rightarrow> h256 \<Rightarrow> (InMemoryNode, RpcError, Transaction option) op" where
  "eth_get_transaction_by_hash R hash =
     eth_read (\<lambda>n. or_fork
       (Option.bind (map_of (tx_results n) hash) (stored_transaction R hash))
       (\<lambda>f. flatten (src_get_transaction_by_hash (fork_source f) hash)) n)"

definition get_block_number :: "(InMemoryNode, RpcError, u64) op" where
  "get_block_number = eth_read (\<lambda>n. Ok (current_miniblock n))"

definition found_or_no_block :: "'a option \<Rightarrow> (RpcError, 'a option) rust" where
  "found_or_no_block x = (case x of Some v \<Rightarrow> Ok (Some v) | None \<Rightarrow> Err NoBlock)"

definition eth_get_block_transaction_count_by_number ::
  "BlockNumber \<Rightarrow> (InMemoryNode, RpcError, u256 option) op" where
  "eth_get_block_transaction_count_by_number bn =
     eth_read (\<lambda>n. rust_bind
       (or_fork (map_option (\<lambda>b. of_nat (length (block_transactions b))) (local_block bn n))
          (\<lambda>f. flatten (src_get_block_transaction_count_by_number (fork_source f) bn)) n)
       found_or_no_block)"

definition eth_get_block_transaction_count_by_hash ::
  "h256 \<Rightarrow> (InMemoryNode, RpcError, u256 option) op" where
  "eth_get_block_transaction_count_by_hash hash =
     eth_read (\<lambda>n. rust_bind
       (or_fork (map_option (\<lambda>b. of_nat (length (block_transactions b))) (blocks n hash))
          (\<lambda>f. flatten (src_get_block_transaction_count_by_hash (fork_source f) hash)) n)
       found_or_no_block)"

text \<open>The transaction at a position of a local block: a full one as it is, a hash by asking the fork.\<close>

definition tx_at :: "Block option \<Rightarrow> nat \<Rightarrow> InMemoryNodeInner \<Rightarrow> (RpcError, Transaction option) rust" where
  "tx_at b index n =
     (case b of
        None \<Rightarrow> Ok None
      | Some b \<Rightarrow>
          if length (block_transactions b) \<le> index then Ok None
          else (case block_transactions b ! index of
                  FullTx tx \<Rightarrow> Ok (Some tx)
                | HashTx h \<Rightarrow>
                    from_fork (\<lambda>f. flatten (src_get_transaction_by_hash (fork_source f) h)) n))"

definition eth_get_transaction_by_block_hash_and_index ::
  "h256 \<Rightarrow> nat \<Rightarrow> (InMemoryNode, RpcError, Transaction option) op" where
  "eth_get_transaction_by_block_hash_and_index hash index =
     eth_read (\<lambda>n. rust_bind (tx_at (blocks n hash) index n) (\<lambda>tx.
       or_fork tx (\<lambda>f. flatten (src_get_transaction_by_block_hash_and_index (fork_source f) hash index)) n))"

definition eth_get_transaction_by_block_number_and_index ::
  "BlockNumber \<Rightarrow> nat \<Rightarrow> (InMemoryNode, RpcError, Transaction option) op" where
  "eth_get_transaction_by_block_number_and_index bn index =
     eth_read (\<lambda>n. rust_bind (tx_at (local_block bn n) index n) (\<lambda>tx.
       or_fork tx (\<lambda>f. flatten (src_get_transaction_by_block_number_and_index (fork_source f) bn index)) n))"

section \<open>Filters and logs\<close>

text \<open>The four topic positions of a filter object.\<close>

definition filter_topics :: "h256 set option list option \<Rightarrow> h256 set option list" where
  "filter_topics topics =
     (case topics of
        None \<Rightarrow> replicate 4 None
      | Some ts \<Rightarrow> take 4 ts @ replicate (4 - length ts) None)"

definition filter_of :: "BlockNumber \<Rightarrow> Filter \<Rightarrow> BlockNumber \<times> BlockNumber \<times> address list \<times> h256 set option list" where
  "filter_of default_from f =
     ((case fl_from_block f of Some b \<Rightarrow> b | None \<Rightarrow> default_from),
      (case fl_to_block f of Some b \<Rightarrow> b | None \<Rightarrow> Latest),
      (case fl_address f of Some a \<Rightarrow> a | None \<Rightarrow> []), filter_topics (fl_topics f))"

definition filter_op :: "(EthFilters \<Rightarrow> (string, 'a) rust \<times> EthFilters) \<Rightarrow> (InMemoryNodeInner, RpcError, 'a) op" where
  "filter_op f n =
     (case f (node_filters n) of
        (r, fs) \<Rightarrow> ((case r of Ok a \<Rightarrow> Ok a | Err _ \<Rightarrow> Err InternalError | Panic \<Rightarrow> Panic),
                    n\<lparr>node_filters := fs\<rparr>))"

definition new_filter :: "Filter \<Rightarrow> (InMemoryNode, RpcError, u256) op" where
  "new_filter f =
     (case filter_of Latest f of
        (from_block, to_block, addresses, topics) \<Rightarrow>
          eth_write (filter_op (add_log_filter from_block to_block addresses topics)))"

definition new_block_filter :: "(InMemoryNode, RpcError, u256) op" where
  "new_block_filter = eth_write (filter_op add_block_filter)"

definition new_pending_transaction_filter :: "(InMemoryNode, RpcError, u256) op" where
  "new_pending_transaction_filter = eth_write (filter_op add_pending_transaction_filter)"

definition uninstall_filter :: "u256 \<Rightarrow> (InMemoryNode, RpcError, bool) op" where
  "uninstall_filter i = eth_write (filter_op (\<lambda>fs. case remove_filter i fs of (b, fs') \<Rightarrow> (Ok b, fs')))"

text \<open>The logs of all receipts that match; a log without a block number panics.\<close>

fun matching_logs :: "LogFilter \<Rightarrow> u64 \<Rightarrow> Log list \<Rightarrow> Log list option" where
  "matching_logs f latest [] = Some []"
| "matching_logs f latest (l # ls) =
     (case matches f l latest of
        None \<Rightarrow> None
      | Some b \<Rightarrow> map_option (\<lambda>rest. if b then l # rest else rest) (matching_logs f latest ls))"

definition all_logs :: "InMemoryNodeInner \<Rightarrow> Log list" where
  "all_logs n = concat (map (\<lambda>(_, res). rc_logs (tr_receipt res)) (tx_results n))"

definition logs_matching :: "LogFilter \<Rightarrow> InMemoryNodeInner \<Rightarrow> (RpcError, Log list) rust" where
  "logs_matching f n = unwrap (matching_logs f (current_miniblock n) (all_logs n))"

definition get_logs :: "Filter \<Rightarrow> (InMemoryNode, RpcError, Log list) op" where
  "get_logs f =
     (case filter_of Earliest f of
        (from_block, to_block, addresses, topics) \<Rightarrow>
          eth_read (logs_matching (LogFilter_new from_block to_block addresses topics)))"

definition get_filter_logs :: "u256 \<Rightarrow> (InMemoryNode, RpcError, FilterChanges) op" where
  "get_filter_logs i =
     eth_read (\<lambda>n. case get_filter i (node_filters n) of
         Some (FLog f) \<Rightarrow> rust_bind (logs_matching f n) (\<lambda>ls. Ok (Logs ls))
       | _ \<Rightarrow> Err InternalError)"

definition get_filter_changes :: "u256 \<Rightarrow> (InMemoryNode, RpcError, FilterChanges) op" where
  "get_filter_changes i = eth_write (filter_op (get_new_changes i))"

section \<open>Constants and fees\<close>

definition gas_price :: "(InMemoryNode, RpcError, u256) op" where
  "gas_price = op_return (ucast L2_GAS_PRICE)"

definition protocol_version :: "(InMemoryNode, RpcError, string) op" where
  "protocol_version = op_return PROTOCOL_VERSION"

datatype SyncState = NotSyncing

definition syncing :: "(InMemoryNode, RpcError, SyncState) op" where
  "syncing = op_return NotSyncing"

definition accounts :: "(InMemoryNode, RpcError, address set) op" where
  "accounts = eth_read (\<lambda>n. Ok (rich_accounts n))"

definition not_implemented :: "string \<Rightarrow> (InMemoryNode, RpcError, 'a) op" where
  "not_implemented method_name = op_fail (Err (MethodNotFound (''Method '' @ method_name @ '' is not implemented'')))"

definition coinbase :: "(InMemoryNode, RpcError, address) op" where
  "coinbase = not_implemented ''eth_coinbase''"

definition compilers :: "(InMemoryNode, RpcError, string list) op" where
  "compilers = not_implemented ''eth_getCompilers''"

definition hashrate :: "(InMemoryNode, RpcError, u256) op" where
  "hashrate = not_implemented ''eth_hashrate''"

definition get_uncle_count_by_block_hash :: "h256 \<Rightarrow> (InMemoryNode, RpcError, u256 option) op" where
  "get_uncle_count_by_block_hash hash = not_implemented ''eth_getUncleCountByBlockHash''"

definition get_uncle_count_by_block_number :: "BlockNumber \<Rightarrow> (InMemoryNode, RpcError, u256 option) op" where
  "get_uncle_count_by_block_number bn = not_implemented ''eth_getUncleCountByBlockNumber''"

definition mining :: "(InMemoryNode, RpcError, bool) op" where
  "mining = not_implemented ''eth_mining''"

record FeeHistory =
  fh_oldest_block :: u64
  fh_base_fee_per_gas :: "u256 list"
  fh_gas_used_ratio :: "nat list"  \<comment> \<open>always zero\<close>
  fh_reward :: "u256 list list option"

text \<open>\<^verbatim>\<open>clamp\<close> panics when its lower bound is above the upper one, which happens when the successor of
  the head wraps to zero.\<close>

definition clamp :: "u64 \<Rightarrow> u64 \<Rightarrow> u64 \<Rightarrow> u64 option" where
  "clamp lo hi x = (if hi < lo then None else Some (if x < lo then lo else if hi < x then hi else x))"

definition fee_history :: "u64 \<Rightarrow> BlockNumber \<Rightarrow> nat \<Rightarrow> (InMemoryNode, RpcError, FeeHistory) op" where
  "fee_history block_count newest_block percentiles =
     eth_read (\<lambda>n.
       case clamp 1 (current_miniblock n + 1) (min block_count 1024) of
         None \<Rightarrow> Panic
       | Some c \<Rightarrow>
           (let fees = replicate (unat c) (ucast L2_GAS_PRICE) in
            Ok \<lparr>fh_oldest_block = current_miniblock n + 1 - of_nat (length fees),
                fh_base_fee_per_gas = fees @ [last fees],
                fh_gas_used_ratio = replicate (length fees) 0,
                fh_reward = Some (replicate (length fees) (replicate percentiles 0))\<rparr>))"

section \<open>Properties\<close>

lemma eth_read_run:
  "\<not> lock_poisoned (node_inner node) \<Longrightarrow> eth_read f node = (f (lock_value (node_inner node)), node)"
  by (simp add: eth_read_def)

lemma eth_write_run:
  assumes "\<not> lock_poisoned (node_inner node)" and "f (lock_value (node_inner node)) = (r, n)"
  shows "fst (eth_write f node) = r"
  using assms by (simp add: eth_write_def with_inner_def with_write_def)

subsection \<open>Submitted transactions\<close>

text \<open>What an accepted transaction leaves, read off the commit.\<close>

lemma storage_op_keeps:
  "storage_op act n = (Ok a, n') \<Longrightarrow> tx_results n' = tx_results n"
  by (auto simp: storage_op_def split: prod.splits)

lemma op_list_keeps:
  assumes "\<And>x n n' u. f x n = (Ok u, n') \<Longrightarrow> g n' = g n"
  shows "op_list f xs n = (Ok u, n') \<Longrightarrow> g n' = g n"
proof (induction xs arbitrary: n)
  case (Cons x xs)
  from Cons.prems obtain a n1 where "f x n = (Ok a, n1)" and "op_list f xs n1 = (Ok u, n')"
    by (auto elim: op_bind_OkE)
  then show ?case
    using assms Cons.IH by fastforce
qed simp

lemma produce_block_keeps:
  "produce_block b n = (Ok u, n') \<Longrightarrow> tx_results n' = tx_results n"
  by (auto simp: produce_block_def archive_state_def place_block_def Let_def
      split: option.splits if_splits)

lemma store_dep_op_keeps: "store_dep_op d n = (Ok u, n') \<Longrightarrow> tx_results n' = tx_results n"
  by (cases d) (auto simp: store_dep_op_def dest: storage_op_keeps)

lemma notify_log_op_keeps: "notify_log_op b l n = (Ok u, n') \<Longrightarrow> tx_results n' = tx_results n"
  by (auto simp: notify_log_op_def split: prod.splits)

lemma commit_body_stores:
  assumes "commit_body L tx raw n = (Ok u, n')"
  shows "\<exists>rec. tx_record L tx raw = Some rec \<and>
           map_of (tx_results n') = (map_of (tx_results n))(l2_tx_hash L tx \<mapsto> rec)"
proof -
  have "\<exists>a1 n1 a2 n2 a3 n3.
      storage_op (write_all (raw_keys raw)) n = (Ok a1 :: (string, _) rust, n1) \<and>
      op_list store_dep_op (raw_bytecodes raw) n1 = (Ok a2, n2) \<and>
      op_list (notify_log_op (raw_block raw))
        (tx_logs (raw_block raw) (l2_tx_hash L tx) (raw_result raw)) n2 = (Ok a3, n3) \<and>
      (case tx_record L tx raw of
        None \<Rightarrow> op_fail Panic
      | Some rec \<Rightarrow>
          op_bind (op_modify (\<lambda>n. n\<lparr>tx_results := AList.update (l2_tx_hash L tx) rec (tx_results n),
                                    current_batch := sat_add (current_batch n) 1\<rparr>)) (\<lambda>_.
          op_list produce_block [raw_block raw, end_block L raw])) n3 = (Ok u, n')"
    using assms unfolding commit_body_def end_block_def Let_def
    by (elim op_bind_OkE) (intro exI conjI, assumption+)
  then obtain a1 n1 a2 n2 a3 n3 where
    w: "storage_op (write_all (raw_keys raw)) n = (Ok a1 :: (string, _) rust, n1)"
    and d: "op_list store_dep_op (raw_bytecodes raw) n1 = (Ok a2, n2)"
    and l: "op_list (notify_log_op (raw_block raw))
        (tx_logs (raw_block raw) (l2_tx_hash L tx) (raw_result raw)) n2 = (Ok a3, n3)"
    and rest3: "(case tx_record L tx raw of
        None \<Rightarrow> op_fail Panic
      | Some rec \<Rightarrow>
          op_bind (op_modify (\<lambda>n. n\<lparr>tx_results := AList.update (l2_tx_hash L tx) rec (tx_results n),
                                    current_batch := sat_add (current_batch n) 1\<rparr>)) (\<lambda>_.
          op_list produce_block [raw_block raw, end_block L raw])) n3 = (Ok u, n')"
    by blast
  have same: "tx_results n3 = tx_results n"
    using storage_op_keeps [OF w]
      op_list_keeps [of store_dep_op tx_results, OF store_dep_op_keeps d]
      op_list_keeps [of "notify_log_op (raw_block raw)" tx_results, OF notify_log_op_keeps l] by simp
  obtain rec where rec: "tx_record L tx raw = Some rec"
    using rest3 by (cases "tx_record L tx raw") auto
  then have "op_list produce_block [raw_block raw, end_block L raw]
      (n3\<lparr>tx_results := AList.update (l2_tx_hash L tx) rec (tx_results n3),
          current_batch := sat_add (current_batch n3) 1\<rparr>) = (Ok u, n')"
    using rest3 by simp
  from op_list_keeps [of produce_block tx_results, OF produce_block_keeps this]
  have "tx_results n' = AList.update (l2_tx_hash L tx) rec (tx_results n3)"
    by simp
  then show ?thesis
    using rec same by simp
qed

lemma run_l2_tx_Ok:
  assumes "run_l2_tx L V tx mode node = (Ok u, node')"
  shows "\<exists>raw n1 n'. commit_body L tx raw n1 = (Ok u, n') \<and>
           lock_value (node_inner node') = n' \<and> \<not> lock_poisoned (node_inner node') \<and> validate_tx tx = Ok ()"
proof -
  have "validate_tx tx = Ok ()"
    using assms by (auto simp: run_l2_tx_def split: rust.splits)
  then obtain raw node2 where "commit_l2_tx L tx raw node2 = (Ok u, node')"
    using assms by (auto simp: run_l2_tx_def elim!: op_bind_OkE split: ExecutionResult.splits)
  then have "commit_body L tx raw (lock_value (node_inner node2)) = (Ok u, lock_value (node_inner node'))"
    and "\<not> lock_poisoned (node_inner node')"
    by (auto simp: commit_l2_tx_def with_inner_def with_write_def split: if_splits prod.splits)
  then show ?thesis
    using \<open>validate_tx tx = Ok ()\<close> by blast
qed

lemma tx_record_receipt:
  assumes "tx_record L tx raw = Some rec"
  shows "rc_transaction_hash (tr_receipt rec) = l2_tx_hash L tx \<and>
         rc_block_hash (tr_receipt rec) = Some (block_hash (raw_block raw)) \<and>
         rc_block_number (tr_receipt rec) = Some (info_miniblock_number (tr_info rec)) \<and>
         rc_from (tr_receipt rec) = l2_initiator_address tx \<and> info_tx (tr_info rec) = tx \<and>
         rc_transaction_index (tr_receipt rec) = 0"
  using assms
  by (auto simp: tx_record_def tx_receipt_def Let_def split: option.splits rust.splits)

text \<open>C16: A raw transaction that the node accepts can be looked up: the answer is its hash, and a receipt
  for it names that hash, the initiator and the block that the node stored it for.\<close>

theorem sent_transaction_has_receipt:
  assumes "send_raw_transaction L R V tx_bytes node = (Ok h, node')"
  shows "\<exists>rc tx. fst (get_transaction_receipt h node') = Ok (Some rc) \<and>
    rc_transaction_hash rc = h \<and> h = l2_tx_hash L tx \<and> rc_from rc = l2_initiator_address tx \<and>
    l2_input tx = Some (h, tx_bytes) \<and> rc_block_hash rc \<noteq> None \<and> rc_transaction_index rc = 0"
proof -
  obtain cid where "fst (eth_read (\<lambda>n. Ok (chain_id (node_storage n))) node) = Ok cid"
    and rest: "(case request_from_bytes R tx_bytes cid of
       Inl e \<Rightarrow> op_fail (Err (SerializationError e))
     | Inr (tx_req, hash) \<Rightarrow>
         (case l2_tx_from_request R tx_req MAX_TX_SIZE of
            Inl e \<Rightarrow> op_fail (Err (SerializationError e))
          | Inr tx \<Rightarrow>
              let l2_tx = tx\<lparr>l2_input := Some (hash, tx_bytes)\<rparr> in
              if hash \<noteq> l2_tx_hash L l2_tx then op_fail (Err (InvalidTransactionData ''InvalidData''))
              else submit L V l2_tx)) node = (Ok h, node')"
    using assms unfolding send_raw_transaction_def
    by (auto elim!: op_bind_OkE simp: eth_read_def read_inner_def)
  then obtain tx_req hash tx where h: "hash = l2_tx_hash L (tx\<lparr>l2_input := Some (hash, tx_bytes)\<rparr>)"
    and sub: "submit L V (tx\<lparr>l2_input := Some (hash, tx_bytes)\<rparr>) node = (Ok h, node')"
    by (auto simp: Let_def split: sum.splits prod.splits if_splits)
  let ?tx = "tx\<lparr>l2_input := Some (hash, tx_bytes)\<rparr>"
  obtain u where run: "run_l2_tx L V ?tx VerifyExecute node = (Ok u, node')" and "h = hash"
    using sub h by (auto simp: submit_def split: prod.splits rust.splits)
  obtain raw n1 n' where c: "commit_body L ?tx raw n1 = (Ok u, n')"
    and n': "lock_value (node_inner node') = n'" "\<not> lock_poisoned (node_inner node')"
    using run_l2_tx_Ok [OF run] by blast
  obtain rec where rec: "tx_record L ?tx raw = Some rec" "map_of (tx_results n') hash = Some rec"
    using commit_body_stores [OF c] h by auto
  have "fst (get_transaction_receipt h node') = Ok (Some (tr_receipt rec))"
    using n' rec(2) \<open>h = hash\<close> by (simp add: get_transaction_receipt_def eth_read_run)
  then show ?thesis
    using tx_record_receipt [OF rec(1)] h \<open>h = hash\<close>
    by (intro exI [of _ "tr_receipt rec"] exI [of _ ?tx]) simp
qed

definition example_requests :: "(unit, unit) request_lib" where
  "example_requests =
     \<lparr>request_from_call = (\<lambda>c. \<lparr>req_gas_price = 0, req_max_priority_fee_per_gas = None,
        req_transaction_type = None, req_r = None, req_s = None, req_v = None\<rparr>),
      request_from_bytes = (\<lambda>bs cid. Inr (\<lparr>req_gas_price = 0, req_max_priority_fee_per_gas = None,
        req_transaction_type = None, req_r = None, req_s = None, req_v = None\<rparr>, 101)),
      request_tx_hash = (\<lambda>_ _. Inr 101), request_signed_bytes = (\<lambda>_ _. []),
      l2_tx_from_request = (\<lambda>_ _. Inr (example_tx 1)), extract_chain_id = (\<lambda>_. Some 260)\<rparr>"

theorem sent_transaction_has_receipt_witness:
  "\<exists>node' rc. send_raw_transaction example_lib example_requests (example_vm 0 (Success [])) [1, 2]
       example_node = (Ok 101, node') \<and>
     fst (get_transaction_receipt 101 node') = Ok (Some rc) \<and> rc_transaction_hash rc = 101"
proof -
  let ?V = "example_vm 0 (Success [])"
  let ?tx = "(example_tx 1)\<lparr>l2_input := Some (101, [1, 2])\<rparr>"
  have "show_gas_details (lock_value (node_inner example_node)) = ShowGasNone"
    by (simp add: example_node_def InMemoryNode_new_def example_config_def Let_def)
  then obtain raw v rec where r: "ran example_lib ?V ?tx VerifyExecute example_node raw v"
      "not_halted raw" "tx_record example_lib ?tx raw = Some rec"
      "in_step (lock_value (node_inner example_node)) (raw_block_ctx raw)"
    using example_ran_at [of example_node ?tx None 0 "Success []"]
    by (auto simp: example_node_storage example_tx_def stored_in_step_def)
  have hash: "l2_tx_hash example_lib ?tx = 101"
    by (simp add: example_lib_at_def example_tx_def)
  obtain node' where "run_l2_tx example_lib ?V ?tx VerifyExecute example_node = (Ok (), node')"
    using run_l2_tx_commit [OF lawful_example r(1-3)] r(4) by simp
  then have sent: "send_raw_transaction example_lib example_requests ?V [1, 2] example_node = (Ok 101, node')"
    by (simp add: send_raw_transaction_def eth_read_run example_requests_def submit_def hash)
  show ?thesis
    using sent_transaction_has_receipt [OF sent] sent by blast
qed

text \<open>\<^verbatim>\<open>eth_sendTransaction\<close> runs nothing for an account that is not impersonated: the request is
  refused and the node is left as it was.\<close>

theorem send_transaction_needs_impersonation:
  assumes "\<not> lock_poisoned (node_inner node)" and "n = lock_value (node_inner node)"
    and "impersonation_request tx (request_from_call R tx) = Some req"
    and "l2_tx_from_request R req MAX_TX_SIZE = Inr l2"
    and "l2_initiator_address l2 \<notin> impersonated_accounts n"
  shows "\<exists>e. send_transaction L R V tx node = (Err e, node)"
  using assms
  by (auto simp: send_transaction_def eth_read_run op_bind_def Let_def split: sum.splits)

definition example_call :: CallRequest where
  "example_call = \<lparr>call_gas_price = None, call_max_fee_per_gas = Some 250000000,
     call_max_priority_fee_per_gas = None, call_eip712_meta = None\<rparr>"

theorem send_transaction_needs_impersonation_witness:
  "\<exists>e. send_transaction example_lib example_requests (example_vm 0 (Success [])) example_call example_node =
     (Err e, example_node)"
proof -
  have np: "\<not> lock_poisoned (node_inner example_node)"
    by simp
  have req: "\<exists>req. impersonation_request example_call (request_from_call example_requests example_call) = Some req"
    by (simp add: impersonation_request_def example_call_def)
  have tx: "l2_tx_from_request example_requests req MAX_TX_SIZE = Inr (example_tx 1)" for req
    by (simp add: example_requests_def)
  have no: "l2_initiator_address (example_tx 1) \<notin> impersonated_accounts (lock_value (node_inner example_node))"
    by (simp add: example_node_def InMemoryNode_new_def Let_def)
  from req obtain req' where "impersonation_request example_call (request_from_call example_requests example_call) = Some req'"
    by blast
  from send_transaction_needs_impersonation [OF np refl this tx no] show ?thesis .
qed

subsection \<open>Blocks\<close>

lemma present_all_full:
  "\<forall>tx \<in> set txs. \<exists>t. tx = FullTx t \<Longrightarrow> present_txs True txs = Some txs"
  by (induction txs) auto

text \<open>C31: On a well-formed chain the two block queries agree: a number that the chain holds and the hash
  of its block lead to the same answer, a block that carries that number, and with full transactions
  it is the stored block itself.\<close>

theorem block_queries_agree:
  assumes "\<not> lock_poisoned (node_inner node)" and "n = lock_value (node_inner node)"
    and "chain_wf n" and "ledger n (real_number bn n) = Some b"
  shows "fst (eth_get_block_by_number bn full node) = fst (eth_get_block_by_hash (block_hash b) full node) \<and>
    fst (eth_get_block_by_number bn full node) = present_block full (Some b) \<and>
    block_number b = real_number bn n \<and>
    ((\<forall>tx \<in> set (block_transactions b). \<exists>t. tx = FullTx t) \<longrightarrow>
       fst (eth_get_block_by_number bn True node) = Ok (Some b))"
proof -
  have "blocks n (block_hash b) = Some b \<and> block_number b = real_number bn n"
    using assms(3,4) by (fastforce simp: ledger_def chain_wf_def chain_linked_def bind_eq_Some_conv)
  then show ?thesis
    using assms present_all_full [of "block_transactions b"]
    by (simp add: eth_get_block_by_number_def eth_get_block_by_hash_def eth_read_run local_block_def
        ledger_def or_fork_def present_block_def)
qed

subsection \<open>Logs\<close>

lemma matching_logs_numbered:
  "\<forall>l \<in> set ls. log_block_number l \<noteq> None \<Longrightarrow>
   matching_logs f k ls = Some (filter (\<lambda>l. matches f l k = Some True) ls)"
proof (induction ls)
  case (Cons l ls)
  then obtain b where "matches f l k = Some b"
    using matches_None [of f l k] by fastforce
  then show ?case
    using Cons by simp
qed simp

text \<open>A log query answers exactly the logs of the stored receipts that the filter accepts, each as
  often as it occurs; without a block range all blocks up to the head are searched. (The order is
  that of the node's hash map of results, so the answer is described as a multiset.)\<close>

theorem get_logs_exact:
  assumes "\<not> lock_poisoned (node_inner node)" and "n = lock_value (node_inner node)"
    and "\<forall>l \<in> set (all_logs n). log_block_number l \<noteq> None"
  shows "\<exists>ls. fst (get_logs f node) = Ok ls \<and>
    mset ls = filter_mset (\<lambda>l. matches (LogFilter_new
          (case fl_from_block f of Some b \<Rightarrow> b | None \<Rightarrow> Earliest)
          (case fl_to_block f of Some b \<Rightarrow> b | None \<Rightarrow> Latest)
          (case fl_address f of Some a \<Rightarrow> a | None \<Rightarrow> []) (filter_topics (fl_topics f)))
        l (current_miniblock n) = Some True) (mset (all_logs n))"
  using assms
  by (simp add: get_logs_def filter_of_def eth_read_run logs_matching_def matching_logs_numbered)

subsection \<open>Fees\<close>

text \<open>The fee history covers between one and 1024 blocks, no more than were asked for (but at least
  one) and no more than exist; it ends at the head, holds one fee more than blocks, and every fee is
  the fixed gas price.\<close>

theorem fee_history_bounds:
  assumes "\<not> lock_poisoned (node_inner node)" and "n = lock_value (node_inner node)"
    and "unat (current_miniblock n) + 1 < 2 ^ 64"
  shows "\<exists>h c. fst (fee_history block_count newest percentiles node) = Ok h \<and>
    c = max 1 (min (min (unat block_count) 1024) (unat (current_miniblock n) + 1)) \<and>
    unat (fh_oldest_block h) + c = unat (current_miniblock n) + 1 \<and>
    length (fh_base_fee_per_gas h) = c + 1 \<and> set (fh_base_fee_per_gas h) = {250000000} \<and>
    length (fh_gas_used_ratio h) = c \<and>
    (\<exists>rs. fh_reward h = Some rs \<and> length rs = c \<and> (\<forall>r \<in> set rs. length r = percentiles))"
proof -
  let ?m = "current_miniblock n + 1"
  have m: "unat ?m = unat (current_miniblock n) + 1"
    using assms(3) by (simp add: unat_word_ariths)
  have min_u: "unat (min block_count 1024) = min (unat block_count) 1024"
    by (simp add: min_def word_le_nat_alt)
  define c where "c = (if min block_count 1024 < 1 then 1 else if ?m < min block_count 1024 then ?m else min block_count 1024)"
  have clamp: "clamp 1 ?m (min block_count 1024) = Some c"
    using m by (simp add: clamp_def c_def word_less_nat_alt)
  have c: "unat c = max 1 (min (min (unat block_count) 1024) (unat (current_miniblock n) + 1))"
    by (auto simp: c_def word_less_nat_alt m min_u)
  have le: "unat c \<le> unat ?m"
    using c m by simp
  have "unat (?m - of_nat (unat c)) = unat ?m - unat c"
    using le by (simp add: unat_sub word_le_nat_alt)
  then have oldest: "unat (?m - of_nat (length (replicate (unat c) (ucast L2_GAS_PRICE :: u256)))) + unat c = unat ?m"
    using le by simp
  have pos: "0 < unat c"
    unfolding c by (simp only: less_max_iff_disj) simp
  let ?fees = "replicate (unat c) (ucast L2_GAS_PRICE :: u256)"
  have price: "ucast L2_GAS_PRICE = (250000000 :: u256)"
    by (simp add: L2_GAS_PRICE_def)
  have set: "set (?fees @ [last ?fees]) = {250000000}"
    using pos by (simp add: price last_replicate)
  let ?h = "\<lparr>fh_oldest_block = ?m - of_nat (length ?fees), fh_base_fee_per_gas = ?fees @ [last ?fees],
      fh_gas_used_ratio = replicate (length ?fees) 0,
      fh_reward = Some (replicate (length ?fees) (replicate percentiles 0))\<rparr>"
  have run: "fst (fee_history block_count newest percentiles node) = Ok ?h"
    using assms(1,2) clamp by (simp add: fee_history_def eth_read_run Let_def)
  have old: "unat (fh_oldest_block ?h) + unat c = unat (current_miniblock n) + 1"
    using oldest m by simp
  show ?thesis
  proof (rule exI [of _ ?h], rule exI [of _ "unat c"], intro conjI)
    show "fst (fee_history block_count newest percentiles node) = Ok ?h"
      by (rule run)
    show "unat c = max 1 (min (min (unat block_count) 1024) (unat (current_miniblock n) + 1))"
      by (rule c)
    show "unat (fh_oldest_block ?h) + unat c = unat (current_miniblock n) + 1"
      by (rule old)
    show "set (fh_base_fee_per_gas ?h) = {250000000}"
      using set by (simp only: FeeHistory.select_convs)
    show "length (fh_base_fee_per_gas ?h) = unat c + 1" and "length (fh_gas_used_ratio ?h) = unat c"
      by (simp_all only: FeeHistory.select_convs length_append length_replicate list.size)
    show "\<exists>rs. fh_reward ?h = Some rs \<and> length rs = unat c \<and> (\<forall>r \<in> set rs. length r = percentiles)"
      by (rule exI [of _ "replicate (unat c) (replicate percentiles 0)"]) simp
  qed
qed

lemma example_chain_wf: "chain_wf (lock_value (node_inner example_node))"
  using example_hashes(1)
  by (auto simp: example_node_def InMemoryNode_new_def chain_wf_def chain_linked_def
      create_empty_block_def Let_def)

lemma example_genesis:
  "ledger (lock_value (node_inner example_node)) 0 =
     Some (create_empty_block example_lib 0 NON_FORK_FIRST_BLOCK_TIMESTAMP 0 None)"
  by (simp add: example_node_def InMemoryNode_new_def ledger_def Let_def)

theorem block_queries_agree_witness:
  "fst (eth_get_block_by_number Earliest True example_node) =
     Ok (Some (create_empty_block example_lib 0 NON_FORK_FIRST_BLOCK_TIMESTAMP 0 None))"
proof -
  have np: "\<not> lock_poisoned (node_inner example_node)"
    by simp
  have l: "ledger (lock_value (node_inner example_node))
      (real_number Earliest (lock_value (node_inner example_node))) =
      Some (create_empty_block example_lib 0 NON_FORK_FIRST_BLOCK_TIMESTAMP 0 None)"
    by (simp add: real_number_def example_genesis)
  have none: "\<forall>tx \<in> set (block_transactions (create_empty_block example_lib 0
      NON_FORK_FIRST_BLOCK_TIMESTAMP 0 None)). \<exists>t. tx = FullTx t"
    by (simp add: create_empty_block_def Let_def)
  from block_queries_agree [OF np refl example_chain_wf l, of True] none show ?thesis
    by blast
qed

definition example_log :: "address \<Rightarrow> Log" where
  "example_log a =
     \<lparr>log_address = a, log_topics = [5], log_data = [], log_block_hash = None, log_block_number = Some 0,
      log_l1_batch_number = None, log_transaction_hash = None, log_transaction_index = None,
      log_log_index = None, log_transaction_log_index = None, log_removed = None\<rparr>"

theorem get_logs_exact_witness:
  "\<exists>node ls. all_logs (lock_value (node_inner node)) = [example_log 7, example_log 8] \<and>
     fst (get_logs \<lparr>fl_from_block = None, fl_to_block = None, fl_address = Some [7], fl_topics = None\<rparr> node)
     = Ok ls \<and> mset ls = {#example_log 7#}"
proof -
  let ?f = "\<lparr>fl_from_block = None, fl_to_block = None, fl_address = Some [7], fl_topics = None\<rparr>"
  obtain raw rec where "tx_record example_lib (example_tx 1) raw = Some rec"
    using example_ran [of 0 "Success []" 1] by blast
  define res where "res = rec\<lparr>tr_receipt := (tr_receipt rec)\<lparr>rc_logs := [example_log 7, example_log 8]\<rparr>\<rparr>"
  let ?node = "example_node\<lparr>node_inner := (node_inner example_node)\<lparr>lock_value :=
    (lock_value (node_inner example_node))\<lparr>tx_results := [(101, res)]\<rparr>\<rparr>\<rparr>"
  have np: "\<not> lock_poisoned (node_inner ?node)"
    by simp
  have logs: "all_logs (lock_value (node_inner ?node)) = [example_log 7, example_log 8]"
    by (simp add: all_logs_def res_def)
  then have num: "\<forall>l \<in> set (all_logs (lock_value (node_inner ?node))). log_block_number l \<noteq> None"
    by (simp add: example_log_def)
  have m: "matches (LogFilter_new Earliest Latest [7] (filter_topics None)) (example_log a) k = Some (a = 7)" for a k
    by (simp add: matches_def LogFilter_new_def example_log_def filter_topics_def numeral_eq_Suc enumerate_eq_zip)
  show ?thesis
    using get_logs_exact [OF np refl num, of ?f] unfolding logs
    by (intro exI [of _ ?node]) (auto simp: m all_logs_def res_def)
qed

theorem fee_history_bounds_witness:
  "\<exists>h. fst (fee_history 5 Latest 2 example_node) = Ok h \<and> length (fh_base_fee_per_gas h) = 2"
proof -
  have np: "\<not> lock_poisoned (node_inner example_node)"
    and lt: "unat (current_miniblock (lock_value (node_inner example_node))) + 1 < 2 ^ 64"
    by simp_all
  show ?thesis
    using fee_history_bounds [OF np refl lt, of 5 Latest 2] by auto
qed

subsection \<open>Historic storage\<close>

lemma update_fresh: "k \<notin> fst ` set al \<Longrightarrow> AList.update k v al = al @ [(k, v)]"
  by (induction al) auto

lemma map_of_tl:
  assumes "\<And>x. xs \<noteq> [] \<Longrightarrow> fst (hd xs) \<noteq> k"
  shows "map_of (tl xs) k = map_of xs k"
  using assms by (cases xs) auto

definition kept_states :: "InMemoryNodeInner \<Rightarrow> archive" where
  "kept_states n = (if length (previous_states n) > 128 then tl (previous_states n) else previous_states n)"

lemma archived_fresh:
  assumes "current_miniblock_hash n \<notin> fst ` set (previous_states n)"
  shows "archived n = kept_states n @
    [(current_miniblock_hash n, state (raw_storage (lock_value (fs_inner (node_storage n)))))]"
proof -
  have "set (kept_states n) \<subseteq> set (previous_states n)"
    unfolding kept_states_def by (cases "previous_states n") auto
  then have "current_miniblock_hash n \<notin> fst ` set (kept_states n)"
    using assms by blast
  from update_fresh [OF this] show ?thesis
    unfolding archived_def kept_states_def .
qed

lemma after_commit_archive:
  assumes "current_miniblock_hash n \<notin> fst ` set (previous_states n)"
    and "block_hash (raw_block raw) \<noteq> current_miniblock_hash n"
  shows "map_of (previous_states (after_commit L tx raw rec n)) (current_miniblock_hash n) =
    Some (state (raw_storage (lock_value (fs_inner (node_storage (stored_tx L tx raw rec n))))))"
proof -
  let ?c = "stored_tx L tx raw rec n" and ?h = "current_miniblock_hash n"
  let ?S = "state (raw_storage (lock_value (fs_inner (node_storage ?c))))"
  let ?n1 = "place_block (raw_block raw) (advance ?c)"
  have c: "current_miniblock_hash ?c = ?h" "previous_states ?c = previous_states n"
    by (simp_all add: stored_tx_def Let_def)
  define kept where "kept = kept_states ?c"
  have sub: "set kept \<subseteq> set (previous_states n)"
    unfolding kept_def kept_states_def c(2) by (cases "previous_states n") auto
  have p1: "previous_states ?n1 = kept @ [(?h, ?S)]"
    using archived_fresh [of ?c] assms(1) by (simp add: place_block_def advance_def c kept_def)
  have fresh: "?h \<notin> fst ` set kept"
    using assms(1) sub by blast
  have hit: "map_of (kept @ [(?h, ?S)]) ?h = Some ?S"
    using fresh by (simp add: map_add_def map_of_eq_None_iff [THEN iffD2])
  have "map_of (kept_states ?n1) ?h = Some ?S"
  proof (cases "length (previous_states ?n1) > 128")
    case True
    then have "kept \<noteq> []"
      unfolding p1 by auto
    then have "fst (hd (kept @ [(?h, ?S)])) \<noteq> ?h"
      using fresh by (cases kept) auto
    then show ?thesis
      using True hit map_of_tl [of "kept @ [(?h, ?S)]" ?h] unfolding kept_states_def p1 by simp
  next
    case False
    then show ?thesis
      using hit unfolding kept_states_def p1 by simp
  qed
  moreover have "current_miniblock_hash ?n1 = block_hash (raw_block raw)"
    by (simp add: place_block_def)
  ultimately have "map_of (archived ?n1) ?h = Some ?S"
    using assms(2) unfolding archived_def kept_states_def by (simp add: update_conv)
  then show ?thesis
    by (simp add: after_commit_def place_block_def [of "end_block L raw"] advance_def [of ?n1])
qed

lemma state_stored_deps: "state (stored_deps deps m) = state m"
  unfolding stored_deps_def
  by (induction deps arbitrary: m) (auto simp: mem_store_factory_dep_def)

lemma stored_tx_state:
  assumes "distinct (map fst (raw_keys raw))"
  shows "state (raw_storage (lock_value (fs_inner (node_storage (stored_tx L tx raw rec n))))) =
    state (raw_storage (lock_value (fs_inner (node_storage n)))) ++ map_of (raw_keys raw)"
  using map_of_rev_distinct [OF assms]
  by (simp add: stored_tx_def Let_def state_stored_deps state_fold_set)

text \<open>C21: The state that a commit archives for the previous head already holds the writes of the new
  transaction: asked for a slot at the block before the transaction, the node answers the value that
  the transaction wrote.\<close>

theorem archived_head_sees_new_writes:
  assumes "lawful_vm L V" and "ran L V tx mode node raw v" and "not_halted raw"
    and "tx_record L tx raw = Some rec" and "n = lock_value (node_inner node)"
    and "in_step n (raw_block_ctx raw)" and "chain_wf n" and "blocks n (block_hash (raw_block raw)) = None"
    and "current_miniblock_hash n \<notin> fst ` set (previous_states n)"
    and "unat (current_miniblock n) + 2 < 2 ^ 64"
    and "map_of (raw_keys raw) (a, idx) = Some x" and "x \<noteq> 0"
  shows "fst (get_storage a idx (Some (BlockNumberId (Number (current_miniblock n))))
    (snd (run_l2_tx L V tx mode node))) = Ok x"
proof -
  let ?n = "lock_value (node_inner node)" and ?h = "current_miniblock_hash n"
  let ?m = "(announced L tx ?n)\<lparr>node_storage := storage_handle v\<rparr>"
  let ?n' = "after_commit L tx raw rec ?m"
  have run: "snd (run_l2_tx L V tx mode node) = node\<lparr>node_inner := \<lparr>lock_value = ?n', lock_poisoned = False\<rparr>\<rparr>"
    using assms(5,6) by (simp add: run_l2_tx_commit [OF assms(1-4)])
  have m: "current_miniblock ?m = current_miniblock n" "current_miniblock_hash ?m = ?h"
    "previous_states ?m = previous_states n" "node_block_hashes ?m = node_block_hashes n"
    using assms(5) by (simp_all add: announced_def)
  have old: "node_block_hashes n (current_miniblock n) = Some ?h" and "blocks n ?h \<noteq> None"
    using assms(7) by (fastforce simp: chain_wf_def chain_linked_def)+
  then have ne: "block_hash (raw_block raw) \<noteq> ?h"
    using assms(8) by auto
  let ?c = "current_miniblock n"
  have c1: "sat_add ?c 1 = ?c + 1"
    by (rule sat_add_one) (use assms(10) in simp)
  have "sat_add (?c + 1) 1 = ?c + 1 + 1"
    by (rule sat_add_one) (use assms(10) in \<open>simp add: unat_word_ariths\<close>)
  then have c2: "sat_add (?c + 1) 1 = ?c + 2"
    by (simp only: add.assoc one_add_one)
  have d: "?c + 1 \<noteq> ?c" "?c + 2 \<noteq> ?c"
    by simp_all
  have nums: "block_number (raw_block raw) = ?c + 1" "block_number (end_block L raw) = ?c + 2"
    using ran_wf [OF assms(2)] assms(6) c1 c2
    by (simp_all add: raw_wf_def in_step_def end_block_def create_empty_block_def new_block_def Let_def)
  have head: "current_miniblock ?n' = ?c + 2"
    using m(1) c1 c2 by (simp add: after_commit_def place_block_def advance_def stored_tx_def Let_def)
  have kept: "node_block_hashes ?n' ?c = Some ?h"
    using m(4) old nums d
    by (simp add: after_commit_def place_block_def advance_def stored_tx_def Let_def)
  have "map_of (previous_states ?n') ?h = Some (state (raw_storage (lock_value (fs_inner (storage_handle v)))) ++
      map_of (raw_keys raw))"
    using after_commit_archive [of ?m raw L tx rec] assms(9) ne m
      stored_tx_state [OF ran_frame(3) [OF assms(1,2)], of L tx rec ?m] by simp
  then have "archived_value ?c (a, idx) ?n' = x"
    using kept assms(11) by (simp add: archived_value_def)
  then show ?thesis
    using head kept d assms(12)
    by (simp add: run get_storage_def eth_write_def with_inner_def with_write_def storage_block_def
        real_number_def Let_def)
qed

theorem archived_head_sees_new_writes_witness:
  "fst (get_storage 0xB 2 (Some (BlockNumberId (Number 0)))
    (snd (run_l2_tx example_lib (example_vm 0 (Success [])) (example_tx 1) VerifyExecute example_node))) = Ok 3 \<and>
   fst (get_storage 0xB 2 (Some (BlockNumberId (Number 0))) example_node) = Ok 0"
proof -
  let ?n = "lock_value (node_inner example_node)"
  obtain raw v rec where r: "ran example_lib (example_vm 0 (Success [])) (example_tx 1)
      VerifyExecute example_node raw v" "not_halted raw"
      "tx_record example_lib (example_tx 1) raw = Some rec" and step: "in_step ?n (raw_block_ctx raw)"
    and k: "raw_keys raw = [((0xB, 2), 3)]"
    using example_ran [of 0 "Success []" 1] by blast
  have ctx: "ctx_miniblock (raw_block_ctx raw) = 1"
    using step by (simp add: in_step_def sat_add_def)
  have h1: "block_hash (raw_block raw) = 101001"
    using ran_hash [OF r(1)] ctx example_hashes(2) by (simp add: example_tx_hash)
  have num: "current_miniblock ?n = 0" and new: "blocks ?n (block_hash (raw_block raw)) = None"
    and fresh: "current_miniblock_hash ?n \<notin> fst ` set (previous_states ?n)"
    using h1 example_hashes(1)
    by (auto simp: example_node_def InMemoryNode_new_def create_empty_block_def Let_def)
  have lt: "unat (current_miniblock ?n) + 2 < 2 ^ 64"
    using num by simp
  have key: "map_of (raw_keys raw) (0xB, 2) = Some 3"
    by (simp add: k)
  have before: "fst (get_storage 0xB 2 (Some (BlockNumberId (Number 0))) example_node) = Ok 0"
  proof -
    have v: "fork_val (node_storage ?n) (0xB, 2) = Some 0" and h: "fork_healthy (node_storage ?n)"
      by (simp_all add: example_node_storage example_storage_def fork_val_def ForkStorage_new_def
          empty_genesis_def local_value_def remote_value_def fork_healthy_def caches_agree_def Let_def)
    show ?thesis
      using locked_read_healthy [OF h v] num
      by (auto simp: get_storage_def eth_write_def with_inner_def with_write_def storage_block_def
          real_number_def storage_op_def Let_def)
  qed
  show ?thesis
    using archived_head_sees_new_writes [OF lawful_example r refl step example_chain_wf new fresh lt key] num
      before by simp
qed

text \<open>C33: A slot that was zero at an older local block answers the value of the present state, whatever
  was written since: the archive's zero is taken for a missing entry.\<close>

theorem historic_zero_reads_current:
  assumes "\<not> lock_poisoned (node_inner node)" and "n = lock_value (node_inner node)"
    and "fork_healthy (node_storage n)" and "storage_block blk n = Ok m" and "m \<noteq> current_miniblock n"
    and "node_block_hashes n m = Some h" and "map_of (previous_states n) h = Some st"
    and "st (a, idx) = Some 0 \<or> st (a, idx) = None"
    and "fork_val (node_storage n) (a, idx) = Some x"
  shows "fst (get_storage a idx blk node) = Ok x \<and> get_storage a idx blk node = get_storage a idx None node"
proof -
  have zero: "archived_value m (a, idx) n = 0"
    using assms(6-8) by (auto simp: archived_value_def)
  obtain s where rd: "read_value fork_storage (a, idx) (node_storage n) = (Some x, s)"
    using locked_read_healthy [OF assms(3,9)] by blast
  have none: "storage_block None n = Ok (current_miniblock n)"
    by (simp add: storage_block_def)
  show ?thesis
    using assms(1,2,4-6) rd zero none
    by (simp add: get_storage_def eth_write_def with_inner_def with_write_def storage_op_def Let_def)
qed

text \<open>A node at block 1 whose archive of block 0 is empty, with 9 written to slot \<^verbatim>\<open>(5, 6)\<close> since.\<close>

definition example_archived :: InMemoryNode where
  "example_archived =
     example_node\<lparr>node_inner := (node_inner example_node)\<lparr>lock_value :=
       (lock_value (node_inner example_node))\<lparr>current_miniblock := 1,
         previous_states := [(0, Map.empty)],
         node_storage := update_raw (mem_set_value (5, 6) 9) example_storage\<rparr>\<rparr>\<rparr>"

theorem historic_zero_reads_current_witness:
  "fst (get_storage 5 6 (Some (BlockNumberId Earliest)) example_archived) = Ok 9"
proof -
  let ?n = "lock_value (node_inner example_archived)"
  have h: "fork_healthy (node_storage ?n)" and v: "fork_val (node_storage ?n) (5, 6) = Some 9"
    by (simp_all add: example_archived_def example_storage_def fork_val_update_state mem_set_value_def
        fork_val_def ForkStorage_new_def empty_genesis_def local_value_def fork_healthy_def
        caches_agree_def Let_def)
  have np: "\<not> lock_poisoned (node_inner example_archived)"
    and blk: "storage_block (Some (BlockNumberId Earliest)) ?n = Ok 0"
    and old: "0 \<noteq> current_miniblock ?n" and prev: "map_of (previous_states ?n) 0 = Some Map.empty"
    by (simp_all add: example_archived_def storage_block_def real_number_def)
  have hash: "node_block_hashes ?n 0 = Some 0"
    using example_hashes(1)
    by (simp add: example_archived_def example_node_def InMemoryNode_new_def create_empty_block_def Let_def)
  show ?thesis
    by (rule historic_zero_reads_current [OF np refl h blk old hash prev _ v, THEN conjunct1]) simp
qed

subsection \<open>Setters and getters\<close>

lemma fork_val_written:
  "v \<noteq> 0 \<Longrightarrow> fork_val (update_raw (mem_set_value k v) s) k = Some v"
  by (simp add: fork_val_update_state mem_set_value_def)

lemma fork_dep_stored:
  "fork_dep (update_raw (mem_set_value k v) (update_raw (mem_store_factory_dep h c) s)) h = Some (Some c)"
  by (simp add: fork_dep_def mem_set_value_def mem_store_factory_dep_def Let_def)

text \<open>What \<^verbatim>\<open>hardhat_setBalance\<close> sets, \<^verbatim>\<open>eth_getBalance\<close> answers. The hypothesis is that both address the
  same slot: the balance key is that of the ETH token.\<close>

theorem set_balance_get_balance:
  assumes "\<not> lock_poisoned (node_inner node)" and "fork_healthy (node_storage (lock_value (node_inner node)))"
    and "storage_key_for_eth_balance L a = storage_key_for_standard_token_balance L (l2_eth_token_address L) a"
    and "balance \<noteq> 0"
  shows "\<exists>node'. set_balance L a balance node = (Ok True, node') \<and> fst (get_balance L a blk node') = Ok balance"
proof -
  let ?n = "lock_value (node_inner node)" and ?k = "storage_key_for_eth_balance L a"
  let ?s = "update_raw (mem_set_value ?k balance) (node_storage ?n)"
  have s: "fork_healthy ?s" "fork_val ?s ?k = Some balance"
    using assms(2,4) by (simp_all add: fork_val_written)
  obtain s' where rd: "read_value fork_storage ?k ?s = (Some balance, s')"
    using locked_read_healthy [OF s] by blast
  show ?thesis
    using assms(1,3) fork_set_value_run [OF assms(2), of ?k balance] rd
    by (simp add: set_balance_def get_balance_def eth_write_def with_inner_def with_write_def storage_op_def)
qed

theorem set_balance_get_balance_witness:
  "\<exists>node'. set_balance example_lib 7 1000 example_node = (Ok True, node') \<and>
     fst (get_balance example_lib 7 None node') = Ok 1000"
proof (rule set_balance_get_balance)
  show "fork_healthy (node_storage (lock_value (node_inner example_node)))"
    by (simp add: example_node_storage example_storage_def ForkStorage_new_def fork_healthy_def
        caches_agree_def Let_def)
qed (simp_all add: example_lib_at_def)

text \<open>The bytecode that \<^verbatim>\<open>hardhat_setCode\<close> stores is what \<^verbatim>\<open>eth_getCode\<close> answers. The hypotheses say that
  cutting a bytecode into words loses nothing and that its hash is not zero.\<close>

theorem set_code_get_code:
  assumes "\<not> lock_poisoned (node_inner node)" and "fork_healthy (node_storage (lock_value (node_inner node)))"
    and "concat (map to_be_bytes (bytes_to_be_words L code)) = code" and "hash_bytecode L code \<noteq> 0"
  shows "\<exists>node'. set_code L a code node = (Ok (), node') \<and> fst (get_code L a blk node') = Ok code"
proof -
  let ?n = "lock_value (node_inner node)" and ?k = "get_code_key L a" and ?h = "hash_bytecode L code"
  let ?s1 = "update_raw (mem_store_factory_dep ?h code) (node_storage ?n)"
  let ?s = "update_raw (mem_set_value ?k ?h) ?s1"
  have s: "fork_healthy ?s" "fork_val ?s ?k = Some ?h"
    using assms(2,4) by (simp_all add: fork_val_written)
  obtain s2 where rd: "read_value fork_storage ?k ?s = (Some ?h, s2)"
    and s2: "fork_healthy s2" "fork_dep s2 = fork_dep ?s"
    using locked_read_healthy [OF s] fork_storage.read_value_frame [OF s(1)] by metis
  obtain r s3 where dep: "load_factory_dep fork_storage ?h s2 = (r, s3)" by fastforce
  then have "r = Some (Some code)"
    using fork_storage.load_factory_dep_result [OF s2(1), of ?h] s2(2)
    by (simp add: fork_dep_stored)
  then show ?thesis
    using assms(1,3) fork_store_factory_dep_run [OF assms(2), of ?h code]
      fork_set_value_run [of ?s1 ?k ?h] assms(2) rd dep
    by (simp add: set_code_def get_code_def eth_write_def with_inner_def with_write_def storage_op_def
        store_dep_op_def bytecode_to_factory_dep_def Let_def)
qed

theorem set_code_get_code_witness:
  "let L = example_lib\<lparr>bytes_to_be_words := (\<lambda>_. [258]), hash_bytecode := (\<lambda>_. 9)\<rparr>
   in \<exists>node'. set_code L 7 (to_be_bytes (258 :: u256)) example_node = (Ok (), node') \<and>
        fst (get_code L 7 None node') = Ok (to_be_bytes (258 :: u256))"
  unfolding Let_def
proof (rule set_code_get_code)
  show "fork_healthy (node_storage (lock_value (node_inner example_node)))"
    by (simp add: example_node_storage example_storage_def ForkStorage_new_def fork_healthy_def
        caches_agree_def Let_def)
qed simp_all

subsection \<open>Stored transactions\<close>

text \<open>A transaction answered from the node's own results is linked to its own hash as if it were the
  hash of its block, at index 1, while its receipt names the block and index 0.\<close>

theorem transaction_block_hash_is_tx_hash:
  assumes "\<not> lock_poisoned (node_inner node)" and "n = lock_value (node_inner node)"
    and "map_of (tx_results n) hash = Some res" and "tx_record L tx raw = Some res"
    and "stored_transaction R hash res = Some t"
  shows "fst (eth_get_transaction_by_hash R hash node) = Ok (Some t) \<and> tx_block_hash t = Some hash \<and>
    tx_transaction_index t = Some 1 \<and>
    (\<exists>rc. fst (get_transaction_receipt hash node) = Ok (Some rc) \<and>
       rc_block_hash rc = Some (block_hash (raw_block raw)) \<and> rc_transaction_index rc = 0)"
  using assms tx_record_receipt [OF assms(4)]
  by (auto simp: eth_get_transaction_by_hash_def get_transaction_receipt_def eth_read_run or_fork_def
      stored_transaction_def Let_def split: option.splits)

theorem transaction_block_hash_is_tx_hash_witness:
  "\<exists>node t. fst (eth_get_transaction_by_hash example_requests 101 node) = Ok (Some t) \<and>
     tx_block_hash t = Some 101 \<and> tx_transaction_index t = Some 1"
proof -
  let ?V = "example_vm 0 (Success [])"
  let ?tx = "(example_tx 1)\<lparr>l2_input := Some (101, [1, 2])\<rparr>"
  have "show_gas_details (lock_value (node_inner example_node)) = ShowGasNone"
    by (simp add: example_node_def InMemoryNode_new_def example_config_def Let_def)
  then obtain raw rec where rec: "tx_record example_lib ?tx raw = Some rec"
    using example_ran_at [of example_node ?tx None 0 "Success []"]
    by (auto simp: example_node_storage example_tx_def stored_in_step_def)
  let ?node = "example_node\<lparr>node_inner := (node_inner example_node)\<lparr>lock_value :=
    (lock_value (node_inner example_node))\<lparr>tx_results := [(101, rec)]\<rparr>\<rparr>\<rparr>"
  have np: "\<not> lock_poisoned (node_inner ?node)"
    and res: "map_of (tx_results (lock_value (node_inner ?node))) 101 = Some rec"
    by simp_all
  obtain t where t: "stored_transaction example_requests 101 rec = Some t"
    using tx_record_receipt [OF rec] by (simp add: stored_transaction_def example_requests_def Let_def)
  show ?thesis
    using transaction_block_hash_is_tx_hash [OF np refl res rec t] by blast
qed

end
