(* ===== verification/Determinism.thy ===== *)
theory Determinism
  imports InMemoryNode
begin

text \<open>
  What a sandboxed run may depend on. A storage means a value, a bytecode and an initial-write flag
  for every key; the caches behind it are not part of that meaning. An action that only uses the
  answers of the storage gives the same result on two views that mean the same, and leaves views
  that mean the same. The runs of the virtual machine that a handler throws away (calls, traces, gas
  estimation) are such actions, so asking twice gives the same answer.
\<close>

section \<open>Views that mean the same\<close>

definition meaning :: "ForkStorage \<Rightarrow>
    (StorageKey \<Rightarrow> StorageValue option) \<times> (h256 \<Rightarrow> bytes option option) \<times>
    (StorageKey \<Rightarrow> bool option) \<times> u64" where
  "meaning s = (fork_val s, fork_dep s, fork_initial s, chain_id s)"

text \<open>The chain id lies outside the lock; no access changes it.\<close>

lemma locked_chain_id: "locked body s = (r, s') \<Longrightarrow> chain_id s' = chain_id s"
  by (auto simp: locked_def split: if_splits prod.splits)

lemma run_access_chain_id:
  assumes "run_access (storage_view fork_storage) a v = (r, v')"
  shows "chain_id (storage_handle v') = chain_id (storage_handle v)"
  using assms
  by (cases a)
    (auto simp: run_access_def act_bind_def storage_view_def view_read_value_def view_set_value_def
      view_load_factory_dep_def view_is_write_initial_def get_value_no_log_def fork_storage_def
      read_value_internal_def load_factory_dep_internal_def is_write_initial_internal_def
      split: prod.splits option.splits if_splits dest!: locked_chain_id)

lemma run_accesses_chain_id:
  "run_accesses (storage_view fork_storage) accs v = (r, v') \<Longrightarrow>
   chain_id (storage_handle v') = chain_id (storage_handle v)"
  by (induction accs arbitrary: v r)
    (auto simp: act_bind_def split: prod.splits option.splits dest: run_access_chain_id)

definition agree :: "view \<Rightarrow> view \<Rightarrow> bool" where
  "agree v w \<longleftrightarrow> fork_view_inv v \<and> fork_view_inv w \<and> view_val fork_val v = view_val fork_val w \<and>
     fork_dep (storage_handle v) = fork_dep (storage_handle w) \<and>
     fork_initial (storage_handle v) = fork_initial (storage_handle w)"

definition by_answers :: "(view, 'a) action \<Rightarrow> bool" where
  "by_answers act \<longleftrightarrow>
     (\<forall>v w. agree v w \<longrightarrow> fst (act v) = fst (act w) \<and>
        (fst (act v) \<noteq> None \<longrightarrow> agree (snd (act v)) (snd (act w))))"

lemma by_answersD:
  assumes "by_answers act" and "agree v w"
  shows "fst (act v) = fst (act w)"
    and "act v = (Some a, v') \<Longrightarrow> \<exists>w'. act w = (Some a, w') \<and> agree v' w'"
  using assms unfolding by_answers_def
  by (metis, metis eq_fst_iff option.distinct(1) snd_conv fst_conv)

lemma by_answers_return [intro]: "by_answers (act_return a)"
  by (simp add: by_answers_def)

lemma by_answers_panic [intro]: "by_answers act_panic"
  by (simp add: by_answers_def)

lemma by_answers_bind [intro]:
  assumes "by_answers m" and "\<And>a. by_answers (f a)"
  shows "by_answers (act_bind m f)"
  unfolding by_answers_def
proof (intro allI impI)
  fix v w
  assume vw: "agree v w"
  obtain r v1 where v1: "m v = (r, v1)" by fastforce
  show "fst (act_bind m f v) = fst (act_bind m f w) \<and>
      (fst (act_bind m f v) \<noteq> None \<longrightarrow> agree (snd (act_bind m f v)) (snd (act_bind m f w)))"
  proof (cases r)
    case None
    then obtain w1 where "m w = (None, w1)"
      using by_answersD(1) [OF assms(1) vw] v1 by (metis fst_conv surj_pair)
    then show ?thesis
      using None v1 by simp
  next
    case (Some a)
    then obtain w1 where "m w = (Some a, w1)" and "agree v1 w1"
      using by_answersD(2) [OF assms(1) vw] v1 by blast
    then show ?thesis
      using Some v1 assms(2) [of a] by (simp add: by_answers_def)
  qed
qed

text \<open>Any one access is such an action: its answer and its effect are those of the abstract storage.\<close>

lemma by_answers_access: "by_answers (run_access (storage_view fork_storage) acc)"
  unfolding by_answers_def
proof (intro allI impI)
  fix v w
  assume vw: "agree v w"
  let ?run = "run_access (storage_view fork_storage) acc"
  have inv: "fork_view_inv v" "fork_view_inv w"
    using vw by (simp_all add: agree_def)
  have same: "fst (?run v) = fst (?run w)"
    using fork_view.run_access_result [OF inv(1), of acc] fork_view.run_access_result [OF inv(2), of acc] vw
    by (simp add: agree_def)
  moreover have "agree (snd (?run v)) (snd (?run w))" if ne: "fst (?run v) \<noteq> None"
  proof -
    obtain r where r: "fst (?run v) = Some r"
      using ne by blast
    have "?run v = (Some r, snd (?run v))" and "?run w = (Some r, snd (?run w))"
      using r same by (metis prod.collapse)+
    then show ?thesis
      using fork_view.run_access_frame [OF inv(1)] fork_view.run_access_frame [OF inv(2)] vw
      by (simp add: agree_def)
  qed
  ultimately show "fst (?run v) = fst (?run w) \<and> (fst (?run v) \<noteq> None \<longrightarrow> agree (snd (?run v)) (snd (?run w)))"
    by blast
qed

lemma by_answers_via:
  assumes "run_access (storage_view fork_storage) acc = act_bind act (\<lambda>a. act_return (g a))" and "inj g"
  shows "by_answers act"
proof -
  have run: "run_access (storage_view fork_storage) acc v = (map_option g (fst (act v)), snd (act v))" for v
    unfolding assms(1) by (cases "act v"; cases "fst (act v)") auto
  show ?thesis
    using by_answers_access [of acc] inj_map_eq_map [OF assms(2)] option.inj_map [OF assms(2)]
    by (auto simp: by_answers_def run inj_eq)
qed

lemma by_answers_read [intro]: "by_answers (read_value (storage_view fork_storage) k)"
  by (rule by_answers_via [of "Read k" _ Value]) (auto simp: run_access_def inj_def)

lemma by_answers_write [intro]: "by_answers (set_value (storage_view fork_storage) k x)"
  by (rule by_answers_via [of "Write k x" _ Value]) (auto simp: run_access_def inj_def)

text \<open>What the development assumes of a virtual machine besides \<^const>\<open>lawful_vm\<close>: it is deterministic in
  what it reads.\<close>

definition deterministic_vm :: "lib \<Rightarrow> 'vm vm_api \<Rightarrow> bool" where
  "deterministic_vm L V \<longleftrightarrow>
     by_answers (load_last_l2_block L) \<and>
     (\<forall>b s. by_answers (vm_new V b s)) \<and> (\<forall>vm. by_answers (vm_inspect V vm)) \<and>
     (\<forall>vm. by_answers (vm_execute_one_tx V vm)) \<and> (\<forall>vm. by_answers (vm_execute_bootloader V vm))"

lemma deterministic_vmD:
  assumes "deterministic_vm L V"
  shows "by_answers (load_last_l2_block L)" and "by_answers (vm_new V b s)"
    and "by_answers (vm_inspect V vm)" and "by_answers (vm_execute_one_tx V vm)"
    and "by_answers (vm_execute_bootloader V vm)"
  using assms by (auto simp: deterministic_vm_def)

lemma by_answers_env:
  "by_answers (load_last_l2_block L) \<Longrightarrow> by_answers (create_l1_batch_env L n)"
  unfolding create_l1_batch_env_def load_last_l1_batch_def Let_def
  by (intro by_answers_bind) (auto split: prod.splits option.splits)

section \<open>Runs on a throw-away view\<close>

text \<open>An action on a fresh view of the shared storage; its buffered writes are dropped.\<close>

definition on_view :: "(view, 'a) action \<Rightarrow> (ForkStorage, 'a) action" where
  "on_view act s = (case act (StorageView_new s) of (r, v) \<Rightarrow> (r, storage_handle v))"

lemma agree_new:
  assumes "fork_healthy s" and "fork_healthy t" and "meaning s = meaning t"
  shows "agree (StorageView_new s) (StorageView_new t)"
proof -
  have "storage_handle (StorageView_new u) = u" for u :: ForkStorage
    by (simp add: StorageView_new_def)
  then show ?thesis
    using assms view_inv_new [of fork_healthy, OF assms(1)] view_inv_new [of fork_healthy, OF assms(2)]
    by (simp add: agree_def meaning_def)
qed

lemma on_view_determined:
  assumes "by_answers act" and "fork_healthy s" and "fork_healthy t" and "meaning s = meaning t"
  shows "fst (on_view act s) = fst (on_view act t)"
  using by_answersD(1) [OF assms(1) agree_new [OF assms(2-4)]]
  by (simp add: on_view_def case_prod_beta)

lemma on_view_frame:
  assumes "by_accesses act" and "fork_healthy s" and "on_view act s = (Some a, s')"
  shows "fork_healthy s' \<and> meaning s' = meaning s"
proof -
  obtain v where run: "act (StorageView_new s) = (Some a, v)" and s': "s' = storage_handle v"
    using assms(3) by (auto simp: on_view_def split: prod.splits)
  have I: "fork_view_inv (StorageView_new s)"
    using assms(2) by (rule view_inv_new)
  obtain accs ans where "run_accesses (storage_view fork_storage) accs (StorageView_new s) = (Some ans, v)"
    using assms(1) run unfolding by_accesses_def by blast
  then show ?thesis
    using fork_view.run_accesses_frame [OF I] fork_storage.view_accesses_handle [OF I] s'
      run_accesses_chain_id
    by (simp add: meaning_def view_inv_def StorageView_new_def)
qed

text \<open>A probe that is run again and again on the same storage: by its meaning, each run gives the answer
  of the first.\<close>

definition steady :: "(ForkStorage \<Rightarrow> bool) \<Rightarrow> (ForkStorage, 'a) action \<Rightarrow> 'a option \<Rightarrow> bool" where
  "steady I act r \<longleftrightarrow> (\<forall>s. I s \<longrightarrow> fst (act s) = r \<and> (r \<noteq> None \<longrightarrow> I (snd (act s))))"

lemma on_view_steady:
  assumes "by_answers act" and "by_accesses act" and "fork_healthy s"
  shows "steady (\<lambda>t. fork_healthy t \<and> meaning t = meaning s) (on_view act) (fst (on_view act s))"
  unfolding steady_def
proof (intro allI impI conjI)
  fix t
  assume t: "fork_healthy t \<and> meaning t = meaning s"
  then show "fst (on_view act t) = fst (on_view act s)"
    using on_view_determined [OF assms(1)] assms(3) by blast
  then show "fork_healthy (snd (on_view act t))" and "meaning (snd (on_view act t)) = meaning s"
    if "fst (on_view act s) \<noteq> None"
    using that t on_view_frame [OF assms(2), of t _ "snd (on_view act t)"]
    by (metis option.exhaust prod.collapse)+
qed

end
