(* ===== verification/GasEstimation.thy ===== *)
theory GasEstimation
  imports EthNamespace Determinism
begin

text \<open>
  Gas estimation (\<^verbatim>\<open>estimate_gas_impl\<close> and \<^verbatim>\<open>estimate_gas_step\<close> of
  \<^verbatim>\<open>src/.test-node-subtree/src/node/in_memory.rs\<close>): a binary search for the gas limit under which
  the transaction succeeds in a sandbox, scaled and completed by the costs of pubdata and overhead.
  32-bit sums wrap, as in a release build.
\<close>

section \<open>Scaling by a floating-point factor\<close>

text \<open>The two factors are IEEE numbers, 1.3 in single and 1.2 in double precision. A product of
  non-negative integers with such a factor is the exact product rounded to the precision, ties to
  even; \<^verbatim>\<open>as\<close> truncates to an integer and saturates. No subnormal or infinite value can occur at
  these magnitudes.\<close>

fun bit_length :: "nat \<Rightarrow> nat" where
  "bit_length n = (if n = 0 then 0 else Suc (bit_length (n div 2)))"

declare bit_length.simps [simp del]

definition round_half_even :: "nat \<Rightarrow> nat \<Rightarrow> nat" where
  "round_half_even a d =
     (let q = a div d; r = a mod d
      in if 2 * r < d \<or> (2 * r = d \<and> even q) then q else q + 1)"

definition round_bits :: "nat \<Rightarrow> nat \<Rightarrow> nat" where
  "round_bits p n = (let e = bit_length n - p in round_half_even n (2 ^ e) * 2 ^ e)"

text \<open>\<^verbatim>\<open>(n as f32 * ESTIMATE_GAS_SCALE_FACTOR) as u32\<close>: the factor is 10905190 / 2^23.\<close>

definition scale_gas :: "u32 \<Rightarrow> u32" where
  "scale_gas n = of_nat (min (2 ^ 32 - 1) (round_bits 24 (round_bits 24 (unat n) * 10905190) div 2 ^ 23))"

text \<open>\<^verbatim>\<open>(n as f64 * ESTIMATE_GAS_L1_GAS_PRICE_SCALE_FACTOR) as u64\<close>: the factor is
  5404319552844595 / 2^52.\<close>

definition scale_l1_gas_price :: "u64 \<Rightarrow> u64" where
  "scale_l1_gas_price n =
     of_nat (min (2 ^ 64 - 1) (round_bits 53 (round_bits 53 (unat n) * 5404319552844595) div 2 ^ 52))"

section \<open>One run in the sandbox\<close>

definition u256_add :: "u256 \<Rightarrow> u256 \<Rightarrow> u256 option" where
  "u256_add a b = checked_add a b"

text \<open>The nonce of the account is set to that of the transaction, and its balance is raised by the most
  that the transaction can cost (a 256-bit overflow panics).\<close>

definition prepare_account :: "lib \<Rightarrow> L2Tx \<Rightarrow> (view, unit) action" where
  "prepare_account L l2_tx =
     (let nonce_key = get_nonce_key L (l2_initiator_address l2_tx);
          balance_key = storage_key_for_eth_balance L (tx_payer L l2_tx)
      in act_bind (read_value (storage_view fork_storage) nonce_key) (\<lambda>full_nonce.
         let (_, deployment_nonce) = decompose_full_nonce L full_nonce;
             enforced_full_nonce = nonces_to_full_nonce L (ucast (l2_nonce l2_tx)) deployment_nonce
         in act_bind (set_value (storage_view fork_storage) nonce_key enforced_full_nonce) (\<lambda>_.
         act_bind (read_value (storage_view fork_storage) balance_key) (\<lambda>current_balance.
         case u256_mul (gas_limit (l2_fee l2_tx)) (max_fee_per_gas (l2_fee l2_tx)) of
           None \<Rightarrow> act_panic
         | Some added_balance \<Rightarrow>
             (case u256_add current_balance added_balance of
                None \<Rightarrow> act_panic
              | Some balance \<Rightarrow>
                  act_bind (set_value (storage_view fork_storage) balance_key balance)
                    (\<lambda>_. act_return ()))))))"

definition with_overhead :: "lib \<Rightarrow> u64 \<Rightarrow> u32 \<Rightarrow> L2Tx \<Rightarrow> u32" where
  "with_overhead L gas_per_pubdata_byte tx_gas_limit l2_tx =
     tx_gas_limit +
     derive_overhead L tx_gas_limit (ucast gas_per_pubdata_byte) (encoding_len L l2_tx)"

definition estimate_gas_step ::
  "lib \<Rightarrow> 'vm vm_api \<Rightarrow> L2Tx \<Rightarrow> u64 \<Rightarrow> u32 \<Rightarrow> u64 \<Rightarrow> L1BatchEnv \<Rightarrow> SystemEnv \<Rightarrow>
   (ForkStorage, VmExecutionResultAndLogs) action" where
  "estimate_gas_step L V l2_tx gas_per_pubdata_byte tx_gas_limit l1_price batch_env system_env =
     (case adjust_l1_gas_price_for_tx (derive_base_fee_and_gas_per_pubdata L) l1_price L2_GAS_PRICE
             (gas_per_pubdata_limit (l2_fee l2_tx)) of
        None \<Rightarrow> act_panic
      | Some price \<Rightarrow>
          (let tx = l2_tx\<lparr>l2_fee := (l2_fee l2_tx)
                 \<lparr>gas_limit := ucast (with_overhead L gas_per_pubdata_byte tx_gas_limit l2_tx)\<rparr>\<rparr>
           in on_view
                (act_bind (prepare_account L tx) (\<lambda>_.
                 act_bind (vm_new V (batch_env\<lparr>be_l1_gas_price := price\<rparr>) system_env) (\<lambda>vm.
                 act_bind (vm_execute_one_tx V (vm_push_transaction V tx vm)) (\<lambda>(result, _).
                 act_return result))))))"

section \<open>The search\<close>

text \<open>\<^verbatim>\<open>probe\<close> runs the transaction with a gas limit and says whether it failed. Equations of this kind
  have a solution also where the loop would not end, for which the value is \<^const>\<open>None\<close>.\<close>

partial_function (option) estimate_search ::
  "(u32 \<Rightarrow> ('s, bool) action) \<Rightarrow> u32 \<Rightarrow> u32 \<Rightarrow> 's \<Rightarrow> (u32 option \<times> 's) option" where
  "estimate_search probe lower_bound upper_bound s =
     (if lower_bound + ESTIMATE_GAS_ACCEPTABLE_OVERESTIMATION < upper_bound
      then let mid = (lower_bound + upper_bound) div 2 in
           (case probe mid s of
              (None, s') \<Rightarrow> Some (None, s')
            | (Some failed, s') \<Rightarrow>
                if failed then estimate_search probe (mid + 1) upper_bound s'
                else estimate_search probe lower_bound mid s')
      else Some (Some upper_bound, s))"

section \<open>The estimate\<close>

text \<open>The pubdata of the factory dependencies that the storage does not know yet.\<close>

definition dep_pubdata :: "lib \<Rightarrow> bytes \<Rightarrow> (view, u32) action" where
  "dep_pubdata L bytecode =
     act_bind (read_value (storage_view fork_storage) (known_codes_key L (hash_bytecode L bytecode)))
       (\<lambda>known. act_return
          (if known \<noteq> 0 then 0
           else of_nat (case compress_bytecode L bytecode of
                          Some compressed \<Rightarrow> length compressed | None \<Rightarrow> length bytecode)
                + ESTIMATE_GAS_PUBLISH_BYTE_OVERHEAD))"

fun pubdata_for_factory_deps :: "lib \<Rightarrow> bytes list \<Rightarrow> (view, u32) action" where
  "pubdata_for_factory_deps L [] = act_return 0"
| "pubdata_for_factory_deps L (b # bs) =
     act_bind (dep_pubdata L b) (\<lambda>p.
     act_bind (pubdata_for_factory_deps L bs) (\<lambda>q. act_return (p + q)))"

definition override_gas_per_pubdata ::
  "lib \<Rightarrow> 'c CallRequest_scheme \<Rightarrow> 'c CallRequest_scheme" where
  "override_gas_per_pubdata L req =
     req\<lparr>call_eip712_meta := map_option (\<lambda>m.
       if gas_per_pubdata_of_meta m = 0
       then m\<lparr>gas_per_pubdata_of_meta := ucast (max_gas_per_pubdata_byte L)\<rparr> else m)
       (call_eip712_meta req)\<rparr>"

definition estimation_tx :: "lib \<Rightarrow> bool \<Rightarrow> u64 \<Rightarrow> L2Tx \<Rightarrow> L2Tx" where
  "estimation_tx L is_eip712 base_fee tx =
     tx\<lparr>l2_signature := (if l2_signature tx = [] then replicate 64 0 @ [27] else l2_signature tx),
        l2_transaction_type := (if is_eip712 then EIP712Transaction else l2_transaction_type tx),
        l2_fee := (l2_fee tx)\<lparr>gas_per_pubdata_limit := ucast (max_gas_per_pubdata_byte L),
                    max_fee_per_gas := ucast base_fee, max_priority_fee_per_gas := ucast base_fee\<rparr>\<rparr>"

text \<open>What the search needs: the transaction as it came and as it is run, the fees, the gas for the
  published bytecodes and the environments.\<close>

record Estimation =
  es_tx :: L2Tx
  es_l2_tx :: L2Tx
  es_base_fee :: u64
  es_gas_per_pubdata_byte :: u64
  es_gas_for_bytecodes_pubdata :: u32
  es_l1_gas_price :: u64
  es_batch_env :: L1BatchEnv
  es_system_env :: SystemEnv

text \<open>The pubdata and the batch environment, over one view.\<close>

definition estimation_env ::
  "lib \<Rightarrow> InMemoryNodeInner \<Rightarrow> bytes list \<Rightarrow> (view, u32 \<times> L1BatchEnv option) action" where
  "estimation_env L n deps =
     act_bind (pubdata_for_factory_deps L deps) (\<lambda>pubdata.
     if max_pubdata_per_block L < pubdata then act_return (pubdata, None)
     else act_bind (create_l1_batch_env L n) (\<lambda>(env, _). act_return (pubdata, Some env)))"

definition tx_deps :: "L2Tx \<Rightarrow> bytes list" where
  "tx_deps tx = (case l2_factory_deps tx of Some ds \<Rightarrow> ds | None \<Rightarrow> [])"

definition estimation_setup ::
  "lib \<Rightarrow> ('c, 'r) request_lib \<Rightarrow> 'c CallRequest_scheme \<Rightarrow> (InMemoryNodeInner, RpcError, Estimation) op" where
  "estimation_setup L R req0 n =
     (let req = override_gas_per_pubdata L req0 in
      case l2_tx_from_request R (request_from_call R req) MAX_TX_SIZE of
        Inl e \<Rightarrow> (Err (SerializationError e), n)
      | Inr tx \<Rightarrow>
      (case adjust_l1_gas_price_for_tx (derive_base_fee_and_gas_per_pubdata L)
              (scale_l1_gas_price (l1_gas_price n)) L2_GAS_PRICE (gas_per_pubdata_limit (l2_fee tx)) of
        None \<Rightarrow> (Panic, n)
      | Some price \<Rightarrow>
      (case derive_base_fee_and_gas_per_pubdata L price L2_GAS_PRICE of
        (base_fee, gas_per_pubdata_byte) \<Rightarrow>
        (let l2_tx = estimation_tx L (call_eip712_meta req \<noteq> None) base_fee tx
         in op_bind (storage_op (on_view (estimation_env L n (tx_deps l2_tx)))) (\<lambda>(pubdata, env).
            case env of
              None \<Rightarrow> op_fail (Err (SubmitTransactionError ''exceeds limit for published pubdata'' []))
            | Some batch_env \<Rightarrow>
                (case contracts_for_fee_estimate (system_contracts n)
                        (l2_initiator_address l2_tx \<in> impersonated_accounts n) of
                   None \<Rightarrow> op_fail Panic
                 | Some code \<Rightarrow>
                     op_return
                       \<lparr>es_tx = tx, es_l2_tx = l2_tx, es_base_fee = base_fee,
                        es_gas_per_pubdata_byte = gas_per_pubdata_byte,
                        es_gas_for_bytecodes_pubdata = pubdata * ucast gas_per_pubdata_byte,
                        es_l1_gas_price = price,
                        es_batch_env = batch_env\<lparr>be_l1_gas_price := price\<rparr>,
                        es_system_env = create_system_env L n code EstimateFee\<rparr>)) n))))"

definition estimate_run ::
  "lib \<Rightarrow> 'vm vm_api \<Rightarrow> Estimation \<Rightarrow> u32 \<Rightarrow> (ForkStorage, VmExecutionResultAndLogs) action" where
  "estimate_run L V e limit =
     estimate_gas_step L V (es_l2_tx e) (es_gas_per_pubdata_byte e) limit (es_l1_gas_price e)
       (es_batch_env e) (es_system_env e)"

definition try_limit :: "lib \<Rightarrow> 'vm vm_api \<Rightarrow> Estimation \<Rightarrow> u32 \<Rightarrow> (ForkStorage, bool) action" where
  "try_limit L V e mid =
     act_bind (estimate_run L V e (es_gas_for_bytecodes_pubdata e + mid))
       (\<lambda>r. act_return (is_failed (vr_result r)))"

text \<open>The answer to the last run; the sum of the parts is checked for an overflow only once.\<close>

definition estimate_overhead :: "lib \<Rightarrow> Estimation \<Rightarrow> u32 \<Rightarrow> u32" where
  "estimate_overhead L e suggested_gas_limit =
     derive_overhead L suggested_gas_limit (ucast (es_gas_per_pubdata_byte e)) (encoding_len L (es_tx e))"

definition estimate_answer ::
  "Estimation \<Rightarrow> VmExecutionResultAndLogs \<Rightarrow> u32 \<Rightarrow> u32 \<Rightarrow> (RpcError, Fee) rust" where
  "estimate_answer e result tx_body_gas_limit overhead =
     (case vr_result result of
        Revert output \<Rightarrow>
          Err (SubmitTransactionError
            (with_colon ''execution reverted'' (revert_string output)) (revert_encoded output))
      | Halt reason \<Rightarrow> Err (SubmitTransactionError (with_colon ''execution reverted'' reason) [])
      | Success _ \<Rightarrow>
          (case checked_add tx_body_gas_limit (es_gas_for_bytecodes_pubdata e + overhead) of
             None \<Rightarrow> Err (SubmitTransactionError ''exceeds block gas limit'' [])
           | Some full_gas_limit \<Rightarrow>
               Ok \<lparr>gas_limit = ucast full_gas_limit, max_fee_per_gas = ucast (es_base_fee e),
                   max_priority_fee_per_gas = 0,
                   gas_per_pubdata_limit = ucast (es_gas_per_pubdata_byte e)\<rparr>))"

definition max_body :: "lib \<Rightarrow> u32" where
  "max_body L = ucast (max_l2_tx_gas_limit L)"

definition tx_body_limit :: "lib \<Rightarrow> u32 \<Rightarrow> u32" where
  "tx_body_limit L upper_bound = min (max_body L) (scale_gas upper_bound)"

text \<open>The search and the last run.\<close>

definition estimate_from ::
  "lib \<Rightarrow> 'vm vm_api \<Rightarrow> Estimation \<Rightarrow> ForkStorage \<Rightarrow> ((RpcError, Fee) rust \<times> ForkStorage) option" where
  "estimate_from L V e s =
     (case estimate_search (try_limit L V e) 0 (max_body L) s of
        None \<Rightarrow> None
      | Some (None, s1) \<Rightarrow> Some (Panic, s1)
      | Some (Some upper_bound, s1) \<Rightarrow>
          (let body = tx_body_limit L upper_bound;
               suggested_gas_limit = body + es_gas_for_bytecodes_pubdata e
           in case estimate_run L V e suggested_gas_limit s1 of
                (None, s2) \<Rightarrow> Some (Panic, s2)
              | (Some result, s2) \<Rightarrow>
                  Some (estimate_answer e result body (estimate_overhead L e suggested_gas_limit), s2)))"

definition estimate_gas_impl ::
  "lib \<Rightarrow> ('c, 'r) request_lib \<Rightarrow> 'vm vm_api \<Rightarrow> 'c CallRequest_scheme \<Rightarrow> InMemoryNodeInner \<Rightarrow>
   ((RpcError, Fee) rust \<times> InMemoryNodeInner) option" where
  "estimate_gas_impl L R V req n =
     (case estimation_setup L R req n of
        (Ok e, n') \<Rightarrow>
          map_option (\<lambda>(r, s). (r, n'\<lparr>node_storage := s\<rparr>)) (estimate_from L V e (node_storage n'))
      | (Err err, n') \<Rightarrow> Some (Err err, n')
      | (Panic, n') \<Rightarrow> Some (Panic, n'))"

text \<open>The two handlers hold the read guard: a panic does not poison the node.\<close>

definition estimate_shared ::
  "(InMemoryNodeInner \<Rightarrow> ((RpcError, 'a) rust \<times> InMemoryNodeInner) option) \<Rightarrow>
   InMemoryNode \<Rightarrow> ((RpcError, 'a) rust \<times> InMemoryNode) option" where
  "estimate_shared f node =
     (if lock_poisoned (node_inner node) then Some (Err InternalError, node)
      else map_option (\<lambda>(r, n). (r, node\<lparr>node_inner := (node_inner node)\<lparr>lock_value := n\<rparr>\<rparr>))
             (f (lock_value (node_inner node))))"

definition eth_estimate_gas ::
  "lib \<Rightarrow> ('c, 'r) request_lib \<Rightarrow> 'vm vm_api \<Rightarrow> 'c CallRequest_scheme \<Rightarrow>
   InMemoryNode \<Rightarrow> ((RpcError, u256) rust \<times> InMemoryNode) option" where
  "eth_estimate_gas L R V req node =
     map_option (\<lambda>(r, node'). (rust_bind r (\<lambda>fee. Ok (gas_limit fee)), node'))
       (estimate_shared (estimate_gas_impl L R V req) node)"

definition estimate_fee ::
  "lib \<Rightarrow> ('c, 'r) request_lib \<Rightarrow> 'vm vm_api \<Rightarrow> 'c CallRequest_scheme \<Rightarrow>
   InMemoryNode \<Rightarrow> ((RpcError, Fee) rust \<times> InMemoryNode) option" where
  "estimate_fee L R V req = estimate_shared (estimate_gas_impl L R V req)"

section \<open>Scaling\<close>

lemma bit_length_bounds: "0 < n \<Longrightarrow> 2 ^ (bit_length n - 1) \<le> n \<and> n < 2 ^ bit_length n \<and> 0 < bit_length n"
proof (induction n rule: bit_length.induct)
  case (1 n)
  have step: "bit_length n = Suc (bit_length (n div 2))"
    using 1 by (subst bit_length.simps) simp
  show ?case
  proof (cases "n div 2 = 0")
    case True
    then have "n = 1"
      using 1 by auto
    then show ?thesis
      using step by (simp add: bit_length.simps [of 0])
  next
    case False
    then have ih: "2 ^ (bit_length (n div 2) - 1) \<le> n div 2" "n div 2 < 2 ^ bit_length (n div 2)"
        "0 < bit_length (n div 2)"
      using 1 by auto
    then have half: "(2::nat) ^ bit_length (n div 2) = 2 * 2 ^ (bit_length (n div 2) - 1)"
      by (metis Suc_diff_1 power_Suc)
    have "2 * (n div 2) \<le> n" and "n < 2 * (n div 2 + 1)"
      by auto
    moreover have "n div 2 + 1 \<le> 2 ^ bit_length (n div 2)"
      using ih(2) by linarith
    ultimately have "2 * 2 ^ (bit_length (n div 2) - 1) \<le> n" and "n < 2 * 2 ^ bit_length (n div 2)"
      using ih(1) by linarith+
    then show ?thesis
      unfolding step using half by simp
  qed
qed

lemma round_half_even_error:
  assumes "0 < d"
  shows "2 * a \<le> 2 * (round_half_even a d * d) + d \<and> 2 * (round_half_even a d * d) \<le> 2 * a + d"
proof -
  define q r where "q = a div d" and "r = a mod d"
  have a: "a = q * d + r" and r: "r < d"
    using assms by (simp_all add: q_def r_def)
  show ?thesis
  proof (cases "2 * r < d \<or> (2 * r = d \<and> even q)")
    case True
    then have "round_half_even a d = q"
      unfolding round_half_even_def Let_def q_def [symmetric] r_def [symmetric] by (rule if_P)
    then show ?thesis
      using a True by auto
  next
    case False
    then have "round_half_even a d = q + 1"
      unfolding round_half_even_def Let_def q_def [symmetric] r_def [symmetric] by (rule if_not_P)
    moreover have "d \<le> 2 * r"
      using False by auto
    ultimately show ?thesis
      using a r by (simp add: add_mult_distrib)
  qed
qed

text \<open>Rounding to \<^term>\<open>p\<close> bits moves a number by at most one part in \<^term>\<open>2 ^ p\<close>.\<close>

lemma round_bits_error:
  assumes "0 < p"
  shows "(2 ^ p - 1) * n \<le> 2 ^ p * round_bits p n" and "2 ^ p * round_bits p n \<le> (2 ^ p + 1) * n"
proof -
  define e where "e = bit_length n - p"
  have R: "round_bits p n = round_half_even n (2 ^ e) * 2 ^ e"
    by (simp add: round_bits_def e_def Let_def)
  have small: "2 ^ p * 2 ^ e \<le> 2 * n \<or> e = 0"
  proof (cases "0 < e")
    case True
    then have "0 < n"
      by (cases n) (auto simp: e_def bit_length.simps [of 0])
    then have "2 ^ (bit_length n - 1) \<le> n"
      using bit_length_bounds by blast
    moreover have "bit_length n = Suc (p + e - 1)"
      using True assms by (auto simp: e_def)
    ultimately have "2 ^ (p + e - 1) \<le> n"
      by simp
    moreover have "(2::nat) ^ (p + e) = 2 * 2 ^ (p + e - 1)"
      using assms by (metis Suc_diff_1 add_gr_0 power_Suc)
    ultimately show ?thesis
      by (simp add: power_add)
  qed simp
  have err: "2 * n \<le> 2 * round_bits p n + 2 ^ e" "2 * round_bits p n \<le> 2 * n + 2 ^ e"
    using round_half_even_error [of "2 ^ e" n] by (simp_all add: R)
  have exact: "round_bits p n = n" if "e = 0"
    using that by (simp add: R round_half_even_def)
  have "2 ^ p * (2 * n) \<le> 2 ^ p * (2 * round_bits p n) + 2 ^ p * 2 ^ e"
    and "2 ^ p * (2 * round_bits p n) \<le> 2 ^ p * (2 * n) + 2 ^ p * 2 ^ e"
    using mult_le_mono2 [OF err(1), of "2 ^ p"] mult_le_mono2 [OF err(2), of "2 ^ p"]
    by (simp_all only: add_mult_distrib2)
  then show "(2 ^ p - 1) * n \<le> 2 ^ p * round_bits p n" and "2 ^ p * round_bits p n \<le> (2 ^ p + 1) * n"
    using small exact by (auto simp: diff_mult_distrib)
qed

lemma scale_chain:
  fixes n r1 r2 :: nat
  assumes "(2 ^ 24 - 1) * n \<le> 2 ^ 24 * r1" and "(2 ^ 24 - 1) * (r1 * 10905190) \<le> 2 ^ 24 * r2"
  shows "2 ^ 23 * n \<le> r2"
proof -
  have "(2 ^ 24 - 1) * ((2 ^ 24 - 1) * n) * 10905190 \<le> (2 ^ 24 - 1) * (2 ^ 24 * r1) * 10905190"
    using assms(1) by (intro mult_le_mono1 mult_le_mono2)
  also have "\<dots> \<le> 2 ^ 24 * (2 ^ 24 * r2)"
    using mult_le_mono2 [OF assms(2), of "2 ^ 24"] by (simp add: ac_simps)
  finally show ?thesis
    by simp
qed

text \<open>The scaled limit is never below the limit, and at most twice the limit.\<close>

lemma scale_gas_ge:
  assumes "unat n < 2 ^ 31"
  shows "n \<le> scale_gas n" and "unat (scale_gas n) \<le> 2 * unat n"
proof -
  let ?r1 = "round_bits 24 (unat n)"
  let ?r2 = "round_bits 24 (?r1 * 10905190)"
  have lo: "2 ^ 23 * unat n \<le> ?r2"
    using round_bits_error [of 24 "unat n"] round_bits_error [of 24 "?r1 * 10905190"]
    by (intro scale_chain [of _ ?r1]) simp_all
  have hi: "?r2 \<le> 2 ^ 24 * unat n"
    using round_bits_error(2) [of 24 "unat n"] round_bits_error(2) [of 24 "?r1 * 10905190"] by simp
  have u: "unat (scale_gas n) = min (2 ^ 32 - 1) (?r2 div 2 ^ 23)"
    by (simp add: scale_gas_def unsigned_of_nat take_bit_nat_eq_self)
  have "unat n \<le> ?r2 div 2 ^ 23"
    using div_le_mono [OF lo, of "2 ^ 23"] by simp
  then show "n \<le> scale_gas n"
    using assms by (simp add: word_le_nat_alt u)
  show "unat (scale_gas n) \<le> 2 * unat n"
    using div_le_mono [OF hi, of "2 ^ 23"] by (simp add: u)
qed

section \<open>The search\<close>

lemma mid_bounds:
  fixes l u :: u32
  assumes "unat l < unat u" and "unat u < 2 ^ 31"
  shows "unat ((l + u) div 2) = (unat l + unat u) div 2" and "l \<le> (l + u) div 2" and "(l + u) div 2 < u"
    and "unat ((l + u) div 2 + 1) = (unat l + unat u) div 2 + 1"
proof -
  have "unat (l + u) = unat l + unat u"
    using assms by (simp add: unat_word_ariths)
  then show m: "unat ((l + u) div 2) = (unat l + unat u) div 2"
    by (simp add: unat_div)
  show "l \<le> (l + u) div 2" and "(l + u) div 2 < u"
    using assms by (simp_all add: word_le_nat_alt word_less_nat_alt m)
  show "unat ((l + u) div 2 + 1) = (unat l + unat u) div 2 + 1"
    using assms m by (simp add: unat_word_ariths)
qed


lemma search_guard_iff:
  assumes "l \<le> u" and "unat u < 2 ^ 31"
  shows "l + ESTIMATE_GAS_ACCEPTABLE_OVERESTIMATION < u \<longleftrightarrow> unat l + 1000 < unat u"
proof -
  have "unat (l + ESTIMATE_GAS_ACCEPTABLE_OVERESTIMATION) = unat l + 1000"
    using assms by (simp add: ESTIMATE_GAS_ACCEPTABLE_OVERESTIMATION_def unat_word_ariths word_le_nat_alt)
  then show ?thesis
    by (simp add: word_less_nat_alt)
qed

text \<open>With bounds below 2^31 the sums of the loop do not wrap and it ends.\<close>

lemma search_ends:
  assumes "l \<le> u" and "unat u < 2 ^ 31"
  shows "\<exists>r s'. estimate_search probe l u s = Some (r, s')"
  using assms
proof (induction "unat u - unat l" arbitrary: l u s rule: less_induct)
  case less
  let ?mid = "(l + u) div 2"
  show ?case
  proof (cases "l + ESTIMATE_GAS_ACCEPTABLE_OVERESTIMATION < u")
    case True
    have lu: "unat l < unat u"
      using True search_guard_iff [OF less.prems] by simp
    note m = mid_bounds [OF lu less.prems(2)]
    have hi: "\<exists>r s'. estimate_search probe (?mid + 1) u t = Some (r, s')" for t
      by (rule less.hyps) (use m lu less.prems in \<open>auto simp: word_le_nat_alt\<close>)
    have lo: "\<exists>r s'. estimate_search probe l ?mid t = Some (r, s')" for t
      by (rule less.hyps) (use m lu less.prems in \<open>auto simp: word_le_nat_alt word_less_nat_alt\<close>)
    show ?thesis
      using hi lo True
      by (subst estimate_search.simps) (auto simp: Let_def split: prod.split option.split)
  qed (subst estimate_search.simps, simp)
qed

text \<open>What the search finds, for a probe that answers \<^term>\<open>P\<close>: an upper bound that did not fail (or
  the initial one) at most 1000 above a limit that failed (or the initial lower bound).\<close>

definition bracket :: "(u32 \<Rightarrow> bool option) \<Rightarrow> u32 \<Rightarrow> u32 \<Rightarrow> u32 \<Rightarrow> bool" where
  "bracket P l u x \<longleftrightarrow>
     l \<le> x \<and> x \<le> u \<and> (x = u \<or> P x = Some False) \<and>
     (\<exists>b. l \<le> b \<and> b \<le> x \<and> unat x \<le> unat b + 1000 \<and> (b = l \<or> P (b - 1) = Some True))"

lemma bracket_upper:
  assumes "bracket P (mid + 1) u x" and "l \<le> mid" and "P mid = Some True" and "unat (mid + 1) = unat mid + 1"
  shows "bracket P l u x"
proof -
  have le: "l \<le> mid + 1"
    using assms(2,4) by (simp add: word_le_nat_alt)
  have "mid + 1 - 1 = mid"
    by simp
  then show ?thesis
    using assms(1,3) le order_trans [OF le] unfolding bracket_def by metis
qed

lemma bracket_lower: "bracket P l mid x \<Longrightarrow> mid \<le> u \<Longrightarrow> P mid = Some False \<Longrightarrow> bracket P l u x"
  unfolding bracket_def by (metis order_trans)

lemma bracket_stop: "\<not> unat l + 1000 < unat u \<Longrightarrow> l \<le> u \<Longrightarrow> bracket P l u u"
  by (auto simp: bracket_def)

lemma search_bracket:
  assumes "\<And>g. steady I (probe g) (P g)" and "l \<le> u" and "unat u < 2 ^ 31" and "I s"
    and "estimate_search probe l u s = Some (r, s')"
  shows "case r of None \<Rightarrow> \<exists>g \<le> u. P g = None | Some x \<Rightarrow> I s' \<and> bracket P l u x"
  using assms(2-5)
proof (induction "unat u - unat l" arbitrary: l u s rule: less_induct)
  case less
  let ?mid = "(l + u) div 2"
  show ?case
  proof (cases "unat l + 1000 < unat u")
    case True
    then have lu: "unat l < unat u"
      by linarith
    note m = mid_bounds [OF lu less.prems(2)]
    obtain q t where probe: "probe ?mid s = (q, t)" by fastforce
    then have q: "P ?mid = q" and t: "q \<noteq> None \<Longrightarrow> I t"
      using assms(1) [of ?mid] less.prems(3) by (auto simp: steady_def)
    have eq: "estimate_search probe l u s =
        (case q of None \<Rightarrow> Some (None, t)
         | Some failed \<Rightarrow> if failed then estimate_search probe (?mid + 1) u t
                          else estimate_search probe l ?mid t)"
      using True probe search_guard_iff [OF less.prems(1,2)]
      by (subst estimate_search.simps) (simp add: Let_def split: option.split)
    show ?thesis
    proof (cases q)
      case None
      then show ?thesis
        using eq less.prems(4) q less_imp_le [OF m(3)] by auto
    next
      case (Some failed)
      show ?thesis
      proof (cases failed)
        case True
        have "case r of None \<Rightarrow> \<exists>g \<le> u. P g = None | Some x \<Rightarrow> I s' \<and> bracket P (?mid + 1) u x"
          by (rule less.hyps [of _ _ t])
            (use m lu less.prems t Some True eq in \<open>auto simp: word_le_nat_alt\<close>)
        then show ?thesis
          using m Some True q lu by (auto split: option.splits intro!: bracket_upper [of P ?mid u _ l])
      next
        case False
        have "case r of None \<Rightarrow> \<exists>g \<le> ?mid. P g = None | Some x \<Rightarrow> I s' \<and> bracket P l ?mid x"
          by (rule less.hyps [of _ _ t])
            (use m lu less.prems t Some False eq in \<open>auto simp: word_le_nat_alt word_less_nat_alt\<close>)
        then show ?thesis
          using less_imp_le [OF m(3)] Some False q
          by (auto split: option.splits intro!: bracket_lower [of P l ?mid _ u] dest: order_trans)
      qed
    qed
  next
    case False
    then have "estimate_search probe l u s = Some (Some u, s)"
      using search_guard_iff [OF less.prems(1,2)] by (subst estimate_search.simps) simp
    then show ?thesis
      using less.prems bracket_stop [OF False] by auto
  qed
qed

text \<open>When every limit from some \<^term>\<open>need\<close> on succeeds and every smaller one fails, the search ends
  within 1000 above it.\<close>

lemma bracket_threshold:
  assumes "bracket P 0 u x" and "\<And>g. g \<le> u \<Longrightarrow> P g = Some (g < need)" and "need \<le> u"
  shows "need \<le> x" and "unat x \<le> unat need + 1000"
proof -
  show lo: "need \<le> x"
    using assms by (auto simp: bracket_def)
  obtain b where b: "b \<le> x" "unat x \<le> unat b + 1000" "b = 0 \<or> P (b - 1) = Some True"
    using assms(1) by (auto simp: bracket_def)
  show "unat x \<le> unat need + 1000"
  proof (cases "b = 0")
    case False
    then have pred: "unat (b - 1) = unat b - 1" and pos: "0 < unat b"
      by (simp_all add: unat_minus_one unat_gt_0)
    have "b - 1 \<le> u"
      using b(1) assms(1) pred by (auto simp: bracket_def word_le_nat_alt)
    then have "b - 1 < need"
      using assms(2) [of "b - 1"] b(3) False by simp
    then show ?thesis
      using b(2) pred pos by (simp add: word_less_nat_alt)
  qed (use b(2) in simp)
qed

section \<open>Runs in the sandbox\<close>

lemmas view_access_intros = by_answers_bind by_answers_read by_answers_write by_answers_return by_answers_panic
  by_accesses_bind by_accesses_read by_accesses_write by_accesses_return by_accesses_panic

lemma prepare_account_access:
  shows "by_answers (prepare_account L tx)" and "by_accesses (prepare_account L tx)"
  unfolding prepare_account_def Let_def
  by (auto split: prod.splits option.splits intro!: view_access_intros)

lemma step_steady:
  assumes "lawful_vm L V" and "deterministic_vm L V" and "fork_healthy s"
  shows "steady (\<lambda>t. fork_healthy t \<and> meaning t = meaning s) (estimate_run L V e g)
    (fst (estimate_run L V e g s))"
proof (cases "adjust_l1_gas_price_for_tx (derive_base_fee_and_gas_per_pubdata L) (es_l1_gas_price e)
    L2_GAS_PRICE (gas_per_pubdata_limit (l2_fee (es_l2_tx e)))")
  case None
  then show ?thesis
    by (simp add: steady_def estimate_run_def estimate_gas_step_def)
next
  case (Some price)
  show ?thesis
    unfolding estimate_run_def estimate_gas_step_def Let_def Some option.case
    by (rule on_view_steady [OF _ _ assms(3)])
      (auto split: prod.splits intro!: view_access_intros prepare_account_access
        deterministic_vmD [OF assms(2)] lawful_vmD [OF assms(1)])
qed

lemma steady_bind_return:
  "steady I act r \<Longrightarrow> steady I (act_bind act (\<lambda>a. act_return (f a))) (map_option f r)"
  unfolding steady_def act_bind_def by (auto split: prod.split option.split)

text \<open>Whether the transaction fails with a given limit on top of the gas for its bytecodes.\<close>

definition fails_at :: "lib \<Rightarrow> 'vm vm_api \<Rightarrow> Estimation \<Rightarrow> ForkStorage \<Rightarrow> u32 \<Rightarrow> bool option" where
  "fails_at L V e s g = fst (try_limit L V e g s)"

lemma fails_at_run:
  "fails_at L V e s g =
   map_option (\<lambda>r. is_failed (vr_result r)) (fst (estimate_run L V e (es_gas_for_bytecodes_pubdata e + g) s))"
  by (cases "estimate_run L V e (es_gas_for_bytecodes_pubdata e + g) s";
      cases "fst (estimate_run L V e (es_gas_for_bytecodes_pubdata e + g) s)")
    (auto simp: fails_at_def try_limit_def)

lemma try_steady:
  assumes "lawful_vm L V" and "deterministic_vm L V" and "fork_healthy s"
  shows "steady (\<lambda>t. fork_healthy t \<and> meaning t = meaning s) (try_limit L V e g) (fails_at L V e s g)"
  unfolding fails_at_run try_limit_def by (rule steady_bind_return [OF step_steady [OF assms]])

lemma try_search:
  assumes "lawful_vm L V" and "deterministic_vm L V" and "fork_healthy s" and "unat (max_body L) < 2 ^ 31"
  obtains r s' where "estimate_search (try_limit L V e) 0 (max_body L) s = Some (r, s')"
    and "r = None \<Longrightarrow> \<exists>g \<le> max_body L. fails_at L V e s g = None"
    and "\<And>x. r = Some x \<Longrightarrow> fork_healthy s' \<and> meaning s' = meaning s \<and>
           bracket (fails_at L V e s) 0 (max_body L) x"
proof -
  obtain r s' where run: "estimate_search (try_limit L V e) 0 (max_body L) s = Some (r, s')"
    using search_ends [of 0 "max_body L" "try_limit L V e" s] assms(4) by auto
  have "case r of None \<Rightarrow> \<exists>g \<le> max_body L. fails_at L V e s g = None
      | Some x \<Rightarrow> (fork_healthy s' \<and> meaning s' = meaning s) \<and> bracket (fails_at L V e s) 0 (max_body L) x"
    by (rule search_bracket [OF try_steady [OF assms(1-3)] _ assms(4) _ run]) (use assms(3) in simp_all)
  then show thesis
    using that run by (cases r) auto
qed

text \<open>The body of the suggested limit is never below what the search found.\<close>

lemma body_ge:
  assumes "bracket P 0 (max_body L) x" and "unat (max_body L) < 2 ^ 31"
  shows "x \<le> tx_body_limit L x" and "tx_body_limit L x \<le> max_body L"
proof -
  have "x \<le> max_body L"
    using assms(1) by (simp add: bracket_def)
  then have "unat x < 2 ^ 31"
    using assms(2) by (simp add: word_le_nat_alt)
  from scale_gas_ge(1) [OF this] show "x \<le> tx_body_limit L x"
    using \<open>x \<le> max_body L\<close> by (simp add: tx_body_limit_def)
  show "tx_body_limit L x \<le> max_body L"
    by (simp add: tx_body_limit_def)
qed

section \<open>Properties\<close>

text \<open>C17: The binary search always ends: with a gas limit per transaction below 2^31 every request for an
  estimate is answered, whatever the machine does.\<close>

theorem estimate_terminates:
  assumes "unat (max_body L) < 2 ^ 31"
  shows "\<exists>r node'. eth_estimate_gas L R V req node = Some (r, node')"
proof -
  have "\<exists>r s'. estimate_from L V e s = Some (r, s')" for e s
    using search_ends [of 0 "max_body L" "try_limit L V e" s] assms
    by (auto simp: estimate_from_def Let_def split: option.splits prod.splits)
  then have "\<exists>r n'. estimate_gas_impl L R V req n = Some (r, n')" for n
    by (auto simp: estimate_gas_impl_def split: prod.splits rust.splits)
  then show ?thesis
    by (auto simp: eth_estimate_gas_def estimate_shared_def)
qed

text \<open>C18: The limit of an estimate is one the sandbox succeeded with: the last run was made with the body
  and the bytecode gas of the answer and did not fail. The body is at least the limit that the search
  ended on, which succeeded or is the largest allowed, and which lies at most 1000 above a limit that
  failed (or zero). The storage means afterwards what it meant before.\<close>

theorem estimate_is_sufficient:
  assumes "lawful_vm L V" and "deterministic_vm L V" and "fork_healthy s" and "unat (max_body L) < 2 ^ 31"
    and "estimate_from L V e s = Some (Ok fee, s')"
  shows "\<exists>x res. bracket (fails_at L V e s) 0 (max_body L) x \<and> x \<le> tx_body_limit L x \<and>
    fst (estimate_run L V e (tx_body_limit L x + es_gas_for_bytecodes_pubdata e) s) = Some res \<and>
    \<not> is_failed (vr_result res) \<and>
    unat (gas_limit fee) = unat (tx_body_limit L x) + unat (es_gas_for_bytecodes_pubdata e +
      estimate_overhead L e (tx_body_limit L x + es_gas_for_bytecodes_pubdata e)) \<and>
    max_fee_per_gas fee = ucast (es_base_fee e) \<and> fork_healthy s' \<and> meaning s' = meaning s"
proof -
  obtain r s1 where search: "estimate_search (try_limit L V e) 0 (max_body L) s = Some (r, s1)"
    and found: "\<And>x. r = Some x \<Longrightarrow> fork_healthy s1 \<and> meaning s1 = meaning s \<and>
        bracket (fails_at L V e s) 0 (max_body L) x"
    using try_search [OF assms(1-4)] by metis
  obtain x where r: "r = Some x"
    using assms(5) search by (auto simp: estimate_from_def split: option.splits)
  let ?g = "tx_body_limit L x + es_gas_for_bytecodes_pubdata e"
  obtain res where last: "estimate_run L V e ?g s1 = (Some res, s')"
    and ans: "estimate_answer e res (tx_body_limit L x) (estimate_overhead L e ?g) = Ok fee"
    using assms(5) search r by (auto simp: estimate_from_def Let_def split: prod.splits option.splits)
  have "fst (estimate_run L V e ?g s) = Some res" and "fork_healthy s' \<and> meaning s' = meaning s"
    using step_steady [OF assms(1-3), of e ?g] found [OF r] last unfolding steady_def by (metis fst_conv, metis fst_conv option.distinct(1) snd_conv)
  moreover have "\<not> is_failed (vr_result res) \<and> max_fee_per_gas fee = ucast (es_base_fee e) \<and>
      unat (gas_limit fee) = unat (tx_body_limit L x) + unat (es_gas_for_bytecodes_pubdata e + estimate_overhead L e ?g)"
    using ans by (auto simp: estimate_answer_def unat_ucast_up dest: checked_add_Some
        split: ExecutionResult.splits option.splits)
  ultimately show ?thesis
    using found [OF r] body_ge(1) [OF _ assms(4)] by blast
qed

text \<open>With a threshold the last run succeeds, and the answer is computed from it.\<close>

lemma threshold_run:
  assumes "lawful_vm L V" and "deterministic_vm L V" and "fork_healthy s" and "unat (max_body L) < 2 ^ 31"
    and "need \<le> max_body L" and "\<And>g. g \<le> max_body L \<Longrightarrow> fails_at L V e s g = Some (g < need)"
  obtains x out res s' where "need \<le> x" and "unat x \<le> unat need + 1000" and "need \<le> tx_body_limit L x"
    and "unat (tx_body_limit L x) \<le> 2 * unat x" and "vr_result res = Success out"
    and "estimate_from L V e s = Some (estimate_answer e res (tx_body_limit L x)
           (estimate_overhead L e (tx_body_limit L x + es_gas_for_bytecodes_pubdata e)), s')"
proof -
  obtain q s1 where search: "estimate_search (try_limit L V e) 0 (max_body L) s = Some (q, s1)"
    and none: "q = None \<Longrightarrow> \<exists>g \<le> max_body L. fails_at L V e s g = None"
    and found: "\<And>x. q = Some x \<Longrightarrow> fork_healthy s1 \<and> meaning s1 = meaning s \<and>
        bracket (fails_at L V e s) 0 (max_body L) x"
    using try_search [OF assms(1-4)] by metis
  have "\<exists>x. q = Some x"
    using none assms(6) by (cases q) auto
  then obtain x where q: "q = Some x" by blast
  let ?body = "tx_body_limit L x"
  let ?g = "?body + es_gas_for_bytecodes_pubdata e"
  have br: "bracket (fails_at L V e s) 0 (max_body L) x"
    using found [OF q] by blast
  note th = bracket_threshold [OF br assms(6,5)]
  note body = body_ge [OF br assms(4)]
  have "unat x < 2 ^ 31"
    using br assms(4) by (auto simp: bracket_def word_le_nat_alt)
  then have twice: "unat ?body \<le> 2 * unat x"
    using scale_gas_ge(2) [of x] by (simp add: tx_body_limit_def min_def word_le_nat_alt)
  have need: "need \<le> ?body"
    using th(1) body(1) by (rule order_trans)
  then have "fails_at L V e s ?body = Some False"
    using assms(6) body(2) by simp
  then obtain res where ok: "fst (estimate_run L V e (es_gas_for_bytecodes_pubdata e + ?body) s) = Some res"
    and good: "\<not> is_failed (vr_result res)"
    by (auto simp: fails_at_run)
  then obtain s2 where last: "estimate_run L V e ?g s1 = (Some res, s2)"
    using step_steady [OF assms(1-3), of e ?g] found [OF q] unfolding steady_def
    by (metis add.commute prod.collapse)
  have ans: "estimate_from L V e s = Some (estimate_answer e res ?body (estimate_overhead L e ?g), s2)"
    using search q last by (simp add: estimate_from_def Let_def)
  show thesis
    using that th need twice ans good by (cases "vr_result res") auto
qed

lemma answer_sum:
  assumes "vr_result res = Success out"
  shows "if unat body + unat (es_gas_for_bytecodes_pubdata e + overhead) < 2 ^ 32
    then \<exists>fee. estimate_answer e res body overhead = Ok fee \<and>
        unat (gas_limit fee) = unat body + unat (es_gas_for_bytecodes_pubdata e + overhead)
    else estimate_answer e res body overhead = Err (SubmitTransactionError ''exceeds block gas limit'' [])"
  using assms checked_add_None [of body "es_gas_for_bytecodes_pubdata e + overhead"]
    checked_add_Some(1) [of body "es_gas_for_bytecodes_pubdata e + overhead"]
  by (auto simp: estimate_answer_def unat_ucast_up split: option.splits)

text \<open>C19: An executable transaction gets an estimate: when every body limit from \<^term>\<open>need\<close> on succeeds
  and every smaller one fails, the search ends at most 1000 above \<^term>\<open>need\<close>, and the answer is the
  sum of the scaled body, the bytecode gas and the overhead, unless this sum exceeds 32 bits.\<close>

theorem estimate_is_near_minimal:
  assumes "lawful_vm L V" and "deterministic_vm L V" and "fork_healthy s" and "unat (max_body L) < 2 ^ 31"
    and "need \<le> max_body L" and "\<And>g. g \<le> max_body L \<Longrightarrow> fails_at L V e s g = Some (g < need)"
  shows "\<exists>x r s'. need \<le> x \<and> unat x \<le> unat need + 1000 \<and> estimate_from L V e s = Some (r, s') \<and>
    (let body = tx_body_limit L x;
         extra = es_gas_for_bytecodes_pubdata e +
           estimate_overhead L e (body + es_gas_for_bytecodes_pubdata e)
     in need \<le> body \<and> unat body \<le> 2 * unat x \<and>
        (if unat body + unat extra < 2 ^ 32
         then (\<exists>fee. r = Ok fee \<and> unat (gas_limit fee) = unat body + unat extra)
         else r = Err (SubmitTransactionError ''exceeds block gas limit'' [])))"
proof -
  obtain x out res s' where "need \<le> x" "unat x \<le> unat need + 1000" "need \<le> tx_body_limit L x"
    "unat (tx_body_limit L x) \<le> 2 * unat x" "vr_result res = Success out"
    "estimate_from L V e s = Some (estimate_answer e res (tx_body_limit L x)
       (estimate_overhead L e (tx_body_limit L x + es_gas_for_bytecodes_pubdata e)), s')"
    by (rule threshold_run [OF assms])
  then show ?thesis
    using answer_sum [of res out "tx_body_limit L x" e] unfolding Let_def by blast
qed

subsection \<open>Asking twice\<close>

lemma env_storage_irrelevant [simp]:
  "create_l1_batch_env L (n\<lparr>node_storage := s\<rparr>) = create_l1_batch_env L n"
  by (simp add: create_l1_batch_env_def cong: option.case_cong)

lemma estimation_env_access:
  assumes "lawful_vm L V" and "deterministic_vm L V"
  shows "by_answers (estimation_env L n deps)" and "by_accesses (estimation_env L n deps)"
proof -
  have "by_answers (pubdata_for_factory_deps L ds)" and "by_accesses (pubdata_for_factory_deps L ds)" for ds
    by (induction ds; unfold pubdata_for_factory_deps.simps dep_pubdata_def; intro view_access_intros; assumption)+
  then show "by_answers (estimation_env L n deps)" and "by_accesses (estimation_env L n deps)"
    unfolding estimation_env_def
    by (auto split: prod.splits intro!: view_access_intros
        by_answers_env [OF deterministic_vmD(1) [OF assms(2)]] by_accesses_env [OF lawful_vmD(1) [OF assms(1)]])
qed

text \<open>Two nodes that differ in storages of the same meaning.\<close>

definition same_node :: "InMemoryNodeInner \<Rightarrow> InMemoryNodeInner \<Rightarrow> bool" where
  "same_node n m \<longleftrightarrow> fork_healthy (node_storage n) \<and>
     (\<exists>s. m = n\<lparr>node_storage := s\<rparr> \<and> fork_healthy s \<and> meaning s = meaning (node_storage n))"

lemma same_node_trans: "same_node n m \<Longrightarrow> same_node m k \<Longrightarrow> same_node n k"
  by (auto simp: same_node_def)

lemma same_node_sym: "same_node n m \<Longrightarrow> same_node m n"
  by (auto simp: same_node_def intro!: exI [of _ "node_storage n"])

lemma same_node_storage: "same_node n m \<Longrightarrow> fork_healthy s \<Longrightarrow> meaning s = meaning (node_storage m) \<Longrightarrow>
    same_node n (m\<lparr>node_storage := s\<rparr>)"
  by (auto simp: same_node_def)

lemma estimation_env_storage [simp]:
  "estimation_env L (n\<lparr>node_storage := s\<rparr>) deps = estimation_env L n deps"
  unfolding estimation_env_def env_storage_irrelevant ..

lemma create_system_env_same: "same_node n m \<Longrightarrow> create_system_env L m code mode = create_system_env L n code mode"
  by (auto simp: same_node_def create_system_env_def meaning_def)

lemma setup_determined:
  assumes "lawful_vm L V" and "deterministic_vm L V" and "same_node n m"
    and "estimation_setup L R req n = (r, n')" and "r \<noteq> Panic"
  shows "\<exists>m'. estimation_setup L R req m = (r, m') \<and> same_node n n' \<and> same_node m m'"
proof -
  obtain t where m: "m = n\<lparr>node_storage := t\<rparr>" "fork_healthy t" "meaning t = meaning (node_storage n)"
      and hn: "fork_healthy (node_storage n)"
    using assms(3) by (auto simp: same_node_def)
  have refl: "same_node n n" "same_node m m"
    using assms(3) same_node_sym same_node_trans by blast+
  note sys = create_system_env_same [OF assms(3)]
  have on: "\<exists>t'. on_view (estimation_env L n deps) t = (q, t') \<and>
      (q \<noteq> None \<longrightarrow> same_node n (n\<lparr>node_storage := s'\<rparr>) \<and> same_node m (m\<lparr>node_storage := t'\<rparr>))"
    if "on_view (estimation_env L n deps) (node_storage n) = (q, s')" for deps q s'
  proof -
    note acc = estimation_env_access [OF assms(1,2), of n deps]
    have "fst (on_view (estimation_env L n deps) t) = q"
      using on_view_determined [OF acc(1) hn m(2)] m(3) that by simp
    moreover have "same_node n (n\<lparr>node_storage := s'\<rparr>)" if q: "q = Some a" for a
      using on_view_frame [OF acc(2) hn] \<open>on_view (estimation_env L n deps) (node_storage n) = (q, s')\<close> q hn
      by (auto simp: same_node_def)
    moreover have "same_node m (m\<lparr>node_storage := t'\<rparr>)"
      if "on_view (estimation_env L n deps) t = (Some a, t')" for a t'
      using on_view_frame [OF acc(2) m(2) that] m(1,2) by (auto simp: same_node_def)
    ultimately show ?thesis
      by (metis not_None_eq prod.collapse)
  qed
  have same: "l1_gas_price m = l1_gas_price n" "system_contracts m = system_contracts n"
    "impersonated_accounts m = impersonated_accounts n" "node_storage m = t"
    "estimation_env L m = estimation_env L n"
    using m(1) by (simp_all add: fun_eq_iff)
  let ?req = "override_gas_per_pubdata L req"
  show ?thesis
  proof (cases "l2_tx_from_request R (request_from_call R ?req) MAX_TX_SIZE")
    case (Inl e)
    then show ?thesis
      using assms(4) refl by (auto simp: estimation_setup_def Let_def)
  next
    case (Inr tx)
    then obtain price where price: "adjust_l1_gas_price_for_tx (derive_base_fee_and_gas_per_pubdata L)
        (scale_l1_gas_price (l1_gas_price n)) L2_GAS_PRICE (gas_per_pubdata_limit (l2_fee tx)) = Some price"
      using assms(4,5) by (auto simp: estimation_setup_def Let_def split: option.splits)
    obtain base_fee gpp where fee: "derive_base_fee_and_gas_per_pubdata L price L2_GAS_PRICE = (base_fee, gpp)"
      by fastforce
    let ?tx = "estimation_tx L (call_eip712_meta ?req \<noteq> None) base_fee tx"
    let ?deps = "tx_deps ?tx"
    obtain q s' where q: "on_view (estimation_env L n ?deps) (node_storage n) = (q, s')" by fastforce
    obtain t' where t': "on_view (estimation_env L n ?deps) t = (q, t')"
        and frame: "q \<noteq> None \<Longrightarrow> same_node n (n\<lparr>node_storage := s'\<rparr>) \<and> same_node m (m\<lparr>node_storage := t'\<rparr>)"
      using on [OF q] by blast
    note run = estimation_setup_def Let_def storage_op_def same sys
    show ?thesis
    proof (cases q)
      case None
      then show ?thesis
        using assms(4,5) Inr price fee q by (simp add: run op_bind_def)
    next
      case (Some a)
      then show ?thesis
        using assms(4,5) Inr price fee q t' frame
        by (cases a) (auto simp: run op_bind_def split: option.splits)
    qed
  qed
qed

text \<open>The result of a search with steady probes is that of a search without a state.\<close>

lemma search_stateless:
  assumes "\<And>g. steady I (probe g) (P g)" and "l \<le> u" and "unat u < 2 ^ 31" and "I s"
  shows "map_option fst (estimate_search probe l u s) =
    map_option fst (estimate_search (\<lambda>g. Pair (P g)) l u ())"
  using assms(2-4)
proof (induction "unat u - unat l" arbitrary: l u s rule: less_induct)
  case less
  let ?mid = "(l + u) div 2"
  show ?case
  proof (cases "unat l + 1000 < unat u")
    case True
    then have lu: "unat l < unat u"
      by linarith
    note m = mid_bounds [OF lu less.prems(2)]
    obtain q t where probe: "probe ?mid s = (q, t)" by fastforce
    then have q: "P ?mid = q" and t: "q \<noteq> None \<Longrightarrow> I t"
      using assms(1) [of ?mid] less.prems(3) by (auto simp: steady_def)
    have hi: "map_option fst (estimate_search probe (?mid + 1) u t) =
        map_option fst (estimate_search (\<lambda>g. Pair (P g)) (?mid + 1) u ())" if "q \<noteq> None"
      by (rule less.hyps) (use m lu less.prems t that in \<open>auto simp: word_le_nat_alt\<close>)
    have lo: "map_option fst (estimate_search probe l ?mid t) =
        map_option fst (estimate_search (\<lambda>g. Pair (P g)) l ?mid ())" if "q \<noteq> None"
      by (rule less.hyps) (use m lu less.prems t that in \<open>auto simp: word_le_nat_alt word_less_nat_alt\<close>)
    show ?thesis
      using True probe q search_guard_iff [OF less.prems(1,2)] hi lo
      by (subst (1 2) estimate_search.simps) (auto simp: Let_def split: option.splits)
  next
    case False
    then show ?thesis
      using search_guard_iff [OF less.prems(1,2)] by (subst (1 2) estimate_search.simps) simp
  qed
qed

lemma estimate_from_determined:
  assumes "lawful_vm L V" and "deterministic_vm L V" and "unat (max_body L) < 2 ^ 31"
    and "fork_healthy s" and "fork_healthy t" and "meaning t = meaning s"
    and "estimate_from L V e s = Some (r, s')" and "r \<noteq> Panic"
  shows "\<exists>t'. estimate_from L V e t = Some (r, t') \<and> fork_healthy s' \<and> meaning s' = meaning s \<and>
    fork_healthy t' \<and> meaning t' = meaning s"
proof -
  let ?I = "\<lambda>t. fork_healthy t \<and> meaning t = meaning s"
  have hs: "?I s" and ht: "?I t"
    using assms(4-6) by simp_all
  obtain q s1 where run: "estimate_search (try_limit L V e) 0 (max_body L) s = Some (q, s1)"
    and found: "\<And>x. q = Some x \<Longrightarrow> fork_healthy s1 \<and> meaning s1 = meaning s \<and>
        bracket (fails_at L V e s) 0 (max_body L) x"
    using try_search [OF assms(1,2,4,3)] by metis
  obtain x where q: "q = Some x"
    using assms(7,8) run by (auto simp: estimate_from_def split: option.splits)
  note st = try_steady [OF assms(1,2,4), of e]
  have pure: "map_option fst (estimate_search (try_limit L V e) 0 (max_body L) t') =
      map_option fst (estimate_search (\<lambda>g. Pair (fails_at L V e s g)) 0 (max_body L) ())" if "?I t'" for t'
    by (rule search_stateless [of ?I, OF st _ assms(3)]) (use that in simp_all)
  have "map_option fst (estimate_search (try_limit L V e) 0 (max_body L) t) = Some (Some x)"
    using pure [OF ht] pure [OF hs] run q by (metis fst_conv option.simps(9))
  then obtain t1 where run': "estimate_search (try_limit L V e) 0 (max_body L) t = Some (Some x, t1)"
    by auto
  have t1: "?I t1"
    using search_bracket [of ?I "try_limit L V e" "fails_at L V e s", OF st _ assms(3) ht run'] by simp
  let ?g = "tx_body_limit L x + es_gas_for_bytecodes_pubdata e"
  note last = step_steady [OF assms(1,2,4), of e ?g, unfolded steady_def]
  obtain res where res: "estimate_run L V e ?g s1 = (Some res, s')"
    and ans: "r = estimate_answer e res (tx_body_limit L x) (estimate_overhead L e ?g)"
    using assms(7,8) run q by (auto simp: estimate_from_def Let_def split: prod.splits option.splits)
  have "fst (estimate_run L V e ?g t1) = fst (estimate_run L V e ?g s1)"
    using last t1 found [OF q] by metis
  then obtain t' where res': "estimate_run L V e ?g t1 = (Some res, t')"
    using res by (metis fst_conv prod.collapse)
  have "?I s'"
    using last found [OF q] res by (metis fst_conv option.distinct(1) snd_conv)
  moreover have "?I t'"
    using last t1 res' by (metis fst_conv option.distinct(1) snd_conv)
  ultimately show ?thesis
    using run' res' ans by (auto simp: estimate_from_def Let_def)
qed

text \<open>Estimating changes nothing that can be observed: the node afterwards differs from the node before
  in a storage of the same meaning (its caches), and the same request gets the same answer again.\<close>

theorem estimate_repeatable:
  assumes "lawful_vm L V" and "deterministic_vm L V" and "unat (max_body L) < 2 ^ 31"
    and "\<not> lock_poisoned (node_inner node)" and "fork_healthy (node_storage (lock_value (node_inner node)))"
    and "eth_estimate_gas L R V req node = Some (r, node')" and "r \<noteq> Panic"
  shows "same_node (lock_value (node_inner node)) (lock_value (node_inner node')) \<and>
    node' = node\<lparr>node_inner := (node_inner node)\<lparr>lock_value := lock_value (node_inner node')\<rparr>\<rparr> \<and>
    (\<exists>node''. eth_estimate_gas L R V req node' = Some (r, node''))"
proof -
  let ?n = "lock_value (node_inner node)"
  have self: "same_node ?n ?n"
    using assms(5) by (auto simp: same_node_def intro!: exI [of _ "node_storage ?n"])
  obtain r0 n1 where impl: "estimate_gas_impl L R V req ?n = Some (r0, n1)"
    and r0: "r = rust_bind r0 (\<lambda>fee. Ok (gas_limit fee))" "r0 \<noteq> Panic"
    and node': "node' = node\<lparr>node_inner := (node_inner node)\<lparr>lock_value := n1\<rparr>\<rparr>"
    using assms(4,6,7) unfolding eth_estimate_gas_def estimate_shared_def
    by (auto dest: sym [of _ Panic]) (metis rust_bind.simps(3))
  obtain q m where st: "estimation_setup L R req ?n = (q, m)" by fastforce
  then have "q \<noteq> Panic"
    using impl r0(2) by (auto simp: estimate_gas_impl_def)
  note det = setup_determined [OF assms(1,2) _ st this]
  have "same_node ?n n1 \<and> (\<exists>k. estimate_gas_impl L R V req n1 = Some (r0, k))"
  proof (cases q)
    case (Err err)
    then have "n1 = m" "r0 = Err err"
      using impl st by (auto simp: estimate_gas_impl_def)
    then show ?thesis
      using det [OF self] det [of n1] Err by (fastforce simp: estimate_gas_impl_def)
  next
    case (Ok e)
    obtain s' where est: "estimate_from L V e (node_storage m) = Some (r0, s')" and n1: "n1 = m\<lparr>node_storage := s'\<rparr>"
      using impl st Ok by (auto simp: estimate_gas_impl_def)
    have nm: "same_node ?n m"
      using det [OF self] by blast
    then have hm: "fork_healthy (node_storage m)" "meaning (node_storage m) = meaning (node_storage ?n)"
      by (auto simp: same_node_def)
    have s': "fork_healthy s' \<and> meaning s' = meaning (node_storage m)"
      using estimate_from_determined [OF assms(1-3) hm(1) hm(1) refl est r0(2)] by blast
    then have nn1: "same_node ?n n1"
      using same_node_storage [OF nm] n1 by blast
    obtain m2 where st2: "estimation_setup L R req n1 = (q, m2)" and m2: "same_node n1 m2"
      using det [OF nn1] by blast
    have "fork_healthy (node_storage m2)" "meaning (node_storage m2) = meaning (node_storage m)"
      using m2 nn1 hm(2) by (auto simp: same_node_def)
    then obtain t' where "estimate_from L V e (node_storage m2) = Some (r0, t')"
      using estimate_from_determined [OF assms(1-3) hm(1) _ _ est r0(2)] by blast
    then show ?thesis
      using nn1 st2 Ok by (simp add: estimate_gas_impl_def)
  qed (use \<open>q \<noteq> Panic\<close> in simp)
  then show ?thesis
    using node' assms(4) r0(1) by (auto simp: eth_estimate_gas_def estimate_shared_def)
qed

subsection \<open>A concrete estimate\<close>

lemma deterministic_example [simp]: "deterministic_vm (example_lib_at l2) (example_vm need res)"
  unfolding deterministic_vm_def by (auto simp: example_lib_at_def example_vm_def)

text \<open>The transaction with its limits overridden, and the environments that the machine ignores.\<close>

definition example_estimation :: Estimation where
  "example_estimation =
     \<lparr>es_tx = example_tx 1, es_l2_tx = estimation_tx example_lib False 250000000 (example_tx 1),
      es_base_fee = 250000000, es_gas_per_pubdata_byte = 8, es_gas_for_bytecodes_pubdata = 0,
      es_l1_gas_price = 50000000000,
      es_batch_env = \<lparr>be_number = 1, be_timestamp = 1001, be_l1_gas_price = 50000000000,
        be_fair_l2_gas_price = 250000000, be_fee_account = 0, be_enforced_base_fee = None,
        be_first_block_number = 1, be_first_block_timestamp = 1001, be_prev_block_hash = 0,
        be_max_virtual_blocks_to_create = 1\<rparr>,
      es_system_env = \<lparr>se_base_system_smart_contracts = undefined, se_gas_limit = 80000000,
        se_execution_mode = EstimateFee, se_default_validation_gas_limit = 80000000, se_chain_id = 260\<rparr>\<rparr>"

lemma view_read_run:
  assumes "fork_view_inv v" and "view_val fork_val v k = Some x"
  obtains v' where "read_value (storage_view fork_storage) k v = (Some x, v')" and "fork_view_inv v'"
    and "view_val fork_val v' = view_val fork_val v"
proof -
  have "fst (read_value (storage_view fork_storage) k v) = Some x"
    using fork_view.read_value_result [OF assms(1), of k] assms(2) by simp
  then obtain v' where run: "read_value (storage_view fork_storage) k v = (Some x, v')"
    by (metis prod.collapse)
  then show thesis
    using that fork_view.read_value_frame [OF assms(1), of k x v'] by simp
qed

lemma view_write_run:
  assumes "fork_view_inv v" and "view_val fork_val v k = Some y"
  obtains v' where "set_value (storage_view fork_storage) k x v = (Some y, v')" and "fork_view_inv v'"
    and "view_val fork_val v' = (view_val fork_val v)(k \<mapsto> x)"
proof -
  have "fst (set_value (storage_view fork_storage) k x v) = Some y"
    using fork_view.set_value_result [OF assms(1), of k x] assms(2) by simp
  then obtain v' where run: "set_value (storage_view fork_storage) k x v = (Some y, v')"
    by (metis prod.collapse)
  then show thesis
    using that fork_view.set_value_frame [OF assms(1), of k x y v'] by simp
qed

lemma example_prepare:
  assumes "fork_view_inv v" and "view_val fork_val v = (\<lambda>_. Some 0)"
    and "unat (gas_limit (l2_fee tx)) < 2 ^ 32" and "unat (max_fee_per_gas (l2_fee tx)) < 2 ^ 64"
  shows "\<exists>v'. prepare_account example_lib tx v = (Some (), v')"
proof -
  have small: "unat (gas_limit (l2_fee tx)) * unat (max_fee_per_gas (l2_fee tx)) < 2 ^ 32 * 2 ^ 64"
    using assms(3,4) by (rule mult_strict_mono) simp_all
  have "(2::nat) ^ 32 * 2 ^ 64 < 2 ^ 256"
    by simp
  then have cost: "u256_mul (gas_limit (l2_fee tx)) (max_fee_per_gas (l2_fee tx)) =
      Some (gas_limit (l2_fee tx) * max_fee_per_gas (l2_fee tx))"
    unfolding u256_mul_def using small by (meson less_trans)
  let ?nk = "(0x8003, ucast (l2_initiator_address tx))" and ?bk = "(0x800A, ucast (l2_initiator_address tx))"
  obtain v1 where v1: "read_value (storage_view fork_storage) ?nk v = (Some 0, v1)" "fork_view_inv v1"
      "view_val fork_val v1 = (\<lambda>_. Some 0)"
    using view_read_run [OF assms(1), of ?nk 0] assms(2) by metis
  obtain v2 where v2: "set_value (storage_view fork_storage) ?nk (ucast (l2_nonce tx)) v1 = (Some 0, v2)"
      "fork_view_inv v2" "view_val fork_val v2 = (\<lambda>_. Some 0)(?nk \<mapsto> ucast (l2_nonce tx))"
    using view_write_run [OF v1(2), of ?nk 0] v1(3) by metis
  obtain v3 where v3: "read_value (storage_view fork_storage) ?bk v2 = (Some 0, v3)" "fork_view_inv v3"
      "view_val fork_val v3 = view_val fork_val v2"
    using view_read_run [OF v2(2), of ?bk 0] v2(3) by (auto simp: fun_upd_apply)
  have "view_val fork_val v3 ?bk = Some 0"
    by (simp add: v3(3) v2(3))
  then obtain v4 where "set_value (storage_view fork_storage) ?bk
      (gas_limit (l2_fee tx) * max_fee_per_gas (l2_fee tx)) v3 = (Some 0, v4)"
    using view_write_run [OF v3(2)] by metis
  then show ?thesis
    using v1(1) v2(1) v3(1) cost
    by (simp add: prepare_account_def example_lib_at_def u256_add_def checked_add_def Let_def)
qed

lemma example_storage_healthy: "fork_healthy example_storage"
  by (simp add: example_storage_def ForkStorage_new_def fork_healthy_def caches_agree_def Let_def)

lemma example_fails_at:
  assumes "es_l2_tx e = estimation_tx example_lib b 250000000 (example_tx 1)"
    and "es_gas_for_bytecodes_pubdata e = 0" and "g \<le> 80000000"
  shows "fails_at example_lib (example_vm 20000 (Success [])) e example_storage g = Some (g < 19995)"
proof -
  have "unat (g + 5) = unat g + 5"
    using assms(3) by (simp add: unat_word_ariths word_le_nat_alt)
  then have cmp: "20000 \<le> (ucast (g + 5) :: u256) \<longleftrightarrow> \<not> g < 19995"
    by (auto simp: word_le_nat_alt word_less_nat_alt unat_ucast_up)
  let ?tx = "(es_l2_tx e)\<lparr>l2_fee := (l2_fee (es_l2_tx e))\<lparr>gas_limit := ucast (g + 5)\<rparr>\<rparr>"
  have "fork_view_inv (StorageView_new example_storage)"
    by (rule view_inv_new [of fork_healthy, OF example_storage_healthy])
  moreover have "view_val fork_val (StorageView_new example_storage) = (\<lambda>_. Some 0)"
    by (simp add: fun_eq_iff example_storage_def fork_val_def ForkStorage_new_def empty_genesis_def
        local_value_def remote_value_def Let_def)
  moreover have "unat (gas_limit (l2_fee ?tx)) < 2 ^ 32" and "unat (max_fee_per_gas (l2_fee ?tx)) < 2 ^ 64"
    using unat_ucast_less [of "g + 5", where 'b = 256] by (simp_all add: assms(1) estimation_tx_def)
  ultimately obtain v' where v': "prepare_account example_lib ?tx (StorageView_new example_storage) = (Some (), v')"
    using example_prepare by blast
  have over: "with_overhead example_lib gpp g tx = g + 5" for gpp tx
    by (simp add: with_overhead_def example_lib_at_def)
  have price: "adjust_l1_gas_price_for_tx (derive_base_fee_and_gas_per_pubdata example_lib) p L2_GAS_PRICE
      (gas_per_pubdata_limit (l2_fee (es_l2_tx e))) = Some p" for p
    by (simp add: adjust_l1_gas_price_for_tx_def assms(1) estimation_tx_def example_lib_at_def)
  have "fst (estimate_run example_lib (example_vm 20000 (Success [])) e g example_storage) =
      Some (example_outcome (if 20000 \<le> (ucast (g + 5) :: u256) then Success [] else Halt ''Not enough gas''))"
    unfolding estimate_run_def estimate_gas_step_def price over on_view_def Let_def option.case
    using v' by (simp add: example_vm_def)
  then show ?thesis
    using cmp assms(2) by (simp add: fails_at_run example_outcome_def)
qed

lemma example_max_body: "max_body example_lib = 80000000"
  by (simp add: max_body_def example_lib_at_def)

theorem estimate_terminates_witness:
  "\<exists>r node'. eth_estimate_gas example_lib example_requests (example_vm 20000 (Success [])) example_call
     example_node = Some (r, node')"
  using estimate_terminates [of example_lib] by (simp add: example_max_body)

theorem estimate_is_near_minimal_witness:
  "\<exists>(x :: u32) fee s'. 19995 \<le> x \<and> unat x \<le> 20995 \<and>
     estimate_from example_lib (example_vm 20000 (Success [])) example_estimation example_storage =
       Some (Ok fee, s') \<and> 19995 \<le> unat (gas_limit fee)"
proof -
  have lt: "unat (max_body example_lib) < 2 ^ 31" and le: "19995 \<le> max_body example_lib"
    by (simp_all add: example_max_body)
  have th: "fails_at example_lib (example_vm 20000 (Success [])) example_estimation example_storage g =
      Some (g < 19995)" if "g \<le> max_body example_lib" for g
    by (rule example_fails_at) (use that in \<open>simp_all add: example_estimation_def example_max_body\<close>)
  obtain x r s' where x: "19995 \<le> x" "unat x \<le> unat (19995 :: u32) + 1000"
      and r: "estimate_from example_lib (example_vm 20000 (Success [])) example_estimation example_storage = Some (r, s')"
      and sum: "let body = tx_body_limit example_lib x;
         extra = es_gas_for_bytecodes_pubdata example_estimation +
           estimate_overhead example_lib example_estimation (body + es_gas_for_bytecodes_pubdata example_estimation)
       in 19995 \<le> body \<and> unat body \<le> 2 * unat x \<and>
        (if unat body + unat extra < 2 ^ 32
         then (\<exists>fee. r = Ok fee \<and> unat (gas_limit fee) = unat body + unat extra)
         else r = Err (SubmitTransactionError ''exceeds block gas limit'' []))"
    using estimate_is_near_minimal [OF lawful_example deterministic_example example_storage_healthy lt le th]
    by blast
  have "estimate_overhead example_lib example_estimation g = 5" for g
    by (simp add: estimate_overhead_def example_lib_at_def)
  then obtain fee where fee: "r = Ok fee" "19995 \<le> unat (gas_limit fee)"
    using sum x(2) by (auto simp: Let_def example_estimation_def word_le_nat_alt)
  show ?thesis
    by (intro exI [of _ x] exI [of _ fee] exI [of _ s']) (use x r fee in auto)
qed

lemma example_estimate:
  assumes "es_l2_tx e = estimation_tx example_lib b 250000000 (example_tx 1)" and "es_gas_for_bytecodes_pubdata e = 0"
  shows "\<exists>fee s'. estimate_from example_lib (example_vm 20000 (Success [])) e example_storage = Some (Ok fee, s')"
proof -
  have lt: "unat (max_body example_lib) < 2 ^ 31" and le: "19995 \<le> max_body example_lib"
    by (simp_all add: example_max_body)
  have th: "fails_at example_lib (example_vm 20000 (Success [])) e example_storage g = Some (g < 19995)"
    if "g \<le> max_body example_lib" for g
    by (rule example_fails_at [OF assms]) (use that in \<open>simp add: example_max_body\<close>)
  obtain x out res s' where x: "unat x \<le> unat (19995 :: u32) + 1000"
      "unat (tx_body_limit example_lib x) \<le> 2 * unat x" "vr_result res = Success out"
    and run: "estimate_from example_lib (example_vm 20000 (Success [])) e example_storage =
      Some (estimate_answer e res (tx_body_limit example_lib x)
        (estimate_overhead example_lib e (tx_body_limit example_lib x + es_gas_for_bytecodes_pubdata e)), s')"
    by (rule threshold_run [OF lawful_example deterministic_example example_storage_healthy lt le th])
  have "estimate_overhead example_lib e g = 5" for g
    by (simp add: estimate_overhead_def example_lib_at_def)
  then show ?thesis
    using answer_sum [OF x(3), of "tx_body_limit example_lib x" e 5] x(1,2) run assms(2) by auto
qed

theorem estimate_is_sufficient_witness:
  "\<exists>fee s'. estimate_from example_lib (example_vm 20000 (Success [])) example_estimation example_storage =
      Some (Ok fee, s') \<and> meaning s' = meaning example_storage"
proof -
  have lt: "unat (max_body example_lib) < 2 ^ 31"
    by (simp add: example_max_body)
  obtain fee s' where run: "estimate_from example_lib (example_vm 20000 (Success [])) example_estimation
      example_storage = Some (Ok fee, s')"
    using example_estimate [of example_estimation False] by (auto simp: example_estimation_def)
  show ?thesis
    using estimate_is_sufficient [OF lawful_example deterministic_example example_storage_healthy lt run] run
    by blast
qed

lemma example_setup:
  "\<exists>e n. estimation_setup example_lib example_requests example_call (lock_value (node_inner example_node)) = (Ok e, n) \<and>
     node_storage n = example_storage \<and>
     es_l2_tx e = estimation_tx example_lib False 250000000 (example_tx 1) \<and> es_gas_for_bytecodes_pubdata e = 0"
proof -
  let ?n = "lock_value (node_inner example_node)"
  obtain env ctx v where env: "create_l1_batch_env example_lib ?n (StorageView_new (node_storage ?n)) =
      (Some (env, ctx), v)" "storage_handle v = example_storage"
    using example_env [OF example_node_storage] by blast
  have deps: "tx_deps (estimation_tx example_lib b f (example_tx 1)) = []" for b f
    by (simp add: tx_deps_def estimation_tx_def example_tx_def)
  have on: "on_view (estimation_env example_lib ?n []) (node_storage ?n) = (Some (0, Some env), example_storage)"
    using env by (simp add: on_view_def estimation_env_def example_lib_at_def)
  have code: "contracts_for_fee_estimate c b \<noteq> None" for c b
    by (cases b) (simp_all add: contracts_for_fee_estimate_def)
  have price: "adjust_l1_gas_price_for_tx (derive_base_fee_and_gas_per_pubdata example_lib) p L2_GAS_PRICE
      (gas_per_pubdata_limit (l2_fee (example_tx 1))) = Some p" for p
    by (simp add: adjust_l1_gas_price_for_tx_def example_lib_at_def example_tx_def)
  have derive: "derive_base_fee_and_gas_per_pubdata example_lib p L2_GAS_PRICE = (250000000, 8)" for p
    by (simp add: example_lib_at_def L2_GAS_PRICE_def)
  show ?thesis
    using on code price derive
    by (auto simp: estimation_setup_def example_requests_def override_gas_per_pubdata_def example_call_def
        deps storage_op_def op_bind_def Let_def split: option.splits)
qed

theorem estimate_repeatable_witness:
  "\<exists>r node' node''.
     eth_estimate_gas example_lib example_requests (example_vm 20000 (Success [])) example_call example_node =
       Some (r, node') \<and> is_ok r \<and>
     eth_estimate_gas example_lib example_requests (example_vm 20000 (Success [])) example_call node' =
       Some (r, node'')"
proof -
  let ?n = "lock_value (node_inner example_node)"
  have lt: "unat (max_body example_lib) < 2 ^ 31" and np: "\<not> lock_poisoned (node_inner example_node)"
    and h: "fork_healthy (node_storage ?n)"
    by (simp_all add: example_max_body)
  obtain e n where st: "estimation_setup example_lib example_requests example_call ?n = (Ok e, n)"
      "node_storage n = example_storage" and e: "es_l2_tx e = estimation_tx example_lib False 250000000 (example_tx 1)"
      "es_gas_for_bytecodes_pubdata e = 0"
    using example_setup by blast
  obtain fee s' where "estimate_from example_lib (example_vm 20000 (Success [])) e example_storage = Some (Ok fee, s')"
    using example_estimate [OF e] by blast
  then have "\<exists>r node'. eth_estimate_gas example_lib example_requests (example_vm 20000 (Success []))
      example_call example_node = Some (r, node') \<and> is_ok r"
    using st by (simp add: eth_estimate_gas_def estimate_shared_def estimate_gas_impl_def)
  then obtain r node' where run: "eth_estimate_gas example_lib example_requests (example_vm 20000 (Success []))
      example_call example_node = Some (r, node')" and r: "is_ok r"
    by blast
  then have "r \<noteq> Panic"
    by auto
  from estimate_repeatable [OF lawful_example deterministic_example lt np h run this] run r
  show ?thesis
    by blast
qed

end
