(* ===== verification/ZksNamespace.thy ===== *)
theory ZksNamespace
  imports GasEstimation
begin

text \<open>
  The \<^verbatim>\<open>zks\<close> namespace of the RPC interface (\<^verbatim>\<open>src/.test-node-subtree/src/node/zks.rs\<close>), one definition
  per handler; \<^verbatim>\<open>zks_estimateFee\<close> is \<^const>\<open>estimate_fee\<close>. The newest protocol version and the range of
  the calendar are parameters.
\<close>

section \<open>Raw transactions of a block\<close>

definition variant_hash :: "TransactionVariant \<Rightarrow> h256" where
  "variant_hash tx = (case tx of FullTx t \<Rightarrow> tx_hash t | HashTx h \<Rightarrow> h)"

text \<open>The transactions of a local block whose results the node has; a transaction without a stored result
  is left out.\<close>

definition local_raw_transactions :: "Block \<Rightarrow> InMemoryNodeInner \<Rightarrow> RawTransaction list" where
  "local_raw_transactions b n =
     List.map_filter (\<lambda>tx. map_option (\<lambda>res. RawL2 (info_tx (tr_info res)))
       (map_of (tx_results n) (variant_hash tx))) (block_transactions b)"

definition fork_of :: "InMemoryNodeInner \<Rightarrow> ('e, ForkDetails option) rust" where
  "fork_of n = (if lock_poisoned (fs_inner (node_storage n)) then Panic
                else Ok (fork (lock_value (fs_inner (node_storage n)))))"

definition zks_get_raw_block_transactions ::
  "u32 \<Rightarrow> (InMemoryNode, RpcError, RawTransaction list) op" where
  "zks_get_raw_block_transactions bn =
     eth_read (\<lambda>n.
       case Option.bind (node_block_hashes n (ucast bn)) (blocks n) of
         Some b \<Rightarrow> Ok (local_raw_transactions b n)
       | None \<Rightarrow> rust_bind (fork_of n) (\<lambda>f.
           case f of
             Some f \<Rightarrow> ok_or InternalError (src_get_raw_block_transactions (fork_source f) bn)
           | None \<Rightarrow> Ok []))"

section \<open>Bridges and tokens\<close>

definition zks_get_bridge_contracts :: "(InMemoryNode, RpcError, BridgeAddresses) op" where
  "zks_get_bridge_contracts =
     eth_read (\<lambda>n. rust_bind (fork_of n) (\<lambda>f.
       case f of
         Some f \<Rightarrow> ok_or InternalError (src_get_bridge_contracts (fork_source f))
       | None \<Rightarrow> Ok \<lparr>l1_erc20_default_bridge = 0, l2_erc20_default_bridge = 0,
                     l1_weth_bridge = None, l2_weth_bridge = None\<rparr>))"

definition zks_get_confirmed_tokens ::
  "lib \<Rightarrow> u32 \<Rightarrow> u8 \<Rightarrow> (InMemoryNode, RpcError, Token list) op" where
  "zks_get_confirmed_tokens L start limit =
     eth_read (\<lambda>n. rust_bind (fork_of n) (\<lambda>f.
       case f of
         Some f \<Rightarrow> ok_or InternalError (src_get_confirmed_tokens (fork_source f) start limit)
       | None \<Rightarrow> Ok [\<lparr>token_l1_address = 0, token_l2_address = l2_eth_token_address L,
                      token_name = ''Ether'', token_symbol = ''ETH'', token_decimals = 18\<rparr>]))"

text \<open>The price table is keyed by the printed address, which determines the address.\<close>

definition zks_get_token_price :: "address \<Rightarrow> (InMemoryNode, RpcError, nat) op" where
  "zks_get_token_price token_address =
     (if token_address = 0 then op_return 1500
      else if token_address = 0x40609141db628beee3bfab8034fc2d8278d0cc78 \<or>
              token_address = 0x0bfce1d53451b4a8175dd94e6e029f7d8a701e9c \<or>
              token_address = 0x0faf6df7054946141266420b43783387a78d82a9 \<or>
              token_address = 0x3e7676937a7e96cfb7616f255b9ad9ff47363d4b then op_return 1
      else op_fail (Err InternalError))"

text \<open>The loop over the tokens; a later token with the same address overwrites an earlier one, with the
  same balance.\<close>

fun read_balances ::
  "lib \<Rightarrow> address \<Rightarrow> Token list \<Rightarrow> (address \<Rightarrow> u256 option) \<Rightarrow> (ForkStorage, address \<Rightarrow> u256 option) action" where
  "read_balances L a [] balances = act_return balances"
| "read_balances L a (t # ts) balances =
     act_bind (read_value fork_storage (storage_key_for_standard_token_balance L (token_l2_address t) a))
       (\<lambda>balance. read_balances L a ts
          (if balance \<noteq> 0 then balances(token_l2_address t \<mapsto> balance) else balances))"

definition zks_get_all_account_balances ::
  "lib \<Rightarrow> address \<Rightarrow> (InMemoryNode, RpcError, address \<Rightarrow> u256 option) op" where
  "zks_get_all_account_balances L a node =
     (case zks_get_confirmed_tokens L 0 100 node of
        (Ok tokens, node') \<Rightarrow> eth_write (storage_op (read_balances L a tokens Map.empty)) node'
      | (Err _, node') \<Rightarrow> (Err InternalError, node')
      | (Panic, node') \<Rightarrow> (Panic, node'))"

section \<open>Details of blocks and transactions\<close>

definition local_block_details ::
  "ProtocolVersionId \<Rightarrow> BaseSystemContracts \<Rightarrow> Block \<Rightarrow> (RpcError, BlockDetails) rust" where
  "local_block_details latest_version baseline b =
     (case (u64_as_u32 (block_number b),
            u64_as_u32 (case block_l1_batch_number b of Some k \<Rightarrow> k | None \<Rightarrow> 0)) of
        (Some number, Some batch) \<Rightarrow>
          if unat (block_timestamp b) \<ge> 2 ^ 64 then Panic
          else Ok \<lparr>bd_number = number, bd_l1_batch_number = batch,
                  bd_timestamp = ucast (block_timestamp b), bd_l1_tx_count = 1,
                  bd_l2_tx_count = length (block_transactions b),
                  bd_root_hash = Some (block_hash b), bd_status = BlockVerified,
                  bd_l1_gas_price = 0, bd_l2_fair_gas_price = L2_GAS_PRICE,
                  bd_base_system_contracts_hashes =
                    (scc_hash (bootloader baseline), scc_hash (default_aa baseline)),
                  bd_operator_address = 0, bd_protocol_version = Some latest_version\<rparr>
      | _ \<Rightarrow> Panic)"

definition zks_get_block_details ::
  "ProtocolVersionId \<Rightarrow> u32 \<Rightarrow> (InMemoryNode, RpcError, BlockDetails option) op" where
  "zks_get_block_details latest_version bn =
     eth_read (\<lambda>n.
       case Option.bind (node_block_hashes n (ucast bn)) (blocks n) of
         Some b \<Rightarrow> rust_bind (local_block_details latest_version (baseline_contracts (system_contracts n)) b) (\<lambda>d. Ok (Some d))
       | None \<Rightarrow> from_fork (\<lambda>f. flatten (src_get_block_details (fork_source f) bn)) n)"

definition local_transaction_details :: "nat \<Rightarrow> TransactionResult \<Rightarrow> (RpcError, TransactionDetails) rust" where
  "local_transaction_details max_secs res =
     (let receipt = tr_receipt res; tx = info_tx (tr_info res);
          price = (case rc_effective_gas_price receipt of Some p \<Rightarrow> p | None \<Rightarrow> 0);
          used = (case rc_gas_used receipt of Some g \<Rightarrow> g | None \<Rightarrow> 0)
      in case (u256_mul price used, utc_datetime_from_epoch_ms max_secs (l2_received_timestamp_ms tx)) of
           (Some fee, Some received) \<Rightarrow>
             Ok \<lparr>td_is_l1_originated = False, td_status = StatusIncluded, td_fee = fee,
                 td_gas_per_pubdata = gas_per_pubdata_limit (l2_fee tx),
                 td_initiator_address = l2_initiator_address tx, td_received_at = received\<rparr>
         | _ \<Rightarrow> Panic)"

definition zks_get_transaction_details ::
  "nat \<Rightarrow> h256 \<Rightarrow> (InMemoryNode, RpcError, TransactionDetails option) op" where
  "zks_get_transaction_details max_secs hash =
     eth_read (\<lambda>n.
       case map_of (tx_results n) hash of
         Some res \<Rightarrow> rust_bind (local_transaction_details max_secs res) (\<lambda>d. Ok (Some d))
       | None \<Rightarrow> from_fork (\<lambda>f. flatten (src_get_transaction_details (fork_source f) hash)) n)"

section \<open>Bytecodes\<close>

definition zks_get_bytecode_by_hash :: "h256 \<Rightarrow> (InMemoryNode, RpcError, bytes option) op" where
  "zks_get_bytecode_by_hash hash =
     eth_write
       (op_bind (storage_op (load_factory_dep fork_storage hash)) (\<lambda>code n.
          (or_fork code (\<lambda>f. flatten (src_get_bytecode_by_hash (fork_source f) hash)) n, n)))"

section \<open>Constant answers\<close>

text \<open>Layer 1 is not simulated: the batch details are null on purpose, the other calls are refused.\<close>

definition zks_get_l1_batch_details :: "u32 \<Rightarrow> (InMemoryNode, RpcError, unit option) op" where
  "zks_get_l1_batch_details batch = op_return None"

definition zks_get_proof :: "address \<Rightarrow> h256 list \<Rightarrow> u32 \<Rightarrow> (InMemoryNode, RpcError, 'a) op" where
  "zks_get_proof a keys batch = not_implemented ''zks_getProof''"

definition zks_estimate_gas_l1_to_l2 :: "'c CallRequest_scheme \<Rightarrow> (InMemoryNode, RpcError, u256) op" where
  "zks_estimate_gas_l1_to_l2 req = not_implemented ''zks_estimateGasL1ToL2''"

definition zks_get_main_contract :: "(InMemoryNode, RpcError, address) op" where
  "zks_get_main_contract = not_implemented ''zks_getMainContract''"

definition zks_get_testnet_paymaster :: "(InMemoryNode, RpcError, address option) op" where
  "zks_get_testnet_paymaster = not_implemented ''zks_getTestnetPaymaster''"

definition zks_l1_chain_id :: "(InMemoryNode, RpcError, u64) op" where
  "zks_l1_chain_id = not_implemented ''zks_L1ChainId''"

definition zks_get_l2_to_l1_msg_proof ::
  "u32 \<Rightarrow> address \<Rightarrow> h256 \<Rightarrow> nat option \<Rightarrow> (InMemoryNode, RpcError, 'a) op" where
  "zks_get_l2_to_l1_msg_proof b s m p = not_implemented ''zks_getL2ToL1MsgProof''"

definition zks_get_l2_to_l1_log_proof :: "h256 \<Rightarrow> nat option \<Rightarrow> (InMemoryNode, RpcError, 'a) op" where
  "zks_get_l2_to_l1_log_proof h i = not_implemented ''zks_getL2ToL1LogProof''"

definition zks_get_l1_batch_number :: "(InMemoryNode, RpcError, u64) op" where
  "zks_get_l1_batch_number = not_implemented ''zks_L1BatchNumber''"

definition zks_get_miniblock_range :: "u32 \<Rightarrow> (InMemoryNode, RpcError, (u64 \<times> u64) option) op" where
  "zks_get_miniblock_range b = not_implemented ''zks_getL1BatchBlockRange''"

definition zks_get_l1_gas_price :: "(InMemoryNode, RpcError, u64) op" where
  "zks_get_l1_gas_price = not_implemented ''zks_getL1GasPrice''"

definition zks_get_protocol_version :: "u16 option \<Rightarrow> (InMemoryNode, RpcError, 'a) op" where
  "zks_get_protocol_version v = not_implemented ''zks_getProtocolVersion''"

section \<open>Properties\<close>

subsection \<open>Balances\<close>

lemma fork_read_run:
  assumes "fork_healthy s" and "fork_val s k = Some x"
  obtains s' where "read_value fork_storage k s = (Some x, s')" and "fork_healthy s'" and "fork_val s' = fork_val s"
  using locked_read_healthy [OF assms] that by blast

definition balance_of :: "lib \<Rightarrow> ForkStorage \<Rightarrow> address \<Rightarrow> address \<Rightarrow> u256 option" where
  "balance_of L s a token =
     (case fork_val s (storage_key_for_standard_token_balance L token a) of
        Some x \<Rightarrow> if x \<noteq> 0 then Some x else None | None \<Rightarrow> None)"

lemma read_balances_run:
  assumes "fork_healthy s"
    and "\<forall>t \<in> set ts. fork_val s (storage_key_for_standard_token_balance L (token_l2_address t) a) \<noteq> None"
  shows "\<exists>s'. read_balances L a ts m s =
    (Some (\<lambda>t. if t \<in> token_l2_address ` set ts \<and> balance_of L s a t \<noteq> None then balance_of L s a t else m t), s') \<and>
    fork_healthy s' \<and> fork_val s' = fork_val s"
  using assms
proof (induction ts arbitrary: m s)
  case (Cons t ts)
  let ?k = "storage_key_for_standard_token_balance L (token_l2_address t) a"
  obtain x where x: "fork_val s ?k = Some x"
    using Cons.prems(2) by auto
  obtain s1 where s1: "read_value fork_storage ?k s = (Some x, s1)" "fork_healthy s1" "fork_val s1 = fork_val s"
    by (rule fork_read_run [OF Cons.prems(1) x])
  let ?m = "if x \<noteq> 0 then m(token_l2_address t \<mapsto> x) else m"
  have same: "balance_of L s1 = balance_of L s"
    by (simp add: balance_of_def fun_eq_iff s1(3))
  obtain s' where run: "read_balances L a ts ?m s1 =
      (Some (\<lambda>t. if t \<in> token_l2_address ` set ts \<and> balance_of L s a t \<noteq> None then balance_of L s a t else ?m t), s')"
    and s': "fork_healthy s'" "fork_val s' = fork_val s1"
    using Cons.IH [OF s1(2), of ?m] Cons.prems(2) unfolding same s1(3) by auto
  have "balance_of L s a (token_l2_address t) = (if x \<noteq> 0 then Some x else None)"
    by (simp add: balance_of_def x)
  then have "(\<lambda>u. if u \<in> token_l2_address ` set ts \<and> balance_of L s a u \<noteq> None then balance_of L s a u else ?m u) =
      (\<lambda>u. if u \<in> token_l2_address ` set (t # ts) \<and> balance_of L s a u \<noteq> None then balance_of L s a u else m u)"
    by (auto simp: fun_eq_iff)
  then show ?case
    using run s1 s' by simp
qed simp

text \<open>\<^verbatim>\<open>zks_getAllAccountBalances\<close> answers exactly the balances of the confirmed tokens that are not
  zero, each with its value in the present state.\<close>

theorem all_balances_exact:
  assumes "\<not> lock_poisoned (node_inner node)" and "s = node_storage (lock_value (node_inner node))"
    and "fork_healthy s" and "fst (zks_get_confirmed_tokens L 0 100 node) = Ok tokens"
    and "\<forall>t \<in> set tokens. fork_val s (storage_key_for_standard_token_balance L (token_l2_address t) a) \<noteq> None"
  shows "fst (zks_get_all_account_balances L a node) =
    Ok (\<lambda>t. if t \<in> token_l2_address ` set tokens then balance_of L s a t else None)"
proof -
  have "zks_get_confirmed_tokens L 0 100 node = (Ok tokens, node)"
    using assms(1,4) by (simp add: zks_get_confirmed_tokens_def eth_read_run)
  moreover obtain s' where "read_balances L a tokens Map.empty s =
      (Some (\<lambda>t. if t \<in> token_l2_address ` set tokens \<and> balance_of L s a t \<noteq> None then balance_of L s a t else None), s')"
    using read_balances_run [OF assms(3,5)] by blast
  moreover have "(\<lambda>t. if t \<in> token_l2_address ` set tokens \<and> balance_of L s a t \<noteq> None then balance_of L s a t else None) =
      (\<lambda>t. if t \<in> token_l2_address ` set tokens then balance_of L s a t else None)"
    by (auto simp: fun_eq_iff)
  ultimately show ?thesis
    using assms(1,2)
    by (simp add: zks_get_all_account_balances_def eth_write_def with_inner_def with_write_def storage_op_def)
qed

theorem all_balances_exact_witness:
  "\<exists>node'. set_balance example_lib 7 1000 example_node = (Ok True, node') \<and>
     fst (zks_get_all_account_balances example_lib 7 node') = Ok [0x800A \<mapsto> 1000]"
proof -
  let ?n = "lock_value (node_inner example_node)"
  let ?s = "update_raw (mem_set_value (0x800A, 7) 1000) example_storage"
  let ?node = "example_node\<lparr>node_inner := \<lparr>lock_value = ?n\<lparr>node_storage := ?s\<rparr>, lock_poisoned = False\<rparr>\<rparr>"
  have set: "set_balance example_lib 7 1000 example_node = (Ok True, ?node)"
    using fork_set_value_run [OF example_storage_healthy, of "(0x800A, 7)" 1000]
    by (simp add: set_balance_def with_inner_def with_write_def storage_op_def example_node_storage
        example_lib_at_def)
  have h: "fork_healthy (node_storage (lock_value (node_inner ?node)))"
    using example_storage_healthy by simp
  have v: "fork_val ?s k = Some (if k = (0x800A, 7) then 1000 else 0)" for k
    by (simp add: fork_val_update_state mem_set_value_def)
      (simp add: example_storage_def fork_val_def ForkStorage_new_def empty_genesis_def local_value_def
        remote_value_def Let_def)
  have tokens: "fst (zks_get_confirmed_tokens example_lib 0 100 ?node) =
      Ok [\<lparr>token_l1_address = 0, token_l2_address = 0x800A, token_name = ''Ether'', token_symbol = ''ETH'', token_decimals = 18\<rparr>]"
    by (simp add: zks_get_confirmed_tokens_def eth_read_run fork_of_def example_storage_def ForkStorage_new_def
        example_lib_at_def Let_def)
  show ?thesis
    using set all_balances_exact [OF _ refl h tokens, of 7] v
    by (auto simp: balance_of_def example_lib_at_def fun_eq_iff)
qed

end
