(* ===== verification/DebugNamespace.thy ===== *)
theory DebugNamespace
  imports ZksNamespace
begin

text \<open>
  The \<^verbatim>\<open>debug\<close> namespace of the RPC interface (\<^verbatim>\<open>src/.test-node-subtree/src/node/debug.rs\<close>): the traces
  of stored transactions, and the trace of a call that is run and thrown away.
\<close>

section \<open>Handlers\<close>

definition block_not_found :: RpcError where
  "block_not_found = SubmitTransactionError ''Block not found'' []"

fun collect_traces :: "bool \<Rightarrow> InMemoryNodeInner \<Rightarrow> h256 list \<Rightarrow> (RpcError, DebugCall list) rust" where
  "collect_traces only_top n [] = Ok []"
| "collect_traces only_top n (h # hs) =
     (case map_of (tx_results n) h of
        None \<Rightarrow> Err (SubmitTransactionError ''Transaction not found'' [])
      | Some tx \<Rightarrow> rust_bind (collect_traces only_top n hs) (\<lambda>ts. Ok (debug_info tx only_top # ts)))"

definition trace_block :: "bool \<Rightarrow> Block option \<Rightarrow> InMemoryNodeInner \<Rightarrow> (RpcError, DebugCall list) rust" where
  "trace_block only_top b n =
     rust_bind (ok_or block_not_found b)
       (\<lambda>b. collect_traces only_top n (map variant_hash (block_transactions b)))"

definition trace_block_by_number ::
  "BlockNumber \<Rightarrow> bool \<Rightarrow> (InMemoryNode, RpcError, DebugCall list) op" where
  "trace_block_by_number bn only_top = eth_read (\<lambda>n. trace_block only_top (local_block bn n) n)"

definition trace_block_by_hash :: "h256 \<Rightarrow> bool \<Rightarrow> (InMemoryNode, RpcError, DebugCall list) op" where
  "trace_block_by_hash hash only_top = eth_read (\<lambda>n. trace_block only_top (blocks n hash) n)"

definition trace_transaction :: "h256 \<Rightarrow> bool \<Rightarrow> (InMemoryNode, RpcError, DebugCall option) op" where
  "trace_transaction hash only_top =
     eth_read (\<lambda>n. Ok (map_option (\<lambda>tx. debug_info tx only_top) (map_of (tx_results n) hash)))"

text \<open>The transaction of a traced call: some signature, and the gas limit of calls.\<close>

definition traced_tx :: "lib \<Rightarrow> L2Tx \<Rightarrow> L2Tx" where
  "traced_tx L tx =
     tx\<lparr>l2_signature := (if l2_signature tx = [] then default_signature L else l2_signature tx),
        l2_fee := (l2_fee tx)\<lparr>gas_limit := ucast (eth_call_gas_limit L)\<rparr>\<rparr>"

text \<open>The enforced base fee is the maximal fee of the request as a 64-bit number; a larger one panics.\<close>

definition traced_run ::
  "lib \<Rightarrow> 'vm vm_api \<Rightarrow> L2Tx \<Rightarrow> bool \<Rightarrow> InMemoryNodeInner \<Rightarrow>
   (view, (RpcError, DebugCall) rust) action" where
  "traced_run L V tx only_top n =
     (case contracts_for_l2_call (system_contracts n) of
        None \<Rightarrow> act_panic
      | Some bootloader_code \<Rightarrow>
          act_bind (create_l1_batch_env L n) (\<lambda>(env, _).
          if unat (max_fee_per_gas (l2_fee tx)) \<ge> 2 ^ 64 then act_panic
          else act_bind (vm_new V (env\<lparr>be_enforced_base_fee := Some (ucast (max_fee_per_gas (l2_fee tx)))\<rparr>)
                           (create_system_env L n bootloader_code EthCall)) (\<lambda>vm.
               act_bind (vm_inspect V (vm_push_transaction V (traced_tx L tx) vm)) (\<lambda>(out, _).
               let call_traces = (if only_top then []
                                  else case out_calls out of Some cs \<Rightarrow> cs | None \<Rightarrow> [])
               in act_return (create_debug_output (contract_deployer_address L) (call_into L)
                    (traced_tx L tx) (out_result out) call_traces)))))"

datatype BlockId = BlockIdHash h256 | BlockIdNumber BlockNumber

definition supported_block :: "BlockId option \<Rightarrow> bool" where
  "supported_block blk \<longleftrightarrow> blk = None \<or> blk = Some (BlockIdNumber Latest)"

definition trace_call ::
  "lib \<Rightarrow> ('c, 'r) request_lib \<Rightarrow> 'vm vm_api \<Rightarrow> 'c CallRequest_scheme \<Rightarrow> BlockId option \<Rightarrow> bool \<Rightarrow>
   (InMemoryNode, RpcError, DebugCall) op" where
  "trace_call L R V request blk only_top =
     (if \<not> supported_block blk
      then op_fail (Err (InvalidParams ''tracing only supported at `latest` block''))
      else shared_inner InternalError (\<lambda>n.
        case l2_tx_from_request R (request_from_call R request) MAX_TX_SIZE of
          Inl e \<Rightarrow> (Err (SerializationError e), n)
        | Inr tx \<Rightarrow> (case view_op (traced_run L V tx only_top n) n of
              (Ok r, n') \<Rightarrow> (r, n') | (Err e, n') \<Rightarrow> (Err e, n') | (Panic, n') \<Rightarrow> (Panic, n'))))"

section \<open>Properties\<close>

lemma ran_block_transactions:
  assumes "ran L V tx mode node raw v"
  shows "\<exists>t. block_transactions (raw_block raw) = [FullTx t] \<and> tx_hash t = tx_hash (api_transaction_from L tx)"
  using assms unfolding ran_def run_raw_body_def
  by (auto simp: tx_block_def Let_def elim!: act_bind_SomeE split: prod.splits option.splits if_splits)

lemma raw_block_details:
  assumes "raw_wf raw" and "unat (block_number (raw_block raw)) < 2 ^ 32"
    and "block_transactions (raw_block raw) = [t]"
  shows "\<exists>d. local_block_details version baseline (raw_block raw) = Ok d \<and>
    bd_root_hash d = Some (block_hash (raw_block raw)) \<and> bd_number d = ucast (block_number (raw_block raw)) \<and>
    bd_l2_tx_count d = 1"
proof -
  have batch: "u64_as_u32 (ucast (ctx_batch (raw_block_ctx raw))) = Some (ctx_batch (raw_block_ctx raw))"
    using unsigned_less [of "ctx_batch (raw_block_ctx raw)"] by (simp add: u64_as_u32_def unat_ucast_up ucast_up_down)
  have "unat (block_timestamp (raw_block raw)) < 2 ^ 64"
    using assms(1) unsigned_less [of "ctx_timestamp (raw_block_ctx raw)"] by (simp add: raw_wf_def unat_ucast_up)
  then show ?thesis
    using assms batch by (simp add: local_block_details_def raw_wf_def) (simp add: u64_as_u32_def)
qed

lemma committed_node:
  assumes "lawful_vm L V" and "ran L V tx mode node raw v" and "not_halted raw"
    and "tx_record L tx raw = Some rec"
    and "in_step (lock_value (node_inner node)) (raw_block_ctx raw)"
    and "chain_wf (lock_value (node_inner node))"
    and "blocks (lock_value (node_inner node)) (block_hash (raw_block raw)) = None"
    and "blocks (lock_value (node_inner node)) (block_hash (end_block L raw)) = None"
    and "block_hash (raw_block raw) \<noteq> block_hash (end_block L raw)"
    and "unat (current_miniblock (lock_value (node_inner node))) + 2 < 2 ^ 64"
  obtains n' where "run_l2_tx L V tx mode node = (Ok (), node\<lparr>node_inner := \<lparr>lock_value = n', lock_poisoned = False\<rparr>\<rparr>)"
    and "ledger n' (current_miniblock (lock_value (node_inner node)) + 1) = Some (raw_block raw)"
    and "map_of (tx_results n') (l2_tx_hash L tx) = Some rec"
    and "chain_wf n'"
proof -
  let ?n = "lock_value (node_inner node)"
  let ?m = "(announced L tx ?n)\<lparr>node_storage := storage_handle v\<rparr>"
  have "chain_linked ?m"
    using assms(6) by (simp add: chain_wf_def)
  then have wf: "chain_wf (after_commit L tx raw rec ?m)"
    and "ledger (after_commit L tx raw rec ?m) =
      (ledger ?n)(current_miniblock ?n + 1 \<mapsto> raw_block raw, current_miniblock ?n + 2 \<mapsto> end_block L raw)"
    using after_commit_chain(1,2) [of raw ?m L tx rec] assms(5-10) ran_wf [OF assms(2)] by simp_all
  moreover have "current_miniblock ?n + 1 \<noteq> current_miniblock ?n + 2"
    by simp
  ultimately have "ledger (after_commit L tx raw rec ?m) (current_miniblock ?n + 1) = Some (raw_block raw)"
    by simp
  moreover have "map_of (tx_results (after_commit L tx raw rec ?m)) (l2_tx_hash L tx) = Some rec"
    by (simp add: after_commit_def update_conv')
  ultimately show ?thesis
    using wf that [of "after_commit L tx raw rec ?m"] assms(5) by (simp add: run_l2_tx_commit [OF assms(1-4)])
qed

text \<open>C23: The block that a transaction commits is served by every query about it: the trace of the block is
  the debug record of the transaction, which the query by transaction hash answers too; its raw
  transactions are the transaction as it was submitted; and its details carry the hash and number of the
  block and count one transaction.\<close>

theorem committed_block_is_served:
  assumes "lawful_vm L V" and "ran L V tx mode node raw v" and "not_halted raw"
    and "tx_record L tx raw = Some rec"
    and "in_step (lock_value (node_inner node)) (raw_block_ctx raw)"
    and "chain_wf (lock_value (node_inner node))"
    and "blocks (lock_value (node_inner node)) (block_hash (raw_block raw)) = None"
    and "blocks (lock_value (node_inner node)) (block_hash (end_block L raw)) = None"
    and "block_hash (raw_block raw) \<noteq> block_hash (end_block L raw)"
    and "unat (current_miniblock (lock_value (node_inner node))) + 2 < 2 ^ 32"
    and "tx_hash (api_transaction_from L tx) = l2_tx_hash L tx"
    and "number = ucast (current_miniblock (lock_value (node_inner node)) + 1)"
    and "run_l2_tx L V tx mode node = (Ok (), node')"
  shows "fst (trace_block_by_number (Number (ucast number)) only_top node') = Ok [debug_info rec only_top] \<and>
    fst (trace_block_by_hash (block_hash (raw_block raw)) only_top node') = Ok [debug_info rec only_top] \<and>
    fst (trace_transaction (l2_tx_hash L tx) only_top node') = Ok (Some (debug_info rec only_top)) \<and>
    fst (zks_get_raw_block_transactions number node') = Ok [RawL2 tx] \<and>
    (\<exists>d. fst (zks_get_block_details version number node') = Ok (Some d) \<and>
         bd_root_hash d = Some (block_hash (raw_block raw)) \<and> bd_number d = number \<and> bd_l2_tx_count d = 1)"
proof -
  let ?n = "lock_value (node_inner node)"
  let ?b = "raw_block raw"
  have "unat (current_miniblock ?n) + 2 < 2 ^ 64"
    using assms(10) by simp
  from committed_node [OF assms(1-9) this] obtain n' where
    run: "run_l2_tx L V tx mode node = (Ok (), node\<lparr>node_inner := \<lparr>lock_value = n', lock_poisoned = False\<rparr>\<rparr>)"
    and b: "ledger n' (current_miniblock ?n + 1) = Some ?b"
    and rec: "map_of (tx_results n') (l2_tx_hash L tx) = Some rec"
    and chain: "chain_wf n'" .
  have node': "\<not> lock_poisoned (node_inner node')" "lock_value (node_inner node') = n'"
    using assms(13) run by auto
  have small: "unat (current_miniblock ?n + 1) = unat (current_miniblock ?n) + 1"
    using assms(10) by (simp add: unat_word_ariths)
  then have up: "ucast number = current_miniblock ?n + 1"
    using assms(10,12) by (simp add: ucast_down_up)
  obtain t where t: "block_transactions ?b = [FullTx t]" "tx_hash t = l2_tx_hash L tx"
    using ran_block_transactions [OF assms(2)] assms(11) by auto
  have found: "Option.bind (node_block_hashes n' (ucast number)) (blocks n') = Some ?b"
    using b up by (simp add: ledger_def)
  then have hash: "blocks n' (block_hash ?b) = Some ?b"
    using chain by (fastforce simp: chain_wf_def chain_linked_def bind_eq_Some_conv)
  have wf: "raw_wf raw"
    by (rule ran_wf [OF assms(2)])
  have n: "block_number ?b = current_miniblock ?n + 1"
    using wf assms(5) \<open>unat (current_miniblock ?n) + 2 < 2 ^ 64\<close>
    by (simp add: raw_wf_def in_step_def sat_add_one)
  have "unat (block_number ?b) < 2 ^ 32"
    using small assms(10) by (simp add: n)
  from raw_block_details [OF wf this t(1)] obtain d where
    d: "local_block_details version (baseline_contracts (system_contracts n')) ?b = Ok d"
      "bd_root_hash d = Some (block_hash ?b)" "bd_number d = number" "bd_l2_tx_count d = 1"
    using assms(12) n by metis
  have "fst (zks_get_block_details version number node') = Ok (Some d)"
    using found node' d(1) by (simp add: zks_get_block_details_def eth_read_run)
  then show ?thesis
    using tx_record_receipt [OF assms(4)] found hash rec t node' d(2-4)
    by (auto simp: trace_block_by_number_def trace_block_by_hash_def trace_transaction_def
        zks_get_raw_block_transactions_def eth_read_run local_block_def
        real_number_def trace_block_def variant_hash_def local_raw_transactions_def map_filter_def)
qed

theorem committed_block_is_served_witness:
  "\<exists>node' d. run_l2_tx example_lib (example_vm 0 (Success [])) (example_tx 1) VerifyExecute example_node =
       (Ok (), node') \<and>
     fst (trace_block_by_number (Number 1) True node') = Ok [d] \<and>
     fst (trace_transaction 101 True node') = Ok (Some d) \<and>
     fst (zks_get_raw_block_transactions 1 node') = Ok [RawL2 (example_tx 1)]"
proof -
  let ?V = "example_vm 0 (Success [])" and ?n = "lock_value (node_inner example_node)"
  obtain raw v rec where r: "ran example_lib ?V (example_tx 1) VerifyExecute example_node raw v" "not_halted raw"
      "tx_record example_lib (example_tx 1) raw = Some rec" "in_step ?n (raw_block_ctx raw)"
    using example_ran [of 0 "Success []" 1] by blast
  have ctx: "ctx_miniblock (raw_block_ctx raw) = 1"
    using r(4) by (simp add: in_step_def sat_add_def)
  have h1: "block_hash (raw_block raw) = 101001"
    using ran_hash [OF r(1)] ctx example_hashes(2) by (simp add: example_tx_hash)
  have h2: "block_hash (end_block example_lib raw) = 2"
    using ctx example_hashes(3)
    by (simp add: end_block_def create_empty_block_def new_block_def sat_add_def Let_def)
  have bl: "blocks ?n (block_hash (raw_block raw)) = None" "blocks ?n (block_hash (end_block example_lib raw)) = None"
    using example_hashes(1) h1 h2
    by (auto simp: example_node_def InMemoryNode_new_def create_empty_block_def Let_def)
  have ne: "block_hash (raw_block raw) \<noteq> block_hash (end_block example_lib raw)"
    by (simp add: h1 h2)
  have small: "unat (current_miniblock ?n) + 2 < 2 ^ 32"
    by simp
  have th: "tx_hash (api_transaction_from example_lib (example_tx 1)) = l2_tx_hash example_lib (example_tx 1)"
    by (simp add: example_lib_at_def example_tx_def)
  have one: "(1 :: u32) = ucast (current_miniblock ?n + 1)"
    by simp
  obtain node' where run: "run_l2_tx example_lib ?V (example_tx 1) VerifyExecute example_node = (Ok (), node')"
    using run_l2_tx_commit [OF lawful_example r(1-3)] r(4) by simp
  show ?thesis
    using committed_block_is_served [OF lawful_example r example_chain_wf bl ne small th one run, of True]
      run example_tx_hash by auto
qed

subsection \<open>Sandboxed runs\<close>

lemma same_node_refl: "fork_healthy (node_storage n) \<Longrightarrow> same_node n n"
  by (auto simp: same_node_def intro!: exI [of _ "node_storage n"])

lemma view_op_determined:
  assumes "by_answers act" and "by_accesses act" and "same_node n m"
    and "view_op act n = (r, n')" and "r \<noteq> Panic"
  shows "\<exists>m'. view_op act m = (r, m') \<and> same_node n n' \<and> same_node m m'"
proof -
  have run: "view_op act k = (outcome_of (fst (on_view act (node_storage k))),
      k\<lparr>node_storage := snd (on_view act (node_storage k))\<rparr>)" for k
    by (simp add: view_op_def on_view_def split: prod.splits)
  have h: "fork_healthy (node_storage n)" "fork_healthy (node_storage m)"
    "meaning (node_storage m) = meaning (node_storage n)"
    using assms(3) by (auto simp: same_node_def)
  have same: "fst (on_view act (node_storage m)) = fst (on_view act (node_storage n))"
    using on_view_determined [OF assms(1) h(2,1,3)] .
  obtain a where a: "fst (on_view act (node_storage n)) = Some a"
    using assms(4,5) unfolding run by (cases "fst (on_view act (node_storage n))") auto
  have step: "same_node k (k\<lparr>node_storage := snd (on_view act (node_storage k))\<rparr>)"
    if "fork_healthy (node_storage k)" "fst (on_view act (node_storage k)) = Some a" for k
    using on_view_frame [OF assms(2) that(1), of a "snd (on_view act (node_storage k))"] that
    by (auto simp: same_node_def prod_eq_iff)
  show ?thesis
    using assms(4) step [OF h(1) a] step [OF h(2)] a same by (auto simp: run)
qed

lemma create_l1_batch_env_same: "same_node n m \<Longrightarrow> create_l1_batch_env L m = create_l1_batch_env L n"
  by (auto simp: same_node_def)

lemma runs_same:
  assumes "same_node n m"
  shows "called_run L V tx m = called_run L V tx n" and "traced_run L V tx only m = traced_run L V tx only n"
proof -
  have "system_contracts m = system_contracts n"
    using assms by (auto simp: same_node_def)
  then show "called_run L V tx m = called_run L V tx n" and "traced_run L V tx only m = traced_run L V tx only n"
    unfolding called_run_def traced_run_def create_system_env_same [OF assms] create_l1_batch_env_same [OF assms]
    by simp_all
qed

lemma by_runs:
  assumes "lawful_vm L V" and "deterministic_vm L V"
  shows "by_accesses (called_run L V tx n)" and "by_accesses (traced_run L V tx only n)"
    and "by_answers (called_run L V tx n)" and "by_answers (traced_run L V tx only n)"
proof -
  note d = deterministic_vmD [OF assms(2)] and l = lawful_vmD [OF assms(1)]
  show "by_accesses (called_run L V tx n)" "by_accesses (traced_run L V tx only n)"
    unfolding called_run_def traced_run_def Let_def
    by (auto intro!: by_accesses_bind by_accesses_env l split: option.splits prod.splits)
  show "by_answers (called_run L V tx n)" "by_answers (traced_run L V tx only n)"
    unfolding called_run_def traced_run_def Let_def
    by (auto intro!: by_answers_bind by_answers_env d split: option.splits prod.splits)
qed

text \<open>A node that differs from another in a storage of the same meaning behind a healthy lock.\<close>

definition same_inner :: "InMemoryNode \<Rightarrow> InMemoryNode \<Rightarrow> bool" where
  "same_inner node node' \<longleftrightarrow>
     \<not> lock_poisoned (node_inner node) \<and> \<not> lock_poisoned (node_inner node') \<and>
     same_node (lock_value (node_inner node)) (lock_value (node_inner node'))"

lemma is_panic_call_answer [simp]: "is_panic (call_answer q) = is_panic q"
  by (cases q) (simp_all add: call_answer_def split: ExecutionResult.split)

lemma eth_call_run:
  assumes "\<not> lock_poisoned (node_inner node)"
    and "l2_tx_from_request R (request_from_call R req) MAX_TX_SIZE = Inr tx"
    and "view_op (called_run L V (tx\<lparr>l2_fee := (l2_fee tx)\<lparr>gas_limit := ucast (eth_call_gas_limit L)\<rparr>\<rparr>)
      (lock_value (node_inner node))) (lock_value (node_inner node)) = (q, n')"
  shows "eth_call L R V req blk node =
    (call_answer q, node\<lparr>node_inner := (node_inner node)\<lparr>lock_value := n', lock_poisoned := is_panic q\<rparr>\<rparr>)"
  using assms by (simp add: eth_call_def run_l2_call_def with_inner_def with_write_def Let_def)

lemma eth_call_sandboxed:
  assumes "lawful_vm L V" and "deterministic_vm L V"
    and "same_inner node other" and "eth_call L R V req blk node = (r, node')" and "r \<noteq> Panic"
  shows "\<exists>other'. eth_call L R V req blk other = (r, other') \<and> same_inner node node'"
proof (cases "l2_tx_from_request R (request_from_call R req) MAX_TX_SIZE")
  case (Inl e)
  then have "eth_call L R V req blk k = (Err (SerializationError e), k)" for k
    by (simp add: eth_call_def)
  then show ?thesis
    using assms(3,4) same_node_refl [of "lock_value (node_inner node)"]
    by (auto simp: same_inner_def same_node_def)
next
  case (Inr tx)
  let ?n = "lock_value (node_inner node)" and ?m = "lock_value (node_inner other)"
  let ?run = "called_run L V (tx\<lparr>l2_fee := (l2_fee tx)\<lparr>gas_limit := ucast (eth_call_gas_limit L)\<rparr>\<rparr>)"
  have np: "\<not> lock_poisoned (node_inner node)" "\<not> lock_poisoned (node_inner other)" and s: "same_node ?n ?m"
    using assms(3) by (simp_all add: same_inner_def)
  obtain q :: "(string, VmExecutionResultAndLogs) rust" and n' where q: "view_op (?run ?n) ?n = (q, n')" by fastforce
  have r: "r = call_answer q"
    "node' = node\<lparr>node_inner := (node_inner node)\<lparr>lock_value := n', lock_poisoned := is_panic q\<rparr>\<rparr>"
    using assms(4) eth_call_run [OF np(1) Inr q] by auto
  have ok: "\<not> is_panic q"
    using assms(5) r(1) is_panic_call_answer [of q] by (cases "call_answer q") auto
  then obtain m' where "view_op (?run ?n) ?m = (q, m')" "same_node ?n n'"
    using view_op_determined [OF by_runs(3,1) [OF assms(1,2)] s q] by (cases q) auto
  then show ?thesis
    using eth_call_run [OF np(2) Inr, of L V q m' blk] r ok np(1) by (simp add: runs_same(1) [OF s] same_inner_def)
qed

lemma trace_call_sandboxed:
  assumes "lawful_vm L V" and "deterministic_vm L V"
    and "same_inner node other" and "trace_call L R V req blk only node = (r, node')" and "r \<noteq> Panic"
  shows "\<exists>other'. trace_call L R V req blk only other = (r, other') \<and> same_inner node node'"
proof (cases "supported_block blk \<and> (\<exists>tx. l2_tx_from_request R (request_from_call R req) MAX_TX_SIZE = Inr tx)")
  case False
  have "\<exists>e. \<forall>k. \<not> lock_poisoned (node_inner k) \<longrightarrow> trace_call L R V req blk only k = (Err e, k)"
  proof (cases "supported_block blk")
    case True
    with False obtain e where "l2_tx_from_request R (request_from_call R req) MAX_TX_SIZE = Inl e"
      by (cases "l2_tx_from_request R (request_from_call R req) MAX_TX_SIZE") auto
    then show ?thesis
      using True by (simp add: trace_call_def shared_inner_def)
  qed (auto simp: trace_call_def)
  then obtain e where fail: "trace_call L R V req blk only k = (Err e, k)" if "\<not> lock_poisoned (node_inner k)" for k
    by blast
  show ?thesis
    using assms(3,4) fail [of node] fail [of other] same_node_refl [of "lock_value (node_inner node)"]
    by (auto simp: same_inner_def same_node_def)
next
  case True
  then obtain tx where tx: "supported_block blk" "l2_tx_from_request R (request_from_call R req) MAX_TX_SIZE = Inr tx"
    by blast
  let ?n = "lock_value (node_inner node)" and ?m = "lock_value (node_inner other)"
  have np: "\<not> lock_poisoned (node_inner node)" "\<not> lock_poisoned (node_inner other)" and s: "same_node ?n ?m"
    using assms(3) by (simp_all add: same_inner_def)
  have run: "trace_call L R V req blk only node =
      (case view_op (traced_run L V tx only (lock_value (node_inner node))) (lock_value (node_inner node)) of
         (q, n') \<Rightarrow> (rust_bind q id, node\<lparr>node_inner := (node_inner node)\<lparr>lock_value := n'\<rparr>\<rparr>))"
    if "\<not> lock_poisoned (node_inner node)" for node
    using that tx by (simp add: trace_call_def shared_inner_def split: prod.split rust.split)
  obtain q :: "(RpcError, (RpcError, DebugCall) rust) rust" and n' where q: "view_op (traced_run L V tx only ?n) ?n = (q, n')"
    by fastforce
  have r: "r = rust_bind q id" "node' = node\<lparr>node_inner := (node_inner node)\<lparr>lock_value := n'\<rparr>\<rparr>"
    using assms(4) run [OF np(1)] q by auto
  have ok: "q \<noteq> Panic"
    using r(1) assms(5) by auto
  obtain m' where "view_op (traced_run L V tx only ?n) ?m = (q, m')" "same_node ?n n'"
    using view_op_determined [OF by_runs(4,2) [OF assms(1,2)] s q ok] by blast
  then show ?thesis
    using run [OF np(2)] r np(1) by (simp add: runs_same(2) [OF s] same_inner_def)
qed

text \<open>C24: A call and the trace of a call are sandboxed: whatever they answer, the node afterwards differs from
  the node before in a storage of the same meaning only, and a client that asks for both again, in the
  other order, gets the same answers.\<close>

theorem sandboxed_calls_repeatable:
  assumes "lawful_vm L V" and "deterministic_vm L V" and "\<not> lock_poisoned (node_inner node)"
    and "fork_healthy (node_storage (lock_value (node_inner node)))"
    and "eth_call L R V req blk node = (r, node1)" and "r \<noteq> Panic"
    and "trace_call L R V req tid only node1 = (d, node2)" and "d \<noteq> Panic"
  shows "same_inner node node2 \<and>
    (\<exists>node3 node4. trace_call L R V req tid only node2 = (d, node3) \<and>
       eth_call L R V req blk node3 = (r, node4) \<and> same_inner node node4)"
proof -
  have trans: "same_inner a c" if "same_inner a b" "same_inner b c" for a b c
    using that same_node_trans by (auto simp: same_inner_def)
  have sym: "same_inner b a" if "same_inner a b" for a b
    using that same_node_sym by (auto simp: same_inner_def)
  have 0: "same_inner node node"
    using assms(3,4) by (simp add: same_inner_def same_node_refl)
  have 1: "same_inner node node1"
    using eth_call_sandboxed [OF assms(1,2) 0 assms(5,6)] by blast
  have 2: "same_inner node1 node2"
    using trace_call_sandboxed [OF assms(1,2) trans [OF sym [OF 1] 1] assms(7,8)] by blast
  obtain node3 where 3: "trace_call L R V req tid only node2 = (d, node3)"
    using trace_call_sandboxed [OF assms(1,2) 2 assms(7,8)] by blast
  have 23: "same_inner node2 node3"
    using trace_call_sandboxed [OF assms(1,2) trans [OF sym [OF 2] 2] 3 assms(8)] by blast
  have 03: "same_inner node node3"
    using trans 1 2 23 by blast
  obtain node4 where 4: "eth_call L R V req blk node3 = (r, node4)"
    using eth_call_sandboxed [OF assms(1,2) 03 assms(5,6)] by blast
  have "same_inner node3 node4"
    using eth_call_sandboxed [OF assms(1,2) trans [OF sym [OF 03] 03] 4 assms(6)] by blast
  then show ?thesis
    using 1 2 3 4 03 trans by blast
qed

lemma example_sandbox:
  assumes "node_storage n = example_storage"
  shows "\<exists>v. called_run example_lib (example_vm 0 (Success [])) tx n (StorageView_new example_storage) =
      (Some (example_outcome (Success [])), v)"
    and "unat (max_fee_per_gas (l2_fee tx)) < 2 ^ 64 \<Longrightarrow>
      \<exists>d v. traced_run example_lib (example_vm 0 (Success [])) tx only n (StorageView_new example_storage) =
        (Some d, v) \<and> d \<noteq> Panic"
proof -
  obtain env ctx v where env: "create_l1_batch_env example_lib n (StorageView_new example_storage) =
      (Some (env, ctx), v)" "storage_handle v = example_storage" "modified_keys v = []"
    using example_env [OF assms, of None] assms by auto
  obtain o' v' where w: "set_value (storage_view fork_storage) (0xB, 2) 3 v = (Some o', v')"
    using example_write [OF env(2,3)] by blast
  obtain code where bl: "contracts_for_l2_call (system_contracts n) = Some code"
    by (cases "contracts_for_l2_call (system_contracts n)") (auto simp: contracts_for_l2_call_def)
  show "\<exists>v. called_run example_lib (example_vm 0 (Success [])) tx n (StorageView_new example_storage) =
      (Some (example_outcome (Success [])), v)"
    using env(1) w bl by (simp add: called_run_def example_vm_def Let_def)
  show "unat (max_fee_per_gas (l2_fee tx)) < 2 ^ 64 \<Longrightarrow>
      \<exists>d v. traced_run example_lib (example_vm 0 (Success [])) tx only n (StorageView_new example_storage) =
        (Some d, v) \<and> d \<noteq> Panic"
    using env(1) w bl
    by (auto simp: traced_run_def example_vm_def example_outcome_def create_debug_output_def Let_def)
qed

theorem sandboxed_calls_repeatable_witness:
  "\<exists>r d node1 node2 node3 node4.
     eth_call example_lib example_requests (example_vm 0 (Success [])) example_call None example_node = (Ok r, node1) \<and>
     trace_call example_lib example_requests (example_vm 0 (Success [])) example_call None True node1 = (d, node2) \<and>
     trace_call example_lib example_requests (example_vm 0 (Success [])) example_call None True node2 = (d, node3) \<and>
     eth_call example_lib example_requests (example_vm 0 (Success [])) example_call None node3 = (Ok r, node4)"
proof -
  let ?V = "example_vm 0 (Success [])" and ?n = "lock_value (node_inner example_node)"
  let ?call = "eth_call example_lib example_requests ?V example_call None"
  let ?trace = "trace_call example_lib example_requests ?V example_call None True"
  have np: "\<not> lock_poisoned (node_inner example_node)" and h: "fork_healthy (node_storage ?n)"
    by simp_all
  then have self: "same_inner example_node example_node"
    by (simp add: same_inner_def same_node_refl)
  have tx: "l2_tx_from_request example_requests req MAX_TX_SIZE = Inr (example_tx 1)" for req
    by (simp add: example_requests_def)
  let ?tx = "(example_tx 1)\<lparr>l2_fee := (l2_fee (example_tx 1))\<lparr>gas_limit := ucast (eth_call_gas_limit example_lib)\<rparr>\<rparr>"
  obtain v where "called_run example_lib ?V ?tx ?n (StorageView_new example_storage) =
      (Some (example_outcome (Success [])), v)"
    using example_sandbox(1) [OF example_node_storage] by blast
  then have called: "view_op (called_run example_lib ?V ?tx ?n) ?n =
      (Ok (example_outcome (Success [])), ?n\<lparr>node_storage := storage_handle v\<rparr>)"
    by (simp add: view_op_def example_node_storage)
  obtain r node1 where call: "?call example_node = (Ok r, node1)"
    using eth_call_run [OF np tx called] by (simp add: call_answer_def example_outcome_def)
  have "unat (max_fee_per_gas (l2_fee (example_tx 1))) < 2 ^ 64"
    by (simp add: example_tx_def)
  from example_sandbox(2) [OF example_node_storage this] obtain d w where
    "traced_run example_lib ?V (example_tx 1) True ?n (StorageView_new example_storage) = (Some d, w)" "d \<noteq> Panic"
    by blast
  then have "\<exists>k. ?trace example_node = (d, k)"
    using np tx by (simp add: trace_call_def supported_block_def shared_inner_def view_op_def example_node_storage)
  moreover have "same_inner example_node node1"
    using eth_call_sandboxed [OF lawful_example deterministic_example self call] by blast
  ultimately obtain node2 where trace: "?trace node1 = (d, node2)"
    using trace_call_sandboxed [OF lawful_example deterministic_example _ _ \<open>d \<noteq> Panic\<close>] by blast
  have "Ok r \<noteq> Panic"
    by simp
  from sandboxed_calls_repeatable [OF lawful_example deterministic_example np h call this trace \<open>d \<noteq> Panic\<close>]
  show ?thesis
    using call trace by blast
qed

end
