(* ===== verification/ConfigNamespace.thy ===== *)
theory ConfigNamespace
  imports EthNamespace
begin

text \<open>
  The small namespaces of the RPC interface: \<^verbatim>\<open>config\<close> (display options and logging), \<^verbatim>\<open>evm\<close> and
  \<^verbatim>\<open>hardhat\<close> (the extensions of the node, every error of which becomes an internal error), \<^verbatim>\<open>net\<close> and
  \<^verbatim>\<open>web3\<close> (constants), of \<^verbatim>\<open>config.rs\<close>, \<^verbatim>\<open>evm.rs\<close>, \<^verbatim>\<open>hardhat.rs\<close>, \<^verbatim>\<open>net.rs\<close> and \<^verbatim>\<open>web3.rs\<close> under
  \<^verbatim>\<open>src/.test-node-subtree/src/node/\<close>.
\<close>

section \<open>Configuration\<close>

definition config_get_show_calls :: "(InMemoryNode, RpcError, string) op" where
  "config_get_show_calls = eth_read (\<lambda>n. Ok (print_show_calls (show_calls n)))"

definition config_get_current_timestamp :: "(InMemoryNode, RpcError, u64) op" where
  "config_get_current_timestamp = eth_read (\<lambda>n. Ok (current_timestamp n))"

text \<open>The setters of options share their shape: a text that does not parse changes nothing and answers the
  option as it is.\<close>

definition config_set ::
  "('o, 'v) rust \<Rightarrow> (InMemoryNodeInner \<Rightarrow> string) \<Rightarrow> ('v \<Rightarrow> InMemoryNodeInner \<Rightarrow> InMemoryNodeInner) \<Rightarrow>
   (InMemoryNode, RpcError, string) op" where
  "config_set parsed shown put =
     (case parsed of
        Ok v \<Rightarrow> eth_write (\<lambda>n. (Ok (shown (put v n)), put v n))
      | _ \<Rightarrow> eth_read (\<lambda>n. Ok (shown n)))"

definition config_set_show_calls :: "string \<Rightarrow> (InMemoryNode, RpcError, string) op" where
  "config_set_show_calls value =
     config_set (parse_show_calls value) (\<lambda>n. print_show_calls (show_calls n)) (\<lambda>v n. n\<lparr>show_calls := v\<rparr>)"

definition config_set_show_storage_logs :: "string \<Rightarrow> (InMemoryNode, RpcError, string) op" where
  "config_set_show_storage_logs value =
     config_set (parse_show_storage_logs value) (\<lambda>n. print_show_storage_logs (show_storage_logs n))
       (\<lambda>v n. n\<lparr>show_storage_logs := v\<rparr>)"

definition config_set_show_vm_details :: "string \<Rightarrow> (InMemoryNode, RpcError, string) op" where
  "config_set_show_vm_details value =
     config_set (parse_show_vm_details value) (\<lambda>n. print_show_vm_details (show_vm_details n))
       (\<lambda>v n. n\<lparr>show_vm_details := v\<rparr>)"

definition config_set_show_gas_details :: "string \<Rightarrow> (InMemoryNode, RpcError, string) op" where
  "config_set_show_gas_details value =
     config_set (parse_show_gas_details value) (\<lambda>n. print_show_gas_details (show_gas_details n))
       (\<lambda>v n. n\<lparr>show_gas_details := v\<rparr>)"

definition config_set_resolve_hashes :: "bool \<Rightarrow> (InMemoryNode, RpcError, bool) op" where
  "config_set_resolve_hashes value = eth_write (\<lambda>n. (Ok value, n\<lparr>resolve_hashes := value\<rparr>))"

text \<open>The log filter lies behind a handle of its own, so it is changed under the read guard. Without an
  observability there is nothing to set and the answer is true.\<close>

definition set_observability ::
  "(string Observability \<Rightarrow> (string, unit) rust \<times> string Observability) \<Rightarrow> (InMemoryNode, RpcError, bool) op" where
  "set_observability f =
     shared_inner InternalError (\<lambda>n.
       case observability n of
         None \<Rightarrow> (Ok True, n)
       | Some obs \<Rightarrow>
           (case f obs of (r, obs') \<Rightarrow>
              ((case r of Ok _ \<Rightarrow> Ok True | Err _ \<Rightarrow> Ok False | Panic \<Rightarrow> Panic),
               n\<lparr>observability := Some obs'\<rparr>)))"

definition config_set_log_level ::
  "(string \<Rightarrow> string option) \<Rightarrow> LogLevel \<Rightarrow> (InMemoryNode, RpcError, bool) op" where
  "config_set_log_level parse level = set_observability (set_log_level parse level)"

definition config_set_logging ::
  "(string \<Rightarrow> string option) \<Rightarrow> string \<Rightarrow> (InMemoryNode, RpcError, bool) op" where
  "config_set_logging parse directive = set_observability (set_logging parse directive)"

section \<open>Wrappers\<close>

definition internally :: "('s, string, 'a) op \<Rightarrow> ('s, RpcError, 'a) op" where
  "internally m s =
     (case m s of (Ok a, s') \<Rightarrow> (Ok a, s') | (Err _, s') \<Rightarrow> (Err InternalError, s') | (Panic, s') \<Rightarrow> (Panic, s'))"

definition evm_increase_time :: "u64 \<Rightarrow> (InMemoryNode, RpcError, u64) op" where
  "evm_increase_time delta = internally (increase_time delta)"

definition evm_mine :: "lib \<Rightarrow> 'vm vm_api \<Rightarrow> (InMemoryNode, RpcError, string) op" where
  "evm_mine L V = internally (mine_block L V)"

definition evm_set_next_block_timestamp :: "u64 \<Rightarrow> (InMemoryNode, RpcError, u64) op" where
  "evm_set_next_block_timestamp timestamp = internally (set_next_block_timestamp timestamp)"

definition evm_set_time :: "u64 \<Rightarrow> (InMemoryNode, RpcError, int) op" where
  "evm_set_time time = internally (set_time time)"

definition evm_snapshot :: "(InMemoryNode, RpcError, u64) op" where
  "evm_snapshot = internally snapshot"

definition evm_revert_snapshot :: "u64 \<Rightarrow> (InMemoryNode, RpcError, bool) op" where
  "evm_revert_snapshot snapshot_id = internally (revert_snapshot snapshot_id)"

definition hardhat_set_balance :: "lib \<Rightarrow> address \<Rightarrow> u256 \<Rightarrow> (InMemoryNode, RpcError, bool) op" where
  "hardhat_set_balance L a balance = internally (set_balance L a balance)"

definition hardhat_set_nonce :: "lib \<Rightarrow> address \<Rightarrow> u256 \<Rightarrow> (InMemoryNode, RpcError, bool) op" where
  "hardhat_set_nonce L a nonce = internally (set_nonce L a nonce)"

definition hardhat_mine ::
  "lib \<Rightarrow> 'vm vm_api \<Rightarrow> u64 option \<Rightarrow> u64 option \<Rightarrow> (InMemoryNode, RpcError, bool) op" where
  "hardhat_mine L V num_blocks interval = internally (mine_blocks L V num_blocks interval)"

definition hardhat_impersonate_account :: "address \<Rightarrow> (InMemoryNode, RpcError, bool) op" where
  "hardhat_impersonate_account a = internally (impersonate_account a)"

definition hardhat_stop_impersonating_account :: "address \<Rightarrow> (InMemoryNode, RpcError, bool) op" where
  "hardhat_stop_impersonating_account a = internally (ext_stop_impersonating_account a)"

definition hardhat_set_code :: "lib \<Rightarrow> address \<Rightarrow> bytes \<Rightarrow> (InMemoryNode, RpcError, unit) op" where
  "hardhat_set_code L a code = internally (set_code L a code)"

section \<open>Constants\<close>

definition net_version :: "(InMemoryNode, RpcError, string) op" where
  "net_version = op_return (decimal (unat TEST_NODE_NETWORK_ID))"

definition net_peer_count :: "(InMemoryNode, RpcError, u256) op" where
  "net_peer_count = op_return 0"

definition net_listening :: "(InMemoryNode, RpcError, bool) op" where
  "net_listening = op_return False"

definition web3_client_version :: "(InMemoryNode, RpcError, string) op" where
  "web3_client_version = op_return ''zkSync/v2.0''"

section \<open>Properties\<close>

definition chosen :: "('e, 'v) rust \<Rightarrow> 'v \<Rightarrow> 'v" where
  "chosen parsed old = (case parsed of Ok v \<Rightarrow> v | _ \<Rightarrow> old)"

text \<open>A setter of a display option answers the option that is in force afterwards, which is the one the
  text names or, when the text names none, the old one; nothing else of the node changes, and the getter
  agrees.\<close>

theorem config_setters_exact:
  assumes "\<not> lock_poisoned (node_inner node)" and "n = lock_value (node_inner node)"
    and "put = (\<lambda>m. node\<lparr>node_inner := (node_inner node)\<lparr>lock_value := m\<rparr>\<rparr>)"
  shows "(let c = chosen (parse_show_calls text) (show_calls n); node' = put (n\<lparr>show_calls := c\<rparr>)
      in config_set_show_calls text node = (Ok (print_show_calls c), node') \<and>
         config_get_show_calls node' = (Ok (print_show_calls c), node')) \<and>
    (let c = chosen (parse_show_storage_logs text) (show_storage_logs n)
      in config_set_show_storage_logs text node = (Ok (print_show_storage_logs c), put (n\<lparr>show_storage_logs := c\<rparr>))) \<and>
    (let c = chosen (parse_show_vm_details text) (show_vm_details n)
      in config_set_show_vm_details text node = (Ok (print_show_vm_details c), put (n\<lparr>show_vm_details := c\<rparr>))) \<and>
    (let c = chosen (parse_show_gas_details text) (show_gas_details n)
      in config_set_show_gas_details text node = (Ok (print_show_gas_details c), put (n\<lparr>show_gas_details := c\<rparr>)))"
proof -
  have set: "config_set parsed shown install node =
      (Ok (shown (case parsed of Ok v \<Rightarrow> install v n | _ \<Rightarrow> n)), put (case parsed of Ok v \<Rightarrow> install v n | _ \<Rightarrow> n))"
    for parsed :: "('o, 'w) rust" and shown install
    using assms by (cases parsed) (simp_all add: config_set_def eth_write_def with_inner_def with_write_def eth_read_run)
  show ?thesis
    unfolding Let_def
  proof (intro conjI)
    show "config_set_show_calls text node = (Ok (print_show_calls (chosen (parse_show_calls text) (show_calls n))),
        put (n\<lparr>show_calls := chosen (parse_show_calls text) (show_calls n)\<rparr>))"
      by (cases "parse_show_calls text") (simp_all add: config_set_show_calls_def set chosen_def)
    show "config_get_show_calls (put (n\<lparr>show_calls := chosen (parse_show_calls text) (show_calls n)\<rparr>)) =
        (Ok (print_show_calls (chosen (parse_show_calls text) (show_calls n))),
         put (n\<lparr>show_calls := chosen (parse_show_calls text) (show_calls n)\<rparr>))"
      using assms(1,3) by (simp add: config_get_show_calls_def eth_read_run)
    show "config_set_show_storage_logs text node =
        (Ok (print_show_storage_logs (chosen (parse_show_storage_logs text) (show_storage_logs n))),
         put (n\<lparr>show_storage_logs := chosen (parse_show_storage_logs text) (show_storage_logs n)\<rparr>))"
      by (cases "parse_show_storage_logs text") (simp_all add: config_set_show_storage_logs_def set chosen_def)
    show "config_set_show_vm_details text node =
        (Ok (print_show_vm_details (chosen (parse_show_vm_details text) (show_vm_details n))),
         put (n\<lparr>show_vm_details := chosen (parse_show_vm_details text) (show_vm_details n)\<rparr>))"
      by (cases "parse_show_vm_details text") (simp_all add: config_set_show_vm_details_def set chosen_def)
    show "config_set_show_gas_details text node =
        (Ok (print_show_gas_details (chosen (parse_show_gas_details text) (show_gas_details n))),
         put (n\<lparr>show_gas_details := chosen (parse_show_gas_details text) (show_gas_details n)\<rparr>))"
      by (cases "parse_show_gas_details text") (simp_all add: config_set_show_gas_details_def set chosen_def)
  qed
qed

theorem config_setters_exact_witness:
  "\<exists>node'. config_set_show_calls ''User'' example_node = (Ok ''User'', node') \<and>
     config_get_show_calls node' = (Ok ''User'', node') \<and>
     config_set_show_vm_details ''User'' example_node = (Ok ''None'', example_node)"
proof -
  have np: "\<not> lock_poisoned (node_inner example_node)"
    by simp
  have parse: "parse_show_calls ''User'' = Ok ShowCallsUser" "\<not> is_ok (parse_show_vm_details ''User'')"
    "show_vm_details (lock_value (node_inner example_node)) = ShowVMNone"
    by (simp_all add: parse_show_calls_def parse_show_vm_details_def example_node_def InMemoryNode_new_def
        example_config_def Let_def)
  then have "chosen (parse_show_vm_details ''User'') ShowVMNone = ShowVMNone"
    by (cases "parse_show_vm_details ''User''") (simp_all add: chosen_def)
  then show ?thesis
    using config_setters_exact [OF np refl refl, of "''User''"] parse
    by (auto simp: chosen_def Let_def)
qed

end
