(* ===== verification/RpcSystem.thy ===== *)
theory RpcSystem
  imports DebugNamespace ConfigNamespace
begin

text \<open>
  The node as a system. Requests arrive on many threads and the node answers them under the lock of its
  inner state, one critical section at a time; a transaction takes three sections (it is announced, it is
  run, its result is committed), and the sections of other requests may fall between them. The step
  relation below has one step per critical section, for all handlers of \<^verbatim>\<open>src/.test-node-subtree/src/node/\<close> that
  change the node; the properties hold in every state that any interleaving reaches.
\<close>

section \<open>Requests\<close>

datatype 'c rpc_request =
    EthCall "'c CallRequest_scheme" "BlockIdVariant option"
  | EthGetBalance address "BlockIdVariant option"
  | EthGetCode address "BlockIdVariant option"
  | EthGetTransactionCount address "BlockIdVariant option"
  | EthGetStorage address u256 "BlockIdVariant option"
  | EthNewFilter Filter
  | EthNewBlockFilter
  | EthNewPendingTransactionFilter
  | EthUninstallFilter u256
  | EthGetFilterChanges u256
  | EthEstimateGas "'c CallRequest_scheme"
  | ZksEstimateFee "'c CallRequest_scheme"
  | ZksGetAllAccountBalances address
  | ZksGetBytecodeByHash h256
  | DebugTraceCall "'c CallRequest_scheme" "BlockId option" bool
  | ConfigSetShowCalls string
  | ConfigSetShowStorageLogs string
  | ConfigSetShowVmDetails string
  | ConfigSetShowGasDetails string
  | ConfigSetResolveHashes bool
  | ConfigSetLogLevel "string \<Rightarrow> string option" LogLevel
  | ConfigSetLogging "string \<Rightarrow> string option" string
  | EvmIncreaseTime u64
  | EvmSetNextBlockTimestamp u64
  | EvmSetTime u64
  | EvmMine
  | EvmSnapshot
  | EvmRevertSnapshot u64
  | HardhatSetBalance address u256
  | HardhatSetNonce address u256
  | HardhatMine "u64 option" "u64 option"
  | HardhatImpersonateAccount address
  | HardhatStopImpersonatingAccount address
  | HardhatSetCode address bytes

text \<open>The effect of a request that is one critical section; only a gas estimation could fail to return.\<close>

definition effect :: "(InMemoryNode, 'e, 'a) op \<Rightarrow> InMemoryNode \<Rightarrow> InMemoryNode option" where
  "effect f node = Some (snd (f node))"

fun handle ::
  "lib \<Rightarrow> ('c, 'r) request_lib \<Rightarrow> 'vm vm_api \<Rightarrow> 'c rpc_request \<Rightarrow> InMemoryNode \<Rightarrow> InMemoryNode option" where
  "handle L R V (EthCall req blk) = effect (eth_call L R V req blk)"
| "handle L R V (EthGetBalance a blk) = effect (get_balance L a blk)"
| "handle L R V (EthGetCode a blk) = effect (get_code L a blk)"
| "handle L R V (EthGetTransactionCount a blk) = effect (get_transaction_count L a blk)"
| "handle L R V (EthGetStorage a i blk) = effect (get_storage a i blk)"
| "handle L R V (EthNewFilter f) = effect (new_filter f)"
| "handle L R V EthNewBlockFilter = effect new_block_filter"
| "handle L R V EthNewPendingTransactionFilter = effect new_pending_transaction_filter"
| "handle L R V (EthUninstallFilter i) = effect (uninstall_filter i)"
| "handle L R V (EthGetFilterChanges i) = effect (get_filter_changes i)"
| "handle L R V (EthEstimateGas req) = map_option snd \<circ> eth_estimate_gas L R V req"
| "handle L R V (ZksEstimateFee req) = map_option snd \<circ> estimate_fee L R V req"
| "handle L R V (ZksGetAllAccountBalances a) = effect (zks_get_all_account_balances L a)"
| "handle L R V (ZksGetBytecodeByHash h) = effect (zks_get_bytecode_by_hash h)"
| "handle L R V (DebugTraceCall req blk only_top) = effect (trace_call L R V req blk only_top)"
| "handle L R V (ConfigSetShowCalls v) = effect (config_set_show_calls v)"
| "handle L R V (ConfigSetShowStorageLogs v) = effect (config_set_show_storage_logs v)"
| "handle L R V (ConfigSetShowVmDetails v) = effect (config_set_show_vm_details v)"
| "handle L R V (ConfigSetShowGasDetails v) = effect (config_set_show_gas_details v)"
| "handle L R V (ConfigSetResolveHashes v) = effect (config_set_resolve_hashes v)"
| "handle L R V (ConfigSetLogLevel parse v) = effect (config_set_log_level parse v)"
| "handle L R V (ConfigSetLogging parse v) = effect (config_set_logging parse v)"
| "handle L R V (EvmIncreaseTime t) = effect (evm_increase_time t)"
| "handle L R V (EvmSetNextBlockTimestamp t) = effect (evm_set_next_block_timestamp t)"
| "handle L R V (EvmSetTime t) = effect (evm_set_time t)"
| "handle L R V EvmMine = effect (evm_mine L V)"
| "handle L R V EvmSnapshot = effect evm_snapshot"
| "handle L R V (EvmRevertSnapshot i) = effect (evm_revert_snapshot i)"
| "handle L R V (HardhatSetBalance a b) = effect (hardhat_set_balance L a b)"
| "handle L R V (HardhatSetNonce a k) = effect (hardhat_set_nonce L a k)"
| "handle L R V (HardhatMine k i) = effect (hardhat_mine L V k i)"
| "handle L R V (HardhatImpersonateAccount a) = effect (hardhat_impersonate_account a)"
| "handle L R V (HardhatStopImpersonatingAccount a) = effect (hardhat_stop_impersonating_account a)"
| "handle L R V (HardhatSetCode a code) = effect (hardhat_set_code L a code)"

section \<open>Steps\<close>

text \<open>A thread in the middle of \<^verbatim>\<open>run_l2_tx\<close>: it has announced its transaction, or has run it and holds a
  result that is not a halt.\<close>

datatype task = Announced L2Tx | Ran L2Tx L2TxResult

type_synonym system = "InMemoryNode \<times> task multiset"

inductive step ::
  "lib \<Rightarrow> ('c, 'r) request_lib \<Rightarrow> 'vm vm_api \<Rightarrow> system \<Rightarrow> system \<Rightarrow> bool"
  for L :: lib and R :: "('c, 'r) request_lib" and V :: "'vm vm_api" where
  request: "handle L R V q node = Some node' \<Longrightarrow> step L R V (node, T) (node', T)"
| announce: "validate_tx tx = Ok () \<Longrightarrow> announce_l2_tx L tx node = (Ok (), node') \<Longrightarrow>
    step L R V (node, T) (node', add_mset (Announced tx) T)"
| run: "run_l2_tx_raw L V tx VerifyExecute True node = (Ok raw, node') \<Longrightarrow> not_halted raw \<Longrightarrow>
    step L R V (node, add_mset (Announced tx) T) (node', add_mset (Ran tx raw) T)"
| halt: "run_l2_tx_raw L V tx VerifyExecute True node = (Ok raw, node') \<Longrightarrow> \<not> not_halted raw \<Longrightarrow>
    step L R V (node, add_mset (Announced tx) T) (node', T)"
| fail: "run_l2_tx_raw L V tx VerifyExecute True node = (r, node') \<Longrightarrow> \<not> is_ok r \<Longrightarrow>
    step L R V (node, add_mset (Announced tx) T) (node', T)"
| commit: "commit_l2_tx L tx raw node = (r, node') \<Longrightarrow>
    step L R V (node, add_mset (Ran tx raw) T) (node', T)"

abbreviation steps ::
  "lib \<Rightarrow> ('c, 'r) request_lib \<Rightarrow> 'vm vm_api \<Rightarrow> system \<Rightarrow> system \<Rightarrow> bool" where
  "steps L R V \<equiv> (step L R V)\<^sup>*\<^sup>*"

inductive_cases stepE: "step L R V (node, T) s'"
inductive_simps step_idle: "step L R V (node, {#}) (node', {#})"

section \<open>Invariants behind the lock\<close>

text \<open>The fields that the chain of blocks, the results, the archive and the filters live in. An invariant that
  depends on nothing else is kept by every operation that leaves them alone.\<close>

definition covered ::
  "InMemoryNodeInner \<Rightarrow> (h256 \<Rightarrow> Block option) \<times> (u64 \<Rightarrow> h256 option) \<times> u64 \<times>
     (h256 \<times> TransactionResult) list \<times> archive \<times> EthFilters" where
  "covered n = (blocks n, node_block_hashes n, current_miniblock n, tx_results n, previous_states n, node_filters n)"

definition keeps :: "(InMemoryNodeInner \<Rightarrow> bool) \<Rightarrow> (InMemoryNodeInner, 'e, 'a) op \<Rightarrow> bool" where
  "keeps I f \<longleftrightarrow> (\<forall>n. I n \<and> fst (f n) \<noteq> Panic \<longrightarrow> I (snd (f n)))"

text \<open>A panic under the write lock poisons it; the state that it leaves is never looked at again.\<close>

definition guarded :: "(InMemoryNodeInner \<Rightarrow> bool) \<Rightarrow> InMemoryNode \<Rightarrow> bool" where
  "guarded I node \<longleftrightarrow> lock_poisoned (node_inner node) \<or> I (lock_value (node_inner node))"

locale lock_invariant =
  fixes I :: "InMemoryNodeInner \<Rightarrow> bool"
  assumes frame: "covered m = covered n \<Longrightarrow> I n \<Longrightarrow> I m"
    and filters: "I n \<Longrightarrow> filters_wf (node_filters n)"
    and refilter: "I n \<Longrightarrow> filters_wf fs \<Longrightarrow> I (n\<lparr>node_filters := fs\<rparr>)"
begin

lemma storage: "I (n\<lparr>node_storage := s\<rparr>) = I n"
  using frame [of "n\<lparr>node_storage := s\<rparr>" n] frame [of n "n\<lparr>node_storage := s\<rparr>"] by (auto simp: covered_def)

lemma keeps_frame: "(\<And>n. covered (snd (f n)) = covered n) \<Longrightarrow> keeps I f"
  unfolding keeps_def using frame by blast

lemma keeps_return [intro]: "keeps I (op_return a)"
  by (rule keeps_frame) simp

lemma keeps_fail [intro]: "keeps I (op_fail r)"
  by (rule keeps_frame) simp

lemma keeps_bind [intro]:
  assumes "keeps I m" and "\<And>a. keeps I (f a)"
  shows "keeps I (op_bind m f)"
  unfolding keeps_def
proof (intro allI impI)
  fix n
  assume n: "I n \<and> fst (op_bind m f n) \<noteq> Panic"
  obtain r n1 where m: "m n = (r, n1)" by fastforce
  then have "r \<noteq> Panic"
    using n by (auto simp: op_bind_def)
  then have "I n1"
    using assms(1) n m unfolding keeps_def by (metis fst_conv snd_conv)
  then show "I (snd (op_bind m f n))"
    using assms(2) n m unfolding keeps_def by (cases r) (auto simp: op_bind_def)
qed

lemma keeps_list [intro]: "(\<And>x. keeps I (f x)) \<Longrightarrow> keeps I (op_list f xs)"
  by (induction xs) auto

lemma keeps_storage_op [intro]: "keeps I (storage_op act)"
  by (rule keeps_frame) (simp add: storage_op_def covered_def split: prod.split)

lemma keeps_view_op [intro]: "keeps I (\<lambda>n. view_op (act n) n)"
  by (rule keeps_frame) (simp add: view_op_def covered_def split: prod.split)

lemma keeps_modify [intro]: "(\<And>n. I n \<Longrightarrow> I (g n)) \<Longrightarrow> keeps I (op_modify g)"
  by (simp add: keeps_def op_modify_def)

lemma keeps_filter_op [intro]:
  "(\<And>fs. filters_wf fs \<Longrightarrow> filters_wf (snd (f fs))) \<Longrightarrow> keeps I (filter_op f)"
  using filters refilter by (auto simp: keeps_def filter_op_def split: prod.split) (metis snd_conv)

lemma keeps_apply: "keeps I f \<Longrightarrow> I n \<Longrightarrow> f n = (r, n') \<Longrightarrow> r \<noteq> Panic \<Longrightarrow> I n'"
  unfolding keeps_def by (metis fst_conv snd_conv)

lemma with_inner_keeps:
  assumes "keeps I f" and "guarded I node"
  shows "guarded I (snd (with_inner e f node))"
proof (cases "lock_poisoned (node_inner node)")
  case False
  obtain r n where f: "f (lock_value (node_inner node)) = (r, n)" by fastforce
  then show ?thesis
    using keeps_apply [OF assms(1) _ f] assms(2) False
    by (cases r) (auto simp: with_inner_healthy guarded_def)
qed (use assms(2) in simp)

lemma shared_inner_keeps:
  assumes "\<And>n. covered (snd (f n)) = covered n" and "guarded I node"
  shows "guarded I (snd (shared_inner e f node))"
  using assms(2) frame [OF assms(1)] by (auto simp: shared_inner_def guarded_def split: prod.split) (metis snd_conv)

end

text \<open>No handler but the two of the snapshots touches the list of snapshots.\<close>

lemma with_inner_snapshots [simp]: "node_snapshots (snd (with_inner e f node)) = node_snapshots node"
  by (simp add: with_inner_def split: prod.split)

lemma shared_inner_snapshots [simp]: "node_snapshots (snd (shared_inner e f node)) = node_snapshots node"
  by (simp add: shared_inner_def split: prod.split)

section \<open>Well-formed nodes\<close>

text \<open>The hash of a block determines its number: what the chain needs of \<^verbatim>\<open>keccak256\<close>, which takes the number
  as its first bytes.\<close>

definition numbered :: "(h256 \<Rightarrow> u64) \<Rightarrow> lib \<Rightarrow> bool" where
  "numbered num L \<longleftrightarrow> (\<forall>k x. num (compute_hash L k x) = k)"

text \<open>Every block is stored under its hash, every number maps to the hash of a block with that number, the
  head has a block, and every result names its transaction and a stored block (or one of the hashes
  \<^verbatim>\<open>owed\<close>, while a commit is on its way); the archive is bounded and the filters are well formed.\<close>

definition receipt_names :: "(h256 \<Rightarrow> u64) \<Rightarrow> h256 set \<Rightarrow> h256 \<Rightarrow> TransactionResult \<Rightarrow> bool" where
  "receipt_names num known h rec \<longleftrightarrow>
     rc_transaction_hash (tr_receipt rec) = h \<and>
     (\<exists>bh \<in> known. rc_block_hash (tr_receipt rec) = Some bh \<and> rc_block_number (tr_receipt rec) = Some (num bh))"

lemma receipt_names_mono: "receipt_names num A h rec \<Longrightarrow> A \<subseteq> B \<Longrightarrow> receipt_names num B h rec"
  by (auto simp: receipt_names_def)

fun records_wf ::
  "(h256 \<Rightarrow> u64) \<Rightarrow> h256 set \<Rightarrow> (h256 \<Rightarrow> Block option) \<times> (u64 \<Rightarrow> h256 option) \<times> u64 \<times>
     (h256 \<times> TransactionResult) list \<times> archive \<times> EthFilters \<Rightarrow> bool" where
  "records_wf num owed (bs, hashes, head, results, past, fs) \<longleftrightarrow>
     (\<forall>h b. bs h = Some b \<longrightarrow> block_hash b = h \<and> block_number b = num h) \<and>
     (\<forall>k h. hashes k = Some h \<longrightarrow> bs h \<noteq> None \<and> num h = k) \<and>
     hashes head \<noteq> None \<and>
     (\<forall>h rec. map_of results h = Some rec \<longrightarrow> receipt_names num (dom bs \<union> owed) h rec) \<and>
     length past \<le> 129 \<and> filters_wf fs"

definition node_wf :: "(h256 \<Rightarrow> u64) \<Rightarrow> h256 set \<Rightarrow> InMemoryNodeInner \<Rightarrow> bool" where
  "node_wf num owed n = records_wf num owed (covered n)"

definition snap_wf :: "(h256 \<Rightarrow> u64) \<Rightarrow> Snapshot \<Rightarrow> bool" where
  "snap_wf num s =
     records_wf num {} (snap_blocks s, snap_block_hashes s, snap_current_miniblock s, snap_tx_results s,
       snap_previous_states s, snap_filters s)"

lemmas node_wf_simps = node_wf_def covered_def records_wf.simps

interpretation wf: lock_invariant "node_wf num owed" for num owed
  by unfold_locales (simp_all add: node_wf_simps)

text \<open>Taking a snapshot and restoring it keep well-formedness on both sides.\<close>

lemma inner_snapshot_wf: "node_wf num {} n \<Longrightarrow> inner_snapshot n = Ok s \<Longrightarrow> snap_wf num s"
  by (auto simp: inner_snapshot_def snap_wf_def node_wf_def covered_def Let_def split: if_splits)

lemma restore_snapshot_wf: "snap_wf num s \<Longrightarrow> node_wf num {} n \<Longrightarrow> node_wf num {} (snd (restore_snapshot s n))"
  by (simp add: restore_snapshot_def snap_wf_def node_wf_def covered_def)

text \<open>The blocks that the node makes, mined or committed.\<close>

lemma empty_block_numbered:
  "numbered num L \<Longrightarrow> num (block_hash (create_empty_block L k t b p)) = k"
  "block_number (create_empty_block L k t b p) = k"
  by (simp_all add: numbered_def create_empty_block_def Let_def)

lemma insert_mined_wf:
  assumes "numbered num L" and "node_wf num owed n"
  shows "node_wf num owed (insert_mined L ctx n)"
  using assms(2) empty_block_numbered(1) [OF assms(1)]
  by (auto simp: node_wf_simps insert_mined_def empty_block_numbered(2) Let_def)
    (blast intro: receipt_names_mono)

lemma archive_state_wf: "node_wf num owed n \<Longrightarrow> node_wf num owed (snd (archive_state n))"
proof -
  assume wf: "node_wf num owed n"
  let ?kept = "if length (previous_states n) > 128 then tl (previous_states n) else previous_states n"
  have "length ?kept \<le> 128"
    using wf by (auto simp: node_wf_simps)
  then have "length (AList.update h s ?kept) \<le> 129" for h s
    using length_update_le [of h s ?kept] by linarith
  then show ?thesis
    using wf by (auto simp: node_wf_simps archive_state_def MAX_PREVIOUS_STATES_def Let_def)
qed

lemma produce_block_wf:
  assumes "node_wf num (insert (block_hash b) owed) n" and "num (block_hash b) = block_number b"
    and "produce_block b n = (Ok (), n')"
  shows "node_wf num owed n'"
proof -
  let ?m = "snd (archive_state n)"
  let ?c = "?m\<lparr>current_miniblock := block_number b, current_timestamp := sat_add (current_timestamp ?m) 1\<rparr>"
  have n': "n' = place_block b ?c"
    using assms(3) by (auto simp: produce_block_def Let_def split: option.splits if_splits)
  have "node_wf num (insert (block_hash b) owed) ?m"
    by (rule archive_state_wf [OF assms(1)])
  moreover have "filters_wf (notify_new_block h fs) = filters_wf fs" for h fs
    by (simp add: notify_new_block_def)
  ultimately show ?thesis
    using assms(2) unfolding n' by (auto simp: node_wf_simps place_block_def)
qed

section \<open>Commits\<close>

text \<open>The result of a run that waits for its commit.\<close>

definition task_wf :: "lib \<Rightarrow> task \<Rightarrow> bool" where
  "task_wf L t \<longleftrightarrow>
     (case t of Announced tx \<Rightarrow> True
      | Ran tx raw \<Rightarrow> raw_wf raw \<and>
          block_hash (raw_block raw) = compute_hash L (block_number (raw_block raw)) (l2_tx_hash L tx))"

lemma raw_task_wf:
  assumes "run_l2_tx_raw L V tx mode boot node = (Ok raw, node')"
  shows "task_wf L (Ran tx raw)"
proof -
  obtain n v where run: "run_raw_body L V tx mode boot n v = (Some raw, snd (run_raw_body L V tx mode boot n v))"
    using assms
    by (auto simp: run_l2_tx_raw_def with_inner_def with_write_def view_op_def prod_eq_iff outcome_of_def
        split: prod.splits if_splits option.splits)
  have "block_hash (raw_block raw) = compute_hash L (ctx_miniblock (raw_block_ctx raw)) (l2_tx_hash L tx)"
    using run unfolding run_raw_body_def
    by (auto simp: tx_block_def Let_def elim!: act_bind_SomeE split: prod.splits option.splits if_splits)
  then show ?thesis
    using run_raw_wf [OF run] by (simp add: task_wf_def raw_wf_def)
qed

lemma notify_log_wf: "filters_wf fs \<Longrightarrow> filters_wf (snd (notify_new_log l k fs))"
  using filters_wf_apply [of fs "NotifyLog l k"] by simp

lemma notify_log_keeps: "keeps (node_wf num owed) (notify_log_op b l)"
  using notify_log_wf by (auto simp: keeps_def notify_log_op_def node_wf_simps split: prod.split) (metis snd_conv)

lemma record_named:
  assumes "tx_record L tx raw = Some rec" and "num (block_hash (raw_block raw)) = block_number (raw_block raw)"
  shows "receipt_names num {block_hash (raw_block raw)} (l2_tx_hash L tx) rec"
  using assms by (auto simp: tx_record_def tx_receipt_def receipt_names_def Let_def split: option.splits rust.splits)

lemma node_wf_owed: "node_wf num A n \<Longrightarrow> A \<subseteq> B \<Longrightarrow> node_wf num B n"
  unfolding node_wf_simps by (blast intro: receipt_names_mono)

lemma produce_blocks_total: "fst (op_list produce_block bs n) \<noteq> Err e"
proof (induction bs arbitrary: n)
  case (Cons b bs)
  have "fst (produce_block b n) \<noteq> Err e'" for e'
    by (simp add: produce_block_def Let_def split: option.split)
  then show ?case
    using Cons.IH by (cases "produce_block b n"; cases "fst (produce_block b n)") auto
qed simp

lemma commit_body_wf:
  assumes "numbered num L" and "task_wf L (Ran tx raw)"
  shows "keeps (node_wf num {}) (commit_body L tx raw)"
proof -
  let ?b = "raw_block raw"
  let ?ctx = "new_block (raw_block_ctx raw)"
  let ?e = "create_empty_block L (ctx_miniblock ?ctx) (ctx_timestamp ?ctx) (ctx_batch ?ctx) (Some (block_hash ?b))"
  have num: "num (block_hash ?b) = block_number ?b"
    using assms by (simp add: task_wf_def numbered_def)
  have blocks: "node_wf num {} n'"
    if wf: "node_wf num {block_hash ?b} n" and run: "op_list produce_block [?b, ?e] n = (Ok (), n')" for n n'
  proof -
    obtain n1 where 1: "produce_block ?b n = (Ok (), n1)" and 2: "produce_block ?e n1 = (Ok (), n')"
      using run by (auto elim!: op_bind_OkE)
    have "node_wf num {} n1"
      using produce_block_wf [of num ?b "{}" n n1] num 1 wf by simp
    then have "node_wf num {block_hash ?e} n1"
      by (rule node_wf_owed) simp
    then show ?thesis
      using produce_block_wf [of num ?e "{}" n1 n'] 2 empty_block_numbered(1) [OF assms(1)] by (simp add: empty_block_numbered(2))
  qed
  have final: "keeps (node_wf num {}) (op_bind (op_modify (\<lambda>n. n\<lparr>tx_results := AList.update (l2_tx_hash L tx) rec (tx_results n),
      current_batch := sat_add (current_batch n) 1\<rparr>)) (\<lambda>_. op_list produce_block [?b, ?e]))"
    (is "keeps _ (op_bind (op_modify ?g) _)") if rec: "tx_record L tx raw = Some rec" for rec
    unfolding keeps_def
  proof (intro allI impI)
    fix n
    assume n: "node_wf num {} n \<and> fst (op_bind (op_modify ?g) (\<lambda>_. op_list produce_block [?b, ?e]) n) \<noteq> Panic"
    obtain r n' where r: "op_list produce_block [?b, ?e] (?g n) = (r, n')" by fastforce
    have "\<forall>h rec'. map_of (tx_results n) h = Some rec' \<longrightarrow> receipt_names num (insert (block_hash ?b) (dom (blocks n))) h rec'"
      using n node_wf_owed [of num "{}" n "{block_hash ?b}"] by (simp add: node_wf_simps)
    moreover have "receipt_names num (insert (block_hash ?b) (dom (blocks n))) (l2_tx_hash L tx) rec"
      by (rule receipt_names_mono [OF record_named [where num = num, OF rec num]]) simp
    ultimately have "node_wf num {block_hash ?b} (?g n)"
      using n by (auto simp: node_wf_simps update_conv')
    moreover have "r = Ok ()"
      using n r produce_blocks_total [of "[?b, ?e]" "?g n"] by (cases r) auto
    ultimately show "node_wf num {} (snd (op_bind (op_modify ?g) (\<lambda>_. op_list produce_block [?b, ?e]) n))"
      using blocks r by simp
  qed
  show ?thesis
    unfolding commit_body_def Let_def
    by (intro wf.keeps_bind wf.keeps_storage_op wf.keeps_list notify_log_keeps)
      (auto simp: store_dep_op_def simp del: op_list.simps intro: final split: option.split)
qed

section \<open>Handlers keep the node well formed\<close>

definition node_ok :: "(h256 \<Rightarrow> u64) \<Rightarrow> InMemoryNode \<Rightarrow> bool" where
  "node_ok num node \<longleftrightarrow> guarded (node_wf num {}) node \<and>
     (\<forall>s \<in> set (lock_value (node_snapshots node)). snap_wf num s) \<and>
     length (lock_value (node_snapshots node)) \<le> MAX_SNAPSHOTS"

lemma with_inner_ok: "keeps (node_wf num {}) f \<Longrightarrow> node_ok num node \<Longrightarrow> node_ok num (snd (with_inner e f node))"
  by (simp add: node_ok_def wf.with_inner_keeps)

lemma shared_inner_ok:
  "(\<And>n. covered (snd (f n)) = covered n) \<Longrightarrow> node_ok num node \<Longrightarrow> node_ok num (snd (shared_inner e f node))"
  by (simp add: node_ok_def wf.shared_inner_keeps)

lemma internally_snd [simp]: "snd (internally m s) = snd (m s)"
  by (simp add: internally_def split: prod.split rust.split)

lemma eth_read_snd [simp]: "snd (eth_read f node) = node"
  by (simp add: eth_read_def read_inner_def)

text \<open>The critical sections of the handlers.\<close>

lemma keeps_simple:
  assumes "\<And>n. covered (g n) = covered n"
  shows "keeps (node_wf num {}) (\<lambda>n. (r n, g n))"
  by (rule wf.keeps_frame) (simp add: assms)

lemma store_dep_keeps: "keeps (node_wf num owed) (store_dep_op d)"
  by (cases d) (auto simp: store_dep_op_def)

lemma mine_keeps:
  assumes "numbered num L"
  shows "keeps (node_wf num {}) (mine_empty_blocks L V k ms)"
  unfolding mine_empty_blocks_def mine_one_def
  by (auto intro!: wf.keeps_list wf.keeps_bind wf.keeps_modify store_dep_keeps insert_mined_wf assms
      split: prod.split)

lemma eth_call_ok: "node_ok num node \<Longrightarrow> node_ok num (snd (eth_call L R V req blk node))"
proof -
  assume ok: "node_ok num node"
  then have "node_ok num (snd (run_l2_call L V tx node))" for tx
    unfolding run_l2_call_def by (intro with_inner_ok) auto
  then show ?thesis
    using ok by (auto simp: eth_call_def Let_def split: sum.split prod.split)  (metis snd_conv)
qed

lemma storage_queries_ok:
  assumes "node_ok num node"
  shows "node_ok num (snd (get_balance L a blk node))" "node_ok num (snd (get_code L a blk node))"
    "node_ok num (snd (get_transaction_count L a blk node))" "node_ok num (snd (zks_get_bytecode_by_hash h node))"
    "node_ok num (snd (get_storage a i blk node))"
  unfolding get_balance_def get_code_def get_transaction_count_def zks_get_bytecode_by_hash_def get_storage_def
    eth_write_def
  by (auto intro!: with_inner_ok [OF _ assms] wf.keeps_bind keeps_simple)
    (auto intro!: wf.keeps_frame simp: storage_op_def covered_def Let_def split: rust.split prod.split)

lemma filter_requests_ok:
  assumes "node_ok num node"
  shows "node_ok num (snd (new_filter f node))" "node_ok num (snd (new_block_filter node))"
    "node_ok num (snd (new_pending_transaction_filter node))" "node_ok num (snd (uninstall_filter i node))"
    "node_ok num (snd (get_filter_changes i node))"
proof -
  have wf: "filters_wf (snd (add_log_filter a b c d fs))" "filters_wf (snd (add_block_filter fs))"
    "filters_wf (snd (add_pending_transaction_filter fs))" "filters_wf (snd (remove_filter i fs))"
    "filters_wf (snd (get_new_changes i fs))" if "filters_wf fs" for a b c d fs
    using filters_wf_apply [OF that, of "AddLog a b c d"] filters_wf_apply [OF that, of AddBlock]
      filters_wf_apply [OF that, of AddPending] filters_wf_apply [OF that, of "Remove i"]
      filters_wf_apply [OF that, of "Poll i"] by simp_all
  show "node_ok num (snd (new_filter f node))" "node_ok num (snd (new_block_filter node))"
    "node_ok num (snd (new_pending_transaction_filter node))" "node_ok num (snd (uninstall_filter i node))"
    "node_ok num (snd (get_filter_changes i node))"
    unfolding new_filter_def new_block_filter_def new_pending_transaction_filter_def uninstall_filter_def
      get_filter_changes_def eth_write_def
    using wf by (auto intro!: with_inner_ok [OF _ assms] wf.keeps_filter_op split: prod.split) (metis snd_conv)
qed


lemma sandbox_requests_ok:
  assumes "node_ok num node"
  shows "node_ok num (snd (trace_call L R V req tid only node))" "node_ok num (snd (zks_get_all_account_balances L a node))"
proof -
  show "node_ok num (snd (trace_call L R V req tid only node))"
    unfolding trace_call_def
    by (auto intro!: shared_inner_ok assms simp: view_op_def covered_def split: sum.split prod.split rust.split)
  have "snd (zks_get_confirmed_tokens L s l node) = node" for s l
    by (simp add: zks_get_confirmed_tokens_def)
  then obtain r where "zks_get_confirmed_tokens L 0 100 node = (r, node)"
    by (metis prod.collapse)
  moreover have "node_ok num (snd (eth_write (storage_op act) node))" for act :: "(ForkStorage, address \<Rightarrow> u256 option) action"
    unfolding eth_write_def by (intro with_inner_ok assms) auto
  ultimately show "node_ok num (snd (zks_get_all_account_balances L a node))"
    using assms by (cases r) (simp_all add: zks_get_all_account_balances_def)
qed

lemma config_requests_ok:
  assumes "node_ok num node"
  shows "node_ok num (snd (config_set_show_calls v node))" "node_ok num (snd (config_set_show_storage_logs v node))"
    "node_ok num (snd (config_set_show_vm_details v node))" "node_ok num (snd (config_set_show_gas_details v node))"
    "node_ok num (snd (config_set_resolve_hashes b node))" "node_ok num (snd (config_set_log_level parse l node))"
    "node_ok num (snd (config_set_logging parse v node))"
proof -
  have set: "node_ok num (snd (config_set parsed shown put node))"
    if "\<And>v n. covered (put v n) = covered n" for parsed :: "('o, 'w) rust" and shown put
    unfolding config_set_def eth_write_def
    using that assms by (auto intro!: with_inner_ok keeps_simple split: rust.split)
  show "node_ok num (snd (config_set_show_calls v node))" "node_ok num (snd (config_set_show_storage_logs v node))"
    "node_ok num (snd (config_set_show_vm_details v node))" "node_ok num (snd (config_set_show_gas_details v node))"
    unfolding config_set_show_calls_def config_set_show_storage_logs_def config_set_show_vm_details_def
      config_set_show_gas_details_def
    by (rule set, simp add: covered_def)+
  show "node_ok num (snd (config_set_resolve_hashes b node))"
    unfolding config_set_resolve_hashes_def eth_write_def
    by (intro with_inner_ok keeps_simple assms) (simp add: covered_def)
  have "node_ok num (snd (set_observability f node))" for f
    unfolding set_observability_def
    by (intro shared_inner_ok assms) (simp add: covered_def split: option.split prod.split)
  then show "node_ok num (snd (config_set_log_level parse l node))" "node_ok num (snd (config_set_logging parse v node))"
    by (simp_all add: config_set_log_level_def config_set_logging_def)
qed

lemma steering_requests_ok:
  assumes "node_ok num node"
  shows "node_ok num (snd (increase_time t node))" "node_ok num (snd (set_next_block_timestamp t node))"
    "node_ok num (snd (set_time t node))" "node_ok num (snd (impersonate_account a node))"
    "node_ok num (snd (ext_stop_impersonating_account a node))" "node_ok num (snd (set_balance L a b node))"
    "node_ok num (snd (set_nonce L a b node))" "node_ok num (snd (set_code L a code node))"
proof -
  show "node_ok num (snd (increase_time t node))" "node_ok num (snd (set_next_block_timestamp t node))"
    "node_ok num (snd (set_time t node))" "node_ok num (snd (impersonate_account a node))"
    "node_ok num (snd (ext_stop_impersonating_account a node))"
    unfolding increase_time_def set_next_block_timestamp_def set_time_def impersonate_account_def
      ext_stop_impersonating_account_def set_impersonated_account_def stop_impersonating_account_def
    by (auto intro!: with_inner_ok [OF _ assms] wf.keeps_frame simp: covered_def Let_def)
  show "node_ok num (snd (set_balance L a b node))" "node_ok num (snd (set_nonce L a b node))"
    "node_ok num (snd (set_code L a code node))"
    unfolding set_balance_def set_nonce_def set_code_def
    by (auto intro!: with_inner_ok [OF _ assms] wf.keeps_bind store_dep_keeps simp: Let_def split: prod.split)
qed

lemma mining_requests_ok:
  assumes "numbered num L" and "node_ok num node"
  shows "node_ok num (snd (mine_block L V node))" "node_ok num (snd (mine_blocks L V k i node))"
  unfolding mine_block_def mine_blocks_def
  by (auto intro!: with_inner_ok [OF _ assms(2)] wf.keeps_bind mine_keeps assms(1) simp: Let_def)

lemma snapshot_requests_ok:
  assumes "node_ok num node"
  shows "node_ok num (snd (snapshot node))" "node_ok num (snd (revert_snapshot i node))"
proof -
  show "node_ok num (snd (snapshot node))"
    using assms inner_snapshot_wf
    by (auto simp: snapshot_def node_ok_def guarded_def Let_def split: rust.split)
  show "node_ok num (snd (revert_snapshot i node))"
    using assms restore_snapshot_wf
    by (auto simp: revert_snapshot_def node_ok_def guarded_def Let_def dest: in_set_takeD split: prod.split)
       (metis not_le nth_mem snd_conv)+
qed

lemma covered_bind_storage:
  assumes "\<And>a m. covered (snd (f a m)) = covered m"
  shows "covered (snd (op_bind (storage_op act) f n)) = covered n"
proof -
  obtain r s where "act (node_storage n) = (r, s)" by fastforce
  then show ?thesis
    using assms [of "the r" "n\<lparr>node_storage := s\<rparr>"]
    by (cases r) (simp_all add: op_bind_def storage_op_def covered_def)
qed

lemma setup_covered: "covered (snd (estimation_setup L R req n)) = covered n"
  unfolding estimation_setup_def Let_def
  by (auto intro!: covered_bind_storage split: sum.split option.split prod.split)

lemma estimate_requests_ok:
  assumes "node_ok num node" and "estimate_shared (estimate_gas_impl L R V req) node = Some (r, node')"
  shows "node_ok num node'"
proof -
  have "covered (snd x) = covered n" if "estimate_gas_impl L R V req n = Some x" for x n
    using that setup_covered [of L R req n]
    by (auto simp: estimate_gas_impl_def covered_def split: prod.splits rust.splits)
  then show ?thesis
    using assms wf.frame
    by (auto simp: estimate_shared_def node_ok_def guarded_def split: if_splits)
qed

lemma handle_ok:
  assumes "numbered num L" and "node_ok num node" and "handle L R V q node = Some node'"
  shows "node_ok num node'"
  using assms(3)
  by (cases q)
    (auto simp: effect_def evm_increase_time_def evm_mine_def evm_set_next_block_timestamp_def evm_set_time_def
      evm_snapshot_def evm_revert_snapshot_def hardhat_set_balance_def hardhat_set_nonce_def hardhat_mine_def
      hardhat_impersonate_account_def hardhat_stop_impersonating_account_def hardhat_set_code_def
      eth_estimate_gas_def estimate_fee_def
      intro: eth_call_ok storage_queries_ok filter_requests_ok sandbox_requests_ok config_requests_ok
        steering_requests_ok mining_requests_ok snapshot_requests_ok estimate_requests_ok assms)

section \<open>Properties\<close>

definition system_ok :: "(h256 \<Rightarrow> u64) \<Rightarrow> lib \<Rightarrow> system \<Rightarrow> bool" where
  "system_ok num L s \<longleftrightarrow> node_ok num (fst s) \<and> (\<forall>t \<in># snd s. task_wf L t)"

lemma raw_ok: "node_ok num node \<Longrightarrow> node_ok num (snd (run_l2_tx_raw L V tx mode boot node))"
  unfolding run_l2_tx_raw_def by (intro with_inner_ok) auto

lemma step_ok:
  assumes "numbered num L" and "step L R V s s'" and "system_ok num L s"
  shows "system_ok num L s'"
  using assms(2,3)
proof (induction rule: step.induct)

  case (request q node node' T)
  then show ?case
    using handle_ok [OF assms(1)] by (auto simp: system_ok_def)
next
  case (announce tx node node' T)
  have "node_ok num (snd (announce_l2_tx L tx node))" if "node_ok num node"
    unfolding announce_l2_tx_def
    using that by (intro with_inner_ok wf.keeps_modify) (auto simp: node_wf_simps notify_new_pending_transaction_def)
  then show ?case
    using announce by (auto simp: system_ok_def task_wf_def)
next
  case (run tx node raw node' T)
  then show ?case
    using raw_ok [of num node L V tx VerifyExecute True] raw_task_wf [of L V tx VerifyExecute True node raw node'] by (auto simp: system_ok_def)
next
  case (halt tx node raw node' T)
  then show ?case
    using raw_ok [of num node L V tx VerifyExecute True] by (auto simp: system_ok_def)
next
  case (fail tx node r node' T)
  then show ?case
    using raw_ok [of num node L V tx VerifyExecute True] by (auto simp: system_ok_def)
next
  case (commit tx raw node r node' T)
  have "node_ok num (snd (commit_l2_tx L tx raw node))" if "node_ok num node" "task_wf L (Ran tx raw)"
    unfolding commit_l2_tx_def
    using that by (intro with_inner_ok commit_body_wf assms(1))
  then show ?case
    using commit by (auto simp: system_ok_def)
qed

lemma steps_ok:
  assumes "numbered num L" and "steps L R V s s'" and "system_ok num L s"
  shows "system_ok num L s'"
  using assms(2,3) by (induction rule: rtranclp_induct) (auto intro: step_ok [OF assms(1)])

text \<open>A new node is well formed; a fork's block has to carry the number that its hash stands for and that the
  node starts at.\<close>

definition fork_numbered :: "(h256 \<Rightarrow> u64) \<Rightarrow> ForkDetails option \<Rightarrow> bool" where
  "fork_numbered num frk \<longleftrightarrow>
     (case frk of None \<Rightarrow> True
      | Some f \<Rightarrow> num (block_hash (l2_block f)) = block_number (l2_block f) \<and> block_number (l2_block f) = l2_miniblock f)"

lemma new_node_ok:
  assumes "numbered num L" and "fork_numbered num frk"
  shows "system_ok num L (InMemoryNode_new L genesis src frk obs cfg, {#})"
proof -
  have g: "num (compute_hash L k x) = k" for k x
    using assms(1) by (simp add: numbered_def)
  have "filters_wf EthFilters_default"
    by (simp add: EthFilters_default_def filters_wf_def)
  then have "node_wf num {} (lock_value (node_inner (InMemoryNode_new L genesis src frk obs cfg)))"
    using assms(2)
    by (cases frk) (simp_all add: InMemoryNode_new_def node_wf_simps fork_numbered_def create_empty_block_def g Let_def)
  then show ?thesis
    by (simp add: system_ok_def node_ok_def guarded_def) (simp add: InMemoryNode_new_def Let_def)
qed

text \<open>C1: Whatever requests and transactions arrive, in whatever interleaving, and whatever the virtual machine
  answers: as long as no thread has panicked inside the lock, every block is stored under its hash and
  number, the head has a block, every stored result names its transaction and a stored block with its
  number, the archive holds at most 129 states and the filters are well formed; and there are never more
  than 100 snapshots.\<close>

theorem reachable_nodes_well_formed:
  assumes "numbered num L" and "fork_numbered num frk"
    and "steps L R V (InMemoryNode_new L genesis src frk obs cfg, {#}) (node, T)"
  shows "length (lock_value (node_snapshots node)) \<le> 100 \<and>
    (lock_poisoned (node_inner node) \<or>
     (let n = lock_value (node_inner node)
      in chain_linked n \<and> ledger n (current_miniblock n) \<noteq> None \<and>
         (\<forall>h rec. map_of (tx_results n) h = Some rec \<longrightarrow>
            rc_transaction_hash (tr_receipt rec) = h \<and>
            (\<exists>b. blocks n (block_hash b) = Some b \<and> rc_block_hash (tr_receipt rec) = Some (block_hash b) \<and>
                 rc_block_number (tr_receipt rec) = Some (block_number b))) \<and>
         length (previous_states n) \<le> 129 \<and> filters_wf (node_filters n)))"
proof -
  let ?n = "lock_value (node_inner node)"
  have ok: "node_ok num node"
    using steps_ok [OF assms(1,3) new_node_ok [OF assms(1,2)]] by (simp add: system_ok_def)
  have "chain_linked ?n \<and> ledger ?n (current_miniblock ?n) \<noteq> None \<and>
         (\<forall>h rec. map_of (tx_results ?n) h = Some rec \<longrightarrow>
            rc_transaction_hash (tr_receipt rec) = h \<and>
            (\<exists>b. blocks ?n (block_hash b) = Some b \<and> rc_block_hash (tr_receipt rec) = Some (block_hash b) \<and>
                 rc_block_number (tr_receipt rec) = Some (block_number b))) \<and>
         length (previous_states ?n) \<le> 129 \<and> filters_wf (node_filters ?n)" if wf: "node_wf num {} ?n"
  proof (intro conjI allI impI)
    have bs: "blocks ?n h = Some b \<Longrightarrow> block_hash b = h \<and> block_number b = num h" for h b
      using wf by (simp add: node_wf_simps)
    show "chain_linked ?n" "ledger ?n (current_miniblock ?n) \<noteq> None" "length (previous_states ?n) \<le> 129"
      "filters_wf (node_filters ?n)"
      using wf by (fastforce simp: node_wf_simps chain_linked_def ledger_def)+
    fix h rec
    assume "map_of (tx_results ?n) h = Some rec"
    then have rec: "receipt_names num (dom (blocks ?n)) h rec"
      using wf by (simp add: node_wf_simps)
    then show "rc_transaction_hash (tr_receipt rec) = h"
      by (simp add: receipt_names_def)
    show "\<exists>b. blocks ?n (block_hash b) = Some b \<and> rc_block_hash (tr_receipt rec) = Some (block_hash b) \<and>
        rc_block_number (tr_receipt rec) = Some (block_number b)"
      using rec bs by (fastforce simp: receipt_names_def)
  qed
  then show ?thesis
    using ok by (simp add: node_ok_def guarded_def MAX_SNAPSHOTS_def Let_def) blast
qed

text \<open>A hash that shows its number.\<close>

definition numbered_lib :: lib where
  "numbered_lib = example_lib\<lparr>keccak256 := (\<lambda>bs. ucast (from_be_bytes 0 (take 8 bs) :: u64))\<rparr>"

lemma u64_bytes: "from_be_bytes 0 (to_be_bytes (k :: u64)) = k"
proof -
  have "drop_bit 64 k = 0"
    by (rule bit_word_eqI) (auto simp: bit_simps dest: bit_imp_le_length)
  then show ?thesis
    using from_be_bytes_low [of 8 k, where 'b = 64] drop_be_bytes [of 8 k] by simp
qed

lemma numbered_example: "numbered ucast numbered_lib"
proof -
  have "take 8 (to_be_bytes k @ bs) = to_be_bytes k" for k :: u64 and bs
    by (simp add: to_be_bytes_def)
  then show ?thesis
    by (simp add: numbered_def compute_hash_def numbered_lib_def u64_bytes ucast_up_down)
qed

theorem reachable_nodes_well_formed_witness:
  "\<exists>node. steps numbered_lib example_requests (example_vm 0 (Success []))
       (InMemoryNode_new numbered_lib (\<lambda>_. empty_genesis) example_sources None None example_config, {#})
       (node, {#Announced (example_tx 1)#}) \<and>
     length (lock_value (node_snapshots node)) = 1 \<and>
     ledger (lock_value (node_inner node)) (current_miniblock (lock_value (node_inner node))) \<noteq> None"
proof -
  let ?V = "example_vm 0 (Success [])"
  let ?node0 = "InMemoryNode_new numbered_lib (\<lambda>_. empty_genesis) example_sources None None example_config"
  have valid: "validate_tx (example_tx 1) = Ok ()"
    using example_ran [of 0 "Success []" 1] unfolding ran_def by blast
  obtain node1 where "snapshot ?node0 = (Ok 1, node1)" and np: "\<not> lock_poisoned (node_inner node1)"
    and one: "length (lock_value (node_snapshots node1)) = 1"
    by (simp add: snapshot_def InMemoryNode_new_def MAX_SNAPSHOTS_def inner_snapshot_def ForkStorage_new_def Let_def)
  then have "step numbered_lib example_requests ?V (?node0, {#}) (node1, {#})"
    by (intro request [where q = EvmSnapshot]) (simp add: effect_def evm_snapshot_def)
  moreover obtain node2 where "announce_l2_tx numbered_lib (example_tx 1) node1 = (Ok (), node2)"
    and same: "node_snapshots node2 = node_snapshots node1" "\<not> lock_poisoned (node_inner node2)"
    using announce_run [OF np] by auto
  then have "step numbered_lib example_requests ?V (node1, {#}) (node2, {#Announced (example_tx 1)#})"
    by (intro announce valid)
  ultimately have s: "steps numbered_lib example_requests ?V (?node0, {#}) (node2, {#Announced (example_tx 1)#})"
    by (meson r_into_rtranclp rtranclp.rtrancl_into_rtrancl)
  have "fork_numbered ucast None"
    by (simp add: fork_numbered_def)
  from reachable_nodes_well_formed [OF numbered_example this s] show ?thesis
    using s one same by (auto simp: Let_def)
qed

text \<open>\<^verbatim>\<open>run_l2_tx\<close> is a run of the system: its three sections, with nothing of another thread between
  them.\<close>

theorem run_l2_tx_is_steps: "steps L R V (node, T) (snd (run_l2_tx L V tx VerifyExecute node), T)"
proof (cases "validate_tx tx")
  case (Ok u)
  then have valid: "validate_tx tx = Ok ()"
    by simp
  obtain r1 node1 where 1: "announce_l2_tx L tx node = (r1, node1)" by fastforce
  show ?thesis
  proof (cases r1)
    case (Ok v)
    obtain r2 node2 where 2: "run_l2_tx_raw L V tx VerifyExecute True node1 = (r2, node2)" by fastforce
    have s1: "step L R V (node, T) (node1, add_mset (Announced tx) T)"
      using valid 1 Ok by (intro announce) simp_all
    have end_node: "snd (run_l2_tx L V tx VerifyExecute node) =
        (case r2 of Ok raw \<Rightarrow> if not_halted raw then snd (commit_l2_tx L tx raw node2) else node2 | _ \<Rightarrow> node2)"
      using valid 1 2 Ok
      by (cases r2) (simp_all add: run_l2_tx_def op_bind_def not_halted_def split: ExecutionResult.split)
    have "steps L R V (node1, add_mset (Announced tx) T) (snd (run_l2_tx L V tx VerifyExecute node), T)"
    proof (cases "is_ok r2")
      case True
      then obtain raw where raw: "r2 = Ok raw"
        by (cases r2) auto
      show ?thesis
      proof (cases "not_halted raw")
        case True
        have "step L R V (node1, add_mset (Announced tx) T) (node2, add_mset (Ran tx raw) T)"
          using 2 raw True by (intro run) simp_all
        moreover have "step L R V (node2, add_mset (Ran tx raw) T) (snd (commit_l2_tx L tx raw node2), T)"
          by (rule commit) (rule prod.collapse [symmetric])
        ultimately have "steps L R V (node1, add_mset (Announced tx) T) (snd (commit_l2_tx L tx raw node2), T)"
          by (meson r_into_rtranclp rtranclp.rtrancl_into_rtrancl)
        then show ?thesis
          using True raw by (simp add: end_node)
      next
        case False
        then have "step L R V (node1, add_mset (Announced tx) T) (node2, T)"
          using 2 raw by (intro halt) simp_all
        then show ?thesis
          using False raw by (simp add: end_node)
      qed
    next
      case False
      then have "step L R V (node1, add_mset (Announced tx) T) (node2, T)"
        using 2 by (intro fail)
      moreover have "snd (run_l2_tx L V tx VerifyExecute node) = node2"
        using False by (cases r2) (simp_all add: end_node)
      ultimately show ?thesis
        by simp
    qed
    with s1 show ?thesis
      by (rule converse_rtranclp_into_rtranclp)
  qed (use valid 1 in \<open>auto simp: run_l2_tx_def announce_l2_tx_def with_inner_def with_write_def split: if_splits\<close>)
qed (auto simp: run_l2_tx_def)

lemma poisoned_handle:
  assumes "lock_poisoned (node_inner node)" and "handle L R V q node = Some node'"
  shows "node' = node"
proof (cases q)
  case (EthCall req blk)
  then show ?thesis
    using assms by (auto simp: effect_def eth_call_def run_l2_call_def split: sum.splits)
next
  case (DebugTraceCall req blk only)
  then show ?thesis
    using assms by (auto simp: effect_def trace_call_def shared_inner_def split: if_splits)
qed (use assms in \<open>auto simp: effect_def eth_write_def eth_read_def get_balance_def get_code_def get_transaction_count_def
      get_storage_def new_filter_def new_block_filter_def new_pending_transaction_filter_def uninstall_filter_def
      get_filter_changes_def eth_estimate_gas_def estimate_fee_def estimate_shared_def
      zks_get_all_account_balances_def zks_get_confirmed_tokens_def zks_get_bytecode_by_hash_def
      config_set_show_calls_def config_set_show_storage_logs_def config_set_show_vm_details_def
      config_set_show_gas_details_def config_set_def config_set_resolve_hashes_def config_set_log_level_def
      config_set_logging_def set_observability_def shared_inner_def
      evm_increase_time_def evm_mine_def evm_set_next_block_timestamp_def evm_set_time_def
      evm_snapshot_def evm_revert_snapshot_def hardhat_set_balance_def hardhat_set_nonce_def hardhat_mine_def
      hardhat_impersonate_account_def hardhat_stop_impersonating_account_def hardhat_set_code_def
      increase_time_def mine_block_def mine_blocks_def set_next_block_timestamp_def set_time_def snapshot_def
      revert_snapshot_def set_balance_def set_nonce_def impersonate_account_def ext_stop_impersonating_account_def
      set_code_def split: rust.splits prod.splits\<close>)

text \<open>C22: A panic inside the lock is final: from then on no request, transaction or commit changes the node, and
  the threads in the middle of a transaction only give up.\<close>

theorem poison_is_final:
  assumes "lock_poisoned (node_inner node)" and "steps L R V (node, T) (node', T')"
  shows "node' = node \<and> T' \<subseteq># T"
proof -
  have "fst s' = node \<and> snd s' \<subseteq># T" if "steps L R V (node, T) s'" for s'
    using that
  proof (induction rule: rtranclp_induct)
    case (step s1 s2)
    obtain T1 where s1: "s1 = (node, T1)" "T1 \<subseteq># T"
      using step.IH by (cases s1) auto
    have "fst s2 = node \<and> snd s2 \<subseteq># T1"
      using step.hyps(2) unfolding s1
      by (rule stepE)
        (use assms(1) in \<open>auto simp: announce_l2_tx_def run_l2_tx_raw_def commit_l2_tx_def
           dest: poisoned_handle\<close>)
    then show ?case
      using s1(2) by (blast intro: subset_mset.order_trans)
  qed simp
  from this [OF assms(2)] show ?thesis
    by simp
qed

text \<open>No thread is ever stuck in the middle of a transaction: from every state of the system the threads can
  finish, whatever the virtual machine answers and whether or not the lock is poisoned.\<close>

theorem transactions_finish: "\<exists>node'. steps L R V (node, T) (node', {#})"
proof (induction "\<Sum>t \<in># T. (case t of Announced _ \<Rightarrow> 2 | Ran _ _ \<Rightarrow> (1 :: nat))" arbitrary: node T rule: less_induct)
  case less
  show ?case
  proof (cases T)
    case (add t T1)
    have "\<exists>node1 T2. step L R V (node, T) (node1, T2) \<and>
        (\<Sum>t \<in># T2. (case t of Announced _ \<Rightarrow> 2 | Ran _ _ \<Rightarrow> 1)) < (\<Sum>t \<in># T. (case t of Announced _ \<Rightarrow> 2 | Ran _ _ \<Rightarrow> (1 :: nat)))"
    proof (cases t)
      case (Announced tx)
      obtain r node1 where run: "run_l2_tx_raw L V tx VerifyExecute True node = (r, node1)" by fastforce
      show ?thesis
      proof (cases "\<exists>raw. r = Ok raw \<and> not_halted raw")
        case True
        then obtain raw where "r = Ok raw" "not_halted raw"
          by blast
        then show ?thesis
          using run add Announced step.run [of L V tx node raw node1 R T1] by fastforce
      next
        case False
        then have "step L R V (node, T) (node1, T1)"
          using run add Announced by (cases r) (auto intro: halt fail)
        then show ?thesis
          using add Announced by fastforce
      qed
    next
      case (Ran tx raw)
      have "step L R V (node, T) (snd (commit_l2_tx L tx raw node), T1)"
        unfolding add Ran by (rule commit) (rule prod.collapse [symmetric])
      then show ?thesis
        using add Ran by fastforce
    qed
    then show ?thesis
      using less by (meson converse_rtranclp_into_rtranclp)
  qed auto
qed

theorem poison_is_final_witness:
  "let node = example_node\<lparr>node_inner := (node_inner example_node)\<lparr>lock_poisoned := True\<rparr>\<rparr>
   in \<exists>node'. steps example_lib example_requests (example_vm 0 (Success [])) (node, {#Announced (example_tx 1)#}) (node', {#}) \<and>
        node' = node \<and> {#} \<subseteq># {#Announced (example_tx 1)#}"
proof -
  let ?node = "example_node\<lparr>node_inner := (node_inner example_node)\<lparr>lock_poisoned := True\<rparr>\<rparr>"
  let ?V = "example_vm 0 (Success [])"
  have p: "lock_poisoned (node_inner ?node)"
    by simp
  then obtain e where "run_l2_tx_raw example_lib ?V (example_tx 1) VerifyExecute True ?node = (Err e, ?node)"
    by (simp add: run_l2_tx_raw_def)
  then have s: "steps example_lib example_requests ?V (?node, {#Announced (example_tx 1)#}) (?node, {#})"
    by (intro r_into_rtranclp fail) auto
  show ?thesis
    using s poison_is_final [OF p s] unfolding Let_def by blast
qed

end
