(* ===== verification/Primality.thy ===== *)
theory Primality
  imports Prelude
begin

text \<open>
  Primality of a large modulus, by Pocklington's criterion. The field arithmetic of the precompiles divides by every
  nonzero residue, which is sound because the modulus is a prime; this theory proves that for the modulus of
  \<^verbatim>\<open>alt_bn128\<close>, with a certificate that the kernel evaluates.
\<close>

definition is_prime :: "int \<Rightarrow> bool" where
  "is_prime p \<longleftrightarrow> 1 < p \<and> (\<forall>d. 1 < d \<and> d < p \<longrightarrow> \<not> d dvd p)"

lemma is_prime_pos: "is_prime p \<Longrightarrow> 1 < p"
  by (simp add: is_prime_def)

lemma prime_coprime:
  assumes "is_prime p" and "\<not> p dvd a"
  shows "coprime a p"
proof -
  have "gcd a p dvd p" "gcd a p dvd a"
    by simp_all
  moreover have "0 < gcd a p" "gcd a p \<le> p"
    using is_prime_pos [OF assms(1)] by (auto simp: gcd_le2_int)
  ultimately have "gcd a p = 1"
    using assms unfolding is_prime_def
    by (metis dvd_trans int_one_le_iff_zero_less order.strict_iff_order)
  then show ?thesis
    by (simp add: coprime_iff_gcd_eq_1)
qed

lemma prime_dvd_product: "is_prime p \<Longrightarrow> p dvd a * b \<Longrightarrow> p dvd a \<or> p dvd b"
  using prime_coprime [of p a] coprime_dvd_mult_right_iff [of p a b] by (auto simp: coprime_commute)

lemma prime_dvd_power: "is_prime p \<Longrightarrow> p dvd a ^ k \<Longrightarrow> p dvd a"
  by (induction k) (use is_prime_pos [of p] in \<open>auto dest: prime_dvd_product\<close>)

lemma prime_dvd_prod: "finite A \<Longrightarrow> is_prime p \<Longrightarrow> p dvd (\<Prod>i\<in>A. f i) \<Longrightarrow> \<exists>i\<in>A. p dvd f i"
  by (induction A rule: finite_induct) (use is_prime_pos [of p] in \<open>auto dest: prime_dvd_product\<close>)

text \<open>The least divisor above 1 is a prime, and its square does not exceed a composite number.\<close>

lemma prime_divisor:
  fixes n :: int
  assumes "1 < n"
  shows "\<exists>p. is_prime p \<and> p dvd n \<and> (is_prime n \<or> p * p \<le> n)"
proof -
  define p where "p = int (LEAST d. 1 < int d \<and> int d dvd n)"
  have "1 < int (nat n) \<and> int (nat n) dvd n"
    using assms by simp
  then have p: "1 < p \<and> p dvd n"
    unfolding p_def by (rule LeastI)
  have least: "p \<le> d" if "1 < d" "d dvd n" for d
  proof -
    have "(LEAST d. 1 < int d \<and> int d dvd n) \<le> nat d"
      using that by (intro Least_le) simp
    then show ?thesis
      using that(1) by (simp add: p_def)
  qed
  have "is_prime p"
    using p least unfolding is_prime_def by (meson dvd_trans not_less)
  moreover have "is_prime n \<or> p * p \<le> n"
  proof (rule disjCI)
    assume "\<not> p * p \<le> n"
    obtain m where m: "n = p * m"
      using p by blast
    have "0 < m"
      using m p assms by (metis less_trans zero_less_mult_pos zero_less_one)
    moreover have "\<not> p \<le> m"
      using \<open>\<not> p * p \<le> n\<close> m p by simp
    ultimately have "m = 1"
      using least [of m] m by force
    then show "is_prime n"
      using \<open>is_prime p\<close> m by simp
  qed
  ultimately show ?thesis
    using p by blast
qed

section \<open>Fermat\<close>

lemma fermat:
  assumes p: "is_prime p" and a: "\<not> p dvd a"
  shows "p dvd a ^ nat (p - 1) - 1"
proof -
  let ?S = "{1..<p}"
  have pos: "0 < p"
    using is_prime_pos [OF p] by simp
  have inj: "inj_on (\<lambda>i. a * i mod p) ?S"
  proof (rule inj_onI)
    fix i j assume "i \<in> ?S" "j \<in> ?S" and "a * i mod p = a * j mod p"
    then have "p dvd a * (i - j)"
      by (simp add: mod_eq_dvd_iff right_diff_distrib)
    then have "p dvd i - j"
      using a prime_dvd_product [OF p] by blast
    then have "i mod p = j mod p"
      by (simp add: mod_eq_dvd_iff)
    then show "i = j"
      using \<open>i \<in> ?S\<close> \<open>j \<in> ?S\<close> by simp
  qed
  have "a * i mod p \<in> ?S" if "i \<in> ?S" for i
  proof -
    have "\<not> p dvd i"
      using that by (auto dest: zdvd_imp_le)
    then have "a * i mod p \<noteq> 0"
      using a prime_dvd_product [OF p] by (auto simp: dvd_eq_mod_eq_0 [symmetric])
    moreover have "0 \<le> a * i mod p" "a * i mod p < p"
      using pos by simp_all
    ultimately show ?thesis
      by simp
  qed
  then have "(\<lambda>i. a * i mod p) ` ?S = ?S"
    by (intro endo_inj_surj inj) auto
  then have "(\<Prod>i\<in>?S. i) = (\<Prod>i\<in>?S. a * i mod p)"
    using prod.reindex [OF inj, of "\<lambda>i. i"] by simp
  then have "(\<Prod>i\<in>?S. i) mod p = (\<Prod>i\<in>?S. a * i) mod p"
    by (simp add: mod_prod_eq)
  also have "(\<Prod>i\<in>?S. a * i) = a ^ nat (p - 1) * (\<Prod>i\<in>?S. i)"
    by (simp add: prod.distrib)
  finally have "p dvd (\<Prod>i\<in>?S. i) * (a ^ nat (p - 1) - 1)"
    by (metis mod_eq_dvd_iff mult.commute mult.right_neutral right_diff_distrib dvd_diff_commute)
  moreover have "\<not> p dvd (\<Prod>i\<in>?S. i)"
    using prime_dvd_prod [OF _ p, of ?S "\<lambda>i. i"] zdvd_not_zless [of _ p] by force
  ultimately show ?thesis
    using prime_dvd_product [OF p] by blast
qed

section \<open>Pocklington's criterion\<close>

lemma power_residue_one: "p dvd c - 1 \<Longrightarrow> p dvd c ^ k - (1 :: int)"
proof (induction k)
  case (Suc k)
  then have "p dvd c * (c ^ k - 1) + (c - 1)"
    by (intro dvd_add dvd_mult)
  then show ?case
    by (simp add: algebra_simps)
qed simp

text \<open>An element of prime order \<^verbatim>\<open>q\<close> modulo \<^verbatim>\<open>p\<close>: \<^verbatim>\<open>q\<close> divides \<^verbatim>\<open>p - 1\<close>.\<close>

lemma order_divides:
  assumes p: "is_prime p" and q: "is_prime q" and order: "p dvd b ^ nat q - 1" and "\<not> p dvd b - 1"
  shows "q dvd p - 1"
proof (rule ccontr)
  assume "\<not> q dvd p - 1"
  then have "coprime (p - 1) q"
    by (rule prime_coprime [OF q])
  then have cop: "coprime (nat q) (nat (p - 1))"
    using is_prime_pos [OF p] is_prime_pos [OF q]
    by (simp add: coprime_commute flip: coprime_int_iff)
  have "nat q \<noteq> 0"
    using is_prime_pos [OF q] by simp
  then obtain d x y where "d dvd nat q" "d dvd nat (p - 1)" and xy: "nat q * x = nat (p - 1) * y + d"
    using bezout_add_strong_nat by blast
  then have d: "d = 1"
    using cop coprime_common_divisor_nat by blast
  have "\<not> p dvd b"
  proof
    assume "p dvd b"
    then have "p dvd b ^ nat q"
      using is_prime_pos [OF q] by (simp add: dvd_power_le [of p b 1 "nat q", simplified])
    then have "p dvd b ^ nat q - (b ^ nat q - 1)"
      using order by (rule dvd_diff)
    then show False
      using is_prime_pos [OF p] by simp
  qed
  then have "p dvd (b ^ nat (p - 1)) ^ y - 1"
    by (intro power_residue_one fermat p)
  then have "p dvd b * (b ^ (nat (p - 1) * y) - 1)"
    by (simp add: power_mult)
  moreover have "p dvd b ^ (nat q * x) - 1"
    using power_residue_one [OF order] by (simp add: power_mult)
  ultimately have "p dvd (b ^ (nat q * x) - 1) - b * (b ^ (nat (p - 1) * y) - 1)"
    by (rule dvd_diff [rotated])
  then have "p dvd b - 1"
    unfolding xy d by (simp add: algebra_simps)
  then show False
    using assms(4) by simp
qed

text \<open>One prime factor \<^verbatim>\<open>q\<close> of \<^verbatim>\<open>n - 1\<close>: an element \<^verbatim>\<open>b\<close> of order \<^verbatim>\<open>q\<close> modulo every prime divisor of \<^verbatim>\<open>n\<close>.\<close>

definition has_order :: "int \<Rightarrow> int \<Rightarrow> int \<Rightarrow> bool" where
  "has_order n q b \<longleftrightarrow> n dvd b ^ nat q - 1 \<and> coprime (b - 1) n"

lemma pocklington_factor:
  assumes "has_order n q b" and "is_prime q" and p: "is_prime p" "p dvd n"
  shows "q dvd p - 1"
proof (rule order_divides [OF p(1) assms(2)])
  show "p dvd b ^ nat q - 1"
    using assms(1) p(2) unfolding has_order_def by (blast intro: dvd_trans)
  show "\<not> p dvd b - 1"
  proof
    assume "p dvd b - 1"
    then have "is_unit p"
      using assms(1) p(2) unfolding has_order_def by (blast intro: coprime_common_divisor)
    then show False
      using is_prime_pos [OF p(1)] by simp
  qed
qed

theorem pocklington:
  assumes "1 < n" and factor: "\<And>p. is_prime p \<Longrightarrow> p dvd n \<Longrightarrow> f dvd p - 1" and large: "n < (f + 1) * (f + 1)" "0 < f"
  shows "is_prime n"
proof -
  obtain p where p: "is_prime p" "p dvd n" "is_prime n \<or> p * p \<le> n"
    using prime_divisor [OF assms(1)] by blast
  have "f \<le> p - 1"
    using factor [OF p(1,2)] is_prime_pos [OF p(1)] by (intro zdvd_imp_le) simp_all
  then have "(f + 1) * (f + 1) \<le> p * p"
    using large(2) by (intro mult_mono) simp_all
  then show ?thesis
    using p(3) large(1) by linarith
qed

section \<open>Powers with a certificate\<close>

text \<open>A chain of squarings and multiplications by the base, each with the multiple of the modulus that it drops;
  whatever the multiples are, the result is a power of the base modulo \<^verbatim>\<open>n\<close>. The modulus is given as a sum, so that
  a sparse one is cheap to multiply by.\<close>

fun multiple :: "int \<Rightarrow> int list \<Rightarrow> int" where
  "multiple q [] = 0"
| "multiple q (m # ms) = q * m + multiple q ms"

lemma multiple_sum: "multiple q ns = q * sum_list ns"
  by (induction q ns rule: multiple.induct) (simp_all add: distrib_left)

definition square :: "int \<Rightarrow> int" where "square x = x * x"

lemma square_code [code]:
  "square 0 = 0" "square (Int.Pos k) = Int.Pos (Num.sqr k)" "square (Int.Neg k) = Int.Pos (Num.sqr k)"
  by (simp_all add: square_def Num.sqr_conv_mult)

fun chain :: "int list \<Rightarrow> int \<Rightarrow> int \<Rightarrow> (bool \<times> int) list \<Rightarrow> int" where
  "chain ns b r [] = r"
| "chain ns b r ((sq, q) # cs) = chain ns b ((if sq then square r else r * b) - multiple q ns) cs"

fun chain_exponent :: "int \<Rightarrow> (bool \<times> int) list \<Rightarrow> int" where
  "chain_exponent e [] = e"
| "chain_exponent e ((sq, q) # cs) = chain_exponent (if sq then e + e else e + 1) cs"

lemma chain_power:
  "sum_list ns = n \<Longrightarrow> 0 \<le> e \<Longrightarrow> n dvd r - b ^ nat e \<Longrightarrow>
   n dvd chain ns b r cs - b ^ nat (chain_exponent e cs)"
proof (induction cs arbitrary: r e)
  case (Cons c cs)
  obtain sq q where c: "c = (sq, q)" by fastforce
  have 1: "n dvd square r - q * n - b ^ nat (e + e)"
  proof -
    have "square r - q * n - b ^ (nat e + nat e) = (r - b ^ nat e) * (r + b ^ nat e) - q * n"
      by (simp add: square_def power_add algebra_simps)
    moreover have "nat (e + e) = nat e + nat e"
      using Cons.prems(2) by (intro nat_add_distrib)
    ultimately have "square r - q * n - b ^ nat (e + e) = (r - b ^ nat e) * (r + b ^ nat e) - q * n"
      by simp
    then show ?thesis
      using Cons.prems by (simp only: dvd_diff dvd_mult2 dvd_mult dvd_refl)
  qed
  have 2: "n dvd r * b - q * n - b ^ nat (e + 1)"
  proof -
    have "r * b - q * n - b ^ nat (e + 1) = (r - b ^ nat e) * b - q * n"
      using Cons.prems(2) by (simp add: nat_add_distrib algebra_simps)
    then show ?thesis
      using Cons.prems by (simp only: dvd_diff dvd_mult2 dvd_mult dvd_refl)
  qed
  show ?case
    using Cons.IH [OF Cons.prems(1) _ 1] Cons.IH [OF Cons.prems(1) _ 2] Cons.prems(1,2)
    by (cases sq) (simp_all add: c multiple_sum)
qed simp

lemma has_orderI:
  assumes "chain ns b b cs = 1" and "chain_exponent 1 cs = q" and "sum_list ns = n" and "x * (b - 1) = y * n + 1"
  shows "has_order n q b"
proof -
  have "coprime (b - 1) n"
  proof (rule coprimeI)
    fix c assume "c dvd b - 1" "c dvd n"
    then have "c dvd x * (b - 1) - y * n"
      by (intro dvd_diff [OF dvd_mult dvd_mult])
    then show "is_unit c"
      using assms(4) by simp
  qed
  then show ?thesis
    using chain_power [OF assms(3), of 1 b b cs] assms by (auto simp: has_order_def dvd_diff_commute)
qed

lemma chain_append: "chain ns b r (cs @ ds) = chain ns b (chain ns b r cs) ds"
  by (induction ns b r cs rule: chain.induct) simp_all

lemma chain_exponent_append: "chain_exponent e (cs @ ds) = chain_exponent (chain_exponent e cs) ds"
  by (induction e cs rule: chain_exponent.induct) simp_all

section \<open>Small primes\<close>

lemma trial_division:
  assumes "1 < n" "n < k * k" and "0 < k" and trial: "list_all (\<lambda>d. n mod d \<noteq> 0) [2..k - 1]"
  shows "is_prime n"
proof (rule ccontr)
  assume "\<not> is_prime n"
  then obtain p where p: "is_prime p" "p dvd n" "p * p \<le> n"
    using prime_divisor [OF assms(1)] by blast
  have "\<not> k \<le> p"
    using p(3) assms(2,3) mult_mono [of k p k p] by force
  then have "p \<in> set [2..k - 1]"
    using is_prime_pos [OF p(1)] by simp
  then have "n mod p \<noteq> 0"
    using trial by (simp only: list_all_iff) blast
  then show False
    using p(2) by (simp add: dvd_eq_mod_eq_0)
qed

lemma small_primes: "is_prime 983" "is_prime 11003" "is_prime 3691" "is_prime 4999" "is_prime 327599"
proof -
  show "is_prime 983" "is_prime 11003" "is_prime 3691" "is_prime 4999"
    by (rule trial_division [of _ 105]; code_simp)+
  show "is_prime 327599"
    by (rule trial_division [of _ 573]; code_simp)
qed

text \<open>The criterion with a factor above the cube root: a composite \<^verbatim>\<open>n\<close> would have two factors that are 1 modulo
  \<^verbatim>\<open>f\<close>, which the last two digits of \<^verbatim>\<open>n\<close> in base \<^verbatim>\<open>f\<close> determine by a quadratic equation.\<close>

theorem brillhart:
  assumes n: "n = (s * f + r) * f + 1" and digits: "0 \<le> r" "r < f" "0 \<le> s" "s < f" and "1 < n"
    and factor: "\<And>p. is_prime p \<Longrightarrow> p dvd n \<Longrightarrow> f dvd p - 1"
    and no_root: "\<And>e. e * e \<noteq> r * r - 4 * s"
  shows "is_prime n"
proof (rule ccontr)
  assume comp: "\<not> is_prime n"
  then obtain p where p: "is_prime p" "p dvd n" "p * p \<le> n"
    using prime_divisor [OF \<open>1 < n\<close>] by blast
  obtain m where m: "n = p * m"
    using p(2) by blast
  have "0 < f"
    using digits by linarith
  have "1 < p"
    by (rule is_prime_pos [OF p(1)])
  obtain c where c: "p - 1 = f * c"
    using factor [OF p(1,2)] by blast
  have "m - 1 = f * (s * f + r - c * m)"
    using n m c by (simp add: algebra_simps)
  then obtain d where d: "m - 1 = f * d"
    by blast
  have "m \<noteq> 1"
    using comp m p(1) by auto
  moreover have "0 < m"
    using m \<open>1 < p\<close> \<open>1 < n\<close> by (metis less_trans zero_less_mult_pos zero_less_one)
  ultimately have "0 < f * c" "0 < f * d"
    using c d \<open>1 < p\<close> by linarith+
  then have pos: "1 \<le> c" "1 \<le> d"
    using \<open>0 < f\<close> zero_less_mult_pos [of f c] zero_less_mult_pos [of f d] by simp_all
  have pm: "p = f * c + 1" "m = f * d + 1"
    using c d by simp_all
  have "(s * f + r) * f = (c * d * f + (c + d)) * f"
    using n unfolding m pm by (simp add: algebra_simps)
  then have e: "s * f + r = c * d * f + (c + d)"
    using \<open>0 < f\<close> by simp
  have "s * f \<le> (f - 1) * f"
    using digits by (intro mult_right_mono) simp_all
  then have below: "s * f + r < f * f"
    using digits(2) by (simp add: algebra_simps)
  have "c * d * f < f * f"
    using e below pos by linarith
  then have "c * d < f"
    using \<open>0 < f\<close> by simp
  moreover have "0 \<le> (c - 1) * (d - 1)"
    using pos by simp
  then have cd: "c + d \<le> c * d + 1"
    by (simp add: algebra_simps)
  moreover have "c + d \<noteq> f"
  proof
    assume "c + d = f"
    then have "(f - 1) * f \<le> c * d * f"
      using cd \<open>0 < f\<close> by (intro mult_right_mono) simp_all
    then show False
      using e below \<open>c + d = f\<close> by (simp add: algebra_simps)
  qed
  ultimately have small: "0 \<le> c + d" "c + d < f"
    using pos by linarith+
  have "(s * f + r) mod f = (c * d * f + (c + d)) mod f"
    by (simp only: e)
  then have "r = c + d"
    using small digits by simp
  then have "s = c * d"
    using e \<open>0 < f\<close> by simp
  then have "(c - d) * (c - d) = r * r - 4 * s"
    using \<open>r = c + d\<close> by (simp add: algebra_simps)
  then show False
    using no_root by blast
qed

text \<open>An equation without a root: the right side is negative, or no square modulo some \<^verbatim>\<open>k\<close>.\<close>

lemma negative_no_square: "d < 0 \<Longrightarrow> e * e \<noteq> (d :: int)"
  using zero_le_square [of e] by linarith

lemma no_square:
  assumes "0 < k" and "list_all (\<lambda>x. x * x mod k \<noteq> d mod k) [0..k - 1]"
  shows "e * e \<noteq> (d :: int)"
proof
  assume "e * e = d"
  then have "(e mod k) * (e mod k) mod k = d mod k"
    by (simp add: mod_mult_eq)
  moreover have "e mod k \<in> set [0..k - 1]"
    using assms(1) by simp
  ultimately show False
    using assms(2) by (simp only: list_all_iff)
qed

lemma odd_divisor: "odd n \<Longrightarrow> p dvd n \<Longrightarrow> 2 dvd p - (1 :: int)"
  by (cases "even p") (auto dest: dvd_trans [of 2 p n])

section \<open>The certificate\<close>

lemma product_dvd: "coprime a b \<Longrightarrow> a dvd c \<Longrightarrow> b dvd c \<Longrightarrow> a * b dvd (c :: int)"
  by (rule divides_mult)

definition factor_3691_steps :: "(bool \<times> int) list" where
  "factor_3691_steps =
    [(True, 37264222), (False, 118582117), (True, 129565677), (False, 86474279), (True, 1621422), (True, 68836951), (True, 345331061),
     (False, 10421429), (True, 46365753), (False, 52273463), (True, 353514647), (True, 80098454), (False, 91278997), (True, 363374831),
     (True, 33938971), (False, 114468868), (True, 319986388), (False, 98531441)]"

lemma factor_3691_order: "has_order 405928799 3691 122990330"
  by (rule has_orderI [of "[405928799]" _ factor_3691_steps _ _
        170220075
        51574126]; code_simp)

definition factor_4999_steps :: "(bool \<times> int) list" where
  "factor_4999_steps =
    [(True, 315249322), (True, 204967312), (True, 167954724), (False, 298843615), (True, 76768515), (False, 261300297), (True, 310986165),
     (False, 161427712), (True, 478053), (True, 2958880), (True, 56800721), (True, 37757996), (True, 213670680), (False, 262974499),
     (True, 82803101), (False, 312602625), (True, 526961), (False, 152489956)]"

lemma factor_4999_order: "has_order 405928799 4999 357727241"
  by (rule has_orderI [of "[405928799]" _ factor_4999_steps _ _
        173101550
        152546801]; code_simp)

definition factor_327599_steps :: "(bool \<times> int) list" where
  "factor_327599_steps =
    [(True, 11221849875), (True, 1724631722), (True, 6060101155), (False, 2268943112), (True, 2731546040), (False, 8236933006), (True, 265229377),
     (False, 492369285), (True, 40084276), (False, 8899108479), (True, 5856646190), (False, 6171154690), (True, 62733777), (False, 2318627705),
     (True, 4717815057), (False, 852707234), (True, 2175350240), (False, 5599796625), (True, 339671381), (False, 8613120244), (True, 7273242533),
     (True, 68679853), (False, 6628187594), (True, 954110463), (True, 13647915), (False, 9586421963), (True, 6350674980), (False, 2217400291),
     (True, 195486203), (False, 6069958765), (True, 9133622276), (False, 7837282984)]"

lemma factor_327599_order: "has_order 11465965001 327599 11343250765"
  by (rule has_orderI [of "[11465965001]" _ factor_327599_steps _ _
        1604252694
        1587083215]; code_simp)

lemma middle_primes: "is_prime 405928799" "is_prime 11465965001"
proof -
  show "is_prime 405928799"
  proof (rule pocklington [of _ "3691 * 4999"])
    fix p assume "is_prime p" "p dvd 405928799"
    then have "3691 dvd p - 1" "4999 dvd p - 1"
      using factor_3691_order factor_4999_order small_primes by (blast intro: pocklington_factor)+
    moreover have "coprime (3691 :: int) 4999"
      by code_simp
    ultimately show "3691 * 4999 dvd p - 1"
      by (intro product_dvd)
  qed simp_all
  show "is_prime 11465965001"
    by (rule pocklington [of _ 327599]) (auto intro: pocklington_factor factor_327599_order small_primes)
qed

text \<open>The order of the base field of \<^verbatim>\<open>alt_bn128\<close>.\<close>

definition bn_prime :: int where
  "bn_prime = 21888242871839275222246405745257275088696311157297823662689037894645226208583"

definition bn_983_steps :: "(bool \<times> int) list" where
  "bn_983_steps =
    [(True, 387312030045120735975435612991531805391637203577577338247365829528733065202),
     (False, 1498735234069228260802424151380606663173715753564528278690025178581738054645),
     (True, 570766297509617331768294740318926239407617332975073722184889063924371401012),
     (False, 311820990936554347831777056330431764144883919018528840901157732338863744834),
     (True, 13360496941831836495907046867938161034186672190799285048257737939690421767057),
     (False, 2533637566814517073837283289821059574260142272414061833627610453937287231633),
     (True, 8868290007595183979199060894948326042483646316325002906383849517317264570516),
     (True, 19187044808136400079289877601097544534949009442855410641728765846638058414658),
     (False, 1615278785290333737359125865262006232917700494269967252612608513829006743874),
     (True, 13037833704686223146148215496636649075654052245468141281938018359030874955203),
     (True, 4419436512669385458620584298118348380035138453220599445874310573105045898053),
     (False, 1723354572326334777864743907235288651136168702634994838823122262646082837838),
     (True, 16831739434945384443465883320264419829540830893331849377638246079642942100497),
     (False, 1462928713390007697190518818337306478866033875544856079469834159565762718992),
     (True, 1051960089711788123138425565242613509874170622132406668441740196585236552533),
     (False, 473633118837018568222235516091244721069130307114562583062062774837377053111)]"

lemma bn_983_order: "has_order bn_prime 983 2911628372717355072388480759798849040380944809143351468081064950862614135074"
  by (rule has_orderI [of "[bn_prime]" _ bn_983_steps _ _
        21000224986807566679177923006079246820683368970136772330830938412688563747160
        2793502030430405019308720680670848423966275315044667519519647482277315481713]; code_simp)

definition bn_11003_steps :: "(bool \<times> int) list" where
  "bn_11003_steps =
    [(True, 4306772620674903678584327940769876251712371567919504393915738775239683278693),
     (True, 3994150125782861204538838202949684861513002568330666407415714593491894045534),
     (False, 9423109458530360853545373518111404700454589839194883415622534503246151554349),
     (True, 2116652811480932547401542028086090579290305906179637773379483578815122800921),
     (True, 5470054626068465749510760867653497046152469613924770117074185376579199677911),
     (False, 7968680397020266634014800525372532242321818609929332227298333799597040586917),
     (True, 985401098363305756615083578859957724770362112278901976224936446075535510148),
     (True, 69552057173474700167572282269388774321233060527194353168529660767431122893),
     (False, 8107159486319844304830100995151877519048778382344758551180894237426478416302),
     (True, 10913398480663018068663082413132426884916121440253289483733208551143009647357),
     (False, 577527239944080036195491682226751374809289469298810402915656254152664254452),
     (True, 16844297194420808665914772126876737709020172474147290784989461165532539062019),
     (False, 4589134325149717304717753418607872071708052667810130396284366002020059505055),
     (True, 1668124472191619263430104427370286634212042803862602867394303570356173779136),
     (False, 9487059616499538450306071723832073908422108963229552285269112780806531039483),
     (True, 20618087082487543914176498817461105164264679545206240076085161555951584640900),
     (False, 8047716936174264434259638306062091630508150184821029983344706535575380969700),
     (True, 9153320624215014636145730107793778866864497735106743409599471932431768046708),
     (True, 2381889158723984682312854112968890823677765321836358348029083953914523847000),
     (False, 526522829239569372056174751543582883008875521450513336817418110667487118353),
     (True, 15642075469683862197395894576136594538771603759280997786135812557001529997749),
     (False, 5521696248653027479438829959560753992190989580734116883641948988646506506937)]"

lemma bn_11003_order: "has_order bn_prime 11003 9709154706518998258276254379920273684639259392898388893798101702309451241048"
  by (rule has_orderI [of "[bn_prime]" _ bn_11003_steps _ _
        9014167649487761263857065481567816165484519759871730040881026155041091660617
        3998491280082413812162380485686213269644789968709811896969214090249264141506]; code_simp)

definition bn_405928799_steps :: "(bool \<times> int) list" where
  "bn_405928799_steps =
    [(True, 1404400797503028532327680372672046389876468520646724447246854439284066079050),
     (False, 4219727507680779035637018210476386157085975091766261733385640709243303933959),
     (True, 16204602534906304037969434681153292204493917696207473304464145167641407101282),
     (True, 8576026583406243637203243857951255086094934007770620982847061565774654733494),
     (True, 18522198530269387305630282919692493705711767847927948060727667292588232941472),
     (True, 130926019771378936302538048434280131429012668438430615546539742946038979945),
     (True, 12228866185180019889038443716934348095836773323639939779468905706639941601349),
     (True, 182158216109084121837606421590411889869788315887511117854251241994123689838),
     (False, 5457927152832602207479334824113475720146901478357171088394830617616021684640),
     (True, 2935836031520872045671406073654322119506096001186843993240650155636569768286),
     (False, 280359222189105162710802316417121963426472221990464369156557399616892830168),
     (True, 1519395421727018864042292317556269329618420539718364407103279970977164318897),
     (True, 16612134743248953133724564352960716328744136859236012096941516900636370083876),
     (True, 1134647317115374156628719054180133797230367448700829822692670904215098684919),
     (True, 509021479152998474839908670174066968140894227532954316726561415344696086098),
     (False, 3971978961587719528557950922435068476713867340381642848268288994271792424811),
     (True, 2617278603532857217749283205310088464559989786467016897691735884787478971827),
     (False, 2386760425262835372693438066194563358299437796576975806575942244152531653035),
     (True, 3927609757617606937448852740364339642145295310486634151825308161587350697808),
     (False, 2034138702008881872336836429320690215325808533097551180971725927564344565800),
     (True, 15164536730775253662463773719483117903466276830470960460801228173650865999022),
     (False, 4651596798965292279093159041268364469785662823879774421017792748193490297741),
     (True, 2204234020445045605088555786346929824690933623843080269275260734540508947),
     (False, 1724901270936621146694985277648132471172836359048406927024404922018684989475),
     (True, 1542433648024960378265075623693201298113317905243404840670397633279340100968),
     (False, 3705290507340558072143578351258822618724547514026729796675650999333962319808),
     (True, 1901442646979051656621036119061586867274207001534828681595941705189226099218),
     (True, 1308615412927859178950658913585362170518935870324433063455486499699538585749),
     (False, 648233153862255596151491318894019869827761040688354137331677220324546539394),
     (True, 10815608597894780484709567165459386398190807115201280181505856997011768054427),
     (False, 4870820162200495919217617738277511060286907923751822595403380790815011521634),
     (True, 2488283589805000936468168321573808291759790340399298666205942044205948950),
     (True, 12368413089114325908963589203027125105354424789633602370261086466924918359259),
     (False, 1331157495347076194169394074229546591247094700932954969735542683064178813351),
     (True, 1925640037507887985682881263913963584457683955811081354160002353332967237360),
     (True, 1301473507864192036453228435647301431003486766283272656375835634251682893549),
     (False, 3605762229674582725560876604037078646739039435765015058834287758774202093712),
     (True, 1124989060738307203928866368624980724167574220855807263015079425291970543175),
     (False, 3423502546204708808242017139803636162820087186031372105350868898750193138507),
     (True, 4430716136333319435972293039009658809725081563482271540486112956245632069010),
     (False, 4215218319767025699274916374897913512784356612294910593946879407127851381838),
     (True, 2513478946656111021498259745887993951370406657576887625898112235036691592126),
     (False, 3496027634471902080915245699891538214038014971020447910967034447686924812547),
     (True, 14979496023007288471267850100586983486420968941417095720113184388369180266416),
     (False, 3797379168263218553223620889263460470452240600668371429683040978030857685961)]"

lemma bn_405928799_order: "has_order bn_prime 405928799 5544354402917535146794216055400092040815086713032718172710860577328102998919"
  by (rule has_orderI [of "[bn_prime]" _ bn_405928799_steps _ _
        13870422682112445401476383004996844765810188317684195640332465690380144738292
        3513417660713084073323680335132221655653180545430710657291271186078195309585]; code_simp)

definition bn_11465965001_steps :: "(bool \<times> int) list" where
  "bn_11465965001_steps =
    [(True, 12599315555256695066119439835404368931723866064535907756564071032429390737),
     (True, 1012383763517213249664936146998318686082722933683813544898714235108893925111),
     (False, 323334350351031464854519824094939568113088795560571778984086098755002743036),
     (True, 8221582685857743254822228655334046622679823453855767272325186396567910345513),
     (True, 4116688920372684508657211978570746526576216130899021096857835560931716289550),
     (False, 54991538287599049990424542345944228183754994182008727590576596474553047622),
     (True, 20644625687241915301512741859990662710931649586603045302153673391552754095584),
     (True, 20058153042172703652269515556858095817720742461977717763451035511859143803937),
     (False, 103615501123355457157138902424609050742942258915990033074411598818025004577),
     (True, 356603198533794041417188564405946726914173737823643890303062545576601995763),
     (True, 138573060544112466376723252350506175072266347482321520045576203201222876882),
     (False, 326686811992076238655589693243573617241865917711288724032006765641727162115),
     (True, 1463356873998118035640611178534869687996020552421813659804361225490319802254),
     (False, 267325002829457349091638449579992822558045511785586127005935739192013777999),
     (True, 15034275537493649429347857419108325493092811731994895023280859674413270671518),
     (True, 15196035188578100545254690681204100880659336573123730525071387459760754293605),
     (False, 384198266024532999617449751448726058545424648070783697100897597411502154457),
     (True, 10070277435269473319308434797265042100364432090257487095669871700829569635609),
     (False, 229103558750009147533801967036127026897644146461031074800068172803730354014),
     (True, 4789011143948004711087034604085592651300035019442455203822901816576334195014),
     (True, 14773542207563587254454470709341828878082932242878774541242183212170235743905),
     (False, 124931927062309183659997614179127788118968628203464456161935880935370937825),
     (True, 18813510117694943725993722915977826196333805500602239887756664181153747200448),
     (False, 282969432199635302375324548429881006674354722364332516961682075791482094316),
     (True, 8578092831022765880905980128038347735520538731999375996775277413538716706481),
     (True, 2691309477993769368927861195985308435758398398141018363608061191587175819532),
     (True, 1151162647582980759066074724655911218438767755003426054924454677846039863805),
     (False, 12049959086617837050362007547184726208248577959637764946691102379168226745),
     (True, 18008362342781455941327402185486138937836675630702705443537635097061089071714),
     (True, 6681256299781998131616743592762154565509604171475250694601588256077274801741),
     (False, 417816765957689313753685868332550300768995962608281158142100966101497234532),
     (True, 11418798075988454033259170791810112709082830408144897675465424105458047497582),
     (False, 510292784842523733808954125544022510814522098104210734972181727481665899377),
     (True, 5073710901470922183606793096063005579057809719052588681743625052809992115178),
     (False, 418138467126140639567345409759888070542305985496782653840623740118529181001),
     (True, 5881670817293820716569040956397623413632079641668076755410020018658117131982),
     (False, 374472271402578598320590762305981240572695675711879701797802865797942031217),
     (True, 250389965977342028099329185109019338522380770343097791716734961262088430188),
     (True, 7685437181254707905489596386021753176165706460954458539866047267445412238026),
     (False, 120824433791257139914691413641964039388425437548085539117375418375310578913),
     (True, 392525058148653790351869121606954330206125360534373973890868092604877968567),
     (False, 443918619589164264856823093259297458165509787038561034036127766278232368115),
     (True, 10886123989978725628461450324091943241434495990607134410806778506897652443292),
     (False, 15216664018981693752983103263281922857829546670130770309477880838162351087),
     (True, 8258831218484059930646192896345627554160296034378309467560198792806078300997),
     (True, 10595669316175451561033117458590893934964238574917535933886779859659824916656),
     (True, 12375820828874635829699630112413585629048749066893708703578154082973916051552),
     (False, 3285083297879955742113059326525188808618645324128898975259243230418358847),
     (True, 21615551950687294781340457911130260095661369002089604106586210932529206682748),
     (True, 19510070508706512779171443453541546830087244064985679028430224076643694457229),
     (True, 2704731599760914104546650213550740147713291571514096052682214261097105142620),
     (False, 282153381850333270592088540370077932623638003084804627503752495958173737161)]"

lemma bn_11465965001_order: "has_order bn_prime 11465965001 525144626643366746844401290154670131211047039619911290081675828381707176271"
  by (rule has_orderI [of "[bn_prime]" _ bn_11465965001_steps _ _
        20931857426885519607772918957832816059134064841377287728279740772901177260665
        502198943869371341788683519003134217692912259849142529413727467974335068603]; code_simp)

theorem bn_prime_is_prime: "is_prime bn_prime"
proof (rule brillhart [of _ 2159238895666612613989695 100682757635810813239660502 16408273027086008537537151])
  fix p assume p: "is_prime p" "p dvd bn_prime"
  have orders: "983 dvd p - 1" "11003 dvd p - 1" "405928799 dvd p - 1" "11465965001 dvd p - 1"
    using p bn_983_order bn_11003_order bn_405928799_order bn_11465965001_order small_primes middle_primes
    by (blast intro: pocklington_factor)+
  have "odd bn_prime"
    by (simp add: bn_prime_def)
  then have "2 dvd p - 1"
    using p(2) by (rule odd_divisor)
  then have "2 * 983 dvd p - 1"
    using orders(1) by (rule_tac product_dvd) (code_simp, assumption+)
  then have "2 * 983 * 11003 dvd p - 1"
    using orders(2) by (rule_tac product_dvd) (code_simp, assumption+)
  then have "2 * 983 * 11003 * 405928799 dvd p - 1"
    using orders(3) by (rule_tac product_dvd) (code_simp, assumption+)
  then have "2 * 983 * 11003 * 405928799 * 11465965001 dvd p - 1"
    using orders(4) by (rule_tac product_dvd) (code_simp, assumption+)
  then show "100682757635810813239660502 dvd p - 1"
    by simp
next
  fix e :: int
  show "e * e \<noteq> 16408273027086008537537151 * 16408273027086008537537151 - 4 * 2159238895666612613989695"
    by (rule no_square [of 8]) code_simp+
qed (simp_all add: bn_prime_def)

end
