(* ===== verification/Curve.thy ===== *)
theory Curve
  imports Primality
begin

text \<open>
  The affine group law of a curve y^2 = x^3 + a x + b over a prime field, on integers as residues: what the elliptic
  curve precompiles of \<^verbatim>\<open>src/precompiles/\<close> are specified by. The locales \<^verbatim>\<open>prime_field\<close> and \<^verbatim>\<open>prime_curve\<close> hold what
  their clients rely on: the field is one, the law stays on the curve and commutes; each contract interprets them
  with its own moduli and curve.
\<close>

section \<open>Residues\<close>

definition eqm :: "int \<Rightarrow> int \<Rightarrow> int \<Rightarrow> bool" where
  "eqm p x y \<longleftrightarrow> x mod p = y mod p"

text \<open>The inverse that Fermat's theorem gives.\<close>

definition inverse_mod :: "int \<Rightarrow> int \<Rightarrow> int" where
  "inverse_mod p x = x ^ nat (p - 2) mod p"

section \<open>The group law\<close>

datatype point = Infinity | Point int int

definition on_curve :: "int \<Rightarrow> int \<Rightarrow> int \<Rightarrow> int \<Rightarrow> int \<Rightarrow> bool" where
  "on_curve p a b x y \<longleftrightarrow> eqm p (y * y) (x * x * x + a * x + b)"

fun valid_point :: "int \<Rightarrow> int \<Rightarrow> int \<Rightarrow> point \<Rightarrow> bool" where
  "valid_point p a b Infinity = True"
| "valid_point p a b (Point x y) = (0 \<le> x \<and> x < p \<and> 0 \<le> y \<and> y < p \<and> on_curve p a b x y)"

text \<open>The third point of the line of slope \<^verbatim>\<open>s\<close> through two points, reflected.\<close>

definition third_point :: "int \<Rightarrow> int \<Rightarrow> int \<Rightarrow> int \<Rightarrow> int \<Rightarrow> point" where
  "third_point p s x1 y1 x2 =
     (let x3 = (s * s - (x1 + x2)) mod p in Point x3 ((s * (x1 - x3) - y1) mod p))"

fun affine_add :: "int \<Rightarrow> int \<Rightarrow> point \<Rightarrow> point \<Rightarrow> point" where
  "affine_add p a Infinity Q = Q"
| "affine_add p a P Infinity = P"
| "affine_add p a (Point x1 y1) (Point x2 y2) =
     (if x1 = x2 then
        if eqm p (y1 + y2) 0 then Infinity
        else third_point p ((3 * (x1 * x1) + a) * inverse_mod p (2 * y1)) x1 y1 x2
      else third_point p ((y2 - y1) * inverse_mod p (x2 - x1)) x1 y1 x2)"

lemma affine_add_right [simp]: "affine_add p a P Infinity = P"
  by (cases P) simp_all

section \<open>Congruence\<close>

lemma eqm_dvd: "eqm p x y \<longleftrightarrow> p dvd x - y"
  by (simp add: eqm_def mod_eq_dvd_iff)

lemma eqm_refl [simp]: "eqm p x x"
  by (simp add: eqm_def)

lemma eqm_sym: "eqm p x y \<Longrightarrow> eqm p y x"
  by (simp add: eqm_def)

lemma eqm_trans [trans]: "eqm p x y \<Longrightarrow> eqm p y z \<Longrightarrow> eqm p x z"
  by (simp add: eqm_def)

lemma eqm_ops:
  "eqm p x y \<Longrightarrow> eqm p z w \<Longrightarrow> eqm p (x + z) (y + w)" "eqm p x y \<Longrightarrow> eqm p z w \<Longrightarrow> eqm p (x - z) (y - w)"
  "eqm p x y \<Longrightarrow> eqm p z w \<Longrightarrow> eqm p (x * z) (y * w)"
  unfolding eqm_dvd by (rule dvd_combine; assumption)+

lemma eqm_mod [simp]: "eqm p (x mod p) y \<longleftrightarrow> eqm p x y" "eqm p x (y mod p) \<longleftrightarrow> eqm p x y"
  by (simp_all add: eqm_def)

lemma eqm_diff: "eqm p x y \<longleftrightarrow> eqm p (x - y) 0"
  by (simp add: eqm_dvd)

lemma residue_unique: "0 \<le> x \<Longrightarrow> x < p \<Longrightarrow> 0 \<le> y \<Longrightarrow> y < p \<Longrightarrow> eqm p x y \<longleftrightarrow> x = y"
  by (simp add: eqm_def)

text \<open>A congruence from an identity: the difference is a combination of differences that vanish.\<close>

lemma eqm_identity: "x - y = k * (z - w) \<Longrightarrow> eqm p z w \<Longrightarrow> eqm p x y"
  by (simp add: eqm_dvd)

lemma on_curve_cong: "eqm p x x' \<Longrightarrow> eqm p y y' \<Longrightarrow> on_curve p a b x y \<longleftrightarrow> on_curve p a b x' y'"
proof -
  assume x: "eqm p x x'" and y: "eqm p y y'"
  have "eqm p (y * y) (y' * y')"
    by (intro eqm_ops y)
  moreover have "eqm p (x * x * x + a * x + b) (x' * x' * x' + a * x' + b)"
    by (intro eqm_ops eqm_refl x)
  ultimately show ?thesis
    by (simp add: on_curve_def eqm_def)
qed

lemma on_curve_opposite: "on_curve p a b x (- y) \<longleftrightarrow> on_curve p a b x y"
  by (simp add: on_curve_def)

lemma third_point_cong:
  assumes "eqm p s s'" and "x1 + x2 = x1' + x2'" and "eqm p (s * x1 - y1) (s' * x1' - y1')"
  shows "third_point p s x1 y1 x2 = third_point p s' x1' y1' x2'"
proof -
  have x: "(s * s - (x1 + x2)) mod p = (s' * s' - (x1' + x2')) mod p"
    using eqm_ops(2) [OF eqm_ops(3) [OF assms(1,1)] eqm_refl [of p "x1 + x2"]] assms(2) by (simp add: eqm_def)
  define x3 where "x3 = (s * s - (x1 + x2)) mod p"
  have "eqm p (s * x1 - y1 - s * x3) (s' * x1' - y1' - s' * x3)"
    by (intro eqm_ops assms eqm_refl)
  then have "(s * (x1 - x3) - y1) mod p = (s' * (x1' - x3) - y1') mod p"
    by (simp add: eqm_def algebra_simps)
  then show ?thesis
    unfolding third_point_def Let_def x [symmetric] x3_def [symmetric] by simp
qed

section \<open>The field and the curve\<close>

text \<open>A line of slope \<^verbatim>\<open>s\<close> through a point of the curve meets it again in the third point when the linear
  coefficient of the remaining polynomial vanishes: for a chord and for a tangent.\<close>

definition line_coefficient :: "int \<Rightarrow> int \<Rightarrow> int \<Rightarrow> int \<Rightarrow> int \<Rightarrow> int" where
  "line_coefficient a s x1 y1 x2 =
     x1 * x2 + (x1 + x2) * (s * s - (x1 + x2)) + 2 * s * (y1 - s * x1) - a"

locale prime_field =
  fixes p :: int
  assumes prime: "is_prime p"
begin

lemma p_pos: "0 < p"
  using is_prime_pos [OF prime] by simp

lemma eqm_product: "eqm p (x * y) 0 \<longleftrightarrow> eqm p x 0 \<or> eqm p y 0"
  using prime_dvd_product [OF prime, of x y] by (auto simp: eqm_dvd)

lemma inverse_mod: "\<not> eqm p x 0 \<Longrightarrow> eqm p (x * inverse_mod p x) 1"
proof -
  assume "\<not> eqm p x 0"
  then have "eqm p (x ^ nat (p - 1)) 1"
    using fermat [OF prime] by (simp add: eqm_dvd)
  moreover have "nat (p - 1) = Suc (nat (p - 2))"
    using is_prime_pos [OF prime] by simp
  ultimately show ?thesis
    by (simp add: inverse_mod_def eqm_def mod_mult_right_eq)
qed

lemma eqm_cancel: "eqm p (z * x) (z * y) \<Longrightarrow> \<not> eqm p z 0 \<Longrightarrow> eqm p x y"
  using eqm_product [of z "x - y"] by (simp add: eqm_dvd right_diff_distrib)

lemma quotient: "\<not> eqm p y 0 \<Longrightarrow> eqm p (x * inverse_mod p y * y) x"
proof -
  assume "\<not> eqm p y 0"
  then have "eqm p (x * (y * inverse_mod p y)) (x * 1)"
    by (intro eqm_ops eqm_refl inverse_mod)
  then show ?thesis
    by (simp add: ac_simps)
qed

end

locale prime_curve = prime_field p
  for p +
  fixes a b :: int
begin

lemma same_abscissa: "on_curve p a b x y1 \<Longrightarrow> on_curve p a b x y2 \<Longrightarrow> eqm p y1 y2 \<or> eqm p (y1 + y2) 0"
proof -
  assume "on_curve p a b x y1" "on_curve p a b x y2"
  then have "eqm p (y1 * y1) (y2 * y2)"
    unfolding on_curve_def by (blast intro: eqm_trans eqm_sym)
  then have "eqm p ((y1 - y2) * (y1 + y2)) 0"
    by (simp add: eqm_dvd algebra_simps)
  then show ?thesis
    unfolding eqm_product by (auto simp: eqm_dvd)
qed

lemma third_on_curve:
  assumes "on_curve p a b x1 y1" and "eqm p (line_coefficient a s x1 y1 x2) 0"
  shows "valid_point p a b (third_point p s x1 y1 x2)"
proof -
  define x3 where "x3 = s * s - (x1 + x2)"
  let ?y = "s * (x1 - x3) - y1"
  have id: "?y * ?y - (x3 * x3 * x3 + a * x3 + b) =
      (y1 * y1 - (x1 * x1 * x1 + a * x1 + b)) + line_coefficient a s x1 y1 x2 * (x3 - x1)"
    unfolding x3_def line_coefficient_def by (simp add: algebra_simps)
  have "p dvd (y1 * y1 - (x1 * x1 * x1 + a * x1 + b)) + line_coefficient a s x1 y1 x2 * (x3 - x1)"
    using assms by (simp add: on_curve_def eqm_dvd)
  then have "on_curve p a b x3 ?y"
    unfolding id [symmetric] by (simp add: on_curve_def eqm_dvd)
  moreover have "eqm p (s * (x1 - x3 mod p) - y1) ?y"
    by (intro eqm_ops eqm_refl) simp
  ultimately have "on_curve p a b (x3 mod p) ((s * (x1 - x3 mod p) - y1) mod p)"
    using on_curve_cong [of p "x3 mod p" x3 "(s * (x1 - x3 mod p) - y1) mod p" ?y] by simp
  then show ?thesis
    using p_pos by (simp add: third_point_def Let_def x3_def)
qed

lemma chord_coefficient:
  assumes "on_curve p a b x1 y1" "on_curve p a b x2 y2" and "eqm p (s * (x2 - x1)) (y2 - y1)"
    and "\<not> eqm p (x2 - x1) 0"
  shows "eqm p (line_coefficient a s x1 y1 x2) 0"
proof -
  let ?l = "s * (x2 - x1) + y1"
  have l: "eqm p ?l y2"
    using assms(3) by (simp add: eqm_dvd algebra_simps)
  have "on_curve p a b x2 ?l"
    using on_curve_cong [OF eqm_refl l] assms(2) by simp
  then have "p dvd (?l * ?l - (x2 * x2 * x2 + a * x2 + b)) - (y1 * y1 - (x1 * x1 * x1 + a * x1 + b))"
    using assms(1) by (simp only: on_curve_def eqm_dvd dvd_diff)
  moreover have "(?l * ?l - (x2 * x2 * x2 + a * x2 + b)) - (y1 * y1 - (x1 * x1 * x1 + a * x1 + b)) =
      line_coefficient a s x1 y1 x2 * (x2 - x1)"
    unfolding line_coefficient_def by (simp add: algebra_simps)
  ultimately have "eqm p (line_coefficient a s x1 y1 x2 * (x2 - x1)) 0"
    by (simp only: eqm_dvd diff_0_right)
  then show ?thesis
    using assms(4) by (simp add: eqm_product)
qed

lemma tangent_coefficient:
  assumes "\<not> eqm p (2 * y1) 0"
  shows "eqm p (line_coefficient a ((3 * (x1 * x1) + a) * inverse_mod p (2 * y1)) x1 y1 x1) 0"
proof -
  let ?s = "(3 * (x1 * x1) + a) * inverse_mod p (2 * y1)"
  have "line_coefficient a ?s x1 y1 x1 - 0 = 1 * (?s * (2 * y1) - (3 * (x1 * x1) + a))"
    unfolding line_coefficient_def by (simp add: algebra_simps)
  then show ?thesis
    using quotient [OF assms] by (rule eqm_identity)
qed

lemma distinct_residues:
  "valid_point p a b (Point x1 y1) \<Longrightarrow> valid_point p a b (Point x2 y2) \<Longrightarrow> x1 \<noteq> x2 \<Longrightarrow> \<not> eqm p (x2 - x1) 0"
  using residue_unique [of x2 p x1] by (simp add: eqm_dvd)

lemma same_point:
  "valid_point p a b (Point x y1) \<Longrightarrow> valid_point p a b (Point x y2) \<Longrightarrow> \<not> eqm p (y1 + y2) 0 \<Longrightarrow> y1 = y2"
  using same_abscissa [of x y1 y2] residue_unique [of y1 p y2] by simp

lemma affine_add_valid:
  "valid_point p a b P \<Longrightarrow> valid_point p a b Q \<Longrightarrow> valid_point p a b (affine_add p a P Q)"
proof (cases P; cases Q)
  fix x1 y1 x2 y2
  assume P: "P = Point x1 y1" and Q: "Q = Point x2 y2" and v: "valid_point p a b P" "valid_point p a b Q"
  note v = v [unfolded P Q]
  show ?thesis
  proof (cases "x1 = x2")
    case True
    show ?thesis
    proof (cases "eqm p (y1 + y2) 0")
      case False
      then have "y1 = y2"
        using v True by (intro same_point [of x1 y1 y2]) simp_all
      then have "\<not> eqm p (2 * y1) 0"
        using False by simp
      then have "valid_point p a b (third_point p ((3 * (x1 * x1) + a) * inverse_mod p (2 * y1)) x1 y1 x1)"
        using v by (intro third_on_curve tangent_coefficient) simp_all
      then show ?thesis
        using True False by (simp add: P Q)
    qed (use True in \<open>simp add: P Q\<close>)
  next
    case False
    note d = distinct_residues [OF v False]
    have "eqm p (line_coefficient a ((y2 - y1) * inverse_mod p (x2 - x1)) x1 y1 x2) 0"
      using v by (intro chord_coefficient [OF _ _ quotient [OF d] d]) simp_all
    then show ?thesis
      using v False third_on_curve [of x1 y1] by (simp add: P Q)
  qed
qed simp_all

lemma affine_add_commute:
  "valid_point p a b P \<Longrightarrow> valid_point p a b Q \<Longrightarrow> affine_add p a P Q = affine_add p a Q P"
proof (cases P; cases Q)
  fix x1 y1 x2 y2
  assume P: "P = Point x1 y1" and Q: "Q = Point x2 y2" and v: "valid_point p a b P" "valid_point p a b Q"
  note v = v [unfolded P Q]
  show ?thesis
  proof (cases "x1 = x2")
    case True
    then show ?thesis
      using same_point [of x1 y1 y2] v by (auto simp: P Q add.commute)
  next
    case False
    let ?s = "(y2 - y1) * inverse_mod p (x2 - x1)" and ?t = "(y1 - y2) * inverse_mod p (x1 - x2)"
    have s: "eqm p (?s * (x2 - x1)) (y2 - y1)" and t: "eqm p (?t * (x1 - x2)) (y1 - y2)"
      using distinct_residues [OF v] distinct_residues [OF v(2,1)] False by (blast intro: quotient)+
    have "eqm p ((x2 - x1) * ?s) ((x2 - x1) * ?t)"
      using dvd_add [OF s [unfolded eqm_dvd] t [unfolded eqm_dvd]] by (simp add: eqm_dvd algebra_simps)
    then have st: "eqm p ?s ?t"
      using distinct_residues [OF v False] by (rule eqm_cancel)
    have "eqm p (?s * x1 - y1) (?s * x2 - y2)"
      using s by (simp add: eqm_dvd algebra_simps dvd_diff_commute)
    also have "eqm p \<dots> (?t * x2 - y2)"
      by (intro eqm_ops st eqm_refl)
    finally have "third_point p ?s x1 y1 x2 = third_point p ?t x2 y2 x1"
      by (intro third_point_cong st) simp_all
    then show ?thesis
      using False by (simp add: P Q)
  qed
qed simp_all

end

end
