(* ===== verification/Projective.thy ===== *)
theory Projective
  imports Curve
begin

text \<open>
  Doubling and addition in projective coordinates, over the integers: the formulas that \<^verbatim>\<open>P256VERIFY.yul\<close>,
  \<^verbatim>\<open>secp256k1VERIFY.yul\<close> and \<^verbatim>\<open>EcMul.yul\<close> evaluate in Montgomery form, and their refinement of the affine group law.
\<close>

section \<open>The formulas\<close>

definition double_formula :: "int \<Rightarrow> int \<Rightarrow> int \<Rightarrow> int \<Rightarrow> int \<times> int \<times> int" where
  "double_formula a x y z =
     (let t = x * x + (x * x + x * x) + a * (z * z);
          u = y * z + y * z;
          v = u * (x * y) + u * (x * y);
          w = t * t - (v + v);
          uy = u * y
      in (u * w, t * (v - w) - (uy * uy + uy * uy), u * (u * u)))"

definition add_formula :: "int \<Rightarrow> int \<Rightarrow> int \<Rightarrow> int \<Rightarrow> int \<Rightarrow> int \<Rightarrow> int \<times> int \<times> int" where
  "add_formula x1 y1 z1 x2 y2 z2 =
     (let t0 = y1 * z2; t = t0 - y2 * z1;
          u0 = x1 * z2; u1 = x2 * z1; u = u0 - u1;
          u2 = u * u; u3 = u2 * u; v = z1 * z2;
          w = t * t * v - u2 * (u0 + u1)
      in (u * w, t * (u0 * u2 - w) - t0 * u3, u3 * v))"

text \<open>Which point the coordinates stand for: \<^verbatim>\<open>z\<close> is 0 for the point at infinity.\<close>

fun projects :: "int \<Rightarrow> point \<Rightarrow> int \<times> int \<times> int \<Rightarrow> bool" where
  "projects p Infinity (X, Y, Z) = eqm p Z 0"
| "projects p (Point x y) (X, Y, Z) = (\<not> eqm p Z 0 \<and> eqm p X (x * Z) \<and> eqm p Y (y * Z))"

lemma projects_cong:
  assumes "eqm p X X'" "eqm p Y Y'" "eqm p Z Z'"
  shows "projects p P (X, Y, Z) \<longleftrightarrow> projects p P (X', Y', Z')"
proof (cases P)
  case (Point x y)
  have "eqm p (x * Z) (x * Z')" "eqm p (y * Z) (y * Z')"
    using assms(3) by (blast intro: eqm_ops eqm_refl)+
  then show ?thesis
    using assms by (simp add: Point eqm_def)
qed (use assms in \<open>simp add: eqm_def\<close>)

context prime_curve
begin

lemma projects_third:
  assumes "\<not> eqm p W 0" and "eqm p X ((s * s - (x1 + x2)) * W)"
    and "eqm p Y ((s * (x1 - (s * s - (x1 + x2))) - y1) * W)" and "eqm p Z W"
  shows "projects p (third_point p s x1 y1 x2) (X, Y, Z)"
proof -
  let ?x = "s * s - (x1 + x2)"
  have y: "eqm p (s * (x1 - ?x mod p) - y1) (s * (x1 - ?x) - y1)"
    by (intro eqm_ops eqm_refl) simp
  have "eqm p (?x * W) (?x mod p * Z)"
    by (intro eqm_ops eqm_sym [OF assms(4)]) simp
  moreover have "eqm p ((s * (x1 - ?x) - y1) * W) ((s * (x1 - ?x mod p) - y1) mod p * Z)"
    using eqm_sym [OF y] by (intro eqm_ops eqm_sym [OF assms(4)]) (simp only: eqm_mod)
  moreover have "\<not> eqm p Z 0"
    using assms(1,4) by (simp add: eqm_def)
  ultimately show ?thesis
    using assms(2,3) by (simp add: third_point_def Let_def) (blast intro: eqm_trans)
qed

lemma double_projects_exact:
  assumes nz: "\<not> eqm p Z 0" and ny: "\<not> eqm p (2 * y) 0"
  shows "projects p (third_point p ((3 * (x * x) + a) * inverse_mod p (2 * y)) x y x)
    (double_formula a (x * Z) (y * Z) Z)"
proof -
  define s where "s = (3 * (x * x) + a) * inverse_mod p (2 * y)"
  define U where "U = 2 * y * (Z * Z)"
  define T where "T = x * Z * (x * Z) + (x * Z * (x * Z) + x * Z * (x * Z)) + a * (Z * Z)"
  have "T - s * U = (- (Z * Z)) * (s * (2 * y) - (3 * (x * x) + a))"
    unfolding T_def U_def by (simp add: algebra_simps)
  then have T: "eqm p T (s * U)"
    using quotient [OF ny] unfolding s_def by (rule eqm_identity)
  have U: "\<not> eqm p (U * (U * U)) 0"
    using nz ny unfolding U_def by (simp only: eqm_product) simp
  have d: "double_formula a (x * Z) (y * Z) Z =
      (U * (T * T - (x * U * U + x * U * U)), T * (x * U * U - (T * T - (x * U * U + x * U * U))) - y * (U * (U * U)),
       U * (U * U))"
    unfolding double_formula_def Let_def T_def [symmetric] U_def by (simp add: algebra_simps)
  have "eqm p (U * (T * T - (x * U * U + x * U * U))) (U * (s * U * (s * U) - (x * U * U + x * U * U)))"
    by (intro eqm_ops eqm_refl T)
  also have "U * (s * U * (s * U) - (x * U * U + x * U * U)) = (s * s - (x + x)) * (U * (U * U))"
    by (simp add: algebra_simps)
  finally have X: "eqm p (U * (T * T - (x * U * U + x * U * U))) ((s * s - (x + x)) * (U * (U * U)))" .
  have "eqm p (T * (x * U * U - (T * T - (x * U * U + x * U * U))) - y * (U * (U * U)))
      (s * U * (x * U * U - (s * U * (s * U) - (x * U * U + x * U * U))) - y * (U * (U * U)))"
    by (intro eqm_ops eqm_refl T)
  also have "s * U * (x * U * U - (s * U * (s * U) - (x * U * U + x * U * U))) - y * (U * (U * U)) =
      (s * (x - (s * s - (x + x))) - y) * (U * (U * U))"
    by (simp add: algebra_simps)
  finally show ?thesis
    unfolding d s_def [symmetric] by (intro projects_third [OF U X] eqm_refl)
qed

lemma add_projects_exact:
  assumes nz: "\<not> eqm p Z1 0" "\<not> eqm p Z2 0" and nx: "\<not> eqm p (x2 - x1) 0"
  shows "projects p (third_point p ((y2 - y1) * inverse_mod p (x2 - x1)) x1 y1 x2)
    (add_formula (x1 * Z1) (y1 * Z1) Z1 (x2 * Z2) (y2 * Z2) Z2)"
proof -
  define s where "s = (y2 - y1) * inverse_mod p (x2 - x1)"
  define V where "V = Z1 * Z2"
  define U where "U = (x1 - x2) * V"
  define T where "T = (y1 - y2) * V"
  have "T - s * U = V * (s * (x2 - x1) - (y2 - y1))"
    unfolding T_def U_def by (simp add: algebra_simps)
  then have T: "eqm p T (s * U)"
    using quotient [OF nx] unfolding s_def by (rule eqm_identity)
  have "eqm p (x1 - x2) 0 \<longleftrightarrow> eqm p (x2 - x1) 0"
    by (simp add: eqm_dvd dvd_diff_commute)
  then have W: "\<not> eqm p (U * U * U * V) 0"
    using nz nx unfolding U_def V_def by (simp only: eqm_product) simp
  let ?w = "\<lambda>t. t * t * V - U * U * (x1 * V + x2 * V)"
  have d: "add_formula (x1 * Z1) (y1 * Z1) Z1 (x2 * Z2) (y2 * Z2) Z2 =
      (U * ?w T, T * (x1 * V * (U * U) - ?w T) - y1 * V * (U * U * U), U * U * U * V)"
  proof -
    have e: "x1 * Z1 * Z2 = x1 * V" "x2 * Z2 * Z1 = x2 * V" "y1 * Z1 * Z2 = y1 * V" "y2 * Z2 * Z1 = y2 * V"
      "Z1 * Z2 = V" "x1 * V - x2 * V = U" "y1 * V - y2 * V = T"
      unfolding V_def U_def T_def by (simp_all add: algebra_simps)
    show ?thesis
      unfolding add_formula_def Let_def e by simp
  qed
  have "eqm p (U * ?w T) (U * ?w (s * U))"
    by (intro eqm_ops eqm_refl T)
  also have "U * ?w (s * U) = (s * s - (x1 + x2)) * (U * U * U * V)"
    by (simp add: algebra_simps)
  finally have X: "eqm p (U * ?w T) ((s * s - (x1 + x2)) * (U * U * U * V))" .
  have "eqm p (T * (x1 * V * (U * U) - ?w T) - y1 * V * (U * U * U))
      (s * U * (x1 * V * (U * U) - ?w (s * U)) - y1 * V * (U * U * U))"
    by (intro eqm_ops eqm_refl T)
  also have "s * U * (x1 * V * (U * U) - ?w (s * U)) - y1 * V * (U * U * U) =
      (s * (x1 - (s * s - (x1 + x2))) - y1) * (U * U * U * V)"
    by (simp add: algebra_simps)
  finally show ?thesis
    unfolding d s_def [symmetric] by (intro projects_third [OF W X] eqm_refl)
qed

lemma double_projects:
  assumes P: "projects p P (X, Y, Z)"
  shows "projects p (affine_add p a P P) (double_formula a X Y Z)"
proof (cases P)
  case Infinity
  have "eqm p ((Y * Z + Y * Z) * ((Y * Z + Y * Z) * (Y * Z + Y * Z))) 0"
    using P unfolding Infinity by (simp add: eqm_product mult_2 [symmetric])
  then show ?thesis
    by (simp add: Infinity double_formula_def Let_def)
next
  case (Point x y)
  note P = P [unfolded Point, simplified]
  have c: "projects p Q (double_formula a X Y Z) \<longleftrightarrow> projects p Q (double_formula a (x * Z) (y * Z) Z)" for Q
    unfolding double_formula_def Let_def using P by (intro projects_cong eqm_ops eqm_refl) simp_all
  show ?thesis
  proof (cases "eqm p (y + y) 0")
    case True
    have "eqm p ((y + y) * (Z * Z)) 0"
      using True by (simp only: eqm_product) simp
    then have "eqm p (y * Z * Z + y * Z * Z) 0"
      by (simp add: algebra_simps)
    then have "projects p Infinity (double_formula a (x * Z) (y * Z) Z)"
      by (simp only: double_formula_def Let_def projects.simps eqm_product simp_thms)
    then show ?thesis
      using True by (simp add: Point c)
  next
    case False
    then have ny: "\<not> eqm p (2 * y) 0"
      by (simp only: mult_2) simp
    have "affine_add p a P P = third_point p ((3 * (x * x) + a) * inverse_mod p (2 * y)) x y x"
      using False unfolding Point affine_add.simps by (simp only: if_True if_False simp_thms)
    then show ?thesis
      using double_projects_exact [OF _ ny, of Z x] P by (simp only: c not_False_eq_True simp_thms)
  qed
qed

text \<open>The case that the addition passes on to the doubling: both cross differences vanish.\<close>

lemma cross_differences:
  assumes P: "projects p (Point x1 y1) (X1, Y1, Z1)" and Q: "projects p (Point x2 y2) (X2, Y2, Z2)"
  shows "eqm p (X1 * Z2 - X2 * Z1) 0 \<longleftrightarrow> eqm p x1 x2" and "eqm p (Y1 * Z2 - Y2 * Z1) 0 \<longleftrightarrow> eqm p y1 y2"
proof -
  have cross: "eqm p (A * Z2 - B * Z1) 0 \<longleftrightarrow> eqm p \<alpha> \<beta>" if "eqm p A (\<alpha> * Z1)" "eqm p B (\<beta> * Z2)" for A B \<alpha> \<beta>
  proof -
    have "eqm p (A * Z2 - B * Z1) (\<alpha> * Z1 * Z2 - \<beta> * Z2 * Z1)"
      by (intro eqm_ops eqm_refl that)
    also have "\<alpha> * Z1 * Z2 - \<beta> * Z2 * Z1 = (\<alpha> - \<beta>) * (Z1 * Z2)"
      by (simp add: algebra_simps)
    finally have "eqm p (A * Z2 - B * Z1) 0 \<longleftrightarrow> eqm p ((\<alpha> - \<beta>) * (Z1 * Z2)) 0"
      by (simp add: eqm_def)
    then show ?thesis
      using P Q eqm_diff [of p \<alpha> \<beta>] by (simp add: eqm_product)
  qed
  show "eqm p (X1 * Z2 - X2 * Z1) 0 \<longleftrightarrow> eqm p x1 x2" "eqm p (Y1 * Z2 - Y2 * Z1) 0 \<longleftrightarrow> eqm p y1 y2"
    using P Q by (simp_all add: cross)
qed

lemma add_projects:
  assumes P: "projects p P (X1, Y1, Z1)" "valid_point p a b P" and Q: "projects p Q (X2, Y2, Z2)" "valid_point p a b Q"
    and nz: "\<not> eqm p Z1 0" "\<not> eqm p Z2 0"
    and ne: "\<not> (eqm p (Y1 * Z2 - Y2 * Z1) 0 \<and> eqm p (X1 * Z2 - X2 * Z1) 0)"
  shows "projects p (affine_add p a P Q) (add_formula X1 Y1 Z1 X2 Y2 Z2)"
proof -
  obtain x1 y1 x2 y2 where PQ: "P = Point x1 y1" "Q = Point x2 y2"
    using P(1) Q(1) nz by (cases P; cases Q) auto
  note P = P [unfolded PQ] and Q = Q [unfolded PQ]
  have c: "projects p R (add_formula X1 Y1 Z1 X2 Y2 Z2) \<longleftrightarrow>
      projects p R (add_formula (x1 * Z1) (y1 * Z1) Z1 (x2 * Z2) (y2 * Z2) Z2)" for R
    unfolding add_formula_def Let_def using P(1) Q(1) by (intro projects_cong eqm_ops eqm_refl) simp_all
  show ?thesis
  proof (cases "x1 = x2")
    case True
    then have u: "eqm p (X1 * Z2 - X2 * Z1) 0"
      using cross_differences(1) [OF P(1) Q(1)] by simp
    then have "\<not> eqm p y1 y2"
      using ne cross_differences(2) [OF P(1) Q(1)] by simp
    then have "affine_add p a P Q = Infinity"
      using same_abscissa [of x1 y1 y2] P(2) Q(2) True by (simp add: PQ)
    moreover have "projects p Infinity (add_formula X1 Y1 Z1 X2 Y2 Z2)"
      using u by (simp only: add_formula_def Let_def projects.simps eqm_product simp_thms)
    ultimately show ?thesis
      by simp
  next
    case False
    then show ?thesis
      using add_projects_exact [OF nz distinct_residues [OF P(2) Q(2) False], of y2 y1] by (simp add: PQ c)
  qed
qed

lemma same_projects:
  assumes P: "projects p P (X1, Y1, Z1)" "valid_point p a b P" and Q: "projects p Q (X2, Y2, Z2)" "valid_point p a b Q"
    and nz: "\<not> eqm p Z1 0" "\<not> eqm p Z2 0"
    and eq: "eqm p (Y1 * Z2 - Y2 * Z1) 0" "eqm p (X1 * Z2 - X2 * Z1) 0"
  shows "P = Q"
proof -
  obtain x1 y1 x2 y2 where PQ: "P = Point x1 y1" "Q = Point x2 y2"
    using P(1) Q(1) nz by (cases P; cases Q) auto
  note P = P [unfolded PQ] and Q = Q [unfolded PQ]
  show ?thesis
    using cross_differences [OF P(1) Q(1)] eq P(2) Q(2) residue_unique [of x1 p x2] residue_unique [of y1 p y2]
    by (simp add: PQ)
qed

end

end
