(* ===== verification/Montgomery.thy ===== *)
theory Montgomery
  imports Prelude
begin

unbundle bit_operations_syntax

text \<open>
  Montgomery arithmetic on 256-bit words, as the elliptic curve precompiles of \<^verbatim>\<open>src/precompiles/\<close> use it.
  A Yul value is a 256-bit word; \<^verbatim>\<open>add\<close>, \<^verbatim>\<open>sub\<close>, \<^verbatim>\<open>mul\<close> wrap, conditions are Booleans. The three forms of the
  reduction are those of the contracts over \<^verbatim>\<open>alt_bn128\<close> (\<^verbatim>\<open>EcAdd.yul\<close>, \<^verbatim>\<open>EcMul.yul\<close> and the others with its
  field), of \<^verbatim>\<open>P256VERIFY.yul\<close> and of \<^verbatim>\<open>secp256k1VERIFY.yul\<close>, whose moduli leave no spare bit.
\<close>

section \<open>Opcodes\<close>

text \<open>\<^verbatim>\<open>mul_high\<close> is an instruction of the machine: the high half of the product. \<^verbatim>\<open>addmod\<close> adds without
  overflow.\<close>

definition mul_high :: "u256 \<Rightarrow> u256 \<Rightarrow> u256" where
  "mul_high a b = of_int (uint a * uint b div 2 ^ 256)"

definition addmod :: "u256 \<Rightarrow> u256 \<Rightarrow> u256 \<Rightarrow> u256" where
  "addmod a b n = (if n = 0 then 0 else of_int ((uint a + uint b) mod uint n))"

definition overflowingAdd :: "u256 \<Rightarrow> u256 \<Rightarrow> u256 \<times> bool" where
  "overflowingAdd augend addend = (let sum = augend + addend in (sum, sum < augend))"

section \<open>Constants of the moduli\<close>

definition BN_P :: u256 where
  "BN_P = 21888242871839275222246405745257275088696311157297823662689037894645226208583"

definition BN_R2 :: u256 where
  "BN_R2 = 3096616502983703923843567936837374451735540968419076528771170197431451843209"

definition BN_N_PRIME :: u256 where
  "BN_N_PRIME = 111032442853175714102588374283752698368366046808579839647964533820976443843465"

definition P256_P :: u256 where
  "P256_P = 0xffffffff00000001000000000000000000000000ffffffffffffffffffffffff"

definition P256_N :: u256 where
  "P256_N = 0xffffffff00000000ffffffffffffffffbce6faada7179e84f3b9cac2fc632551"

definition P256_R2_P :: u256 where
  "P256_R2_P = 134799733323198995502561713907086292154532538166959272814710328655875"

definition P256_R2_N :: u256 where
  "P256_R2_N = 46533765739406314298121036767150998762426774378559716911348521029833835802274"

definition P256_P_PRIME :: u256 where
  "P256_P_PRIME = 115792089210356248768974548684794254293921932838497980611635986753331132366849"

definition P256_N_PRIME :: u256 where
  "P256_N_PRIME = 43790243024438006127650828685417305984841428635278707415088219106730833919055"

definition SECP_P :: u256 where
  "SECP_P = 0xfffffffffffffffffffffffffffffffffffffffffffffffffffffffefffffc2f"

definition SECP_N :: u256 where
  "SECP_N = 0xfffffffffffffffffffffffffffffffebaaedce6af48a03bbfd25e8cd0364141"

definition SECP_R2_P :: u256 where "SECP_R2_P = 18446752466076602529"

definition SECP_R2_N :: u256 where
  "SECP_R2_N = 71195301480278335217902614543643724933430614355449737089222010364394701574464"

definition SECP_P_PRIME :: u256 where
  "SECP_P_PRIME = 91248989341183975618893650062416139444822672217621753343178995607987479196977"

definition SECP_N_PRIME :: u256 where
  "SECP_N_PRIME = 98562742561918706241446412617699626731532222289571144322335133855687966765375"

section \<open>The reductions\<close>

definition bn_REDC :: "u256 \<Rightarrow> u256 \<Rightarrow> u256" where
  "bn_REDC lowestHalfOfT higherHalfOfT =
     (let m = lowestHalfOfT * BN_N_PRIME;
          hi = higherHalfOfT + mul_high m BN_P;
          (lo, overflowed) = overflowingAdd lowestHalfOfT (m * BN_P);
          hi = (if overflowed then hi + 1 else hi)
      in if \<not> hi < BN_P then hi - BN_P else hi)"

definition p256_REDC :: "u256 \<Rightarrow> u256 \<Rightarrow> u256 \<Rightarrow> u256 \<Rightarrow> u256" where
  "p256_REDC TLo THi n nPrime =
     (let m = TLo * nPrime;
          (tHi, tHiOverflowed1) = overflowingAdd THi (mul_high m n);
          (aLo, aLoOverflowed) = overflowingAdd TLo (m * n);
          (tHi, tHiOverflowed2) = (if aLoOverflowed then overflowingAdd tHi 1 else (tHi, False))
      in if (tHiOverflowed1 \<or> tHiOverflowed2) \<or> \<not> tHi < n then tHi - n else tHi)"

definition secp_REDC :: "u256 \<Rightarrow> u256 \<Rightarrow> u256 \<Rightarrow> u256 \<Rightarrow> u256" where
  "secp_REDC TLo THi n nPrime =
     (let m = TLo * nPrime;
          (tHi, tHiOverflowed) = overflowingAdd THi (mul_high m n);
          (aLo, aLoOverflowed) = overflowingAdd TLo (m * n);
          tHi = (if tHiOverflowed then tHi + (0 - n) else tHi);
          (tHi, tHiOverflowed) = (if aLoOverflowed then overflowingAdd tHi 1 else (tHi, tHiOverflowed));
          (tHi, tHiOverflowed) = (if tHiOverflowed then overflowingAdd tHi (0 - n) else (tHi, tHiOverflowed))
      in if \<not> tHi < n then tHi - n else tHi)"

section \<open>Words as residues of R\<close>

definition R256 :: int where "R256 = 2 ^ 256"

lemma R256_pos [simp]: "0 < R256" "R256 \<noteq> 0"
  by (simp_all add: R256_def)

lemma uint_bounds [simp]: "uint (a :: u256) < R256" "0 \<le> uint (a :: u256)"
  using uint_lt2p [of a] by (simp_all add: R256_def)

lemma uint_ops:
  fixes a b :: u256
  shows "uint (a + b) = (uint a + uint b) mod R256" "uint (a - b) = (uint a - uint b) mod R256"
    "uint (a * b) = uint a * uint b mod R256" "uint (- a) = - uint a mod R256"
  by (simp_all add: uint_word_ariths R256_def)

lemma uint_of_int: "uint (of_int k :: u256) = k mod R256"
  by (simp add: unsigned_of_int R256_def take_bit_eq_mod)

lemma div_below: "x < k * r \<Longrightarrow> 0 < r \<Longrightarrow> x div r < (k :: int)"
proof (rule ccontr)
  assume x: "x < k * r" and r: "0 < r" and "\<not> x div r < k"
  then have "k * r \<le> x div r * r"
    by (simp add: mult_right_mono)
  also have "\<dots> = x - x mod r"
    by (simp add: minus_mod_eq_div_mult)
  also have "\<dots> \<le> x"
    using r by simp
  finally show False
    using x by simp
qed

lemma mod_R_once: "R256 \<le> x \<Longrightarrow> x < 2 * R256 \<Longrightarrow> x mod R256 = x - R256"
  using minus_mod_self2 [of x R256] mod_pos_pos_trivial [of "x - R256" R256] by simp

lemma uint_mul_high: "uint (mul_high a b) = uint a * uint b div R256"
proof -
  have "uint a * uint b < R256 * R256"
    by (intro mult_strict_mono) simp_all
  then have "uint a * uint b div R256 < R256"
    by (rule div_below) simp
  moreover have "0 \<le> uint a * uint b div R256"
    by (simp add: pos_imp_zdiv_nonneg_iff)
  ultimately show ?thesis
    unfolding mul_high_def R256_def [symmetric] uint_of_int by (simp add: mod_pos_pos_trivial)
qed

lemma product_halves: "uint a * uint b = uint (mul_high a b) * R256 + uint (a * b)"
  by (simp add: uint_mul_high uint_ops)

lemma uint_add_le: "uint a + uint b < R256 \<Longrightarrow> uint (a + b :: u256) = uint a + uint b"
  by (simp add: uint_ops)

lemma uint_sub_ge: "uint b \<le> uint a \<Longrightarrow> uint (a - b :: u256) = uint a - uint b"
  unfolding uint_ops
proof (rule mod_pos_pos_trivial)
  assume "uint b \<le> uint a"
  then show "0 \<le> uint a - uint b"
    by simp
  show "uint a - uint b < R256"
    using uint_bounds(1) [of a] uint_bounds(2) [of b] by linarith
qed

lemma overflowing_cases:
  "overflowingAdd a b = (s, c) \<Longrightarrow> uint s + (if c then R256 else 0) = uint a + uint b"
proof -
  assume "overflowingAdd a b = (s, c)"
  then have s: "s = a + b" and c: "c = (a + b < a)"
    by (auto simp: overflowingAdd_def Let_def)
  show ?thesis
  proof (cases "uint a + uint b < R256")
    case True
    then have "uint (a + b) = uint a + uint b"
      by (rule uint_add_le)
    then show ?thesis
      by (simp add: s c word_less_def)
  next
    case False
    then have "uint (a + b) = uint a + uint b - R256"
      using uint_bounds(1) [of a] uint_bounds(1) [of b] mod_R_once [of "uint a + uint b"]
      by (simp add: uint_ops del: uint_bounds)
    then show ?thesis
      using uint_bounds(1) [of b] by (simp add: s c word_less_def)
  qed
qed

section \<open>Correctness of the reductions\<close>

lemma redc_quotient:
  fixes lo hi n nPrime :: u256
  assumes "n * nPrime = - 1"
  defines "m \<equiv> lo * nPrime"
  shows "(uint hi + uint (mul_high m n) + (if lo = 0 then 0 else 1)) * R256 =
    uint hi * R256 + uint lo + uint m * uint n"
    and "snd (overflowingAdd lo (m * n)) = (lo \<noteq> 0)"
proof -
  have "m * n = lo * (n * nPrime)"
    unfolding m_def by (simp add: ac_simps)
  then have mn: "m * n = - lo"
    using assms(1) by simp
  have "uint (- lo) = (if lo = 0 then 0 else R256 - uint lo)"
  proof (cases "lo = 0")
    case False
    then have "0 < uint lo"
      using uint_bounds(2) [of lo] by (simp add: less_le uint_0_iff)
    then have "(R256 - uint lo) mod R256 = R256 - uint lo"
      using uint_bounds(1) [of lo] by (intro mod_pos_pos_trivial) (simp_all del: uint_bounds)
    then have "- uint lo mod R256 = R256 - uint lo"
      by (simp add: mod_simps flip: mod_diff_left_eq)
    then show ?thesis
      using False by (simp add: uint_ops)
  qed simp
  then show "(uint hi + uint (mul_high m n) + (if lo = 0 then 0 else 1)) * R256 =
      uint hi * R256 + uint lo + uint m * uint n"
    unfolding product_halves [of m n] mn by (simp add: algebra_simps)
  show "snd (overflowingAdd lo (m * n)) = (lo \<noteq> 0)"
    unfolding mn overflowingAdd_def by (simp add: Let_def word_gt_0)
qed

text \<open>The quotient that a reduction computes, before its last subtraction.\<close>

definition redc_sum :: "u256 \<Rightarrow> u256 \<Rightarrow> u256 \<Rightarrow> u256 \<Rightarrow> int" where
  "redc_sum lo hi n nPrime = uint hi + uint (mul_high (lo * nPrime) n) + (if lo = 0 then 0 else 1)"

lemma redc_sum_bounds:
  assumes "n * nPrime = - 1" and "uint hi * R256 + uint lo < uint n * R256"
  shows "redc_sum lo hi n nPrime < 2 * uint n" and "0 \<le> redc_sum lo hi n nPrime"
    and "redc_sum lo hi n nPrime * R256 mod uint n = (uint hi * R256 + uint lo) mod uint n"
    and "uint hi < uint n" and "uint (mul_high (lo * nPrime) n) < uint n"
proof -
  note q = redc_quotient(1) [OF assms(1), of hi lo, folded redc_sum_def]
  have "uint (lo * nPrime) * uint n \<le> R256 * uint n"
    by (intro mult_right_mono) (simp_all add: less_imp_le)
  then have "redc_sum lo hi n nPrime * R256 < (2 * uint n) * R256"
    unfolding q using assms(2) by (simp add: algebra_simps)
  then show "redc_sum lo hi n nPrime < 2 * uint n"
    by simp
  show "0 \<le> redc_sum lo hi n nPrime"
    by (simp add: redc_sum_def)
  show "redc_sum lo hi n nPrime * R256 mod uint n = (uint hi * R256 + uint lo) mod uint n"
    unfolding q by simp
  have "uint hi * R256 < uint n * R256"
    using assms(2) uint_bounds(2) [of lo] by linarith
  then show "uint hi < uint n"
    by simp
  then have "0 < uint n"
    using uint_bounds(2) [of hi] by linarith
  then have "uint (lo * nPrime) * uint n < uint n * R256"
    by (simp add: mult.commute)
  then show "uint (mul_high (lo * nPrime) n) < uint n"
    unfolding uint_mul_high by (rule div_below) simp
qed

lemma reducedI:
  assumes "n * nPrime = - 1" and "uint hi * R256 + uint lo < uint n * R256"
    and "uint r = (if redc_sum lo hi n nPrime < uint n then redc_sum lo hi n nPrime
                   else redc_sum lo hi n nPrime - uint n)"
  shows "r < n \<and> uint r * R256 mod uint n = (uint hi * R256 + uint lo) mod uint n"
proof -
  note b = redc_sum_bounds [OF assms(1,2)]
  have "(redc_sum lo hi n nPrime - uint n) * R256 mod uint n = redc_sum lo hi n nPrime * R256 mod uint n"
    by (simp add: left_diff_distrib mod_diff_eq flip: mod_diff_right_eq)
  then have "uint r * R256 mod uint n = redc_sum lo hi n nPrime * R256 mod uint n"
    using assms(3) by simp
  then show ?thesis
    using assms(3) b(1,3) by (simp add: word_less_def split: if_splits)
qed

lemma bn_REDC_value:
  assumes "uint hi * R256 + uint lo < uint BN_P * R256"
  shows "bn_REDC lo hi < BN_P \<and> uint (bn_REDC lo hi) * R256 mod uint BN_P = (uint hi * R256 + uint lo) mod uint BN_P"
proof -
  have inv: "BN_P * BN_N_PRIME = - 1"
    by (simp add: BN_P_def BN_N_PRIME_def)
  note b = redc_sum_bounds [OF inv assms]
  have small: "2 * uint BN_P < R256"
    by (simp add: BN_P_def R256_def)
  let ?h = "hi + mul_high (lo * BN_N_PRIME) BN_P"
  have h: "uint ?h = uint hi + uint (mul_high (lo * BN_N_PRIME) BN_P)"
    using b(4,5) small by (intro uint_add_le) linarith
  have "uint (?h + 1) = uint ?h + 1"
    using b(4,5) small h uint_add_le [of ?h 1] by simp
  then have t: "uint (if lo \<noteq> 0 then ?h + 1 else ?h) = redc_sum lo hi BN_P BN_N_PRIME"
    using h by (cases "lo = 0") (simp_all add: redc_sum_def)
  obtain al where al: "overflowingAdd lo (lo * BN_N_PRIME * BN_P) = (al, lo \<noteq> 0)"
    using redc_quotient(2) [OF inv, of lo] by (cases "overflowingAdd lo (lo * BN_N_PRIME * BN_P)") simp
  have "bn_REDC lo hi = (let h = (if lo \<noteq> 0 then ?h + 1 else ?h) in if \<not> h < BN_P then h - BN_P else h)"
    by (simp add: bn_REDC_def Let_def al)
  then have "uint (bn_REDC lo hi) = (if redc_sum lo hi BN_P BN_N_PRIME < uint BN_P then redc_sum lo hi BN_P BN_N_PRIME
      else redc_sum lo hi BN_P BN_N_PRIME - uint BN_P)"
    using t by (simp add: Let_def word_less_def uint_sub_ge del: if_split split: if_split)
  then show ?thesis
    by (rule reducedI [OF inv assms])
qed

text \<open>With a modulus above half of R the sum may exceed R; the contracts catch that by the carry flags.\<close>

lemma p256_REDC_value:
  assumes inv: "n * nPrime = - 1" and "uint hi * R256 + uint lo < uint n * R256"
  shows "p256_REDC lo hi n nPrime < n \<and>
    uint (p256_REDC lo hi n nPrime) * R256 mod uint n = (uint hi * R256 + uint lo) mod uint n"
proof -
  note b = redc_sum_bounds [OF assms]
  let ?t = "redc_sum lo hi n nPrime"
  obtain h1 c1 where 1: "overflowingAdd hi (mul_high (lo * nPrime) n) = (h1, c1)" by fastforce
  obtain h2 c2 where 2: "(if lo \<noteq> 0 then overflowingAdd h1 1 else (h1, False)) = (h2, c2)" by fastforce
  note o1 = overflowing_cases [OF 1]
  have o2: "uint h2 + (if c2 then R256 else 0) = uint h1 + (if lo = 0 then 0 else 1)"
    using 2 overflowing_cases [of h1 1 h2 c2] by (auto split: if_splits)
  have t: "?t = uint h2 + (if c1 then R256 else 0) + (if c2 then R256 else 0)"
    using o1 o2 unfolding redc_sum_def by linarith
  obtain al where 3: "overflowingAdd lo (lo * nPrime * n) = (al, lo \<noteq> 0)"
    using redc_quotient(2) [OF inv, of lo] by (cases "overflowingAdd lo (lo * nPrime * n)") simp
  have def: "p256_REDC lo hi n nPrime = (if (c1 \<or> c2) \<or> \<not> h2 < n then h2 - n else h2)"
    using 2 by (simp add: p256_REDC_def Let_def 1 3)
  have n: "uint n < R256" "0 \<le> uint h2" "0 \<le> uint n"
    by simp_all
  have low: "\<not> (c1 \<or> c2) \<Longrightarrow> ?t = uint h2"
    using t by simp
  have high: "c1 \<or> c2 \<Longrightarrow> ?t = uint h2 + R256"
    using t b(1) n by (cases c1; cases c2; simp; linarith)
  show ?thesis
  proof (rule reducedI [OF assms], cases "c1 \<or> c2")
    case True
    have "uint (h2 - n) = (uint h2 - uint n) mod R256"
      by (rule uint_ops)
    also have "\<dots> = (?t - uint n) mod R256"
      unfolding high [OF True] by (metis add_diff_eq diff_add_eq mod_add_self2)
    also have "\<dots> = ?t - uint n"
      using high [OF True] b(1) n by (intro mod_pos_pos_trivial) linarith+
    finally have "uint (p256_REDC lo hi n nPrime) = ?t - uint n"
      using True by (simp add: def)
    moreover have "\<not> ?t < uint n"
      using high [OF True] n by linarith
    ultimately show "uint (p256_REDC lo hi n nPrime) = (if ?t < uint n then ?t else ?t - uint n)"
      by simp
  next
    case False
    then show "uint (p256_REDC lo hi n nPrime) = (if ?t < uint n then ?t else ?t - uint n)"
      using low [OF False] uint_sub_ge [of n h2] by (simp add: def word_less_def)
  qed
qed

lemma secp_REDC_value:
  assumes inv: "n * nPrime = - 1" and "uint hi * R256 + uint lo < uint n * R256"
  shows "secp_REDC lo hi n nPrime < n \<and>
    uint (secp_REDC lo hi n nPrime) * R256 mod uint n = (uint hi * R256 + uint lo) mod uint n"
proof -
  note b = redc_sum_bounds [OF assms(1,2)]
  let ?t = "redc_sum lo hi n nPrime"
  let ?q = "uint hi + uint (mul_high (lo * nPrime) n)"
  obtain h1 c1 where 1: "overflowingAdd hi (mul_high (lo * nPrime) n) = (h1, c1)" by fastforce
  note o1 = overflowing_cases [OF 1]
  have n: "0 < uint n" "uint n < R256"
    using b(4) uint_bounds(2) [of hi] by (linarith, simp)
  have pos: "0 \<le> uint h1" "uint h1 < R256"
    by simp_all
  obtain al where 3: "overflowingAdd lo (lo * nPrime * n) = (al, lo \<noteq> 0)"
    using redc_quotient(2) [OF inv, of lo] by (cases "overflowingAdd lo (lo * nPrime * n)") simp
  define h where "h = (if c1 then h1 + (0 - n) else h1)"
  obtain h2 c2 where 2: "(if lo \<noteq> 0 then overflowingAdd h 1 else (h, c1)) = (h2, c2)" by fastforce
  obtain h3 c3 where 4: "(if c2 then overflowingAdd h2 (0 - n) else (h2, c2)) = (h3, c3)" by fastforce
  have h3: "h3 = (if c2 then h2 - n else h2)"
    using 4 by (auto simp: overflowingAdd_def Let_def split: if_splits)
  have def: "secp_REDC lo hi n nPrime = (if \<not> h3 < n then h3 - n else h3)"
    unfolding secp_REDC_def Let_def 1 3 prod.case h_def [symmetric] 2 4 by (rule refl)
  have h: "uint h + (if c1 then uint n else 0) = ?q"
  proof (cases c1)
    case True
    then have q: "?q = uint h1 + R256"
      using o1 by simp
    have "uint h = (uint h1 - uint n) mod R256"
      using True by (simp add: h_def uint_ops)
    also have "\<dots> = (?q - uint n) mod R256"
      unfolding q by (metis add_diff_eq diff_add_eq mod_add_self2)
    also have "\<dots> = ?q - uint n"
      using q b(4,5) n pos by (intro mod_pos_pos_trivial) linarith+
    finally show ?thesis
      using True by simp
  next
    case False
    then show ?thesis
      using o1 by (simp add: h_def)
  qed
  have zero: "lo \<noteq> 0" if c1
  proof
    assume "lo = 0"
    then have "?q = uint hi"
      by (simp add: uint_mul_high)
    then show False
      using o1 that pos uint_bounds(1) [of hi] by simp
  qed
  have o2: "lo \<noteq> 0 \<Longrightarrow> uint h2 + (if c2 then R256 else 0) = uint h + 1"
    using 2 overflowing_cases [of h 1 h2 c2] by simp
  show ?thesis
  proof (rule reducedI [OF assms(1,2)])
    have t: "?t = ?q + (if lo = 0 then 0 else 1)"
      by (simp add: redc_sum_def)
    have carry: "uint h3 = ?t - uint n" if c: "c1 \<or> c2"
    proof (cases c1)
      case True
      have e: "uint h2 + (if c2 then R256 else 0) = ?t - uint n"
        using o2 [OF zero [OF True]] h t zero [OF True] True by simp
      moreover have "\<not> c2"
      proof
        assume c2
        then have "uint h2 + R256 = ?t - uint n"
          using e by simp
        then show False
          using b(1) n(2) uint_bounds(2) [of h2] by linarith
      qed
      ultimately show ?thesis
        by (simp add: h3)
    next
      case False
      then have "c2" and "lo \<noteq> 0"
        using c 2 by (auto split: if_splits)
      then have h2: "uint h2 + R256 = ?t"
        using o2 h t False by simp
      then have "uint h2 - uint n + R256 = ?t - uint n"
        by simp
      then have "uint (h2 - n) = (?t - uint n) mod R256"
        unfolding uint_ops by (metis mod_add_self2)
      also have "\<dots> = ?t - uint n"
        using h2 b(1) n uint_bounds(2) [of h2] by (intro mod_pos_pos_trivial) linarith+
      finally show ?thesis
        using \<open>c2\<close> by (simp add: h3)
    qed
    have none: "uint h3 = ?t" if "\<not> (c1 \<or> c2)"
      using that o2 h t 2 by (cases "lo = 0") (auto simp: h3)
    show "uint (secp_REDC lo hi n nPrime) = (if ?t < uint n then ?t else ?t - uint n)"
    proof (cases "c1 \<or> c2")
      case True
      then have "\<not> ?t < uint n" "h3 < n"
        using carry [OF True] b(1) uint_bounds(2) [of h3] by (simp_all add: word_less_def)
      then show ?thesis
        using carry [OF True] by (simp add: def)
    next
      case False
      then show ?thesis
        using none [OF False] uint_sub_ge [of n h3] by (simp add: def word_less_def)
    qed
  qed
qed

section \<open>Montgomery operations\<close>

definition bn_intoMontgomeryForm :: "u256 \<Rightarrow> u256" where
  "bn_intoMontgomeryForm a = (let hi = mul_high a BN_R2; lo = a * BN_R2 in bn_REDC lo hi)"

definition bn_outOfMontgomeryForm :: "u256 \<Rightarrow> u256" where
  "bn_outOfMontgomeryForm m = (let hi = 0; lo = m in bn_REDC lo hi)"

definition bn_montgomeryAdd :: "u256 \<Rightarrow> u256 \<Rightarrow> u256" where
  "bn_montgomeryAdd augend addend =
     (let ret = augend + addend in if \<not> ret < BN_P then ret - BN_P else ret)"

definition bn_montgomerySub :: "u256 \<Rightarrow> u256 \<Rightarrow> u256" where
  "bn_montgomerySub minuend subtrahend = bn_montgomeryAdd minuend (BN_P - subtrahend)"

definition bn_montgomeryMul :: "u256 \<Rightarrow> u256 \<Rightarrow> u256" where
  "bn_montgomeryMul multiplicand multiplier =
     (let higherHalfOfProduct = mul_high multiplicand multiplier;
          lowestHalfOfProduct = multiplicand * multiplier
      in bn_REDC lowestHalfOfProduct higherHalfOfProduct)"

text \<open>\<^verbatim>\<open>P256VERIFY.yul\<close> and \<^verbatim>\<open>secp256k1VERIFY.yul\<close> pass the modulus, since they compute modulo the field order and
  modulo the subgroup order; they add and subtract by \<^verbatim>\<open>addmod\<close>.\<close>

definition montgomeryAdd :: "u256 \<Rightarrow> u256 \<Rightarrow> u256 \<Rightarrow> u256" where
  "montgomeryAdd augend addend n = addmod augend addend n"

definition montgomerySub :: "u256 \<Rightarrow> u256 \<Rightarrow> u256 \<Rightarrow> u256" where
  "montgomerySub minuend subtrahend n = montgomeryAdd minuend (n - subtrahend) n"

definition p256_intoMontgomeryForm :: "u256 \<Rightarrow> u256 \<Rightarrow> u256 \<Rightarrow> u256 \<Rightarrow> u256" where
  "p256_intoMontgomeryForm a n nPrime r2 = (let hi = mul_high a r2; lo = a * r2 in p256_REDC lo hi n nPrime)"

definition p256_outOfMontgomeryForm :: "u256 \<Rightarrow> u256 \<Rightarrow> u256 \<Rightarrow> u256" where
  "p256_outOfMontgomeryForm m n nPrime = (let hi = 0; lo = m in p256_REDC lo hi n nPrime)"

definition p256_montgomeryMul :: "u256 \<Rightarrow> u256 \<Rightarrow> u256 \<Rightarrow> u256 \<Rightarrow> u256" where
  "p256_montgomeryMul multiplicand multiplier n nPrime =
     (let hi = mul_high multiplicand multiplier; lo = multiplicand * multiplier in p256_REDC lo hi n nPrime)"

definition secp_intoMontgomeryForm :: "u256 \<Rightarrow> u256 \<Rightarrow> u256 \<Rightarrow> u256 \<Rightarrow> u256" where
  "secp_intoMontgomeryForm a n nPrime r2 = (let hi = mul_high a r2; lo = a * r2 in secp_REDC lo hi n nPrime)"

definition secp_outOfMontgomeryForm :: "u256 \<Rightarrow> u256 \<Rightarrow> u256 \<Rightarrow> u256" where
  "secp_outOfMontgomeryForm m n nPrime = (let hi = 0; lo = m in secp_REDC lo hi n nPrime)"

definition secp_montgomeryMul :: "u256 \<Rightarrow> u256 \<Rightarrow> u256 \<Rightarrow> u256 \<Rightarrow> u256" where
  "secp_montgomeryMul multiplicand multiplier n nPrime =
     (let hi = mul_high multiplicand multiplier; lo = multiplicand * multiplier in secp_REDC lo hi n nPrime)"

section \<open>Residues and the words that represent them\<close>

text \<open>The word \<^verbatim>\<open>m\<close> is the Montgomery form of the residue of \<^verbatim>\<open>a\<close> modulo \<^verbatim>\<open>n\<close>.\<close>

definition represents :: "u256 \<Rightarrow> u256 \<Rightarrow> int \<Rightarrow> bool" where
  "represents n m a \<longleftrightarrow> m < n \<and> uint m mod uint n = a * R256 mod uint n"

lemma representsD:
  "represents n m a \<Longrightarrow> m < n" "represents n m a \<Longrightarrow> uint n dvd uint m - a * R256"
  "represents n m a \<Longrightarrow> uint m = a * R256 mod uint n"
proof -
  assume r: "represents n m a"
  then show "m < n"
    by (simp add: represents_def)
  then have "uint m mod uint n = uint m"
    by (intro mod_pos_pos_trivial) (simp_all add: word_less_def)
  then show "uint m = a * R256 mod uint n"
    using r by (simp add: represents_def)
  show "uint n dvd uint m - a * R256"
    using r by (simp add: represents_def mod_eq_dvd_iff)
qed

lemma representsI: "m < n \<Longrightarrow> uint n dvd uint m - a * R256 \<Longrightarrow> represents n m a"
  by (simp add: represents_def mod_eq_dvd_iff)

lemma represents_residue: "represents n m a \<Longrightarrow> uint n dvd a - b \<Longrightarrow> represents n m b"
proof (rule representsI)
  assume r: "represents n m a" and "uint n dvd a - b"
  then have "uint n dvd (a - b) * R256"
    by (rule_tac dvd_mult2)
  then have "uint n dvd a * R256 - b * R256"
    by (simp only: left_diff_distrib)
  then show "uint n dvd uint m - b * R256"
    by (rule dvd_diff_trans [OF representsD(2) [OF r]])
qed (rule representsD)

text \<open>What a reduction promises, and what the Montgomery operations built from it do.\<close>

locale montgomery =
  fixes n r2 :: u256 and redc :: "u256 \<Rightarrow> u256 \<Rightarrow> u256"
  assumes odd_modulus: "odd (uint n)" and r2_small: "r2 < n"
    and r2_square: "uint r2 = R256 * R256 mod uint n"
    and redc: "\<And>lo hi. uint hi * R256 + uint lo < uint n * R256 \<Longrightarrow>
      redc lo hi < n \<and> uint (redc lo hi) * R256 mod uint n = (uint hi * R256 + uint lo) mod uint n"
begin

lemma n_pos: "0 < uint n"
  using r2_small uint_bounds(2) [of r2] unfolding word_less_def by linarith

lemma coprime_R: "coprime (uint n) R256"
  using odd_modulus unfolding R256_def by (simp only: coprime_power_right_iff coprime_right_2_iff_odd) simp

lemma cancel_R: "uint n dvd x * R256 - y * R256 \<Longrightarrow> uint n dvd x - y"
  using coprime_R by (simp add: left_diff_distrib [symmetric] coprime_dvd_mult_left_iff)

lemma redc_product:
  assumes "uint a * uint b < uint n * R256"
  shows "redc (a * b) (mul_high a b) < n"
    and "uint n dvd uint (redc (a * b) (mul_high a b)) * R256 - uint a * uint b"
  using redc [of "mul_high a b" "a * b"] assms
  by (simp_all add: product_halves [of a b, symmetric] mod_eq_dvd_iff)

lemma product_small: "a < n \<Longrightarrow> uint b < R256 \<Longrightarrow> uint b * uint a < uint n * R256"
  using n_pos by (subst mult.commute, intro mult_strict_mono) (simp_all add: word_less_def)

lemma mul_represents:
  assumes "represents n x a" and "represents n y b"
  shows "represents n (redc (x * y) (mul_high x y)) (a * b)"
proof (rule representsI)
  note p = redc_product [OF product_small [OF representsD(1) [OF assms(2)] uint_bounds(1)], of x]
  show "redc (x * y) (mul_high x y) < n"
    by (rule p)
  have "uint n dvd uint x * uint y - (a * R256) * (b * R256)"
    using assms by (intro dvd_combine representsD)
  then have "uint n dvd uint (redc (x * y) (mul_high x y)) * R256 - (a * R256) * (b * R256)"
    by (rule dvd_diff_trans [OF p(2)])
  then have "uint n dvd uint (redc (x * y) (mul_high x y)) * R256 - (a * b * R256) * R256"
    by (simp only: mult.assoc mult.left_commute [of R256 b R256])
  then show "uint n dvd uint (redc (x * y) (mul_high x y)) - a * b * R256"
    by (rule cancel_R)
qed

lemma into_represents: "represents n (redc (a * r2) (mul_high a r2)) (uint a)"
proof (rule representsI)
  note p = redc_product [OF product_small [OF r2_small uint_bounds(1)], of a]
  show "redc (a * r2) (mul_high a r2) < n"
    by (rule p)
  have "uint n dvd uint r2 - R256 * R256"
    by (simp add: r2_square mod_eq_dvd_iff [symmetric])
  then have "uint n dvd uint a * uint r2 - uint a * (R256 * R256)"
    by (simp add: right_diff_distrib [symmetric])
  then have "uint n dvd uint (redc (a * r2) (mul_high a r2)) * R256 - uint a * (R256 * R256)"
    by (rule dvd_diff_trans [OF p(2)])
  then show "uint n dvd uint (redc (a * r2) (mul_high a r2)) - uint a * R256"
    by (rule_tac cancel_R) (simp only: mult.assoc)
qed

lemma out_represents:
  assumes "represents n m a"
  shows "uint (redc m 0) = a mod uint n"
proof -
  have "uint m * 1 < R256 * uint n"
    using n_pos by (intro mult_less_le_imp_less) simp_all
  then have r: "redc m 0 < n" "uint (redc m 0) * R256 mod uint n = uint m mod uint n"
    using redc [of 0 m] by (simp_all add: mult.commute)
  then have "uint n dvd uint (redc m 0) * R256 - uint m"
    by (simp add: mod_eq_dvd_iff)
  then have "uint n dvd uint (redc m 0) - a"
    using representsD(2) [OF assms] by (rule cancel_R [OF dvd_diff_trans])
  then show ?thesis
    using r(1) by (simp add: mod_eq_dvd_iff [symmetric] word_less_def)
qed

lemma eq_represents:
  assumes "represents n x a" and "represents n y b"
  shows "x = y \<longleftrightarrow> uint n dvd a - b"
proof
  assume "x = y"
  then have "uint n dvd a * R256 - b * R256"
    using dvd_diff_trans [OF dvd_diff_sym [OF representsD(2) [OF assms(1)]]] representsD(2) [OF assms(2)] by simp
  then show "uint n dvd a - b"
    by (rule cancel_R)
next
  assume "uint n dvd a - b"
  then have "uint x = uint y"
    using representsD(3) [OF represents_residue [OF assms(1)]] representsD(3) [OF assms(2)] by simp
  then show "x = y"
    by (simp add: word_uint_eq_iff)
qed

lemma uint_addmod: "uint (addmod x y n) = (uint x + uint y) mod uint n"
proof -
  have "(uint x + uint y) mod uint n < R256" "0 \<le> (uint x + uint y) mod uint n"
    using pos_mod_bound [OF n_pos] pos_mod_sign [OF n_pos] uint_bounds(1) [of n] by (blast intro: less_trans)+
  then have "((uint x + uint y) mod uint n) mod R256 = (uint x + uint y) mod uint n"
    by (intro mod_pos_pos_trivial)
  moreover have "n \<noteq> 0"
    using n_pos by auto
  ultimately show ?thesis
    by (simp add: addmod_def uint_of_int)
qed

lemma addmod_represents:
  assumes "uint n dvd uint x - a * R256" and "uint n dvd uint y - b * R256"
  shows "represents n (addmod x y n) (a + b)"
proof (rule representsI)
  show "addmod x y n < n"
    using pos_mod_bound [OF n_pos] by (simp add: word_less_def uint_addmod)
  have "uint n dvd uint (addmod x y n) - (uint x + uint y)"
    by (simp add: uint_addmod mod_eq_dvd_iff [symmetric])
  moreover have "uint n dvd uint x + uint y - (a + b) * R256"
    using dvd_combine(1) [OF assms] by (simp only: distrib_right)
  ultimately show "uint n dvd uint (addmod x y n) - (a + b) * R256"
    by (rule dvd_diff_trans)
qed

lemma add_represents: "represents n x a \<Longrightarrow> represents n y b \<Longrightarrow> represents n (addmod x y n) (a + b)"
  by (intro addmod_represents representsD(2))

lemma sub_represents:
  assumes "represents n x a" and "represents n y b"
  shows "represents n (addmod x (n - y) n) (a - b)"
proof -
  have "uint (n - y) = uint n - uint y"
    using representsD(1) [OF assms(2)] by (intro uint_sub_ge) (simp add: word_less_def)
  then have "uint (n - y) - (- b) * R256 = uint n - (uint y - b * R256)"
    by simp
  then have "uint n dvd uint (n - y) - (- b) * R256"
    using representsD(2) [OF assms(2)] by (simp only: dvd_diff dvd_refl)
  then show ?thesis
    using addmod_represents [OF representsD(2) [OF assms(1)]] by fastforce
qed

end

text \<open>The five moduli of the contracts.\<close>

interpretation bn: montgomery BN_P BN_R2 bn_REDC
  by unfold_locales (simp_all add: bn_REDC_value, simp_all add: BN_P_def BN_R2_def R256_def)

lemma prime_inverses:
  "P256_P * P256_P_PRIME = - 1" "P256_N * P256_N_PRIME = - 1"
  "SECP_P * SECP_P_PRIME = - 1" "SECP_N * SECP_N_PRIME = - 1"
  by (simp_all add: P256_P_def P256_P_PRIME_def P256_N_def P256_N_PRIME_def
      SECP_P_def SECP_P_PRIME_def SECP_N_def SECP_N_PRIME_def)

interpretation p256_field: montgomery P256_P P256_R2_P "\<lambda>lo hi. p256_REDC lo hi P256_P P256_P_PRIME"
  by unfold_locales (simp_all add: p256_REDC_value prime_inverses, simp_all add: P256_P_def P256_R2_P_def R256_def)

interpretation p256_scalar: montgomery P256_N P256_R2_N "\<lambda>lo hi. p256_REDC lo hi P256_N P256_N_PRIME"
  by unfold_locales (simp_all add: p256_REDC_value prime_inverses, simp_all add: P256_N_def P256_R2_N_def R256_def)

interpretation secp_field: montgomery SECP_P SECP_R2_P "\<lambda>lo hi. secp_REDC lo hi SECP_P SECP_P_PRIME"
  by unfold_locales (simp_all add: secp_REDC_value prime_inverses, simp_all add: SECP_P_def SECP_R2_P_def R256_def)

interpretation secp_scalar: montgomery SECP_N SECP_R2_N "\<lambda>lo hi. secp_REDC lo hi SECP_N SECP_N_PRIME"
  by unfold_locales (simp_all add: secp_REDC_value prime_inverses, simp_all add: SECP_N_def SECP_R2_N_def R256_def)

text \<open>Over \<^verbatim>\<open>alt_bn128\<close> a sum of two residues does not overflow, and one subtraction reduces it.\<close>

lemma bn_montgomeryAdd_addmod:
  assumes "x < BN_P" and "y \<le> BN_P"
  shows "bn_montgomeryAdd x y = addmod x y BN_P"
proof -
  have small: "2 * uint BN_P < R256"
    by (simp add: BN_P_def R256_def)
  have xy: "uint x < uint BN_P" "uint y \<le> uint BN_P"
    using assms by (simp_all add: word_less_def word_le_def)
  then have s: "uint (x + y) = uint x + uint y"
    using small by (intro uint_add_le) linarith
  show ?thesis
  proof (cases "x + y < BN_P")
    case True
    then have "(uint x + uint y) mod uint BN_P = uint x + uint y"
      using s by (intro mod_pos_pos_trivial) (simp_all add: word_less_def)
    then show ?thesis
      using True s by (simp add: bn_montgomeryAdd_def Let_def word_uint_eq_iff bn.uint_addmod)
  next
    case False
    then have ge: "uint BN_P \<le> uint x + uint y"
      using s by (simp add: word_less_def)
    have "(uint x + uint y) mod uint BN_P = (uint x + uint y - uint BN_P) mod uint BN_P"
      by simp
    also have "\<dots> = uint x + uint y - uint BN_P"
      using ge xy by (intro mod_pos_pos_trivial) linarith+
    finally show ?thesis
      using False ge s uint_sub_ge [of BN_P "x + y"]
      by (simp add: bn_montgomeryAdd_def Let_def word_uint_eq_iff bn.uint_addmod)
  qed
qed

text \<open>The residues of \<^verbatim>\<open>alt_bn128\<close>.\<close>

abbreviation bn_rep :: "u256 \<Rightarrow> int \<Rightarrow> bool" where "bn_rep \<equiv> represents BN_P"

lemma bn_ops:
  shows "bn_rep (bn_intoMontgomeryForm w) (uint w)"
    and "bn_rep x a \<Longrightarrow> uint (bn_outOfMontgomeryForm x) = a mod uint BN_P"
    and "bn_rep x a \<Longrightarrow> bn_rep y b \<Longrightarrow> bn_rep (bn_montgomeryAdd x y) (a + b)"
    and "bn_rep x a \<Longrightarrow> bn_rep y b \<Longrightarrow> bn_rep (bn_montgomerySub x y) (a - b)"
    and "bn_rep x a \<Longrightarrow> bn_rep y b \<Longrightarrow> bn_rep (bn_montgomeryMul x y) (a * b)"
proof -
  show "bn_rep (bn_intoMontgomeryForm w) (uint w)"
    using bn.into_represents by (simp add: bn_intoMontgomeryForm_def)
  show "bn_rep x a \<Longrightarrow> uint (bn_outOfMontgomeryForm x) = a mod uint BN_P"
    using bn.out_represents by (simp add: bn_outOfMontgomeryForm_def)
  show "bn_rep x a \<Longrightarrow> bn_rep y b \<Longrightarrow> bn_rep (bn_montgomeryAdd x y) (a + b)"
    using bn.add_represents bn_montgomeryAdd_addmod by (simp add: representsD(1) less_imp_le)
  show "bn_rep x a \<Longrightarrow> bn_rep y b \<Longrightarrow> bn_rep (bn_montgomeryMul x y) (a * b)"
    using bn.mul_represents by (simp add: bn_montgomeryMul_def Let_def)
  show "bn_rep (bn_montgomerySub x y) (a - b)" if x: "bn_rep x a" and y: "bn_rep y b"
  proof -
    have "BN_P - y \<le> BN_P"
      using representsD(1) [OF y] by (simp add: word_le_def uint_sub_ge word_less_def)
    then show ?thesis
      using bn.sub_represents [OF x y] representsD(1) [OF x]
      by (simp add: bn_montgomerySub_def bn_montgomeryAdd_addmod)
  qed
qed

section \<open>Products in and out of Montgomery form\<close>

context montgomery
begin

lemma roundtrip: "uint (redc (redc (a * r2) (mul_high a r2)) 0) = uint a mod uint n"
  by (rule out_represents [OF into_represents])

lemma product_roundtrip:
  "uint (redc (redc (redc (a * r2) (mul_high a r2) * redc (b * r2) (mul_high b r2))
     (mul_high (redc (a * r2) (mul_high a r2)) (redc (b * r2) (mul_high b r2)))) 0) =
   uint a * uint b mod uint n"
  by (rule out_represents [OF mul_represents [OF into_represents into_represents]])

end

lemmas montgomery_form_defs =
  bn_intoMontgomeryForm_def bn_outOfMontgomeryForm_def bn_montgomeryMul_def
  p256_intoMontgomeryForm_def p256_outOfMontgomeryForm_def p256_montgomeryMul_def
  secp_intoMontgomeryForm_def secp_outOfMontgomeryForm_def secp_montgomeryMul_def

text \<open>Into Montgomery form and back: the residue of any word, for the five moduli of the contracts.\<close>

theorem montgomery_form_roundtrip:
  "uint (bn_outOfMontgomeryForm (bn_intoMontgomeryForm a)) = uint a mod uint BN_P \<and>
   uint (p256_outOfMontgomeryForm (p256_intoMontgomeryForm a P256_P P256_P_PRIME P256_R2_P) P256_P P256_P_PRIME) =
     uint a mod uint P256_P \<and>
   uint (p256_outOfMontgomeryForm (p256_intoMontgomeryForm a P256_N P256_N_PRIME P256_R2_N) P256_N P256_N_PRIME) =
     uint a mod uint P256_N \<and>
   uint (secp_outOfMontgomeryForm (secp_intoMontgomeryForm a SECP_P SECP_P_PRIME SECP_R2_P) SECP_P SECP_P_PRIME) =
     uint a mod uint SECP_P \<and>
   uint (secp_outOfMontgomeryForm (secp_intoMontgomeryForm a SECP_N SECP_N_PRIME SECP_R2_N) SECP_N SECP_N_PRIME) =
     uint a mod uint SECP_N"
  using bn.roundtrip [of a] p256_field.roundtrip [of a] p256_scalar.roundtrip [of a]
    secp_field.roundtrip [of a] secp_scalar.roundtrip [of a]
  by (simp add: montgomery_form_defs)

text \<open>C13: the Montgomery product is the product of residues, for the five moduli of the contracts, whose carries the
  reductions handle in three different ways.\<close>

theorem montgomery_products_exact:
  "uint (bn_outOfMontgomeryForm (bn_montgomeryMul (bn_intoMontgomeryForm a) (bn_intoMontgomeryForm b))) =
     uint a * uint b mod uint BN_P \<and>
   uint (p256_outOfMontgomeryForm (p256_montgomeryMul (p256_intoMontgomeryForm a P256_P P256_P_PRIME P256_R2_P)
       (p256_intoMontgomeryForm b P256_P P256_P_PRIME P256_R2_P) P256_P P256_P_PRIME) P256_P P256_P_PRIME) =
     uint a * uint b mod uint P256_P \<and>
   uint (p256_outOfMontgomeryForm (p256_montgomeryMul (p256_intoMontgomeryForm a P256_N P256_N_PRIME P256_R2_N)
       (p256_intoMontgomeryForm b P256_N P256_N_PRIME P256_R2_N) P256_N P256_N_PRIME) P256_N P256_N_PRIME) =
     uint a * uint b mod uint P256_N \<and>
   uint (secp_outOfMontgomeryForm (secp_montgomeryMul (secp_intoMontgomeryForm a SECP_P SECP_P_PRIME SECP_R2_P)
       (secp_intoMontgomeryForm b SECP_P SECP_P_PRIME SECP_R2_P) SECP_P SECP_P_PRIME) SECP_P SECP_P_PRIME) =
     uint a * uint b mod uint SECP_P \<and>
   uint (secp_outOfMontgomeryForm (secp_montgomeryMul (secp_intoMontgomeryForm a SECP_N SECP_N_PRIME SECP_R2_N)
       (secp_intoMontgomeryForm b SECP_N SECP_N_PRIME SECP_R2_N) SECP_N SECP_N_PRIME) SECP_N SECP_N_PRIME) =
     uint a * uint b mod uint SECP_N"
  using bn.product_roundtrip [of a b] p256_field.product_roundtrip [of a b] p256_scalar.product_roundtrip [of a b]
    secp_field.product_roundtrip [of a b] secp_scalar.product_roundtrip [of a b]
  by (simp add: montgomery_form_defs Let_def)

end
