(* ===== verification/Shamir.thy ===== *)
theory Shamir
  imports Projective Montgomery
begin

unbundle bit_operations_syntax

text \<open>
  The linear combination of two points that \<^verbatim>\<open>P256VERIFY.yul\<close> and \<^verbatim>\<open>secp256k1VERIFY.yul\<close> compute with one pass over
  the bits of both scalars. The two contracts have the same text here; each calls its own doubling, addition and
  generator, which are parameters.
\<close>

type_synonym triple = "u256 \<times> u256 \<times> u256"

section \<open>The algorithm\<close>

definition compareBits :: "u256 \<Rightarrow> u256 \<Rightarrow> u256 \<Rightarrow> u256" where
  "compareBits index t0 t1 =
     (drop_bit (unat index) t0 AND 1) * 2 + (drop_bit (unat index) t1 AND 1)"

text \<open>\<^verbatim>\<open>for {} eq(ret, 0) { index := sub(index, 1) }\<close>: the loop does not end when both scalars are 0.\<close>

partial_function (option) msbLoop :: "u256 \<Rightarrow> u256 \<Rightarrow> u256 \<Rightarrow> u256 \<Rightarrow> (u256 \<times> u256) option" where
  "msbLoop index ret t0 t1 =
     (if ret = 0 then let ret = compareBits index t0 t1 in msbLoop (index - 1) ret t0 t1
      else Some (index, ret))"

definition findMostSignificantBitIndex :: "u256 \<Rightarrow> u256 \<Rightarrow> (u256 \<times> u256) option" where
  "findMostSignificantBitIndex t0 t1 =
     Option.bind (msbLoop 255 0 t0 t1) (\<lambda>(index, ret). Some (index + 1, ret))"

text \<open>The loop over the remaining bits; \<^verbatim>\<open>q\<close>, \<^verbatim>\<open>g\<close> and \<^verbatim>\<open>h\<close> are the point, the generator and their sum.\<close>

function shamirLoop ::
  "(triple \<Rightarrow> triple) \<Rightarrow> (triple \<Rightarrow> triple \<Rightarrow> triple) \<Rightarrow> triple \<Rightarrow> triple \<Rightarrow> triple \<Rightarrow> u256 \<Rightarrow> u256 \<Rightarrow> u256 \<Rightarrow> triple \<Rightarrow> triple"
where
  "shamirLoop dbl add q g h t0 t1 index r =
     (if index > 0 then
        let index = index - 1;
            r = dbl r;
            ret = compareBits index t0 t1
        in shamirLoop dbl add q g h t0 t1 index
             (if ret = 1 then add r q else if ret = 2 then add r g else if ret = 3 then add r h else r)
      else r)"
  by pat_completeness auto

termination shamirLoop
  by (relation "measure (\<lambda>(dbl, add, q, g, h, t0, t1, index, r). unat index)")
    (auto simp: word_gt_0 unat_minus_one unat_gt_0)

declare shamirLoop.simps [simp del]

definition shamirLinearCombination ::
  "(triple \<Rightarrow> triple) \<Rightarrow> (triple \<Rightarrow> triple \<Rightarrow> triple) \<Rightarrow> triple \<Rightarrow> triple \<Rightarrow> u256 \<Rightarrow> u256 \<Rightarrow> triple option" where
  "shamirLinearCombination dbl add g q t0 t1 =
     (let h = add g q in
      Option.bind (findMostSignificantBitIndex t0 t1) (\<lambda>(index, ret).
        let r = (if ret = 1 then q else if ret = 2 then g else if ret = 3 then h else (0, 0, 0))
        in Some (shamirLoop dbl add q g h t0 t1 index r)))"

section \<open>The specification\<close>

text \<open>Doubling and adding over the affine group law, by the binary digits of the scalars.\<close>

function combine :: "int \<Rightarrow> int \<Rightarrow> point \<Rightarrow> point \<Rightarrow> int \<Rightarrow> int \<Rightarrow> point" where
  "combine p a G Q t0 t1 =
     (if t0 \<le> 0 \<and> t1 \<le> 0 then Infinity
      else let R = combine p a G Q (t0 div 2) (t1 div 2);
               D = affine_add p a R R
           in if odd t0 then
                if odd t1 then affine_add p a D (affine_add p a G Q) else affine_add p a D G
              else if odd t1 then affine_add p a D Q else D)"
  by pat_completeness auto

termination combine
  by (relation "measure (\<lambda>(p, a, G, Q, t0, t1). nat (max 0 t0 + max 0 t1))") (auto simp: max_def)

declare combine.simps [simp del]

section \<open>Bits\<close>

lemma uint_drop_bit: "uint (drop_bit k (t :: u256)) = uint t div 2 ^ k"
proof (induction k arbitrary: t)
  case (Suc k)
  have "drop_bit (Suc k) t = drop_bit k (drop_bit 1 t)"
    by (simp add: drop_bit_drop_bit)
  moreover have "uint (drop_bit 1 t) = uint t div 2"
    by (simp add: drop_bit_eq_div uint_div_distrib)
  ultimately show ?case
    using Suc [of "drop_bit 1 t"] zdiv_zmult2_eq [of "2 ^ k" "uint t" 2] by simp
qed simp

lemma uint_and_one: "uint (t AND 1 :: u256) = uint t mod 2"
  unfolding unsigned_and_eq by (simp add: and_one_eq)

text \<open>The two bits at a position.\<close>

lemma compareBits_value:
  "uint (compareBits index t0 t1) =
   (uint t0 div 2 ^ unat index mod 2) * 2 + uint t1 div 2 ^ unat index mod 2"
proof -
  let ?a = "drop_bit (unat index) t0 AND 1" and ?b = "drop_bit (unat index) t1 AND 1"
  have v: "uint ?a = uint t0 div 2 ^ unat index mod 2" "uint ?b = uint t1 div 2 ^ unat index mod 2"
    by (simp_all only: uint_and_one uint_drop_bit)
  have small: "uint ?a < 2" "uint ?b < 2" "0 \<le> uint ?a" "0 \<le> uint ?b"
    unfolding v by simp_all
  have "uint (?a * 2) = uint ?a * 2 mod R256"
    by (simp add: uint_ops)
  also have "\<dots> = uint ?a * 2"
    using small by (intro mod_pos_pos_trivial) (simp_all add: R256_def)
  finally have "uint (?a * 2 + ?b) = uint ?a * 2 + uint ?b"
    using small uint_add_le [of "?a * 2" ?b] by (simp add: R256_def)
  then show ?thesis
    unfolding compareBits_def v by simp
qed

lemma compareBits_cases:
  "compareBits index t0 t1 = (if odd (uint t0 div 2 ^ unat index) then if odd (uint t1 div 2 ^ unat index) then 3 else 2
     else if odd (uint t1 div 2 ^ unat index) then 1 else 0)"
proof -
  have bit: "k mod 2 = (if odd k then 1 else 0)" for k :: int
    by presburger
  show ?thesis
    unfolding word_uint_eq_iff compareBits_value bit by simp
qed

section \<open>Correctness\<close>

lemma combine_zero: "combine p a G Q 0 0 = Infinity"
  by (subst combine.simps) simp

lemma combine_step:
  assumes "0 \<le> t0" "0 \<le> t1"
  shows "combine p a G Q t0 t1 =
    (let R = combine p a G Q (t0 div 2) (t1 div 2); D = affine_add p a R R
     in if odd t0 then if odd t1 then affine_add p a D (affine_add p a G Q) else affine_add p a D G
        else if odd t1 then affine_add p a D Q else D)"
proof (cases "t0 = 0 \<and> t1 = 0")
  case True
  then show ?thesis
    by (simp add: combine_zero)
next
  case False
  then have "\<not> (t0 \<le> 0 \<and> t1 \<le> 0)"
    using assms by linarith
  then show ?thesis
    by (subst combine.simps) (simp only: if_False)
qed

lemma small_index: "i < 256 \<Longrightarrow> unat (of_nat i :: u256) = i"
proof -
  assume "i < 256"
  also have "(256 :: nat) < 2 ^ LENGTH(256)"
    by simp
  finally show ?thesis
    by (simp add: unsigned_of_nat take_bit_nat_eq_self)
qed

lemma even_half_zero: "even k \<Longrightarrow> k div 2 = 0 \<Longrightarrow> k = (0 :: int)"
  by presburger

lemma shifted_nonneg [simp]: "0 \<le> uint (t :: u256) div 2 ^ i"
  by (simp add: pos_imp_zdiv_nonneg_iff)

text \<open>The search for the first position with a bit.\<close>

lemma msbLoop_value:
  assumes "t0 \<noteq> 0 \<or> t1 \<noteq> 0" and "i < 256" and "uint t0 div 2 ^ Suc i = 0" "uint t1 div 2 ^ Suc i = 0"
  shows "\<exists>k\<le>i. msbLoop (of_nat i) 0 t0 t1 = Some (of_nat k - 1, compareBits (of_nat k) t0 t1) \<and>
    compareBits (of_nat k) t0 t1 \<noteq> 0 \<and> uint t0 div 2 ^ Suc k = 0 \<and> uint t1 div 2 ^ Suc k = 0"
  using assms(2-4)
proof (induction i)
  case (Suc i)
  let ?c = "compareBits (of_nat (Suc i)) t0 t1"
  have step: "msbLoop (of_nat (Suc i)) 0 t0 t1 = msbLoop (of_nat (Suc i) - 1) ?c t0 t1"
    by (subst msbLoop.simps) (simp only: refl if_True Let_def)
  show ?case
  proof (cases "?c = 0")
    case True
    have u: "unat (of_nat (Suc i) :: u256) = Suc i"
      by (rule small_index [OF Suc.prems(1)])
    have "even (uint t0 div 2 ^ Suc i)" "even (uint t1 div 2 ^ Suc i)"
      using True unfolding compareBits_cases u by (auto split: if_splits)
    moreover have "uint t0 div 2 ^ Suc i div 2 = 0" "uint t1 div 2 ^ Suc i div 2 = 0"
      using Suc.prems(2,3) zdiv_zmult2_eq [of 2 "uint t0" "2 ^ Suc i"] zdiv_zmult2_eq [of 2 "uint t1" "2 ^ Suc i"]
      by (simp_all add: mult.commute)
    ultimately have "uint t0 div 2 ^ Suc i = 0" "uint t1 div 2 ^ Suc i = 0"
      by (blast intro: even_half_zero)+
    then obtain k where "k \<le> i" "msbLoop (of_nat i) 0 t0 t1 = Some (of_nat k - 1, compareBits (of_nat k) t0 t1)"
        "compareBits (of_nat k) t0 t1 \<noteq> 0" "uint t0 div 2 ^ Suc k = 0" "uint t1 div 2 ^ Suc k = 0"
      using Suc.IH Suc.prems(1) by auto
    then show ?thesis
      using step True by (intro exI [of _ k]) simp
  next
    case False
    then have "msbLoop (of_nat (Suc i)) 0 t0 t1 = Some (of_nat (Suc i) - 1, ?c)"
      unfolding step by (subst msbLoop.simps) (simp only: if_False)
    then show ?thesis
      using False Suc.prems(2,3) by (intro exI [of _ "Suc i"]) simp
  qed
next
  case 0
  have "uint t0 mod 2 = uint t0" "uint t1 mod 2 = uint t1"
    using 0(2,3) mult_div_mod_eq [of 2 "uint t0"] mult_div_mod_eq [of 2 "uint t1"] by simp_all
  then have c: "compareBits 0 t0 t1 \<noteq> 0"
    using assms(1) by (auto simp: compareBits_cases word_uint_eq_iff)
  have "msbLoop 0 0 t0 t1 = msbLoop (0 - 1) (compareBits 0 t0 t1) t0 t1"
    by (subst msbLoop.simps) (simp only: refl if_True Let_def)
  also have "\<dots> = Some (0 - 1, compareBits 0 t0 t1)"
    using c by (subst msbLoop.simps) (simp only: if_False)
  finally show ?case
    using c 0(2,3) by (intro exI [of _ 0]) simp
qed

lemma findMostSignificantBitIndex_value:
  assumes "t0 \<noteq> 0 \<or> t1 \<noteq> 0"
  shows "\<exists>k<256. findMostSignificantBitIndex t0 t1 = Some (of_nat k, compareBits (of_nat k) t0 t1) \<and>
    compareBits (of_nat k) t0 t1 \<noteq> 0 \<and> uint t0 div 2 ^ Suc k = 0 \<and> uint t1 div 2 ^ Suc k = 0"
proof -
  have "uint t div 2 ^ Suc 255 = 0" for t :: u256
    using uint_bounds(1) [of t] by (simp add: R256_def)
  then obtain k where "k \<le> 255" and k: "msbLoop (of_nat 255) 0 t0 t1 = Some (of_nat k - 1, compareBits (of_nat k) t0 t1)"
      "compareBits (of_nat k) t0 t1 \<noteq> 0" "uint t0 div 2 ^ Suc k = 0" "uint t1 div 2 ^ Suc k = 0"
    using msbLoop_value [OF assms, of 255] by auto
  then show ?thesis
    by (intro exI [of _ k]) (simp add: findMostSignificantBitIndex_def)
qed

text \<open>What a contract's doubling and addition promise: on coordinates that denote points of the curve they denote the
  affine sum.\<close>

locale point_operations = prime_curve p a b
  for p a b +
  fixes dbl :: "triple \<Rightarrow> triple" and add :: "triple \<Rightarrow> triple \<Rightarrow> triple" and denotes :: "triple \<Rightarrow> point \<Rightarrow> bool"
  assumes dbl: "denotes t P \<Longrightarrow> valid_point p a b P \<Longrightarrow> denotes (dbl t) (affine_add p a P P)"
    and add: "denotes t P \<Longrightarrow> valid_point p a b P \<Longrightarrow> denotes u Q \<Longrightarrow> valid_point p a b Q \<Longrightarrow>
      denotes (add t u) (affine_add p a P Q)"
begin

lemma combine_valid:
  "valid_point p a b G \<Longrightarrow> valid_point p a b Q \<Longrightarrow> valid_point p a b (combine p a G Q t0 t1)"
proof (induction "nat (max 0 t0 + max 0 t1)" arbitrary: t0 t1 rule: less_induct)
  case less
  show ?case
  proof (cases "t0 \<le> 0 \<and> t1 \<le> 0")
    case True
    then show ?thesis
      by (subst combine.simps) simp
  next
    case False
    then have "nat (max 0 (t0 div 2) + max 0 (t1 div 2)) < nat (max 0 t0 + max 0 t1)"
      by (auto simp: max_def)
    then have "valid_point p a b (combine p a G Q (t0 div 2) (t1 div 2))"
      using less by blast
    then show ?thesis
      using False less.prems by (subst combine.simps) (auto simp: Let_def intro!: affine_add_valid)
  qed
qed

lemma shamirLoop_denotes:
  assumes q: "denotes q Q" "valid_point p a b Q" and g: "denotes g G" "valid_point p a b G"
    and h: "denotes h (affine_add p a G Q)" and "i < 256"
    and "denotes r (combine p a G Q (uint t0 div 2 ^ i) (uint t1 div 2 ^ i))"
  shows "denotes (shamirLoop dbl add q g h t0 t1 (of_nat i) r) (combine p a G Q (uint t0) (uint t1))"
  using assms(6,7)
proof (induction i arbitrary: r)
  case 0
  then show ?case
    by (subst shamirLoop.simps) simp
next
  case (Suc i)
  let ?t0 = "uint t0 div 2 ^ i" and ?t1 = "uint t1 div 2 ^ i"
  let ?R = "combine p a G Q (?t0 div 2) (?t1 div 2)"
  let ?c = "compareBits (of_nat i) t0 t1"
  let ?n = "if ?c = 1 then add (dbl r) q else if ?c = 2 then add (dbl r) g else if ?c = 3 then add (dbl r) h else dbl r"
  have half: "uint t div 2 ^ Suc i = uint t div 2 ^ i div 2" for t :: u256
    using zdiv_zmult2_eq [of 2 "uint t" "2 ^ i"] by (simp add: mult.commute)
  have u: "unat (of_nat i :: u256) = i"
    using Suc.prems(1) by (intro small_index) simp
  have d: "denotes (dbl r) (affine_add p a ?R ?R)" "valid_point p a b (affine_add p a ?R ?R)"
    using Suc.prems(2) q g unfolding half by (blast intro: dbl combine_valid affine_add_valid)+
  have hv: "valid_point p a b (affine_add p a G Q)"
    using q g by (blast intro: affine_add_valid)
  have "denotes ?n (combine p a G Q ?t0 ?t1)"
    using add [OF d q] add [OF d g] add [OF d h hv] d(1)
    by (subst combine_step) (simp_all add: compareBits_cases u Let_def)
  then have "denotes (shamirLoop dbl add q g h t0 t1 (of_nat i) ?n) (combine p a G Q (uint t0) (uint t1))"
    using Suc.prems(1) by (intro Suc.IH) simp_all
  moreover have "(of_nat (Suc i) :: u256) > 0"
    using small_index [OF Suc.prems(1)] by (simp only: word_gt_0) (metis unat_0 nat.distinct(1))
  then have "shamirLoop dbl add q g h t0 t1 (of_nat (Suc i)) r = shamirLoop dbl add q g h t0 t1 (of_nat i) ?n"
    by (subst shamirLoop.simps) (simp add: Let_def)
  ultimately show ?case
    by simp
qed

lemma shamir_denotes:
  assumes q: "denotes q Q" "valid_point p a b Q" and g: "denotes g G" "valid_point p a b G" and "t0 \<noteq> 0 \<or> t1 \<noteq> 0"
  shows "\<exists>r. shamirLinearCombination dbl add g q t0 t1 = Some r \<and> denotes r (combine p a G Q (uint t0) (uint t1))"
proof -
  obtain k where "k < 256" and k: "findMostSignificantBitIndex t0 t1 = Some (of_nat k, compareBits (of_nat k) t0 t1)"
      "compareBits (of_nat k) t0 t1 \<noteq> 0" "uint t0 div 2 ^ Suc k = 0" "uint t1 div 2 ^ Suc k = 0"
    using findMostSignificantBitIndex_value [OF assms(5)] by blast
  let ?c = "compareBits (of_nat k) t0 t1"
  let ?r = "if ?c = 1 then q else if ?c = 2 then g else if ?c = 3 then add g q else (0, 0, 0)"
  have h: "denotes (add g q) (affine_add p a G Q)"
    using add [OF g q] .
  have half: "uint t div 2 ^ k div 2 = uint t div 2 ^ Suc k" for t :: u256
    using zdiv_zmult2_eq [of 2 "uint t" "2 ^ k"] by (simp add: mult.commute)
  have z: "uint t0 div 2 ^ k div 2 = 0" "uint t1 div 2 ^ k div 2 = 0"
    by (simp_all only: half k(3,4))
  have u: "unat (of_nat k :: u256) = k"
    by (rule small_index [OF \<open>k < 256\<close>])
  have "denotes ?r (combine p a G Q (uint t0 div 2 ^ k) (uint t1 div 2 ^ k))"
    using k(2) q g h unfolding compareBits_cases u
    by (subst combine_step) (auto simp: z combine_zero Let_def)
  then have "denotes (shamirLoop dbl add q g (add g q) t0 t1 (of_nat k) ?r) (combine p a G Q (uint t0) (uint t1))"
    using shamirLoop_denotes [OF q g h \<open>k < 256\<close>] by blast
  then show ?thesis
    by (simp add: shamirLinearCombination_def k(1) Let_def)
qed

end

end
