(* ===== verification/ModularInverse.thy ===== *)
theory ModularInverse
  imports Montgomery
begin

unbundle bit_operations_syntax

text \<open>
  The binary extended Euclidean algorithm of \<^verbatim>\<open>src/precompiles/\<close>, which inverts a residue in Montgomery form. Its
  loops run for ever on a value that has a factor in common with the modulus (on 0 in particular), so they are
  partial functions: \<^verbatim>\<open>None\<close> is a contract that never returns. The two versions of the contracts differ in how they
  halve a residue; the halving is a parameter of the loops.
\<close>

section \<open>The algorithm\<close>

text \<open>Halving modulo the prime of \<^verbatim>\<open>alt_bn128\<close>, where a sum with the modulus does not overflow, and modulo one
  that may have no spare bit, where the carry is put back.\<close>

definition bn_halve :: "u256 \<Rightarrow> u256" where
  "bn_halve b = (if b AND 1 = 0 then drop_bit 1 b else drop_bit 1 (b + BN_P))"

definition halve :: "u256 \<Rightarrow> u256 \<Rightarrow> u256" where
  "halve modulus b =
     (let mask = 57896044618658097711785492504343953926634992332820282019728792003956564819968;
          modulusHasSpareBits = (modulus AND mask = 0)
      in if b AND 1 = 0 then drop_bit 1 b
         else let (newB, carry) = overflowingAdd b modulus;
                  b = drop_bit 1 newB
              in if \<not> modulusHasSpareBits \<and> carry then b OR mask else b)"

text \<open>\<^verbatim>\<open>for {} iszero(and(u, 1)) {}\<close>: the loop that makes \<^verbatim>\<open>u\<close> odd.\<close>

partial_function (option) halvingLoop :: "(u256 \<Rightarrow> u256) \<Rightarrow> u256 \<Rightarrow> u256 \<Rightarrow> (u256 \<times> u256) option" where
  "halvingLoop half u b =
     (if u AND 1 = 0 then halvingLoop half (drop_bit 1 u) (half b) else Some (u, b))"

partial_function (option) euclideanLoop ::
  "(u256 \<Rightarrow> u256) \<Rightarrow> u256 \<Rightarrow> u256 \<Rightarrow> u256 \<Rightarrow> u256 \<Rightarrow> u256 \<Rightarrow> u256 option" where
  "euclideanLoop half modulus u v b c =
     (if u \<noteq> 1 \<and> v \<noteq> 1 then
        Option.bind (halvingLoop half u b) (\<lambda>(u, b).
        Option.bind (halvingLoop half v c) (\<lambda>(v, c).
          if \<not> v > u then
            let u = u - v;
                b = (if b < c then b + modulus else b);
                b = b - c
            in euclideanLoop half modulus u v b c
          else
            let v = v - u;
                c = (if c < b then c + modulus else c);
                c = c - b
            in euclideanLoop half modulus u v b c))
      else Some (if u = 1 then b else c))"

definition bn_binaryExtendedEuclideanAlgorithm :: "u256 \<Rightarrow> u256 option" where
  "bn_binaryExtendedEuclideanAlgorithm base = euclideanLoop bn_halve BN_P base BN_P BN_R2 0"

definition binaryExtendedEuclideanAlgorithm :: "u256 \<Rightarrow> u256 \<Rightarrow> u256 \<Rightarrow> u256 option" where
  "binaryExtendedEuclideanAlgorithm base modulus r2 = euclideanLoop (halve modulus) modulus base modulus r2 0"

definition bn_montgomeryModularInverse :: "u256 \<Rightarrow> u256 option" where
  "bn_montgomeryModularInverse a = bn_binaryExtendedEuclideanAlgorithm a"

definition montgomeryModularInverse :: "u256 \<Rightarrow> u256 \<Rightarrow> u256 \<Rightarrow> u256 option" where
  "montgomeryModularInverse a n r2 = binaryExtendedEuclideanAlgorithm a n r2"

definition bn_montgomeryDiv :: "u256 \<Rightarrow> u256 \<Rightarrow> u256 option" where
  "bn_montgomeryDiv dividend divisor =
     Option.bind (bn_montgomeryModularInverse divisor) (\<lambda>inv. Some (bn_montgomeryMul dividend inv))"

section \<open>Parity and halves\<close>

lemma and_one_even: "u AND 1 = 0 \<longleftrightarrow> even (uint (u :: u256))"
proof -
  have "uint (u AND 1) = uint u mod 2"
    unfolding unsigned_and_eq by (simp add: and_one_eq)
  then show ?thesis
    unfolding word_uint_eq_iff by (simp add: even_iff_mod_2_eq_zero)
qed

lemma uint_half:
  "uint (drop_bit 1 (u :: u256)) = uint u div 2" "uint (drop_bit (Suc 0) (u :: u256)) = uint u div 2"
  by (simp_all add: drop_bit_eq_div uint_div_distrib)

text \<open>What a halving promises.\<close>

locale halving =
  fixes n :: u256 and half :: "u256 \<Rightarrow> u256"
  assumes odd_n: "odd (uint n)"
    and half_small: "b < n \<Longrightarrow> half b < n"
    and half: "b < n \<Longrightarrow> uint n dvd 2 * uint (half b) - uint b"

lemma halvingI:
  assumes "uint h * 2 = (if even (uint b) then uint b else uint b + uint n)" and "b < n"
  shows "h < n" and "uint n dvd 2 * uint h - uint (b :: u256)"
proof -
  have "uint h * 2 < uint n * 2"
    using assms uint_bounds(2) [of b] unfolding word_less_def by (simp split: if_splits; linarith)
  then show "h < n"
    by (simp add: word_less_def)
  have "2 * uint h - uint b = (if even (uint b) then 0 else uint n)"
    using assms(1) by (simp add: mult.commute split: if_splits)
  then show "uint n dvd 2 * uint h - uint b"
    by simp
qed

lemma bn_halving_laws: "halving BN_P bn_halve"
proof (unfold_locales)
  show "odd (uint BN_P)"
    by (rule bn.odd_modulus)
  fix b :: u256 assume b: "b < BN_P"
  have small: "2 * uint BN_P < R256"
    by (simp add: BN_P_def R256_def)
  have s: "uint (b + BN_P) = uint b + uint BN_P"
    using b small by (intro uint_add_le) (simp add: word_less_def)
  then have h: "uint (bn_halve b) * 2 = (if even (uint b) then uint b else uint b + uint BN_P)"
    using bn.odd_modulus unfolding bn_halve_def and_one_even by (simp add: uint_half)
  show "bn_halve b < BN_P" "uint BN_P dvd 2 * uint (bn_halve b) - uint b"
    using b by (rule halvingI [OF h])+
qed

text \<open>The top bit of a word.\<close>

definition top_bit :: u256 where "top_bit = 57896044618658097711785492504343953926634992332820282019728792003956564819968"

lemma uint_top_bit: "uint top_bit = 2 ^ 255"
  by (simp add: top_bit_def)

lemma even_small: "even k \<Longrightarrow> k < 2 \<Longrightarrow> 0 \<le> k \<Longrightarrow> k = (0 :: int)"
  by presburger

lemma and_top_bit: "x AND top_bit = 0 \<longleftrightarrow> uint x < 2 ^ 255"
proof -
  have "x AND top_bit = 0 \<longleftrightarrow> uint x AND 2 ^ 255 = 0"
    unfolding word_uint_eq_iff unsigned_and_eq uint_top_bit by simp
  also have "\<dots> \<longleftrightarrow> even (uint x div 2 ^ 255)"
    by (simp only: and_exp_eq_0_iff_not_bit bit_iff_odd not_not)
  also have "\<dots> \<longleftrightarrow> uint x < 2 ^ 255"
  proof
    assume "even (uint x div 2 ^ 255)"
    moreover have "uint x div 2 ^ 255 < 2"
      using uint_bounds(1) [of x] by (intro div_below) (simp_all add: R256_def del: uint_bounds)
    moreover have "0 \<le> uint x div 2 ^ 255"
      by (simp add: pos_imp_zdiv_nonneg_iff)
    ultimately have "uint x div 2 ^ 255 = 0"
      using even_small by blast
    then show "uint x < 2 ^ 255"
      by (simp add: div_eq_0_iff)
  qed simp
  finally show ?thesis .
qed

lemma or_top_bit:
  assumes "uint x < 2 ^ 255"
  shows "uint (x OR top_bit) = uint x + 2 ^ 255"
proof -
  have "uint x AND 2 ^ 255 = 0"
    using assms and_top_bit [of x] unfolding word_uint_eq_iff unsigned_and_eq uint_top_bit by simp
  then have "uint x + 2 ^ 255 = (uint x OR 2 ^ 255)"
    by (rule disjunctive_add_eq_or)
  then show ?thesis
    unfolding unsigned_or_eq uint_top_bit by simp
qed

lemma halve_exact:
  assumes "odd (uint n)" and "b < n"
  shows "uint (halve n b) * 2 = (if even (uint b) then uint b else uint b + uint n)"
proof (cases "even (uint b)")
  case True
  then have "halve n b = drop_bit 1 b"
    unfolding halve_def and_one_even by (simp add: Let_def)
  then show ?thesis
    using True by (simp only: uint_half) simp
next
  case False
  obtain s c where 1: "overflowingAdd b n = (s, c)" by fastforce
  note o = overflowing_cases [OF 1]
  have s: "even (uint s)"
    using o False assms(1) by (cases c) (simp_all add: R256_def, presburger+)
  have "halve n b = (if \<not> n AND top_bit = 0 \<and> c then drop_bit 1 s OR top_bit else drop_bit 1 s)"
    using False unfolding halve_def and_one_even top_bit_def by (simp only: Let_def 1 prod.case if_False)
  moreover have "\<not> n AND top_bit = 0" if c
  proof -
    have "uint s + R256 = uint b + uint n" "0 \<le> uint s" "uint b < uint n"
      using o that assms(2) by (simp_all add: word_less_def)
    moreover have "R256 = 2 * 2 ^ 255"
      by (simp add: R256_def)
    ultimately show ?thesis
      unfolding and_top_bit by linarith
  qed
  ultimately have h: "halve n b = (if c then drop_bit 1 s OR top_bit else drop_bit 1 s)"
    by auto
  have "uint (drop_bit 1 s) < 2 ^ 255"
    using uint_bounds(1) [of s] unfolding uint_half
    by (intro div_below) (simp_all add: R256_def del: uint_bounds)
  then have t: "uint (drop_bit (Suc 0) s OR top_bit) = uint s div 2 + 2 ^ 255"
    using or_top_bit [of "drop_bit 1 s"] by (simp add: uint_half)
  show ?thesis
    using o s False by (cases c) (simp_all add: h t uint_half R256_def)
qed

lemma word_halving: "odd (uint n) \<Longrightarrow> halving n (halve n)"
proof (unfold_locales)
  fix b assume n: "odd (uint n)" and b: "b < n"
  then show "halve n b < n" "uint n dvd 2 * uint (halve n b) - uint b"
    by (blast intro: halvingI halve_exact)+
qed

section \<open>The loops\<close>

text \<open>The invariant: \<^verbatim>\<open>b * base\<close> is \<^verbatim>\<open>u * R2\<close> and \<^verbatim>\<open>c * base\<close> is \<^verbatim>\<open>v * R2\<close> modulo \<^verbatim>\<open>n\<close>.\<close>

context halving
begin

lemma cancel_two: "uint n dvd 2 * x \<Longrightarrow> uint n dvd x"
  using odd_n by (simp add: coprime_dvd_mult_right_iff coprime_right_2_iff_odd)

lemma halve_scaled:
  fixes u :: u256
  assumes b: "b < n" and even: "even (uint u)" and inv: "uint n dvd uint b * x - uint u * k"
  shows "uint n dvd uint (half b) * x - uint (drop_bit 1 u) * k"
proof (rule cancel_two)
  have u: "2 * uint (drop_bit 1 u) = uint u"
    using even by (simp add: uint_half)
  have "uint n dvd (2 * uint (half b) - uint b) * x"
    using half [OF b] by simp
  then have "uint n dvd 2 * uint (half b) * x - uint b * x"
    by (simp only: left_diff_distrib)
  then have "uint n dvd 2 * uint (half b) * x - uint u * k"
    by (rule dvd_diff_trans [OF _ inv])
  then show "uint n dvd 2 * (uint (half b) * x - uint (drop_bit 1 u) * k)"
    by (simp only: u [symmetric] right_diff_distrib mult.assoc)
qed

lemma halvingLoop_odd: "odd (uint u) \<Longrightarrow> halvingLoop half u b = Some (u, b)"
  by (subst halvingLoop.simps) (simp only: and_one_even if_False)

lemma halvingLoop_value:
  assumes "u \<noteq> 0" and "b < n" and "uint n dvd uint b * x - uint u * k"
  shows "\<exists>u' b'. halvingLoop half u b = Some (u', b') \<and> u' \<noteq> 0 \<and> odd (uint u') \<and> uint u' dvd uint u \<and>
    b' < n \<and> uint n dvd uint b' * x - uint u' * k"
  using assms
proof (induction "unat u" arbitrary: u b rule: less_induct)
  case less
  show ?case
  proof (cases "even (uint u)")
    case False
    then show ?thesis
      using less.prems by (simp add: halvingLoop_odd)
  next
    case True
    have u: "uint u = 2 * uint (drop_bit 1 u)"
      using True by (simp add: uint_half)
    have pos: "0 < uint u"
      using less.prems(1) uint_bounds(2) [of u] by (simp add: less_le uint_0_iff)
    then have "uint (drop_bit 1 u) \<noteq> 0" "uint (drop_bit 1 u) < uint u"
      using u by linarith+
    then have nz: "drop_bit 1 u \<noteq> 0" and lt: "unat (drop_bit 1 u) < unat u"
      by (simp_all only: uint_0_iff word_less_nat_alt [symmetric] word_less_def simp_thms)
    obtain u' b' where r: "halvingLoop half (drop_bit 1 u) (half b) = Some (u', b')" "u' \<noteq> 0"
        "odd (uint u')" "uint u' dvd uint (drop_bit 1 u)" "b' < n" "uint n dvd uint b' * x - uint u' * k"
      using less.hyps [OF lt nz half_small [OF less.prems(2)] halve_scaled [OF less.prems(2) True less.prems(3)]]
      by (elim exE conjE)
    have "halvingLoop half u b = Some (u', b')"
      using True by (subst halvingLoop.simps) (simp only: and_one_even if_True r)
    moreover have "uint u' dvd uint u"
      by (subst u) (rule dvd_mult [OF r(4)])
    ultimately show ?thesis
      using r(2,3,5,6) by (intro exI conjI)
  qed
qed

text \<open>The subtraction of two residues, with the modulus added when it would go below zero.\<close>

lemma subtract_residue:
  assumes "b < n" and "c < n"
  shows "(if b < c then b + n else b) - c < n"
    and "uint n dvd uint ((if b < c then b + n else b) - c) - (uint b - uint c)"
proof -
  have v: "uint ((if b < c then b + n else b) - c) = uint b - uint c + (if b < c then uint n else 0)"
  proof (cases "b < c")
    case True
    have "uint (b + n - c) = (uint b - uint c + uint n) mod R256"
      unfolding uint_ops mod_diff_left_eq by (simp only: diff_add_eq)
    also have "\<dots> = uint b - uint c + uint n"
      using True assms uint_bounds(1) [of n] uint_bounds(2) [of b] unfolding word_less_def
      by (intro mod_pos_pos_trivial) linarith+
    finally show ?thesis
      using True by simp
  next
    case False
    then show ?thesis
      using uint_sub_ge [of c b] by (simp add: word_less_def)
  qed
  show "(if b < c then b + n else b) - c < n"
  proof (cases "b < c")
    case True
    then show ?thesis
      using v assms unfolding word_less_def by simp
  next
    case False
    moreover have "uint b - uint c < uint n"
      using assms(1) uint_bounds(2) [of c] unfolding word_less_def by linarith
    ultimately show ?thesis
      using v unfolding word_less_def by simp
  qed
  show "uint n dvd uint ((if b < c then b + n else b) - c) - (uint b - uint c)"
    unfolding v by simp
qed

text \<open>One subtraction of the Euclidean loop.\<close>

lemma subtract_scaled:
  fixes u v b c :: u256
  assumes "v < u" and "b < n" "c < n"
    and inv: "uint n dvd uint b * x - uint u * k" "uint n dvd uint c * x - uint v * k"
  defines "b' \<equiv> (if b < c then b + n else b) - c"
  shows "b' < n" and "uint n dvd uint b' * x - uint (u - v) * k"
proof -
  note s = subtract_residue [OF assms(2,3), folded b'_def]
  show "b' < n"
    by (rule s)
  have d: "uint (u - v) = uint u - uint v"
    using assms(1) by (intro uint_sub_ge) (simp add: word_less_def)
  have "uint n dvd (uint b' - (uint b - uint c)) * x"
    using s(2) by simp
  moreover have "uint n dvd (uint b * x - uint c * x) - (uint u * k - uint v * k)"
    by (rule dvd_combine(2) [OF inv])
  ultimately show "uint n dvd uint b' * x - uint (u - v) * k"
    unfolding d left_diff_distrib by (rule dvd_diff_trans)
qed

lemma subtract_decreases:
  fixes u v :: u256
  assumes "v < u"
  shows "uint (u - v) = uint u - uint v" "u - v \<noteq> 0" "unat (u - v) + unat v = unat u"
proof -
  show d: "uint (u - v) = uint u - uint v"
    using assms by (intro uint_sub_ge) (simp add: word_less_def)
  show "u - v \<noteq> 0"
    using assms by auto
  show "unat (u - v) + unat v = unat u"
    using assms unat_sub [of v u] by (simp add: word_le_nat_alt word_less_nat_alt)
qed

lemma divisor_le: "uint (d :: u256) dvd uint (u :: u256) \<Longrightarrow> u \<noteq> 0 \<Longrightarrow> unat d \<le> unat u"
proof -
  assume d: "uint d dvd uint u" and "u \<noteq> 0"
  then have "0 < uint u"
    using uint_bounds(2) [of u] by (simp add: less_le uint_0_iff)
  then have "uint d \<le> uint u"
    using d by (rule zdvd_imp_le [rotated])
  then show ?thesis
    unfolding word_le_nat_alt [symmetric] word_le_def .
qed

lemma euclideanLoop_value:
  assumes "u \<noteq> 0" "v \<noteq> 0" "coprime (uint u) (uint v)" "odd (uint u) \<or> odd (uint v)" "b < n" "c < n"
    and "uint n dvd uint b * x - uint u * k" "uint n dvd uint c * x - uint v * k"
  shows "\<exists>i. euclideanLoop half n u v b c = Some i \<and> i < n \<and> uint n dvd uint i * x - k"
  using assms
proof (induction "unat u + unat v" arbitrary: u v b c rule: less_induct)
  case less
  show ?case
  proof (cases "u \<noteq> 1 \<and> v \<noteq> 1")
    case False
    then have "euclideanLoop half n u v b c = Some (if u = 1 then b else c)"
      by (subst euclideanLoop.simps) (simp only: if_False)
    then show ?thesis
      using False less.prems by auto
  next
    case True
    obtain u' b' where u: "halvingLoop half u b = Some (u', b')" "u' \<noteq> 0" "odd (uint u')" "uint u' dvd uint u"
        "b' < n" "uint n dvd uint b' * x - uint u' * k"
      using halvingLoop_value [OF less.prems(1,5,7)] by (elim exE conjE)
    obtain v' c' where v: "halvingLoop half v c = Some (v', c')" "v' \<noteq> 0" "odd (uint v')" "uint v' dvd uint v"
        "c' < n" "uint n dvd uint c' * x - uint v' * k"
      using halvingLoop_value [OF less.prems(2,6,8)] by (elim exE conjE)
    have cop: "coprime (uint u') (uint v')"
      using less.prems(3) u(4) v(4) by (blast intro: coprime_divisors)
    have le: "unat u' \<le> unat u" "unat v' \<le> unat v" "0 < unat u" "0 < unat v"
      using divisor_le [OF u(4)] divisor_le [OF v(4)] less.prems(1,2) by (simp_all add: unat_gt_0)
    have "u' \<noteq> v'"
    proof
      assume eq: "u' = v'"
      then have "is_unit (uint u')"
        using cop by simp
      then have "u' = 1"
        using u(2) uint_bounds(2) [of u'] by (simp add: word_uint_eq_iff)
      then show False
        using less.prems(4) True u(1) v(1) eq by (auto simp: halvingLoop_odd)
    qed
    then consider (left) "v' < u'" | (right) "u' < v'"
      by (rule linorder_neqE)
    then show ?thesis
    proof cases
      case left
      define b'' where "b'' = (if b' < c' then b' + n else b') - c'"
      note s = subtract_scaled [OF left u(5) v(5) u(6) v(6), folded b''_def]
      note d = subtract_decreases [OF left]
      have "coprime (uint (u' - v')) (uint v')"
        unfolding d using cop by (simp add: coprime_iff_gcd_eq_1 gcd_diff1)
      then have "\<exists>i. euclideanLoop half n (u' - v') v' b'' c' = Some i \<and> i < n \<and> uint n dvd uint i * x - k"
        using d v s le by (intro less.hyps) auto
      moreover have "euclideanLoop half n u v b c = euclideanLoop half n (u' - v') v' b'' c'"
        using left True less_not_sym [OF left] unfolding b''_def
        by (subst euclideanLoop.simps) (simp add: u(1) v(1) Let_def)
      ultimately show ?thesis
        by simp
    next
      case right
      define c'' where "c'' = (if c' < b' then c' + n else c') - b'"
      note s = subtract_scaled [OF right v(5) u(5) v(6) u(6), folded c''_def]
      note d = subtract_decreases [OF right]
      have "coprime (uint u') (uint (v' - u'))"
        unfolding d using cop gcd_diff1 [of "uint v'" "uint u'"] by (simp add: coprime_iff_gcd_eq_1 gcd.commute)
      then have "\<exists>i. euclideanLoop half n u' (v' - u') b' c'' = Some i \<and> i < n \<and> uint n dvd uint i * x - k"
        using d u s le by (intro less.hyps) auto
      moreover have "euclideanLoop half n u v b c = euclideanLoop half n u' (v' - u') b' c''"
        using right True less_not_sym [OF right] unfolding c''_def
        by (subst euclideanLoop.simps) (simp add: u(1) v(1) Let_def)
      ultimately show ?thesis
        by simp
    qed
  qed
qed

end

text \<open>The loops return only where the two values have no factor in common.\<close>

lemma halvingLoop_result:
  "halvingLoop half u b = Some r \<Longrightarrow> u \<noteq> 0 \<and> odd (uint (fst r)) \<and> (\<exists>j. uint u = 2 ^ j * uint (fst r))"
proof (induction half u b r rule: halvingLoop.raw_induct [rotated, consumes 1, case_names step])
  case (step loop half u b r)
  show ?case
  proof (cases "even (uint u)")
    case True
    then have u: "uint u = 2 * uint (drop_bit 1 u)"
      by (simp add: uint_half)
    have "loop half (drop_bit 1 u) (half b) = Some r"
      using step(2) True by (simp only: and_one_even if_True)
    then obtain j where "drop_bit 1 u \<noteq> 0" "odd (uint (fst r))" "uint (drop_bit 1 u) = 2 ^ j * uint (fst r)"
      using step(1) by blast
    then have "uint u = 2 ^ Suc j * uint (fst r)" "u \<noteq> 0"
      by (simp only: u power_Suc mult.assoc, auto)
    then show ?thesis
      using \<open>odd (uint (fst r))\<close> by blast
  next
    case False
    then have "Some (u, b) = Some r"
      using step(2) by (simp only: and_one_even if_False)
    then show ?thesis
      using False by (auto intro!: exI [of _ 0])
  qed
qed

lemma euclideanLoop_coprime:
  "euclideanLoop half n u v b c = Some i \<Longrightarrow> odd (uint u) \<or> odd (uint v) \<Longrightarrow> coprime (uint u) (uint v)"
proof (induction half n u v b c i rule: euclideanLoop.raw_induct [rotated, consumes 1, case_names step])
  case (step loop half n u v b c i)
  show ?case
  proof (cases "u \<noteq> 1 \<and> v \<noteq> 1")
    case True
    obtain u' b' where h1: "halvingLoop half u b = Some (u', b')"
      using step(2) True by (cases "halvingLoop half u b") auto
    obtain v' c' where h2: "halvingLoop half v c = Some (v', c')"
      using step(2) True h1 by (cases "halvingLoop half v c") auto
    obtain j k where u: "uint u = 2 ^ j * uint u'" "odd (uint u')" and v: "uint v = 2 ^ k * uint v'" "odd (uint v')"
      using halvingLoop_result [OF h1] halvingLoop_result [OF h2] by auto
    note body = h1 h2 bind.simps prod.case if_True True Let_def
    have "coprime (uint u') (uint v')"
    proof (cases "v' > u'")
      case gt: True
      define c'' where "c'' = (if c' < b' then c' + n else c') - b'"
      have "loop half n u' (v' - u') b' c'' = Some i"
        using step(2) gt unfolding c''_def
        by (simp_all only: body not_True_eq_False if_False simp_thms)
      then have "coprime (uint u') (uint (v' - u'))"
        using u(2) by (blast intro: step(1))
      then show ?thesis
        using gt gcd_diff1 [of "uint v'" "uint u'"]
        by (simp add: coprime_iff_gcd_eq_1 gcd.commute uint_sub_ge word_less_def)
    next
      case le: False
      define b'' where "b'' = (if b' < c' then b' + n else b') - c'"
      have "loop half n (u' - v') v' b'' c' = Some i"
        using step(2) le unfolding b''_def
        by (simp_all only: body not_False_eq_True if_False simp_thms)
      then have "coprime (uint (u' - v')) (uint v')"
        using v(2) by (blast intro: step(1))
      then show ?thesis
        using le by (simp add: coprime_iff_gcd_eq_1 gcd_diff1 uint_sub_ge word_less_def)
    qed
    then show ?thesis
      using step(3) u v by (auto simp: coprime_left_2_iff_odd coprime_right_2_iff_odd)
  qed auto
qed

section \<open>The inverse in Montgomery form\<close>

lemma inverse_exists: "coprime a k \<Longrightarrow> \<exists>j. k dvd a * j - (1 :: int)"
proof -
  assume "coprime a k"
  then obtain x y where "x * a + y * k = 1"
    using bezout_int [of a k] by (auto simp: coprime_iff_gcd_eq_1)
  then have "a * x - 1 = k * (- y)"
    by (simp add: algebra_simps)
  then show ?thesis
    by (metis dvd_triv_left)
qed

locale inversion = montgomery n r2 redc + halving n half
  for n r2 :: u256 and redc half +
  assumes n_proper: "n \<noteq> 1"
begin

lemma coprime_form: "represents n m a \<Longrightarrow> coprime (uint m) (uint n) \<longleftrightarrow> coprime a (uint n)"
proof -
  assume "represents n m a"
  then have "gcd (uint m) (uint n) = gcd (a * R256) (uint n)"
    by (simp only: representsD(3) gcd_red_int [symmetric] gcd.commute)
  also have "\<dots> = 1 \<longleftrightarrow> gcd a (uint n) = 1"
    using coprime_R unfolding coprime_iff_gcd_eq_1 [symmetric] coprime_mult_left_iff
    by (simp add: coprime_commute [of R256])
  finally show ?thesis
    by (simp only: coprime_iff_gcd_eq_1)
qed

lemma inverse_returns:
  assumes "m < n"
  shows "euclideanLoop half n m n r2 0 \<noteq> None \<longleftrightarrow> coprime (uint m) (uint n)"
proof
  assume "euclideanLoop half n m n r2 0 \<noteq> None"
  then show "coprime (uint m) (uint n)"
    using euclideanLoop_coprime odd_n by blast
next
  assume c: "coprime (uint m) (uint n)"
  have "m \<noteq> 0"
    using c n_proper n_pos by (auto simp: word_uint_eq_iff)
  moreover have "n \<noteq> 0" "0 < n"
    using n_pos by (auto simp: word_less_def)
  ultimately show "euclideanLoop half n m n r2 0 \<noteq> None"
    using euclideanLoop_value [of m n r2 0 "uint m" "uint r2"] c odd_n r2_small by (auto simp: mult.commute)
qed

lemma inverse_represents:
  assumes m: "represents n m a" and j: "uint n dvd a * j - 1"
  shows "\<exists>i. euclideanLoop half n m n r2 0 = Some i \<and> represents n i j"
proof -
  have "coprime a (uint n)"
  proof (rule coprimeI)
    fix c assume "c dvd a" "c dvd uint n"
    then have "c dvd a * j - (a * j - 1)"
      using j by (blast intro: dvd_diff dvd_mult2 dvd_trans)
    then show "is_unit c"
      by simp
  qed
  then have c: "coprime (uint m) (uint n)"
    by (simp add: coprime_form [OF m])
  then obtain i where i: "euclideanLoop half n m n r2 0 = Some i"
    using inverse_returns [OF representsD(1) [OF m]] by auto
  have "m \<noteq> 0" "n \<noteq> 0" "0 < n"
    using c n_proper n_pos by (auto simp: word_uint_eq_iff word_less_def)
  then have v: "i < n" "uint n dvd uint i * uint m - uint r2"
    using euclideanLoop_value [of m n r2 0 "uint m" "uint r2"] c odd_n r2_small i by (auto simp: mult.commute)
  have "uint n dvd uint i * uint m - R256 * R256"
    by (rule dvd_diff_trans [OF v(2)]) (simp add: r2_square mod_eq_dvd_iff [symmetric])
  moreover have "uint n dvd uint i * (a * R256) - uint i * uint m"
    using representsD(2) [OF m] by (simp only: right_diff_distrib [symmetric] dvd_mult dvd_diff_commute)
  ultimately have "uint n dvd uint i * (a * R256) - R256 * R256"
    by (rule dvd_diff_trans [rotated])
  then have "uint n dvd uint i * a - R256"
    by (rule_tac cancel_R) (simp only: mult.assoc)
  then have "uint n dvd (uint i * a - R256) * j"
    by (rule dvd_mult2)
  moreover have "uint n dvd uint i * (a * j - 1)"
    using j by (rule dvd_mult)
  ultimately have "uint n dvd (uint i * a - R256) * j - uint i * (a * j - 1)"
    by (rule dvd_diff)
  then have "uint n dvd uint i - j * R256"
    by (simp add: algebra_simps)
  then show ?thesis
    using i v(1) by (blast intro: representsI)
qed

text \<open>The whole of it: the inverse of a value in Montgomery form, or no result when there is none.\<close>

lemma inverse_exact:
  "case euclideanLoop half n (redc (a * r2) (mul_high a r2)) n r2 0 of
     None \<Rightarrow> \<not> coprime (uint a) (uint n)
   | Some i \<Rightarrow> uint (redc i 0) * uint a mod uint n = 1"
proof (cases "coprime (uint a) (uint n)")
  case True
  obtain j where j: "uint n dvd uint a * j - 1"
    using inverse_exists [OF True] by blast
  obtain i where i: "euclideanLoop half n (redc (a * r2) (mul_high a r2)) n r2 0 = Some i" "represents n i j"
    using inverse_represents [OF into_represents j] by blast
  have "1 < uint n"
    using n_pos n_proper by (auto simp: word_uint_eq_iff)
  then have "j * uint a mod uint n = 1"
    using j by (simp add: mod_eq_dvd_iff [symmetric] mult.commute)
  then show ?thesis
    using i out_represents [OF i(2)] by (simp add: mod_mult_left_eq)
next
  case False
  then have "euclideanLoop half n (redc (a * r2) (mul_high a r2)) n r2 0 = None"
    using inverse_returns [OF representsD(1) [OF into_represents]] coprime_form [OF into_represents] by blast
  then show ?thesis
    using False by simp
qed

end

interpretation bn_halving: halving BN_P bn_halve
  by (rule bn_halving_laws)

interpretation bn_inv: inversion BN_P BN_R2 bn_REDC bn_halve
  by (intro inversion.intro inversion_axioms.intro bn_halving_laws bn.montgomery_axioms) (simp add: BN_P_def)

interpretation p256_field_inv: inversion P256_P P256_R2_P "\<lambda>lo hi. p256_REDC lo hi P256_P P256_P_PRIME" "halve P256_P"
  by (intro inversion.intro inversion_axioms.intro word_halving p256_field.montgomery_axioms p256_field.odd_modulus)
    (simp add: P256_P_def)

interpretation p256_scalar_inv: inversion P256_N P256_R2_N "\<lambda>lo hi. p256_REDC lo hi P256_N P256_N_PRIME" "halve P256_N"
  by (intro inversion.intro inversion_axioms.intro word_halving p256_scalar.montgomery_axioms p256_scalar.odd_modulus)
    (simp add: P256_N_def)

interpretation secp_field_inv: inversion SECP_P SECP_R2_P "\<lambda>lo hi. secp_REDC lo hi SECP_P SECP_P_PRIME" "halve SECP_P"
  by (intro inversion.intro inversion_axioms.intro word_halving secp_field.montgomery_axioms secp_field.odd_modulus)
    (simp add: SECP_P_def)

interpretation secp_scalar_inv: inversion SECP_N SECP_R2_N "\<lambda>lo hi. secp_REDC lo hi SECP_N SECP_N_PRIME" "halve SECP_N"
  by (intro inversion.intro inversion_axioms.intro word_halving secp_scalar.montgomery_axioms secp_scalar.odd_modulus)
    (simp add: SECP_N_def)

lemma bn_inverse:
  "bn_rep x a \<Longrightarrow> uint BN_P dvd a * j - 1 \<Longrightarrow> \<exists>i. bn_montgomeryModularInverse x = Some i \<and> bn_rep i j"
  using bn_inv.inverse_represents
  by (simp add: bn_montgomeryModularInverse_def bn_binaryExtendedEuclideanAlgorithm_def)

lemma bn_division:
  assumes "bn_rep x a" "bn_rep y b" and "uint BN_P dvd b * j - 1"
  shows "\<exists>q. bn_montgomeryDiv x y = Some q \<and> bn_rep q (a * j)"
  using bn_inverse [OF assms(2,3)] bn_ops(5) [OF assms(1)] by (auto simp: bn_montgomeryDiv_def)

text \<open>C12: the modular inverse of every modulus of the signature precompiles is exact: on the Montgomery form of
  \<^verbatim>\<open>a\<close> the algorithm gives the Montgomery form of the inverse of \<^verbatim>\<open>a\<close>, and it runs for ever exactly when \<^verbatim>\<open>a\<close> has none.\<close>

theorem modular_inverse_exact:
  "(case montgomeryModularInverse (p256_intoMontgomeryForm a P256_P P256_P_PRIME P256_R2_P) P256_P P256_R2_P of
      None \<Rightarrow> \<not> coprime (uint a) (uint P256_P)
    | Some i \<Rightarrow> uint (p256_outOfMontgomeryForm i P256_P P256_P_PRIME) * uint a mod uint P256_P = 1) \<and>
   (case montgomeryModularInverse (p256_intoMontgomeryForm a P256_N P256_N_PRIME P256_R2_N) P256_N P256_R2_N of
      None \<Rightarrow> \<not> coprime (uint a) (uint P256_N)
    | Some i \<Rightarrow> uint (p256_outOfMontgomeryForm i P256_N P256_N_PRIME) * uint a mod uint P256_N = 1) \<and>
   (case montgomeryModularInverse (secp_intoMontgomeryForm a SECP_P SECP_P_PRIME SECP_R2_P) SECP_P SECP_R2_P of
      None \<Rightarrow> \<not> coprime (uint a) (uint SECP_P)
    | Some i \<Rightarrow> uint (secp_outOfMontgomeryForm i SECP_P SECP_P_PRIME) * uint a mod uint SECP_P = 1) \<and>
   (case montgomeryModularInverse (secp_intoMontgomeryForm a SECP_N SECP_N_PRIME SECP_R2_N) SECP_N SECP_R2_N of
      None \<Rightarrow> \<not> coprime (uint a) (uint SECP_N)
    | Some i \<Rightarrow> uint (secp_outOfMontgomeryForm i SECP_N SECP_N_PRIME) * uint a mod uint SECP_N = 1)"
  unfolding montgomeryModularInverse_def binaryExtendedEuclideanAlgorithm_def montgomery_form_defs Let_def
  by (intro conjI p256_field_inv.inverse_exact p256_scalar_inv.inverse_exact
      secp_field_inv.inverse_exact secp_scalar_inv.inverse_exact)

end
