(* ===== verification/P256Primes.thy ===== *)
theory P256Primes
  imports Primality
begin

text \<open>
  The field order and the subgroup order of the curve of \<^verbatim>\<open>P256VERIFY.yul\<close> are primes: certificates in the form of
  theory \<^verbatim>\<open>Primality\<close>, each a chain of powers modulo the number with the multiples that the reductions drop.
\<close>

lemma prime_257: "is_prime 257"
  by (rule trial_division [of _ 17]; code_simp)

lemma prime_641: "is_prime 641"
  by (rule trial_division [of _ 26]; code_simp)

lemma prime_1531: "is_prime 1531"
  by (rule trial_division [of _ 40]; code_simp)

lemma prime_65537: "is_prime 65537"
  by (rule trial_division [of _ 257]; code_simp)

lemma prime_490463: "is_prime 490463"
  by (rule trial_division [of _ 701]; code_simp)

lemma prime_17449: "is_prime 17449"
  by (rule trial_division [of _ 133]; code_simp)

definition prime_6700417_17449_steps :: "(bool \<times> int) list" where
  "prime_6700417_17449_steps =
    [(True, 5101478), (True, 455), (True, 6354839), (True, 2268166), (False, 4255930), (True, 3467695), (True, 17669), (True, 3466230),
     (True, 1747250), (True, 537404), (False, 1509472), (True, 292224), (True, 6576576), (False, 3332383), (True, 339017), (True, 1456972),
     (True, 4226294), (False, 3810487)]"

lemma prime_6700417_17449_order: "has_order 6700417 17449
    5846540"
  by (rule has_orderI [of "[6700417]" _ prime_6700417_17449_steps _ _
        4499094
        3925745]; code_simp)

theorem prime_6700417: "is_prime 6700417"
proof (rule pocklington [of _ 34898])
  fix p assume p: "is_prime p" "p dvd 6700417"
  have "odd (6700417 :: int)"
    by (simp)
  then have d0: "2 dvd p - 1"
    using p(2) by (intro odd_divisor)
  have "17449 dvd p - 1"
    by (rule pocklington_factor [OF prime_6700417_17449_order prime_17449 p])
  then have "2 * 17449 dvd p - 1"
    using d0 by (intro product_dvd) code_simp
  then have d1: "34898 dvd p - 1"
    by simp
  show "34898 dvd p - 1"
    by (rule d1)
qed (simp_all)

definition p256_field_prime :: int where
  "p256_field_prime = 115792089210356248762697446949407573530086143415290314195533631308867097853951"

definition p256_field_summands :: "int list" where
  "p256_field_summands =
     [115792089237316195423570985008687907853269984665640564039457584007913129639936, - 26959946667150639794667015087019630673637144422540572481103610249216, 6277101735386680763835789423207666416102355444464034512896, 79228162514264337593543950336, - 1]"

definition p256_field_257_steps :: "(bool \<times> int) list" where
  "p256_field_257_steps =
    [(True, 57412516092147012535684746913562623082472873121552793599508867530875983076391),
     (True, 3879377537418171340584413695052999823418872220583356433708730985894927737683),
     (True, 100440527526145907172701871030124295077768563141468470964913823098763113285760),
     (True, 56919904589112825016233220007447851332631988888786985309416242784461457502879),
     (True, 18368264163336869153146551212038462227836557894406498086631729821778692601510),
     (True, 53510376424997046199698867006031019188055015282941746141752797788770602238719),
     (True, 108930672738384973824088688898929468531082987700824211914707315992448864743981),
     (True, 3071368006834656446992449308351429016898233228343549155163773589087070195654),
     (False, 49782945720399223117137644583816820265313956630843561682232394006028034387719)]"

lemma p256_field_257_order: "has_order p256_field_prime 257
    81534748329365073191290293312071197319266666423009596939518486037156429642953"
  by (rule has_orderI [of "p256_field_summands" _ p256_field_257_steps _ _
        62280038832925576975829179054726466017393601894770033612286284096307110905178
        43854354186153711515920369000033447382487050767006474561031016662014924470705]; code_simp)

definition p256_field_641_steps :: "(bool \<times> int) list" where
  "p256_field_641_steps =
    [(True, 386328007119535971192979737915796176979924692785326957563108043687857021285),
     (True, 17397920781757163556992179569337600011761840097946695793380673855248171389343),
     (False, 1885500909196106602807348811612776087248560645181245268502468024638695619753),
     (True, 26671614754588368612890131696130298412289408079607932944467424866253320136071),
     (True, 107984618847329070238745657404712236585245156540700246041764857680398883274806),
     (True, 1427613694537749271428829446655262835802463687743422861653975016948864351793),
     (True, 85506022691526699132240298142459533952434261526911389452080656423667966355199),
     (True, 14322194398633202121962575644131258296120156610406381892811388405591432815486),
     (True, 102513850341423987901088763849703424584016166388032655660059077594253202175780),
     (True, 83368681151574341782935253759609449908272956022805939625713095796729553337461),
     (False, 1248187794400495588555224727812693536280745152893933222937710949916823675759)]"

lemma p256_field_641_order: "has_order p256_field_prime 641
    6688327673256181995200489625412494432771414379175044712931788098489014578058"
  by (rule has_orderI [of "p256_field_summands" _ p256_field_641_steps _ _
        3120136052566252819589832042119023288357782237979451906064430714506309802089
        180223817076069574844649197644821771308843471568852582107116712109260606672]; code_simp)

definition p256_field_1531_steps :: "(bool \<times> int) list" where
  "p256_field_1531_steps =
    [(True, 35701117001186128533684756590444241550521898938025437288796145128209080658956),
     (True, 1049134462504940818041745046985087390019053796514614207986793177840761244300),
     (False, 31490949486579413066359239178552009592674047386986451597160722526373661666136),
     (True, 55964715056054000684847731194222753327625823154637572142837437629441405893083),
     (False, 26515482826236683173728659332368643642364093006856557287994721522144259313735),
     (True, 530122278646914168916543967935338881391241429482997284606452733282694380786),
     (False, 39611932145532339947731873234218745194253684415148235646968987015343918394612),
     (True, 2556877033082738290314867404105846205711416337482831299836287111762277853357),
     (False, 49220400941004259637717707042791468102995598543261260582096671163248450026966),
     (True, 38468192757578185873940310630401722440923062355336137206779816740216038844322),
     (False, 49537136099855853661028342736424424686751928488728269916646225383793842737589),
     (True, 110137732421597582154140270770422194320773381946476122906900453571332822985449),
     (False, 31568305441669030048343745531948528765027097909634685587783405356493588516371),
     (True, 80327967317313262027474766987984614316349138245834181414397147373734151027867),
     (True, 54623356466341454262811853932574376717099395822486914945852462773439282123414),
     (False, 58802599420436431225800215559730024628980679149677337104810855051617409053475),
     (True, 66418869066898390814761833538581130041524422114169205179166063779562662891022),
     (False, 1290931235200452996173796313691162644720059072973327626468400587669694251953)]"

lemma p256_field_1531_order: "has_order p256_field_prime 1531
    64295465817666414584350355284589339653862075092681367020126764502644604907568"
  by (rule has_orderI [of "p256_field_summands" _ p256_field_1531_steps _ _
        14964151782915132362421343043271841132196952657395407750516349273969956749325
        8309091890560178301022533895857735256458900541342754414754284016456758594974]; code_simp)

definition p256_field_65537_steps :: "(bool \<times> int) list" where
  "p256_field_65537_steps =
    [(True, 68544618120430418471081395038057108037895928040679303024136588947481345952430),
     (True, 114512101012751888053705409115474331555743899189980624266196455231730254647655),
     (True, 1949038905942557660707949341934530481578422762203112533524471837955457826),
     (True, 10378014800167776376418147926117981111854240800485209929658901443278347973595),
     (True, 58777717025643685391929946172055323875956529569445776817894613096354583799891),
     (True, 596931891578316986433820197314979810586158021301545273679539158177116908987),
     (True, 73246872260949868631070455457756850211595173352940758453589266195880102131826),
     (True, 79481030322515070729429741175281593215824885399093597056052761288129593044623),
     (True, 25164449621186543962563107242289606973592541539037997024858728070514956911572),
     (True, 27039881582493624167530678713660898159650915694831490396021123994006143661982),
     (True, 50745556805982090846657741948620069001438297186234345756663407396184229014052),
     (True, 93048570431229470196615253949830577694793241453364109432350278873135712702621),
     (True, 3840377340388272176309917943474968045646410511996469676566416870278042523730),
     (True, 44113654922268696354636663711518944352615758626101181640445133244579221632528),
     (True, 31472357982595063606696592097262773852379941346806861703864835081119842842975),
     (True, 72142381186238363832888904322320215172118354442285004007078719653883215471639),
     (False, 16742445919700401062258604865427089915588969327769440942705630421181589519025)]"

lemma p256_field_65537_order: "has_order p256_field_prime 65537
    89089418767273818568928962900880700362915423258114912483257252245434771309638"
  by (rule has_orderI [of "p256_field_summands" _ p256_field_65537_steps _ _
        63715752585572383110942257635038828762850660836636923497464070660092788925561
        49022341706400267902849680024087114434496058234730848094471954106011597965156]; code_simp)

definition p256_field_490463_steps :: "(bool \<times> int) list" where
  "p256_field_490463_steps =
    [(True, 110651660149513536777234095904378144776020779875449097272213139810329633296895),
     (False, 44866183650683108141583203372861531302790581136363325120244494028664992631671),
     (True, 63048095441118940840502278198107862316264538074453543937600118378839803549436),
     (False, 10280013881427987490285262090688516325460117684778218101423952096629798455863),
     (True, 65223479301828929054562061275636724945768197342938838409750242714703341873723),
     (True, 6668460776362056110876496840954422146838826589249074066371588732962764691440),
     (False, 99161837992770044122977682500799771712332512125943139275520703112351172958368),
     (True, 6944162352172734160956352790965094778958398529089581332134344036204473160689),
     (False, 80027869187449683335728946902840313181090095406677958606010125220845468073141),
     (True, 22307015852526087233468343899079032959071348020069049202623892967634311976846),
     (False, 8838486181687818454273933655942668886174239995110155658846340268385204297105),
     (True, 20058185763426647630175011357545446741011029763780057657422396979585810413255),
     (False, 55315621416882531081766139054055527379869720248518089064663162463057244474539),
     (True, 17251984223629697539155238123684389897329169654088563320434807565462162175049),
     (True, 112248978942099492066578001479995895949187930287036353727148274533417658589577),
     (False, 42907190180531301021824308799072357893983303197366344929316809244665691592065),
     (True, 83513972190937968840787294207762774166665629276335576503451454487192824144971),
     (False, 59210873949275500232608235431539952289472421170402264635988188030483580270577),
     (True, 42526104925319728535008377398130114277769541246613847922683696461670959676123),
     (False, 3601379602405381431314217767890958939532728860488193292334179450133153522543),
     (True, 3732820452662797930463183867170344030104596189775572631731874261214415368783),
     (False, 42420555999082261653105990021684125388283772721663075122278785980636636328079),
     (True, 44755765156210425271075084220207130790256513255960035770380910695238373464018),
     (True, 4146946355710213277900632079401465112585098771873391114264706843946438791898),
     (False, 21194566196339447054511796127860370113711158563462393155429164873196711585241),
     (True, 14706331700799467553383843736676185752990579457342819273590624462279663699659),
     (False, 73894089243178786069792201289523570812218217122262641299676705800026871091414),
     (True, 4789371365581070019680907687867622956278575737942320024299001514968223150339),
     (False, 67886639764849977075185562748155790188166006714268620007788497206833282309042),
     (True, 14828889712686678345579474561933742604516429591924700039799118980754151552147),
     (False, 86458403207360779878712951462872318343724640191151074671494184739096166065652),
     (True, 6131686627440721090609283143114169457358543121240889203905437940805694327174),
     (False, 76922992706055295339535917272081534124247177281991519719959558626221426547977)]"

lemma p256_field_490463_order: "has_order p256_field_prime 490463
    113192698100657062240441272750361840561171878878270904272941971552565314748628"
  by (rule has_orderI [of "p256_field_summands" _ p256_field_490463_steps _ _
        40900708320435510661869085969000458189226728617867244476120592820487088204148
        39982537326945647917295317598452331994459859481871141486567142483740048627045]; code_simp)

definition p256_field_6700417_steps :: "(bool \<times> int) list" where
  "p256_field_6700417_steps =
    [(True, 25780449427400449530469486879376122555115038127683507731605216082390980948817),
     (False, 40972937650563610483847349413188078160301674773481916837011112709757695529307),
     (True, 38114951925094710329494319298699625752073156504783434232250716959456934224606),
     (True, 112986922806762904891892105070885443743169871959607163691976330807166710797633),
     (True, 60244888150477552927908062241074246527003921667417352008111045300117995670225),
     (False, 51551347348367746216405624187242615552899872362597813426212633072126533806081),
     (True, 46532304452669530430540301265010339866614177910905276558413579722073906340463),
     (False, 12947002172702872586759634578140049465945865271645105212337252309616660364445),
     (True, 96096247567076453541064627850923336937566902702956269911453264574124653330933),
     (True, 102922648418677749467197583055875320229034072521077470214684668786589729954176),
     (True, 26650695449589706994159619032125473210747838502880291993872052820134920390901),
     (True, 2652336608408047582042683334318755826867119194026470447720583179160365009183),
     (False, 2175348488761792244862751298685368562036464054894077385404933701261535276906),
     (True, 38120695203703338297314513686006712326882358015778475549907623133832737576070),
     (False, 9578719373527371220044303524261064580701683596726646687990662453841889676900),
     (True, 1805220461143967514469388197465845605601630134073488145957219425821745110395),
     (False, 41025823689860583059819140044996420646482030035875013416096116150852452184841),
     (True, 58582814437479141296842035408017313562302359269735600895291436395918397766237),
     (False, 5630361271176538089892492883144569289371150263274651424055623088173178177419),
     (True, 69676128860435088432457973093910016512235946761040473496027175710192846750906),
     (True, 45935411544212727711795742697243615368324889433359169365296844610026612600783),
     (False, 42651253823966192327958733012219411003153876724908000666382480942616800324677),
     (True, 44059112075770708469685500493264605483692516656571134096041853210852958229698),
     (False, 49387767157403856365440408057442939552773966799575443750467754399655143518260),
     (True, 12138235305476180693596312745688277062816173893376464994416439293546714116299),
     (True, 110806531394721915009197737724607272930037444341431486754316917961411219691127),
     (True, 28129586295782125491349429739734453644428004904760816144037601726180133397707),
     (True, 61489695298884087207925633182661976795289555156132738404681176598500263619103),
     (True, 3499660341214397533235841247358221017712639332559916784578743736606528809007),
     (True, 23843908361032050708626066596542213323144597931463109777172595268204994992505),
     (True, 93581883680679092072567393281812242579698720579951070726781027032466515853058),
     (False, 4230718124569220575890398911396071133901139759958387125450686639190927821849)]"

lemma p256_field_6700417_order: "has_order p256_field_prime 6700417
    54636728488999325549987002922360602553208223340192944360598553034238958074300"
  by (rule has_orderI [of "p256_field_summands" _ p256_field_6700417_steps _ _
        31825380093057744492790462519660004043525891529022585478641447006562051609368
        15016869140729534764841607168847654733870160965918553140914568171327235913081]; code_simp)

theorem p256_field: "is_prime p256_field_prime"
proof (rule brillhart [of _ 9810630803923067227550865 108640305619867056963512138 20081609308165037642332905])
  fix p assume p: "is_prime p" "p dvd p256_field_prime"
  have "odd (p256_field_prime :: int)"
    by (simp add: p256_field_prime_def)
  then have d0: "2 dvd p - 1"
    using p(2) by (intro odd_divisor)
  have "257 dvd p - 1"
    by (rule pocklington_factor [OF p256_field_257_order prime_257 p])
  then have "2 * 257 dvd p - 1"
    using d0 by (intro product_dvd) code_simp
  then have d1: "514 dvd p - 1"
    by simp
  have "641 dvd p - 1"
    by (rule pocklington_factor [OF p256_field_641_order prime_641 p])
  then have "514 * 641 dvd p - 1"
    using d1 by (intro product_dvd) code_simp
  then have d2: "329474 dvd p - 1"
    by simp
  have "1531 dvd p - 1"
    by (rule pocklington_factor [OF p256_field_1531_order prime_1531 p])
  then have "329474 * 1531 dvd p - 1"
    using d2 by (intro product_dvd) code_simp
  then have d3: "504424694 dvd p - 1"
    by simp
  have "65537 dvd p - 1"
    by (rule pocklington_factor [OF p256_field_65537_order prime_65537 p])
  then have "504424694 * 65537 dvd p - 1"
    using d3 by (intro product_dvd) code_simp
  then have d4: "33058481170678 dvd p - 1"
    by simp
  have "490463 dvd p - 1"
    by (rule pocklington_factor [OF p256_field_490463_order prime_490463 p])
  then have "33058481170678 * 490463 dvd p - 1"
    using d4 by (intro product_dvd) code_simp
  then have d5: "16213961850414243914 dvd p - 1"
    by simp
  have "6700417 dvd p - 1"
    by (rule pocklington_factor [OF p256_field_6700417_order prime_6700417 p])
  then have "16213961850414243914 * 6700417 dvd p - 1"
    using d5 by (intro product_dvd) code_simp
  then have d6: "108640305619867056963512138 dvd p - 1"
    by simp
  show "108640305619867056963512138 dvd p - 1"
    by (rule d6)
next
  fix e :: int
  show "e * e \<noteq> 20081609308165037642332905 * 20081609308165037642332905 - 4 * 9810630803923067227550865"
    by (rule no_square [of 7]; code_simp)
qed (simp_all add: p256_field_prime_def)

lemma prime_3: "is_prime 3"
  by (rule trial_division [of _ 2]; code_simp)

lemma prime_131: "is_prime 131"
  by (rule trial_division [of _ 12]; code_simp)

lemma prime_373: "is_prime 373"
  by (rule trial_division [of _ 20]; code_simp)

lemma prime_229: "is_prime 229"
  by (rule trial_division [of _ 16]; code_simp)

definition prime_9350987_229_steps :: "(bool \<times> int) list" where
  "prime_9350987_229_steps =
    [(True, 5043591), (False, 1744735), (True, 8092574), (False, 2660406), (True, 6098752), (True, 9184), (True, 2361304), (False, 2062981),
     (True, 8409491), (True, 542056), (False, 5382077)]"

lemma prime_9350987_229_order: "has_order 9350987 229
    6867500"
  by (rule has_orderI [of "[9350987]" _ prime_9350987_229_steps _ _
        1732635
        1272472]; code_simp)

theorem prime_9350987: "is_prime 9350987"
proof (rule brillhart [of _ 44 458 265])
  fix p assume p: "is_prime p" "p dvd 9350987"
  have "odd (9350987 :: int)"
    by (simp)
  then have d0: "2 dvd p - 1"
    using p(2) by (intro odd_divisor)
  have "229 dvd p - 1"
    by (rule pocklington_factor [OF prime_9350987_229_order prime_229 p])
  then have "2 * 229 dvd p - 1"
    using d0 by (intro product_dvd) code_simp
  then have d1: "458 dvd p - 1"
    by simp
  show "458 dvd p - 1"
    by (rule d1)
next
  fix e :: int
  show "e * e \<noteq> 265 * 265 - 4 * 44"
    by (rule no_square [of 3]; code_simp)
qed (simp_all)

definition prime_18701974_9350987_steps :: "(bool \<times> int) list" where
  "prime_18701974_9350987_steps =
    [(True, 5879), (True, 2723908), (True, 17803748), (True, 107024167), (False, 184300), (True, 3754489), (False, 887456), (True, 1031),
     (False, 759765), (True, 109807910), (True, 183930948), (False, 978003), (True, 97228569), (True, 59290425), (False, 601886), (True, 12190732),
     (True, 19500663), (False, 923964), (True, 13748417), (False, 105920), (True, 13302051), (False, 670325), (True, 82524788), (False, 94453),
     (True, 14083083), (True, 2419680), (False, 525127), (True, 11841838), (True, 117403604), (True, 39565469), (False, 418891), (True, 134621),
     (True, 168463059), (False, 328715), (True, 70564915), (False, 1036683)]"

lemma prime_18701974_9350987_order: "has_order 187019741 9350987
    1048576"
  by (rule has_orderI [of "[187019741]" _ prime_18701974_9350987_steps _ _
        44930397
        251914]; code_simp)

theorem prime_18701974: "is_prime 187019741"
proof (rule pocklington [of _ 18701974])
  fix p assume p: "is_prime p" "p dvd 187019741"
  have "odd (187019741 :: int)"
    by (simp)
  then have d0: "2 dvd p - 1"
    using p(2) by (intro odd_divisor)
  have "9350987 dvd p - 1"
    by (rule pocklington_factor [OF prime_18701974_9350987_order prime_9350987 p])
  then have "2 * 9350987 dvd p - 1"
    using d0 by (intro product_dvd) code_simp
  then have d1: "18701974 dvd p - 1"
    by simp
  show "18701974 dvd p - 1"
    by (rule d1)
qed (simp_all)

lemma prime_126241: "is_prime 126241"
  by (rule trial_division [of _ 356]; code_simp)

definition prime_10023280_126241_steps :: "(bool \<times> int) list" where
  "prime_10023280_126241_steps =
    [(True, 728774767872), (False, 821693518216), (True, 461833607), (False, 796296537546), (True, 831473902301), (False, 56296950082),
     (True, 58072171906), (True, 80150944748), (False, 442632457862), (True, 201016933575), (False, 282062268935), (True, 955993566992),
     (True, 304593948239), (False, 654016166221), (True, 395963946992), (True, 7285627907), (True, 297325101199), (False, 131483521454),
     (True, 562108036734), (True, 48790764130), (True, 749392713972), (True, 723173950753), (True, 324112734513), (False, 333873625513)]"

lemma prime_10023280_126241_order: "has_order 1002328039319 126241
    854676186744"
  by (rule has_orderI [of "[1002328039319]" _ prime_10023280_126241_steps _ _
        282868485333
        241199436622]; code_simp)

theorem prime_10023280: "is_prime 1002328039319"
proof (rule brillhart [of _ 15 252482 182669])
  fix p assume p: "is_prime p" "p dvd 1002328039319"
  have "odd (1002328039319 :: int)"
    by (simp)
  then have d0: "2 dvd p - 1"
    using p(2) by (intro odd_divisor)
  have "126241 dvd p - 1"
    by (rule pocklington_factor [OF prime_10023280_126241_order prime_126241 p])
  then have "2 * 126241 dvd p - 1"
    using d0 by (intro product_dvd) code_simp
  then have d1: "252482 dvd p - 1"
    by simp
  show "252482 dvd p - 1"
    by (rule d1)
next
  fix e :: int
  show "e * e \<noteq> 182669 * 182669 - 4 * 15"
    by (rule no_square [of 7]; code_simp)
qed (simp_all)

definition p256_order_prime :: int where
  "p256_order_prime = 115792089210356248762697446949407573529996955224135760342422259061068512044369"

definition p256_order_summands :: "int list" where
  "p256_order_summands =
     [115792089237316195423570985008687907853269984665640564039457584007913129639936, - 26959946667150639794667015087019630673637144422540572481103610249216, 6277101735386680763835789423207666416102355444464034512896, - 89188191075325690597107910205041859247]"

definition p256_order_3_steps :: "(bool \<times> int) list" where
  "p256_order_3_steps =
    [(True, 12035984352678864248504637171214685370317939310263041088288413314346349575026),
     (False, 25295929258865922943231150549930892290127262659719200453690935075953303032494)]"

lemma p256_order_3_order: "has_order p256_order_prime 3
    37331913611544787191735787721145577660445201969982241541979348390299652607521"
  by (rule has_orderI [of "p256_order_summands" _ p256_order_3_steps _ _
        64750754936389236777886368725889856466516236159429759714288389910612457160405
        20875947623470236711655646090358823316857488209900480665223427822084318546671]; code_simp)

definition p256_order_131_steps :: "(bool \<times> int) list" where
  "p256_order_131_steps =
    [(True, 86680487282537544471267838720674446775287663996170386716689271075645200842671),
     (True, 1159393907276339962209966446074950453057492186334606533604778668386036159049),
     (True, 83021857987984933261596305289724009467065358797212270828295998113205722250175),
     (True, 98272521101692275696937673191702366318777795976148286773781824524145714489040),
     (True, 52971741173364371738541052637705523627931055822932712905981866129412787435253),
     (True, 110044350921860040223603352232011604284924850901256199959167126900630913323691),
     (False, 3314132151909009345736966158092805523278199789008263311373222316733531703844),
     (True, 98983546697401816971266426829509009924498661973419020623693111858797120632419),
     (False, 13888169483712577451246529842539643421068434960073842924865408241583987601921)]"

lemma p256_order_131_order: "has_order p256_order_prime 131
    100184403557723183367577957135443623217933861641726220957634308864958372188210"
  by (rule has_orderI [of "p256_order_summands" _ p256_order_131_steps _ _
        30508547166166135652434320345444059471475264471860008084369176712543713482254
        26396281663960629922445676246947731396659154036250149029186976986990828983965]; code_simp)

definition p256_order_373_steps :: "(bool \<times> int) list" where
  "p256_order_373_steps =
    [(True, 43873461688680904594441992498170902267937380874500311471789601146175700707494),
     (True, 8628558550690491082335582356915860521413801237411729993942880263304412984935),
     (False, 48854431436134405339159070475361360329344098748894457213346244350589565974678),
     (True, 39945631508563494301133739725326791540411547021750363940352886927128183314974),
     (False, 4281520668291144239363434896508438158102732447609647970957461792424267650561),
     (True, 56053985459221592140293619904619593981088707973444842248259568397323700884403),
     (False, 50546659384969103057741338475817879664786709979814447736707406278332883021357),
     (True, 7051692333350095219131103822606753687658155965801751841393343511239075143712),
     (True, 73484582431109708565916234772133026566254975746667345158503942424874678810849),
     (False, 45049320618367261845751245269663909415131640803163659172977212451694408140191),
     (True, 72423144661475735540902915084731758461538452630383882829370960605623907019565),
     (True, 6769396046355017515148241879832603667889902312281262650020006711616505299238),
     (False, 68857902365105015589702319308937968101728834866851580410614287589759191690275)]"

lemma p256_order_373_order: "has_order p256_order_prime 373
    71275520270446896391099277224704212863357126562430269776155623758897986310914"
  by (rule has_orderI [of "p256_order_summands" _ p256_order_373_steps _ _
        37339632028584068669118175948755753183941065564494491148821969135469749488796
        22984313675431470516732990263869033235875607532868345519825895048718947179563]; code_simp)

definition p256_order_18701974_steps :: "(bool \<times> int) list" where
  "p256_order_18701974_steps =
    [(True, 56404038515164637933242838278518515801305824404024398283619002819367405773369),
     (True, 2399576325480934136798635705214763833897374860627826085731905057581788835779),
     (False, 41925427968843627672691112580136756827958414382238753296575702906873608108909),
     (True, 30817151891846040239848385628197777364405483594186259424187455703463091687782),
     (False, 32223390859812626399204739002836702323876355997036061124234693859070393255423),
     (True, 27021954827894331157175459366483877438858861464579847713517557030342310490346),
     (True, 103110733791470215150760474891530540345721704708860529327891023108461550251872),
     (True, 72990184605037408672572835521002884671793076255112745171606967600604939404581),
     (False, 48406624416272275364440224455702841151404034155032956633569780133397587220652),
     (True, 11583641478496184116635594388165977509953957161602018841464488258840381762142),
     (True, 322189748368057077582790354947945441504722521509321772714147571803020673076),
     (True, 42060364371194996265057797232332015124408743065073110665933723103849418419589),
     (False, 43832918923142237558342392008714448573296914172979105228646883663869861854016),
     (True, 5089538962386867048835707678447374025374631087245477612938230995688364534854),
     (True, 112544392875598222532880192897578015445535855146380508823414726310389132735750),
     (False, 71489434064350394150401656418004614712903789707130237168893095080767805889002),
     (True, 21053600586051901123998029300510016994529455689176616992274925922889654049671),
     (False, 64026088726384886176051606319198424779272865517215477561790310753716206516851),
     (True, 78471410097381526171873861282791341120498891751847793600477976926375336897891),
     (True, 110582319258047417212958579765059382254560987635333824516551222868083158157870),
     (False, 60342385487157288943290347385261289045385587976826703230797513830247175393624),
     (True, 110638296724126376035595722220702852265039889729593527458300851095546173156778),
     (False, 80039213514902633565531948321760808405753221502240561273268411850439593731430),
     (True, 58429202291806163928153458006938455279440748323634774593561003363148457236206),
     (True, 4856322684953289627760975926719848005801548311008205145706282482005720188858),
     (True, 1765717761579058733880454351555472050439742477372976849429552167186484887237),
     (True, 54343355679555868377027741779916739801748709567043323836133272567810430148892),
     (False, 68017061367283372487815948951963795606886823724920085456251886286585100209519),
     (True, 1275743541254426044039536902645748058019708166591612191265384642765028064173),
     (False, 46831988557008412175700487681038408366517779563117473975353915390349973130593),
     (True, 108189482216033849822861547792301931959533586994112532966760294968206677407318),
     (False, 13846315809205828667738879617750639437491392417114738194139905848466856393471),
     (True, 274070077516490524720289406660587836000649717216290962345743258851153283686),
     (True, 44741465606804022322997476390434670653115738190851840165882738291235507741472),
     (False, 46149419706341853617562821880417697618057426744186494594813321871925974640927),
     (True, 2259444363632271012535448313381716015732686037589944327119900580122871607932),
     (False, 28905616028876874973339992329079436320032994704376262906955391357729891323684),
     (True, 73896776768007313693637354497845408356540696654322511843027237911204694102112),
     (False, 53079546850935623012313838024403864510474597953428686139964514385531782213203),
     (True, 17780357931422505891126118409522864876514148354108267619497758026496500125532),
     (True, 1525605601598238986547121711994505369407534356146870669261243123351111836386),
     (False, 27229059129730105609231217856706741076661503179164711797667117310026057483191)]"

lemma p256_order_18701974_order: "has_order p256_order_prime 187019741
    80815477846587738668081932106209036054213920302441107521904423929025709575128"
  by (rule has_orderI [of "p256_order_summands" _ p256_order_18701974_steps _ _
        114025522815333200738312806721751663041946323078811714253015182300303606333062
        79582527406405657903072838892775801954406590017863813496181178102735140863417]; code_simp)

definition p256_order_10023280_steps :: "(bool \<times> int) list" where
  "p256_order_10023280_steps =
    [(True, 49654599250567561025883570029337046168822827553092417004585697361041715297753),
     (False, 1961945050978302953195999636462857719935437818899205456111213911934592083058),
     (True, 86427808631616476778058696194936054708302732017592893086363852586551467853273),
     (False, 52762006868938323696262549515215956813810956388462358065277864470248962448726),
     (True, 34558703049434019266194420097985362619498250720029850783923163656577033323260),
     (True, 51190343294832942166701905862968757675269809901658626905946272433810885423501),
     (False, 64382076054373071950025923414237071617968009029326121913948389230059756808285),
     (True, 5646954511175047048626757349350652404604978992006491597311542043884756246499),
     (True, 74633445057098815263486112151125137198074203015919566105784069377687454687400),
     (True, 31890819924419061762986582862458064529983771720181812928547466585375059347681),
     (False, 5722119643352719043578573240720256879732525335828747583787836807232268190446),
     (True, 532540734322804280517179495689091560018872162533705500880693855558070023781),
     (True, 36174693098430848966178965397145481943375328124935680839144813002325684540487),
     (False, 52149977735322583236639497680384875426803962822022187834361373083405181339983),
     (True, 20447618020862970707415436284796176129587247944707170027924971210380783767),
     (True, 49736276632742881358650430567934118342253867977203873864586971285368355841609),
     (False, 16039041037019407797347499620164978848871455479299441225779985449605821606930),
     (True, 45238992130953404567878644639121296690912642607612943955509441491176233949616),
     (False, 34434430862305026235111214650289051575259426237876723367932277334070270075582),
     (True, 74987788411424450178301016580118232361190843243947600981521811234125126846821),
     (False, 29118930969804087164830831071680824680044330079024784072952762033334494855071),
     (True, 51133402408483243670910225839033677514959872737857569852222919833645766567460),
     (False, 3671565508570895497095785999952679490736467068404525494310705573648290876525),
     (True, 32292370960310711814907119821638430695833756209678727401018718996394766381861),
     (False, 30137406602326765846353334676016949463714461647081560482139209207451016260548),
     (True, 94431096549584065470552047364012495826384790147660013007292053118364602715827),
     (True, 57508263292724291491196026388365518232198169042091485699212472755191430840549),
     (False, 58252018559287037305309379477701702961606054476246769111681121267673017873773),
     (True, 95127701966863094991704038929702467916919183084417880496266400244609595371217),
     (False, 9626061370591978301381173494523614559571312139929658455678556859611598278133),
     (True, 2641798117085953313791594360537796853581131213806096980213148480039753758044),
     (True, 14948863370652364343786928554992242772265741084619437215776591091689594698283),
     (False, 35486270751423298601770469781238758025330119233711624125614176134229939032154),
     (True, 3201494635225015679604362719789982461819058338006881364249751346494802423808),
     (True, 5877325959470698552651862763289941990937910345161475148008209947737440259763),
     (True, 34173058099005127113536656478061688823378646773666731141058163205963321991370),
     (True, 4611838787019458171558847582684308939568075322276440519864977857875503584080),
     (True, 1030891849425980535091319720163831861721317057743234568394806575020989568684),
     (True, 65163766200366052119837142843029707529237127959871409199734226994992680521551),
     (True, 27868208884641914430517974920227725886079722253822669059664437046944774559869),
     (False, 54985572808442003318609421405801390363616965653686771053733613698764869485058),
     (True, 12430096346685442364520712399097777609099193437716752230670808629079050308087),
     (False, 43095847034775878702886461604373579445510714759698707024275728384780640399211),
     (True, 59197859013161373180329563400206828527751030166284123973109508958943281405190),
     (False, 25743218648324468556991919070544833620268198472956016003198422578875949754082),
     (True, 4801519714783679697667854219284555131889707756220079660641964622729361883472),
     (False, 41702221397968215935298480086111461276399414959434386843998422973348371462181),
     (True, 49615206616186477131011940716582720572932613558651819181064772906132708384867),
     (False, 12995255649389716502577507203658167721695846828684009083688186186124466207620),
     (True, 43690695250968759670720897288093612789290791958609342902063533349629231014465),
     (False, 47595105382274559350334338238616247237027109834678605284915336442057803805024),
     (True, 16906450540566022233778936141905311920136068990692518246484984694086068844461),
     (True, 56220759255529543245863024425344819374205564728027188897923404595028719571634),
     (True, 245153105139844910024050512920345573593595036907752909116502673115550579676),
     (False, 48286203610450183160823400764047731231280565131639697656739877941617143460378),
     (True, 44732753683254728133129762477673679940879013155519464680445269271032243510476),
     (True, 4381536456497174928705545337945432151332608455833980562113726027061489884934),
     (False, 68419025326435486146973996352345166955051192618364601299071438847352309978592),
     (True, 98347157211150713198885959677365922552680661894982955671589224824306512968782),
     (False, 26711463376525543386458388288388303214488342903306643863202367981866742709884),
     (True, 32886117044579258462712161506859550909540146348094417526876474922266938486497),
     (False, 44732223114152587940514522255322222756018636139755158899698750566105330933039)]"

lemma p256_order_10023280_order: "has_order p256_order_prime 1002328039319
    75826181402772799521319382390190118258099127975743022721581095372707945421081"
  by (rule has_orderI [of "p256_order_summands" _ p256_order_10023280_steps _ _
        9631013060085677371482002832704039550345574303883859918124457045788451041694
        6306846593464998713267894978977654199470285288516574978017596443495004344351]; code_simp)

theorem p256_order: "is_prime p256_order_prime"
proof (rule brillhart [of _ 38337295522148066818815922 54957720194165083480002462 26426033128040231416821500])
  fix p assume p: "is_prime p" "p dvd p256_order_prime"
  have "odd (p256_order_prime :: int)"
    by (simp add: p256_order_prime_def)
  then have d0: "2 dvd p - 1"
    using p(2) by (intro odd_divisor)
  have "3 dvd p - 1"
    by (rule pocklington_factor [OF p256_order_3_order prime_3 p])
  then have "2 * 3 dvd p - 1"
    using d0 by (intro product_dvd) code_simp
  then have d1: "6 dvd p - 1"
    by simp
  have "131 dvd p - 1"
    by (rule pocklington_factor [OF p256_order_131_order prime_131 p])
  then have "6 * 131 dvd p - 1"
    using d1 by (intro product_dvd) code_simp
  then have d2: "786 dvd p - 1"
    by simp
  have "373 dvd p - 1"
    by (rule pocklington_factor [OF p256_order_373_order prime_373 p])
  then have "786 * 373 dvd p - 1"
    using d2 by (intro product_dvd) code_simp
  then have d3: "293178 dvd p - 1"
    by simp
  have "187019741 dvd p - 1"
    by (rule pocklington_factor [OF p256_order_18701974_order prime_18701974 p])
  then have "293178 * 187019741 dvd p - 1"
    using d3 by (intro product_dvd) code_simp
  then have d4: "54830073626898 dvd p - 1"
    by simp
  have "1002328039319 dvd p - 1"
    by (rule pocklington_factor [OF p256_order_10023280_order prime_10023280 p])
  then have "54830073626898 * 1002328039319 dvd p - 1"
    using d4 by (intro product_dvd) code_simp
  then have d5: "54957720194165083480002462 dvd p - 1"
    by simp
  show "54957720194165083480002462 dvd p - 1"
    by (rule d5)
next
  fix e :: int
  show "e * e \<noteq> 26426033128040231416821500 * 26426033128040231416821500 - 4 * 38337295522148066818815922"
    by (rule no_square [of 5]; code_simp)
qed (simp_all add: p256_order_prime_def)

end
