(* ===== verification/P256Verify.thy ===== *)
theory P256Verify
  imports Shamir ModularInverse P256Primes
begin

unbundle bit_operations_syntax

text \<open>
  The precompile \<^verbatim>\<open>src/precompiles/P256VERIFY.yul\<close>: verification of an ECDSA signature over secp256r1. The model takes
  the five words of the calldata and gives the word the contract returns, or \<^verbatim>\<open>Burnt\<close> for a call that consumes all
  its gas; \<^verbatim>\<open>None\<close> would be a call that does not leave one of its loops.
\<close>

section \<open>The contract\<close>

datatype verification = Verdict u256 | Burnt

definition P256_ONE_P :: u256 where
  "P256_ONE_P = 26959946660873538059280334323183841250350249843923952699046031785985"

definition P256_A_P :: u256 where
  "P256_A_P = 115792089129476408780076832771566570560534619664239564663761773211729002495996"

definition P256_B_P :: u256 where
  "P256_B_P = 99593677540221402957765480916910020772520766868399186769503856397241456836063"

definition P256_PROJECTIVE_G_P :: triple where
  "P256_PROJECTIVE_G_P =
     (0x18905F76A53755C679FB732B7762251075BA95FC5FEDB60179E730D418A9143C,
      0x8571FF1825885D85D2E88688DD21F3258B4AB8E4BA19E45CDDF25357CE95560A,
      P256_ONE_P)"

text \<open>The calls of the field operations in the contract pass \<^verbatim>\<open>P()\<close> and \<^verbatim>\<open>P_PRIME()\<close>.\<close>

abbreviation p256_mul :: "u256 \<Rightarrow> u256 \<Rightarrow> u256" where
  "p256_mul x y \<equiv> p256_montgomeryMul x y P256_P P256_P_PRIME"

abbreviation p256_add :: "u256 \<Rightarrow> u256 \<Rightarrow> u256" where
  "p256_add x y \<equiv> montgomeryAdd x y P256_P"

abbreviation p256_sub :: "u256 \<Rightarrow> u256 \<Rightarrow> u256" where
  "p256_sub x y \<equiv> montgomerySub x y P256_P"

definition fieldElementIsOnFieldOrder :: "u256 \<Rightarrow> bool" where
  "fieldElementIsOnFieldOrder felt = (felt < P256_P)"

definition fieldElementIsOnSubgroupOrder :: "u256 \<Rightarrow> bool" where
  "fieldElementIsOnSubgroupOrder felt = (felt < P256_N)"

definition affinePointCoordinatesAreOnFieldOrder :: "u256 \<Rightarrow> u256 \<Rightarrow> bool" where
  "affinePointCoordinatesAreOnFieldOrder xp yp =
     (fieldElementIsOnFieldOrder xp \<and> fieldElementIsOnFieldOrder yp)"

definition affinePointIsInfinity :: "u256 \<Rightarrow> u256 \<Rightarrow> bool" where
  "affinePointIsInfinity xp yp = (xp OR yp = 0)"

definition affinePointIsOnCurve :: "u256 \<Rightarrow> u256 \<Rightarrow> bool" where
  "affinePointIsOnCurve xp yp =
     (let left = p256_mul yp yp;
          right = p256_add (p256_mul xp (p256_mul xp xp)) (p256_add (p256_mul P256_A_P xp) P256_B_P)
      in left = right)"

definition projectiveFromAffine :: "u256 \<Rightarrow> u256 \<Rightarrow> triple" where
  "projectiveFromAffine xp yp = (xp, yp, P256_ONE_P)"

definition projectivePointIsInfinity :: "triple \<Rightarrow> bool" where
  "projectivePointIsInfinity = (\<lambda>(xp, yp, zp). zp = 0)"

definition p256_projectiveDouble :: "triple \<Rightarrow> triple" where
  "p256_projectiveDouble = (\<lambda>(xp, yp, zp).
     let x_squared = p256_mul xp xp;
         z_squared = p256_mul zp zp;
         az_squared = p256_mul P256_A_P z_squared;
         t = p256_add (p256_add x_squared (p256_add x_squared x_squared)) az_squared;
         yz = p256_mul yp zp;
         u = p256_add yz yz;
         uxy = p256_mul u (p256_mul xp yp);
         v = p256_add uxy uxy;
         w = p256_sub (p256_mul t t) (p256_add v v);
         xr = p256_mul u w;
         uy = p256_mul u yp;
         uy_squared = p256_mul uy uy;
         yr = p256_sub (p256_mul t (p256_sub v w)) (p256_add uy_squared uy_squared);
         zr = p256_mul u (p256_mul u u)
     in (xr, yr, zr))"

definition p256_projectiveAdd :: "triple \<Rightarrow> triple \<Rightarrow> triple" where
  "p256_projectiveAdd = (\<lambda>(xp, yp, zp) (xq, yq, zq).
     let qIsInfinity = projectivePointIsInfinity (xq, yq, zq);
         pIsInfinity = projectivePointIsInfinity (xp, yp, zp)
     in if pIsInfinity then (xq, yq, zq)
        else if qIsInfinity then (xp, yp, zp)
        else
          let t0 = p256_mul yp zq;
              t1 = p256_mul yq zp;
              t = p256_sub t0 t1;
              u0 = p256_mul xp zq;
              u1 = p256_mul xq zp;
              u = p256_sub u0 u1
          in if t OR u = 0 then p256_projectiveDouble (xp, yp, zp)
             else
               let u2 = p256_mul u u;
                   u3 = p256_mul u2 u;
                   v = p256_mul zp zq;
                   w = p256_sub (p256_mul (p256_mul t t) v) (p256_mul u2 (p256_add u0 u1));
                   xr = p256_mul u w;
                   yr = p256_sub (p256_mul t (p256_sub (p256_mul u0 u2) w)) (p256_mul t0 u3);
                   zr = p256_mul u3 v
               in (xr, yr, zr))"

definition p256_shamirLinearCombination :: "triple \<Rightarrow> u256 \<Rightarrow> u256 \<Rightarrow> triple option" where
  "p256_shamirLinearCombination q t0 t1 =
     shamirLinearCombination p256_projectiveDouble p256_projectiveAdd P256_PROJECTIVE_G_P q t0 t1"

definition p256Verify :: "u256 \<Rightarrow> u256 \<Rightarrow> u256 \<Rightarrow> u256 \<Rightarrow> u256 \<Rightarrow> verification option" where
  "p256Verify hash r s x y =
     (if (r = 0 \<or> \<not> fieldElementIsOnSubgroupOrder r) \<or> (s = 0 \<or> \<not> fieldElementIsOnSubgroupOrder s) then Some Burnt
      else if affinePointIsInfinity x y \<or> \<not> affinePointCoordinatesAreOnFieldOrder x y then Some Burnt
      else
        let x = p256_intoMontgomeryForm x P256_P P256_P_PRIME P256_R2_P;
            y = p256_intoMontgomeryForm y P256_P P256_P_PRIME P256_R2_P
        in if \<not> affinePointIsOnCurve x y then Some Burnt
           else
             let (x, y, z) = projectiveFromAffine x y;
                 hash = p256_intoMontgomeryForm hash P256_N P256_N_PRIME P256_R2_N;
                 rTmp = r;
                 r = p256_intoMontgomeryForm r P256_N P256_N_PRIME P256_R2_N;
                 s = p256_intoMontgomeryForm s P256_N P256_N_PRIME P256_R2_N
             in Option.bind (montgomeryModularInverse s P256_N P256_R2_N) (\<lambda>s1.
                let t0 = p256_outOfMontgomeryForm (p256_montgomeryMul hash s1 P256_N P256_N_PRIME) P256_N P256_N_PRIME;
                    t1 = p256_outOfMontgomeryForm (p256_montgomeryMul r s1 P256_N P256_N_PRIME) P256_N P256_N_PRIME
                in Option.bind (p256_shamirLinearCombination (x, y, z) t0 t1) (\<lambda>(xr, yr, zr).
                   if zr = 0 then Some (Verdict 0)
                   else Option.bind (montgomeryModularInverse zr P256_P P256_R2_P) (\<lambda>z_inv.
                     let xr = p256_mul xr z_inv;
                         xr = p256_outOfMontgomeryForm xr P256_P P256_P_PRIME;
                         xr = xr mod P256_N
                     in Some (Verdict (if xr = rTmp then 1 else 0))))))"

section \<open>The curve\<close>

definition p256_a :: int where "p256_a = - 3"

definition p256_b :: int where
  "p256_b = 0x5ac635d8aa3a93e7b3ebbd55769886bc651d06b0cc53b0f63bce3c3e27d2604b"

definition p256_generator :: point where
  "p256_generator = Point 0x6b17d1f2e12c4247f8bce6e563a440f277037d812deb33a0f4a13945d898c296
     0x4fe342e2fe1a7f9b8ee7eb4a7c0f9e162bce33576b315ececbb6406837bf51f5"

abbreviation p256_eq :: "int \<Rightarrow> int \<Rightarrow> bool" where "p256_eq \<equiv> eqm p256_field_prime"

abbreviation p256_rep :: "u256 \<Rightarrow> int \<Rightarrow> bool" where "p256_rep \<equiv> represents P256_P"

abbreviation p256_valid :: "point \<Rightarrow> bool" where
  "p256_valid \<equiv> valid_point p256_field_prime p256_a p256_b"

interpretation p256_curve: prime_curve p256_field_prime p256_a p256_b
  by unfold_locales (rule p256_field)

lemma uint_P256: "uint P256_P = p256_field_prime" "uint P256_N = p256_order_prime"
  by (simp_all add: P256_P_def P256_N_def p256_field_prime_def p256_order_prime_def)

interpretation p256_scalars: prime_field p256_order_prime
  by unfold_locales (rule p256_order)

lemma p256_generator_valid: "p256_valid p256_generator"
proof -
  let ?x = "0x6b17d1f2e12c4247f8bce6e563a440f277037d812deb33a0f4a13945d898c296 :: int"
  let ?y = "0x4fe342e2fe1a7f9b8ee7eb4a7c0f9e162bce33576b315ececbb6406837bf51f5 :: int"
  have "?y * ?y - (?x * ?x * ?x + p256_a * ?x + p256_b) = p256_field_prime * (- 981570988164258562257936101525215858910690391106138407341175333813841188485201771743408849884010754226965632845910189239885256093057339116530079505515608)"
    by code_simp
  then have "on_curve p256_field_prime p256_a p256_b ?x ?y"
    unfolding on_curve_def eqm_dvd by (metis dvd_triv_left)
  then show ?thesis
    by (simp add: p256_generator_def p256_field_prime_def)
qed

text \<open>The operations on residues in Montgomery form, for a modulus and its reduction.\<close>

lemma p256_ops:
  shows "p256_rep (p256_intoMontgomeryForm w P256_P P256_P_PRIME P256_R2_P) (uint w)"
    and "p256_rep x a \<Longrightarrow> uint (p256_outOfMontgomeryForm x P256_P P256_P_PRIME) = a mod p256_field_prime"
    and "p256_rep x a \<Longrightarrow> p256_rep y b \<Longrightarrow> p256_rep (p256_add x y) (a + b)"
    and "p256_rep x a \<Longrightarrow> p256_rep y b \<Longrightarrow> p256_rep (p256_sub x y) (a - b)"
    and "p256_rep x a \<Longrightarrow> p256_rep y b \<Longrightarrow> p256_rep (p256_mul x y) (a * b)"
  using p256_field.into_represents [of w] p256_field.out_represents [of x a] p256_field.add_represents [of x a y b]
    p256_field.sub_represents [of x a y b] p256_field.mul_represents [of x a y b]
  by (simp_all add: p256_intoMontgomeryForm_def p256_outOfMontgomeryForm_def p256_montgomeryMul_def
      montgomeryAdd_def montgomerySub_def Let_def uint_P256)

lemma p256_constants: "p256_rep P256_ONE_P 1" "p256_rep P256_A_P p256_a" "p256_rep P256_B_P p256_b" "p256_rep 0 0"
  by (simp_all add: represents_def P256_ONE_P_def P256_A_P_def P256_B_P_def p256_a_def p256_b_def P256_P_def R256_def)

lemma p256_eq_represents: "p256_rep x a \<Longrightarrow> p256_rep y b \<Longrightarrow> x = y \<longleftrightarrow> p256_eq a b"
  using p256_field.eq_represents [of x a y b] by (simp add: eqm_dvd uint_P256)

lemma p256_zero: "p256_rep x a \<Longrightarrow> x = 0 \<longleftrightarrow> p256_eq a 0"
  by (rule p256_eq_represents [OF _ p256_constants(4)])

section \<open>Points in projective coordinates\<close>

definition p256_triple :: "triple \<Rightarrow> int \<times> int \<times> int \<Rightarrow> bool" where
  "p256_triple t f \<longleftrightarrow> p256_rep (fst t) (fst f) \<and> p256_rep (fst (snd t)) (fst (snd f)) \<and> p256_rep (snd (snd t)) (snd (snd f))"

definition p256_denotes :: "triple \<Rightarrow> point \<Rightarrow> bool" where
  "p256_denotes t P \<longleftrightarrow> (\<exists>f. p256_triple t f \<and> projects p256_field_prime P f)"

lemma p256_double_formula:
  assumes "p256_rep x X" "p256_rep y Y" "p256_rep z Z"
  shows "p256_triple (p256_projectiveDouble (x, y, z)) (double_formula p256_a X Y Z)"
  unfolding p256_triple_def p256_projectiveDouble_def double_formula_def Let_def prod.case fst_conv snd_conv
  by (intro conjI p256_ops p256_constants assms)

lemma p256_add_formula:
  assumes "p256_rep x1 X1" "p256_rep y1 Y1" "p256_rep z1 Z1" "p256_rep x2 X2" "p256_rep y2 Y2" "p256_rep z2 Z2"
    and "z1 \<noteq> 0" "z2 \<noteq> 0" and ne: "\<not> (p256_eq (Y1 * Z2 - Y2 * Z1) 0 \<and> p256_eq (X1 * Z2 - X2 * Z1) 0)"
  shows "p256_triple (p256_projectiveAdd (x1, y1, z1) (x2, y2, z2)) (add_formula X1 Y1 Z1 X2 Y2 Z2)"
proof -
  have "p256_rep (p256_sub (p256_mul y1 z2) (p256_mul y2 z1)) (Y1 * Z2 - Y2 * Z1)"
    "p256_rep (p256_sub (p256_mul x1 z2) (p256_mul x2 z1)) (X1 * Z2 - X2 * Z1)"
    by (intro p256_ops assms)+
  then have "\<not> (p256_sub (p256_mul y1 z2) (p256_mul y2 z1) OR p256_sub (p256_mul x1 z2) (p256_mul x2 z1) = 0)"
    using ne by (simp add: or_eq_0_iff p256_zero)
  then show ?thesis
    using assms(7,8)
    unfolding p256_triple_def p256_projectiveAdd_def projectivePointIsInfinity_def add_formula_def Let_def prod.case
    by (simp only: if_False fst_conv snd_conv simp_thms) (intro conjI p256_ops p256_constants assms(1-6))
qed

lemma p256_double:
  assumes "p256_denotes t P"
  shows "p256_denotes (p256_projectiveDouble t) (affine_add p256_field_prime p256_a P P)"
proof -
  obtain x y z X Y Z where t: "t = (x, y, z)" and r: "p256_rep x X" "p256_rep y Y" "p256_rep z Z"
    and "projects p256_field_prime P (X, Y, Z)"
    using assms by (cases t) (auto simp: p256_denotes_def p256_triple_def)
  then have "projects p256_field_prime (affine_add p256_field_prime p256_a P P) (double_formula p256_a X Y Z)"
    by (intro p256_curve.double_projects)
  then show ?thesis
    using p256_double_formula [OF r] unfolding t p256_denotes_def by blast
qed

lemma p256_addition:
  assumes "p256_denotes t P" "p256_valid P" and "p256_denotes u Q" "p256_valid Q"
  shows "p256_denotes (p256_projectiveAdd t u) (affine_add p256_field_prime p256_a P Q)"
proof -
  obtain x1 y1 z1 X1 Y1 Z1 where t: "t = (x1, y1, z1)" and r1: "p256_rep x1 X1" "p256_rep y1 Y1" "p256_rep z1 Z1"
    and p1: "projects p256_field_prime P (X1, Y1, Z1)"
    using assms(1) by (cases t) (auto simp: p256_denotes_def p256_triple_def)
  obtain x2 y2 z2 X2 Y2 Z2 where u: "u = (x2, y2, z2)" and r2: "p256_rep x2 X2" "p256_rep y2 Y2" "p256_rep z2 Z2"
    and p2: "projects p256_field_prime Q (X2, Y2, Z2)"
    using assms(3) by (cases u) (auto simp: p256_denotes_def p256_triple_def)
  have inf: "P = Infinity \<longleftrightarrow> z1 = 0" "Q = Infinity \<longleftrightarrow> z2 = 0"
    using p1 p2 p256_zero [OF r1(3)] p256_zero [OF r2(3)] by (cases P; cases Q; simp)+
  show ?thesis
  proof (cases "z1 = 0 \<or> z2 = 0")
    case True
    then show ?thesis
      using assms(1,3) inf
      by (auto simp: t u p256_projectiveAdd_def projectivePointIsInfinity_def Let_def)
  next
    case False
    then have nz: "\<not> p256_eq Z1 0" "\<not> p256_eq Z2 0"
      using p256_zero [OF r1(3)] p256_zero [OF r2(3)] by simp_all
    show ?thesis
    proof (cases "p256_eq (Y1 * Z2 - Y2 * Z1) 0 \<and> p256_eq (X1 * Z2 - X2 * Z1) 0")
      case eq: True
      then have "P = Q"
        using p256_curve.same_projects [OF p1 assms(2) p2 assms(4) nz] by blast
      have "p256_rep (p256_sub (p256_mul y1 z2) (p256_mul y2 z1)) (Y1 * Z2 - Y2 * Z1)"
        "p256_rep (p256_sub (p256_mul x1 z2) (p256_mul x2 z1)) (X1 * Z2 - X2 * Z1)"
        by (intro p256_ops r1 r2)+
      then have "p256_projectiveAdd t u = p256_projectiveDouble t"
        using eq False unfolding t u p256_projectiveAdd_def projectivePointIsInfinity_def Let_def prod.case
        by (simp add: or_eq_0_iff p256_zero)
      then show ?thesis
        using p256_double [OF assms(1)] \<open>P = Q\<close> by simp
    next
      case ne: False
      then show ?thesis
        using p256_curve.add_projects [OF p1 assms(2) p2 assms(4) nz ne] False
          p256_add_formula [OF r1 r2 _ _ ne] unfolding t u p256_denotes_def by blast
    qed
  qed
qed

interpretation p256_points: point_operations p256_field_prime p256_a p256_b p256_projectiveDouble p256_projectiveAdd p256_denotes
  by unfold_locales (simp_all add: p256_double p256_addition)

section \<open>Verification of a signature\<close>

text \<open>The specification: the checks of the inputs, and the combination of generator and public key whose abscissa is
  compared with \<^verbatim>\<open>r\<close>.\<close>

definition p256_ecdsa :: "int \<Rightarrow> int \<Rightarrow> int \<Rightarrow> int \<Rightarrow> int \<Rightarrow> verification" where
  "p256_ecdsa hash r s x y =
     (if 0 < r \<and> r < p256_order_prime \<and> 0 < s \<and> s < p256_order_prime \<and> p256_valid (Point x y) then
        let w = inverse_mod p256_order_prime s
        in case combine p256_field_prime p256_a p256_generator (Point x y)
                  (hash * w mod p256_order_prime) (r * w mod p256_order_prime) of
             Infinity \<Rightarrow> Verdict 0
           | Point xr yr \<Rightarrow> Verdict (if xr mod p256_order_prime = r then 1 else 0)
      else Burnt)"

lemma p256_generator_denotes: "p256_denotes P256_PROJECTIVE_G_P p256_generator"
  unfolding p256_denotes_def
proof (intro exI conjI)
  let ?f = "(0x6b17d1f2e12c4247f8bce6e563a440f277037d812deb33a0f4a13945d898c296,
     0x4fe342e2fe1a7f9b8ee7eb4a7c0f9e162bce33576b315ececbb6406837bf51f5, 1) :: int \<times> int \<times> int"
  show "p256_triple P256_PROJECTIVE_G_P ?f"
    using p256_constants(1)
    by (simp add: p256_triple_def P256_PROJECTIVE_G_P_def) (simp add: represents_def P256_P_def R256_def)
  show "projects p256_field_prime p256_generator ?f"
    by (simp add: p256_generator_def eqm_def p256_field_prime_def)
qed

lemma p256_point_denotes:
  "p256_rep x a \<Longrightarrow> p256_rep y b \<Longrightarrow> p256_denotes (projectiveFromAffine x y) (Point a b)"
  unfolding p256_denotes_def
  by (rule exI [of _ "(a, b, 1)"])
    (use p256_constants(1) in \<open>simp add: p256_triple_def projectiveFromAffine_def eqm_def p256_field_prime_def\<close>)

lemma affinePointIsOnCurve_iff:
  assumes "p256_rep x a" and "p256_rep y b"
  shows "affinePointIsOnCurve x y \<longleftrightarrow> on_curve p256_field_prime p256_a p256_b a b"
proof -
  have "affinePointIsOnCurve x y \<longleftrightarrow> p256_eq (b * b) (a * (a * a) + (p256_a * a + p256_b))"
    unfolding affinePointIsOnCurve_def Let_def
    by (intro p256_eq_represents p256_ops p256_constants assms)
  then show ?thesis
    by (simp add: on_curve_def algebra_simps)
qed

lemma p256_order_checks:
  "fieldElementIsOnSubgroupOrder r \<longleftrightarrow> uint r < p256_order_prime"
  "fieldElementIsOnFieldOrder r \<longleftrightarrow> uint r < p256_field_prime"
  by (simp_all add: fieldElementIsOnSubgroupOrder_def fieldElementIsOnFieldOrder_def word_less_def uint_P256)

lemma uint_positive: "0 < uint (r :: u256) \<longleftrightarrow> r \<noteq> 0"
  using uint_bounds(2) [of r] by (simp add: less_le uint_0_iff)

text \<open>The inverse of a residue that is not 0, modulo the order of the field and of the group.\<close>

lemma p256_field_inverse:
  assumes "p256_rep z a" and "\<not> p256_eq a 0"
  shows "\<exists>i. montgomeryModularInverse z P256_P P256_R2_P = Some i \<and> p256_rep i (inverse_mod p256_field_prime a)"
  using p256_field_inv.inverse_represents [OF assms(1)] p256_curve.inverse_mod [OF assms(2)]
  by (simp add: montgomeryModularInverse_def binaryExtendedEuclideanAlgorithm_def eqm_dvd uint_P256)

lemma p256_scalar_inverse:
  assumes "represents P256_N z a" and "\<not> eqm p256_order_prime a 0"
  shows "\<exists>i. montgomeryModularInverse z P256_N P256_R2_N = Some i \<and>
    represents P256_N i (inverse_mod p256_order_prime a)"
  using p256_scalar_inv.inverse_represents [OF assms(1)] p256_scalars.inverse_mod [OF assms(2)]
  by (simp add: montgomeryModularInverse_def binaryExtendedEuclideanAlgorithm_def eqm_dvd uint_P256)

lemma p256_scalar_ops:
  shows "represents P256_N (p256_intoMontgomeryForm w P256_N P256_N_PRIME P256_R2_N) (uint w)"
    and "represents P256_N x a \<Longrightarrow> uint (p256_outOfMontgomeryForm x P256_N P256_N_PRIME) = a mod p256_order_prime"
    and "represents P256_N x a \<Longrightarrow> represents P256_N y b \<Longrightarrow>
      represents P256_N (p256_montgomeryMul x y P256_N P256_N_PRIME) (a * b)"
  using p256_scalar.into_represents [of w] p256_scalar.out_represents [of x a] p256_scalar.mul_represents [of x a y b]
  by (simp_all add: montgomery_form_defs Let_def uint_P256)

text \<open>The end of the contract: from the combination in projective coordinates to the verdict.\<close>

lemma p256_abscissa:
  assumes "p256_denotes (xr, yr, zr) P" and "p256_valid P"
  shows "P = Infinity \<longleftrightarrow> zr = 0"
    and "P = Point a b \<Longrightarrow> \<exists>i. montgomeryModularInverse zr P256_P P256_R2_P = Some i \<and>
      uint (p256_outOfMontgomeryForm (p256_mul xr i) P256_P P256_P_PRIME) = a"
proof -
  obtain X Y Z where r: "p256_rep xr X" "p256_rep yr Y" "p256_rep zr Z"
    and p: "projects p256_field_prime P (X, Y, Z)"
    using assms(1) by (auto simp: p256_denotes_def p256_triple_def)
  show "P = Infinity \<longleftrightarrow> zr = 0"
    using p p256_zero [OF r(3)] by (cases P) simp_all
  assume P: "P = Point a b"
  then have "\<not> p256_eq Z 0" and X: "p256_eq X (a * Z)"
    using p by simp_all
  then obtain i where i: "montgomeryModularInverse zr P256_P P256_R2_P = Some i"
      "p256_rep i (inverse_mod p256_field_prime Z)"
    using p256_field_inverse [OF r(3)] by blast
  have "p256_eq (X * inverse_mod p256_field_prime Z) (a * Z * inverse_mod p256_field_prime Z)"
    by (intro eqm_ops X eqm_refl)
  also have "a * Z * inverse_mod p256_field_prime Z = a * (Z * inverse_mod p256_field_prime Z)"
    by simp
  also have "p256_eq \<dots> (a * 1)"
    by (intro eqm_ops eqm_refl p256_curve.inverse_mod \<open>\<not> p256_eq Z 0\<close>)
  finally have "X * inverse_mod p256_field_prime Z mod p256_field_prime = a mod p256_field_prime"
    by (simp add: eqm_def)
  moreover have "a mod p256_field_prime = a"
    using assms(2) by (simp add: P)
  ultimately show "\<exists>i. montgomeryModularInverse zr P256_P P256_R2_P = Some i \<and>
      uint (p256_outOfMontgomeryForm (p256_mul xr i) P256_P P256_P_PRIME) = a"
    using i p256_ops(2) [OF p256_ops(5) [OF r(1) i(2)]] by simp
qed

text \<open>The contract after the combination: the comparison of its abscissa with \<^verbatim>\<open>r\<close>.\<close>

lemma p256_verdict:
  assumes "p256_denotes (xr, yr, zr) P" and "p256_valid P"
  shows "(if zr = 0 then Some (Verdict 0)
     else Option.bind (montgomeryModularInverse zr P256_P P256_R2_P) (\<lambda>z_inv.
       Some (Verdict (if p256_outOfMontgomeryForm (p256_mul xr z_inv) P256_P P256_P_PRIME mod P256_N = r
         then 1 else 0)))) =
    Some (case P of Infinity \<Rightarrow> Verdict 0
      | Point a b \<Rightarrow> Verdict (if a mod p256_order_prime = uint r then 1 else 0))"
proof (cases P)
  case Infinity
  then show ?thesis
    using p256_abscissa(1) [OF assms] by simp
next
  case (Point a b)
  then obtain i where i: "montgomeryModularInverse zr P256_P P256_R2_P = Some i"
      "uint (p256_outOfMontgomeryForm (p256_mul xr i) P256_P P256_P_PRIME) = a"
    using p256_abscissa(2) [OF assms] by blast
  have "zr \<noteq> 0"
    using p256_abscissa(1) [OF assms] Point by simp
  then show ?thesis
    using Point i by (simp add: word_uint_eq_iff uint_mod_distrib uint_P256)
qed

text \<open>The two scalars, and the second one is not 0.\<close>

lemma p256_scalars_value:
  assumes "0 < uint s" "uint s < p256_order_prime"
  shows "\<exists>s1. montgomeryModularInverse (p256_intoMontgomeryForm s P256_N P256_N_PRIME P256_R2_N) P256_N P256_R2_N = Some s1 \<and>
    (\<forall>h. uint (p256_outOfMontgomeryForm (p256_montgomeryMul (p256_intoMontgomeryForm h P256_N P256_N_PRIME P256_R2_N)
        s1 P256_N P256_N_PRIME) P256_N P256_N_PRIME) = uint h * inverse_mod p256_order_prime (uint s) mod p256_order_prime)"
proof -
  have "\<not> eqm p256_order_prime (uint s) 0"
    using assms residue_unique [of "uint s" p256_order_prime 0] by simp
  then obtain i where "montgomeryModularInverse (p256_intoMontgomeryForm s P256_N P256_N_PRIME P256_R2_N) P256_N P256_R2_N = Some i"
      and "represents P256_N i (inverse_mod p256_order_prime (uint s))"
    using p256_scalar_inverse [OF p256_scalar_ops(1)] by blast
  then show ?thesis
    by (intro exI [of _ i] conjI allI) (blast intro: p256_scalar_ops)+
qed

lemma p256_scalar_not_zero:
  assumes "0 < r" "r < p256_order_prime" "0 < s" "s < p256_order_prime"
  shows "r * inverse_mod p256_order_prime s mod p256_order_prime \<noteq> 0"
proof
  have ne: "\<not> eqm p256_order_prime r 0" "\<not> eqm p256_order_prime s 0"
    using assms residue_unique [of r p256_order_prime 0] residue_unique [of s p256_order_prime 0] by simp_all
  assume "r * inverse_mod p256_order_prime s mod p256_order_prime = 0"
  then have "eqm p256_order_prime (r * inverse_mod p256_order_prime s * s) (0 * s)"
    by (intro eqm_ops eqm_refl) (simp add: eqm_def)
  moreover have "eqm p256_order_prime (r * inverse_mod p256_order_prime s * s) r"
    using ne by (intro p256_scalars.quotient)
  ultimately have "eqm p256_order_prime r 0"
    by (simp add: eqm_def)
  then show False
    using ne by simp
qed

lemma p256_origin: "\<not> on_curve p256_field_prime p256_a p256_b 0 0"
  by (simp add: on_curve_def eqm_def p256_b_def p256_field_prime_def)

text \<open>The checks of the inputs, in the contract's order, are those of the specification.\<close>

lemma p256_input_checks:
  "(r = 0 \<or> \<not> fieldElementIsOnSubgroupOrder r) \<or> (s = 0 \<or> \<not> fieldElementIsOnSubgroupOrder s) \<longleftrightarrow>
     \<not> (0 < uint r \<and> uint r < p256_order_prime \<and> 0 < uint s \<and> uint s < p256_order_prime)"
  by (auto simp: uint_positive p256_order_checks)

lemma p256_point_checks:
  "(affinePointIsInfinity x y \<or> \<not> affinePointCoordinatesAreOnFieldOrder x y) \<or>
     \<not> affinePointIsOnCurve (p256_intoMontgomeryForm x P256_P P256_P_PRIME P256_R2_P)
        (p256_intoMontgomeryForm y P256_P P256_P_PRIME P256_R2_P) \<longleftrightarrow>
     \<not> p256_valid (Point (uint x) (uint y))"
  using p256_origin affinePointIsOnCurve_iff [OF p256_ops(1) p256_ops(1), of x y]
  by (auto simp: affinePointIsInfinity_def affinePointCoordinatesAreOnFieldOrder_def p256_order_checks or_eq_0_iff)

text \<open>C4: The whole P256VERIFY contract is total and is ECDSA verification.\<close>

theorem p256Verify_refines:
  "p256Verify hash r s x y = Some (p256_ecdsa (uint hash) (uint r) (uint s) (uint x) (uint y))"
proof (cases "(0 < uint r \<and> uint r < p256_order_prime \<and> 0 < uint s \<and> uint s < p256_order_prime) \<and>
    p256_valid (Point (uint x) (uint y))")
  case False
  then show ?thesis
    unfolding p256Verify_def p256_ecdsa_def Let_def p256_input_checks
    using p256_point_checks [of x y] by (simp del: valid_point.simps) blast
next
  case True
  let ?X = "p256_intoMontgomeryForm x P256_P P256_P_PRIME P256_R2_P"
  let ?Y = "p256_intoMontgomeryForm y P256_P P256_P_PRIME P256_R2_P"
  let ?Q = "Point (uint x) (uint y)" and ?w = "inverse_mod p256_order_prime (uint s)"
  let ?t = "\<lambda>h s1. p256_outOfMontgomeryForm (p256_montgomeryMul (p256_intoMontgomeryForm h P256_N P256_N_PRIME P256_R2_N)
        s1 P256_N P256_N_PRIME) P256_N P256_N_PRIME"
  obtain s1 where s1: "montgomeryModularInverse (p256_intoMontgomeryForm s P256_N P256_N_PRIME P256_R2_N) P256_N P256_R2_N = Some s1"
      and t: "\<And>h. uint (?t h s1) = uint h * ?w mod p256_order_prime"
    using p256_scalars_value [of s] True by blast
  have "?t r s1 \<noteq> 0"
    using p256_scalar_not_zero [of "uint r" "uint s"] True t [of r] by (auto simp: word_uint_eq_iff)
  then obtain xr yr zr where comb: "p256_shamirLinearCombination (projectiveFromAffine ?X ?Y) (?t hash s1) (?t r s1) = Some (xr, yr, zr)"
      and d: "p256_denotes (xr, yr, zr) (combine p256_field_prime p256_a p256_generator ?Q
        (uint hash * ?w mod p256_order_prime) (uint r * ?w mod p256_order_prime))"
    using p256_points.shamir_denotes [OF p256_point_denotes [OF p256_ops(1) p256_ops(1)] _ p256_generator_denotes
        p256_generator_valid, of x y "?t hash s1" "?t r s1"] True
    unfolding p256_shamirLinearCombination_def t by (auto simp del: valid_point.simps)
  note v = p256_verdict [OF d p256_points.combine_valid [OF p256_generator_valid conjunct2 [OF True]], of r]
  have "p256Verify hash r s x y = (if zr = 0 then Some (Verdict 0)
     else Option.bind (montgomeryModularInverse zr P256_P P256_R2_P) (\<lambda>z_inv.
       Some (Verdict (if p256_outOfMontgomeryForm (p256_mul xr z_inv) P256_P P256_P_PRIME mod P256_N = r
         then 1 else 0))))"
    using True p256_input_checks [of r s] p256_point_checks [of x y] comb s1
    unfolding p256Verify_def Let_def projectiveFromAffine_def by (simp del: valid_point.simps)
  also note v
  finally show ?thesis
    using True by (simp add: p256_ecdsa_def Let_def del: valid_point.simps)
qed

end
