(* ===== verification/SecpVerify.thy ===== *)
theory SecpVerify
  imports P256Verify
begin

unbundle bit_operations_syntax

text \<open>
  The precompile \<^verbatim>\<open>src/precompiles/secp256k1VERIFY.yul\<close>, modelled like \<^verbatim>\<open>P256VERIFY.yul\<close> in \<^verbatim>\<open>P256Verify\<close>, and what it
  does with a combination that is the point at infinity: it has no check of \<^verbatim>\<open>zr\<close>, so the inverse of 0 is computed,
  by a loop that does not end. The operations the contracts share are those of \<^verbatim>\<open>Montgomery\<close>, \<^verbatim>\<open>ModularInverse\<close> and
  \<^verbatim>\<open>Shamir\<close>.
\<close>

section \<open>The contract\<close>

definition SECP_ONE_P :: u256 where "SECP_ONE_P = 4294968273"

definition SECP_B_P :: u256 where "SECP_B_P = 30064777911"

definition SECP_PROJECTIVE_G_P :: triple where
  "SECP_PROJECTIVE_G_P =
     (69433378337113668455105412783699478161510570509662971881309371014080806920343,
      93740989812233943577428291822008373258935927472951925563046116858250011585506,
      SECP_ONE_P)"

abbreviation secp_mul :: "u256 \<Rightarrow> u256 \<Rightarrow> u256" where
  "secp_mul x y \<equiv> secp_montgomeryMul x y SECP_P SECP_P_PRIME"

abbreviation secp_add :: "u256 \<Rightarrow> u256 \<Rightarrow> u256" where
  "secp_add x y \<equiv> montgomeryAdd x y SECP_P"

abbreviation secp_sub :: "u256 \<Rightarrow> u256 \<Rightarrow> u256" where
  "secp_sub x y \<equiv> montgomerySub x y SECP_P"

definition secp_fieldElementIsOnFieldOrder :: "u256 \<Rightarrow> bool" where
  "secp_fieldElementIsOnFieldOrder felt = (felt < SECP_P)"

definition secp_fieldElementIsOnSubgroupOrder :: "u256 \<Rightarrow> bool" where
  "secp_fieldElementIsOnSubgroupOrder felt = (felt < SECP_N)"

definition secp_affinePointCoordinatesAreOnFieldOrder :: "u256 \<Rightarrow> u256 \<Rightarrow> bool" where
  "secp_affinePointCoordinatesAreOnFieldOrder xp yp =
     (secp_fieldElementIsOnFieldOrder xp \<and> secp_fieldElementIsOnFieldOrder yp)"

definition secp_affinePointIsOnCurve :: "u256 \<Rightarrow> u256 \<Rightarrow> bool" where
  "secp_affinePointIsOnCurve xp yp =
     (let left = secp_mul yp yp;
          right = secp_add (secp_mul xp (secp_mul xp xp)) SECP_B_P
      in left = right)"

definition secp_projectiveFromAffine :: "u256 \<Rightarrow> u256 \<Rightarrow> triple" where
  "secp_projectiveFromAffine xp yp = (xp, yp, SECP_ONE_P)"

definition secp_projectiveDouble :: "triple \<Rightarrow> triple" where
  "secp_projectiveDouble = (\<lambda>(xp, yp, zp).
     let x_squared = secp_mul xp xp;
         t = secp_add x_squared (secp_add x_squared x_squared);
         yz = secp_mul yp zp;
         u = secp_add yz yz;
         uxy = secp_mul u (secp_mul xp yp);
         v = secp_add uxy uxy;
         w = secp_sub (secp_mul t t) (secp_add v v);
         xr = secp_mul u w;
         uy = secp_mul u yp;
         uy_squared = secp_mul uy uy;
         yr = secp_sub (secp_mul t (secp_sub v w)) (secp_add uy_squared uy_squared);
         zr = secp_mul u (secp_mul u u)
     in (xr, yr, zr))"

definition secp_projectiveAdd :: "triple \<Rightarrow> triple \<Rightarrow> triple" where
  "secp_projectiveAdd = (\<lambda>(xp, yp, zp) (xq, yq, zq).
     let qIsInfinity = projectivePointIsInfinity (xq, yq, zq);
         pIsInfinity = projectivePointIsInfinity (xp, yp, zp)
     in if pIsInfinity \<and> qIsInfinity then (0, SECP_ONE_P, 0)
        else if pIsInfinity then (xq, yq, zq)
        else if qIsInfinity then (xp, yp, zp)
        else if secp_mul xp zq = secp_mul xq zp then
          if secp_mul yp zq = secp_mul yq zp then secp_projectiveDouble (xp, yp, zp)
          else (0, SECP_ONE_P, 0)
        else
          let t0 = secp_mul yq zp;
              t1 = secp_mul yp zq;
              t = secp_sub t0 t1;
              u0 = secp_mul xq zp;
              u1 = secp_mul xp zq;
              u = secp_sub u0 u1;
              u2 = secp_mul u u;
              u3 = secp_mul u2 u;
              v = secp_mul zq zp;
              w = secp_sub (secp_mul (secp_mul t t) v) (secp_mul u2 (secp_add u0 u1));
              xr = secp_mul u w;
              yr = secp_sub (secp_mul t (secp_sub (secp_mul u0 u2) w)) (secp_mul t0 u3);
              zr = secp_mul u3 v
          in (xr, yr, zr))"

definition secp_shamirLinearCombination :: "triple \<Rightarrow> u256 \<Rightarrow> u256 \<Rightarrow> triple option" where
  "secp_shamirLinearCombination q t0 t1 =
     shamirLinearCombination secp_projectiveDouble secp_projectiveAdd SECP_PROJECTIVE_G_P q t0 t1"

definition secp256k1Verify :: "u256 \<Rightarrow> u256 \<Rightarrow> u256 \<Rightarrow> u256 \<Rightarrow> u256 \<Rightarrow> verification option" where
  "secp256k1Verify hash r s x y =
     (if (r = 0 \<or> \<not> secp_fieldElementIsOnSubgroupOrder r) \<or> (s = 0 \<or> \<not> secp_fieldElementIsOnSubgroupOrder s) then Some Burnt
      else if affinePointIsInfinity x y \<or> \<not> secp_affinePointCoordinatesAreOnFieldOrder x y then Some Burnt
      else
        let x = secp_intoMontgomeryForm x SECP_P SECP_P_PRIME SECP_R2_P;
            y = secp_intoMontgomeryForm y SECP_P SECP_P_PRIME SECP_R2_P
        in if \<not> secp_affinePointIsOnCurve x y then Some Burnt
           else
             let (x, y, z) = secp_projectiveFromAffine x y;
                 hash = secp_intoMontgomeryForm hash SECP_N SECP_N_PRIME SECP_R2_N;
                 r = secp_intoMontgomeryForm r SECP_N SECP_N_PRIME SECP_R2_N;
                 s = secp_intoMontgomeryForm s SECP_N SECP_N_PRIME SECP_R2_N
             in Option.bind (montgomeryModularInverse s SECP_N SECP_R2_N) (\<lambda>s1.
                let t0 = secp_outOfMontgomeryForm (secp_montgomeryMul hash s1 SECP_N SECP_N_PRIME) SECP_N SECP_N_PRIME;
                    t1 = secp_outOfMontgomeryForm (secp_montgomeryMul r s1 SECP_N SECP_N_PRIME) SECP_N SECP_N_PRIME
                in Option.bind (secp_shamirLinearCombination (x, y, z) t0 t1) (\<lambda>(xr, yr, zr).
                   Option.bind (montgomeryModularInverse zr SECP_P SECP_R2_P) (\<lambda>z_inv.
                     let xr = secp_mul xr z_inv;
                         xr = secp_outOfMontgomeryForm xr SECP_P SECP_P_PRIME;
                         r = secp_outOfMontgomeryForm r SECP_N SECP_N_PRIME;
                         xr = xr mod SECP_N
                     in Some (Verdict (if xr = r then 1 else 0))))))"

section \<open>A key that is the opposite of the generator\<close>

text \<open>The x coordinate of the generator, and the y coordinate of its opposite.\<close>

definition secp_generator_x :: u256 where
  "secp_generator_x = 0x79be667ef9dcbbac55a06295ce870b07029bfcdb2dce28d959f2815b16f81798"

definition secp_opposite_y :: u256 where
  "secp_opposite_y = 0xb7c52588d95c3b9aa25b0403f1eef75702e84bb7597aabe663b82f6f04ef2777"

abbreviation secp_rep :: "u256 \<Rightarrow> int \<Rightarrow> bool" where "secp_rep \<equiv> represents SECP_P"

lemma secp_ops:
  shows "secp_rep (secp_intoMontgomeryForm w SECP_P SECP_P_PRIME SECP_R2_P) (uint w)"
    and "secp_rep x a \<Longrightarrow> secp_rep y b \<Longrightarrow> secp_rep (secp_add x y) (a + b)"
    and "secp_rep x a \<Longrightarrow> secp_rep y b \<Longrightarrow> secp_rep (secp_mul x y) (a * b)"
  using secp_field.into_represents [of w] secp_field.add_represents [of x a y b] secp_field.mul_represents [of x a y b]
  by (simp_all add: secp_intoMontgomeryForm_def secp_montgomeryMul_def montgomeryAdd_def Let_def)

lemma secp_constants: "secp_rep SECP_ONE_P 1" "secp_rep SECP_B_P 7"
  by (simp_all add: represents_def SECP_ONE_P_def SECP_B_P_def SECP_P_def R256_def)

lemma secp_eq_represents: "secp_rep x a \<Longrightarrow> secp_rep y b \<Longrightarrow> x = y \<longleftrightarrow> eqm (uint SECP_P) a b"
  using secp_field.eq_represents [of x a y b] by (simp add: eqm_dvd)

lemma secp_generator_rep:
  "secp_rep (fst SECP_PROJECTIVE_G_P) (uint secp_generator_x)"
  "secp_rep (fst (snd SECP_PROJECTIVE_G_P)) (- uint secp_opposite_y)"
  by (simp_all add: represents_def SECP_PROJECTIVE_G_P_def secp_generator_x_def secp_opposite_y_def SECP_P_def R256_def)

lemma secp_opposite_on_curve:
  "secp_affinePointIsOnCurve (secp_intoMontgomeryForm secp_generator_x SECP_P SECP_P_PRIME SECP_R2_P)
     (secp_intoMontgomeryForm secp_opposite_y SECP_P SECP_P_PRIME SECP_R2_P)"
proof -
  let ?x = "uint secp_generator_x" and ?y = "uint secp_opposite_y"
  have "?y * ?y - (?x * (?x * ?x) + 7) = uint SECP_P * (- 1442042049659660869506300006036683750029629333882594701370927246876626245108385471833131978120233303899260518265946803513845630158606418119038845628814122)"
    unfolding secp_generator_x_def secp_opposite_y_def SECP_P_def by simp
  then have "eqm (uint SECP_P) (?y * ?y) (?x * (?x * ?x) + 7)"
    unfolding eqm_dvd by (metis dvd_triv_left)
  then show ?thesis
    unfolding secp_affinePointIsOnCurve_def Let_def
    by (subst secp_eq_represents) (rule secp_ops secp_constants; assumption?)+
qed

text \<open>Products with 0, and what the doubling and the addition make of triples whose last coordinate is 0.\<close>

lemma secp_mul_zero [simp]: "secp_mul x 0 = 0" "secp_mul 0 x = 0"
  by (simp_all add: secp_montgomeryMul_def mul_high_def secp_REDC_def overflowingAdd_def SECP_P_def SECP_P_PRIME_def)

lemma secp_add_zero [simp]: "secp_add 0 0 = 0" "secp_sub 0 0 = 0"
  by (simp_all add: montgomeryAdd_def montgomerySub_def addmod_def SECP_P_def)

lemma secp_double_infinity: "secp_projectiveDouble (0, y, 0) = (0, 0, 0)"
  by (simp add: secp_projectiveDouble_def Let_def)

lemma secp_add_infinity: "secp_projectiveAdd (0, y, 0) (0, SECP_ONE_P, 0) = (0, SECP_ONE_P, 0)"
  by (simp add: secp_projectiveAdd_def projectivePointIsInfinity_def Let_def)

lemma secp_add_opposite:
  "secp_projectiveAdd SECP_PROJECTIVE_G_P
     (secp_projectiveFromAffine (secp_intoMontgomeryForm secp_generator_x SECP_P SECP_P_PRIME SECP_R2_P)
       (secp_intoMontgomeryForm secp_opposite_y SECP_P SECP_P_PRIME SECP_R2_P)) = (0, SECP_ONE_P, 0)"
proof -
  obtain gx gy where g: "SECP_PROJECTIVE_G_P = (gx, gy, SECP_ONE_P)"
      "secp_rep gx (uint secp_generator_x)" "secp_rep gy (- uint secp_opposite_y)"
    using secp_generator_rep unfolding SECP_PROJECTIVE_G_P_def by auto
  let ?x = "secp_intoMontgomeryForm secp_generator_x SECP_P SECP_P_PRIME SECP_R2_P"
  let ?y = "secp_intoMontgomeryForm secp_opposite_y SECP_P SECP_P_PRIME SECP_R2_P"
  have "secp_rep (secp_mul gx SECP_ONE_P) (uint secp_generator_x * 1)"
    "secp_rep (secp_mul ?x SECP_ONE_P) (uint secp_generator_x * 1)"
    by (intro secp_ops secp_constants g)+
  then have same_x: "secp_mul gx SECP_ONE_P = secp_mul ?x SECP_ONE_P"
    by (simp add: secp_eq_represents)
  have "secp_rep (secp_mul gy SECP_ONE_P) (- uint secp_opposite_y * 1)"
    "secp_rep (secp_mul ?y SECP_ONE_P) (uint secp_opposite_y * 1)"
    by (intro secp_ops secp_constants g)+
  moreover have "\<not> eqm (uint SECP_P) (- uint secp_opposite_y * 1) (uint secp_opposite_y * 1)"
    by (simp add: eqm_def secp_opposite_y_def SECP_P_def)
  ultimately have "secp_mul gy SECP_ONE_P \<noteq> secp_mul ?y SECP_ONE_P"
    using secp_eq_represents by blast
  moreover have "SECP_ONE_P \<noteq> 0"
    by (simp add: SECP_ONE_P_def)
  ultimately show ?thesis
    using same_x
    by (simp add: g(1) secp_projectiveAdd_def secp_projectiveFromAffine_def projectivePointIsInfinity_def Let_def)
qed

text \<open>With the same two scalars every digit adds the sum of the points, here the point at infinity.\<close>

lemma secp_same_bits: "compareBits index t t = 0 \<or> compareBits index t t = 3"
  by (simp add: compareBits_cases)

lemma secp_loop_infinity:
  "\<exists>y'. shamirLoop secp_projectiveDouble secp_projectiveAdd q g (0, SECP_ONE_P, 0) t t index (0, y, 0) = (0, y', 0)"
proof (induction "unat index" arbitrary: index y)
  case 0
  then have "\<not> index > 0"
    by (simp add: word_gt_0 unat_eq_0)
  then show ?case
    by (subst shamirLoop.simps) simp
next
  case (Suc n)
  then have "index \<noteq> 0"
    by (metis nat.distinct(1) unat_0)
  then have pos: "index > 0" and "n = unat (index - 1)"
    using Suc.hyps(2) unat_minus_one [of index] by (simp_all add: word_gt_0)
  then have IH: "\<exists>y'. shamirLoop secp_projectiveDouble secp_projectiveAdd q g (0, SECP_ONE_P, 0) t t (index - 1) (0, y, 0)
      = (0, y', 0)" for y
    using Suc.hyps(1) by blast
  show ?case
    using secp_same_bits [of "index - 1" t] IH [of 0] IH [of SECP_ONE_P] pos
    by (subst shamirLoop.simps) (auto simp: Let_def secp_double_infinity secp_add_infinity)
qed

lemma secp_shamir_infinity:
  assumes "secp_projectiveAdd SECP_PROJECTIVE_G_P q = (0, SECP_ONE_P, 0)" and "t \<noteq> 0"
  shows "\<exists>y. secp_shamirLinearCombination q t t = Some (0, y, 0)"
proof -
  obtain k where "findMostSignificantBitIndex t t = Some (of_nat k, compareBits (of_nat k) t t)"
      and "compareBits (of_nat k) t t \<noteq> 0"
    using findMostSignificantBitIndex_value [of t t] assms(2) by blast
  then have "findMostSignificantBitIndex t t = Some (of_nat k, 3)"
    using secp_same_bits by metis
  then show ?thesis
    using secp_loop_infinity assms(1)
    by (simp add: secp_shamirLinearCombination_def shamirLinearCombination_def Let_def)
qed

lemma secp_inverse_zero: "montgomeryModularInverse 0 SECP_P SECP_R2_P = None"
proof -
  have "\<not> coprime (uint (0 :: u256)) (uint SECP_P)"
    by (simp add: SECP_P_def)
  then show ?thesis
    using secp_field_inv.inverse_returns [of 0]
    by (auto simp: montgomeryModularInverse_def binaryExtendedEuclideanAlgorithm_def SECP_P_def)
qed

text \<open>A scalar of the combination is not 0 when \<^verbatim>\<open>s\<close> has an inverse.\<close>

lemma secp_scalar_not_zero:
  assumes r: "r \<noteq> 0" "r < SECP_N"
    and s1: "montgomeryModularInverse (secp_intoMontgomeryForm s SECP_N SECP_N_PRIME SECP_R2_N) SECP_N SECP_R2_N = Some s1"
  shows "secp_outOfMontgomeryForm (secp_montgomeryMul (secp_intoMontgomeryForm r SECP_N SECP_N_PRIME SECP_R2_N)
    s1 SECP_N SECP_N_PRIME) SECP_N SECP_N_PRIME \<noteq> 0"
proof
  note defs = montgomeryModularInverse_def binaryExtendedEuclideanAlgorithm_def montgomery_form_defs Let_def
  let ?s = "secp_intoMontgomeryForm s SECP_N SECP_N_PRIME SECP_R2_N"
  have s: "represents SECP_N ?s (uint s)" and rr: "represents SECP_N (secp_intoMontgomeryForm r SECP_N SECP_N_PRIME SECP_R2_N) (uint r)"
    using secp_scalar.into_represents by (simp_all add: defs)
  have "coprime (uint ?s) (uint SECP_N)"
    using secp_scalar_inv.inverse_returns [OF representsD(1) [OF s]] s1 by (simp add: defs)
  then have "coprime (uint s) (uint SECP_N)"
    using secp_scalar_inv.coprime_form [OF s] by simp
  then obtain j where j: "uint SECP_N dvd uint s * j - 1"
    using inverse_exists by blast
  then have "represents SECP_N s1 j"
    using secp_scalar_inv.inverse_represents [OF s j] s1 by (auto simp: defs)
  then have out: "uint (secp_outOfMontgomeryForm (secp_montgomeryMul (secp_intoMontgomeryForm r SECP_N SECP_N_PRIME SECP_R2_N)
      s1 SECP_N SECP_N_PRIME) SECP_N SECP_N_PRIME) = uint r * j mod uint SECP_N"
    using secp_scalar.out_represents [OF secp_scalar.mul_represents [OF rr]] by (simp add: defs)
  assume "secp_outOfMontgomeryForm (secp_montgomeryMul (secp_intoMontgomeryForm r SECP_N SECP_N_PRIME SECP_R2_N)
    s1 SECP_N SECP_N_PRIME) SECP_N SECP_N_PRIME = 0"
  then have "uint SECP_N dvd uint r * j"
    using out by (simp add: dvd_eq_mod_eq_0)
  then have "uint SECP_N dvd uint s * (uint r * j) - uint r * (uint s * j - 1)"
    by (rule dvd_diff [OF dvd_mult dvd_mult [OF j]])
  then have "uint SECP_N dvd uint r"
    by (simp add: algebra_simps)
  moreover have "0 < uint r" "uint r < uint SECP_N"
    using r by (simp_all add: uint_positive word_less_def)
  ultimately show False
    using zdvd_not_zless by blast
qed

text \<open>C35: A signature over its own \<^verbatim>\<open>r\<close> under the opposite of the generator.\<close>

theorem secp256k1Verify_infinity:
  "secp256k1Verify r r s secp_generator_x secp_opposite_y =
     (if r \<noteq> 0 \<and> r < SECP_N \<and> s \<noteq> 0 \<and> s < SECP_N then None else Some Burnt)"
proof (cases "r \<noteq> 0 \<and> r < SECP_N \<and> s \<noteq> 0 \<and> s < SECP_N")
  case False
  then show ?thesis
    by (auto simp: secp256k1Verify_def secp_fieldElementIsOnSubgroupOrder_def)
next
  case True
  let ?q = "secp_projectiveFromAffine (secp_intoMontgomeryForm secp_generator_x SECP_P SECP_P_PRIME SECP_R2_P)
       (secp_intoMontgomeryForm secp_opposite_y SECP_P SECP_P_PRIME SECP_R2_P)"
  have "\<not> affinePointIsInfinity secp_generator_x secp_opposite_y"
    "secp_affinePointCoordinatesAreOnFieldOrder secp_generator_x secp_opposite_y"
    by (simp_all add: affinePointIsInfinity_def or_eq_0_iff secp_affinePointCoordinatesAreOnFieldOrder_def
        secp_fieldElementIsOnFieldOrder_def secp_generator_x_def secp_opposite_y_def SECP_P_def)
  note checks = this secp_opposite_on_curve
  show ?thesis
  proof (cases "montgomeryModularInverse (secp_intoMontgomeryForm s SECP_N SECP_N_PRIME SECP_R2_N) SECP_N SECP_R2_N")
    case None
    then show ?thesis
      using True checks
      by (simp add: secp256k1Verify_def secp_fieldElementIsOnSubgroupOrder_def secp_projectiveFromAffine_def Let_def)
  next
    case (Some s1)
    let ?t = "secp_outOfMontgomeryForm (secp_montgomeryMul (secp_intoMontgomeryForm r SECP_N SECP_N_PRIME SECP_R2_N)
        s1 SECP_N SECP_N_PRIME) SECP_N SECP_N_PRIME"
    obtain y where "secp_shamirLinearCombination ?q ?t ?t = Some (0, y, 0)"
      using secp_shamir_infinity [OF secp_add_opposite secp_scalar_not_zero [OF _ _ Some]] True by blast
    then show ?thesis
      using True checks Some secp_inverse_zero
      by (simp add: secp256k1Verify_def secp_fieldElementIsOnSubgroupOrder_def secp_projectiveFromAffine_def Let_def)
  qed
qed

end
