(* ===== verification/EcAdd.thy ===== *)
theory EcAdd
  imports ModularInverse Projective
begin

unbundle bit_operations_syntax

text \<open>
  The precompile \<^verbatim>\<open>src/precompiles/EcAdd.yul\<close>: addition on the curve y^2 = x^3 + 3 over the prime field of
  \<^verbatim>\<open>alt_bn128\<close>, with (0, 0) for the point at infinity. The model takes the four words of the calldata and gives the
  two words the contract returns, or \<^verbatim>\<open>BurnGas\<close> for a call that consumes all its gas; \<^verbatim>\<open>None\<close> would be a call
  that never leaves the loop of the modular inverse.
\<close>

section \<open>The contract\<close>

datatype outcome = Return u256 u256 | BurnGas

definition MONTGOMERY_THREE :: u256 where
  "MONTGOMERY_THREE = 19052624634359457937016868847204597229365286637454337178037183604060995791063"

definition submod :: "u256 \<Rightarrow> u256 \<Rightarrow> u256 \<Rightarrow> u256" where
  "submod minuend subtrahend modulus = addmod minuend (modulus - subtrahend) modulus"

definition pointIsInCurve :: "u256 \<Rightarrow> u256 \<Rightarrow> bool" where
  "pointIsInCurve x y =
     (let ySquared = bn_montgomeryMul y y;
          xSquared = bn_montgomeryMul x x;
          xQubed = bn_montgomeryMul xSquared x;
          xQubedPlusThree = bn_montgomeryAdd xQubed MONTGOMERY_THREE
      in ySquared = xQubedPlusThree)"

definition isInfinity :: "u256 \<Rightarrow> u256 \<Rightarrow> bool" where
  "isInfinity x y = (x OR y = 0)"

definition isOnFieldOrder :: "u256 \<Rightarrow> bool" where
  "isOnFieldOrder coordinate = (coordinate < BN_P)"

text \<open>One operand is the point at infinity: the other is checked and returned.\<close>

definition ecAdd_identity :: "u256 \<Rightarrow> u256 \<Rightarrow> outcome" where
  "ecAdd_identity x y =
     (if \<not> isOnFieldOrder x \<or> \<not> isOnFieldOrder y then BurnGas
      else if \<not> pointIsInCurve (bn_intoMontgomeryForm x) (bn_intoMontgomeryForm y) then BurnGas
      else Return x y)"

text \<open>\<^verbatim>\<open>P + P = 2P\<close>\<close>

definition ecAdd_double :: "u256 \<Rightarrow> u256 \<Rightarrow> outcome option" where
  "ecAdd_double x1 y1 =
     (let x = bn_intoMontgomeryForm x1;
          y = bn_intoMontgomeryForm y1
      in if \<not> pointIsInCurve x y then Some BurnGas
         else let x1_squared = bn_montgomeryMul x x
              in Option.bind
                   (bn_montgomeryDiv (bn_montgomeryAdd x1_squared (bn_montgomeryAdd x1_squared x1_squared))
                     (bn_montgomeryAdd y y))
                   (\<lambda>slope.
                     let x3 = bn_montgomerySub (bn_montgomeryMul slope slope) (bn_montgomeryAdd x x);
                         y3 = bn_montgomerySub (bn_montgomeryMul slope (bn_montgomerySub x x3)) y
                     in Some (Return (bn_outOfMontgomeryForm x3) (bn_outOfMontgomeryForm y3))))"

text \<open>\<^verbatim>\<open>P1 + P2 = P3\<close>\<close>

definition ecAdd_chord :: "u256 \<Rightarrow> u256 \<Rightarrow> u256 \<Rightarrow> u256 \<Rightarrow> outcome option" where
  "ecAdd_chord x1 y1 x2 y2 =
     (let x1 = bn_intoMontgomeryForm x1;
          y1 = bn_intoMontgomeryForm y1;
          x2 = bn_intoMontgomeryForm x2;
          y2 = bn_intoMontgomeryForm y2
      in if \<not> pointIsInCurve x1 y1 \<or> \<not> pointIsInCurve x2 y2 then Some BurnGas
         else Option.bind (bn_montgomeryDiv (bn_montgomerySub y2 y1) (bn_montgomerySub x2 x1))
                (\<lambda>slope.
                  let x3 = bn_montgomerySub (bn_montgomeryMul slope slope) (bn_montgomeryAdd x1 x2);
                      y3 = bn_montgomerySub (bn_montgomeryMul slope (bn_montgomerySub x1 x3)) y1
                  in Some (Return (bn_outOfMontgomeryForm x3) (bn_outOfMontgomeryForm y3))))"

definition ecAdd :: "u256 \<Rightarrow> u256 \<Rightarrow> u256 \<Rightarrow> u256 \<Rightarrow> outcome option" where
  "ecAdd x1 y1 x2 y2 =
     (let p1IsInfinity = isInfinity x1 y1;
          p2IsInfinity = isInfinity x2 y2
      in if p1IsInfinity \<and> p2IsInfinity then Some (Return 0 0)
         else if p1IsInfinity then Some (ecAdd_identity x2 y2)
         else if p2IsInfinity then Some (ecAdd_identity x1 y1)
         else if \<not> isOnFieldOrder x1 \<or> \<not> isOnFieldOrder y1 then Some BurnGas
         else if \<not> isOnFieldOrder x2 \<or> \<not> isOnFieldOrder y2 then Some BurnGas
         else if x1 = x2 \<and> submod 0 y1 BN_P = y2 then
           (if \<not> pointIsInCurve (bn_intoMontgomeryForm x1) (bn_intoMontgomeryForm y1) then Some BurnGas
            else Some (Return 0 0))
         else if x1 = x2 \<and> y1 = y2 then ecAdd_double x1 y1
         else ecAdd_chord x1 y1 x2 y2)"

section \<open>The curve and its encoding\<close>

abbreviation eqP :: "int \<Rightarrow> int \<Rightarrow> bool" where "eqP \<equiv> eqm bn_prime"

abbreviation bn_on_curve :: "int \<Rightarrow> int \<Rightarrow> bool" where "bn_on_curve \<equiv> on_curve bn_prime 0 3"

abbreviation bn_valid :: "point \<Rightarrow> bool" where "bn_valid \<equiv> valid_point bn_prime 0 3"

abbreviation bn_add :: "point \<Rightarrow> point \<Rightarrow> point" where "bn_add \<equiv> affine_add bn_prime 0"

interpretation bn_curve: prime_curve bn_prime 0 3
  by unfold_locales (rule bn_prime_is_prime)

lemma uint_BN_P: "uint BN_P = bn_prime"
  by (simp add: BN_P_def bn_prime_def)

text \<open>How words encode points: the pair (0, 0), which is not on the curve, is the point at infinity.\<close>

definition decode :: "u256 \<Rightarrow> u256 \<Rightarrow> point" where
  "decode x y = (if x = 0 \<and> y = 0 then Infinity else Point (uint x) (uint y))"

fun encode :: "point \<Rightarrow> outcome" where
  "encode Infinity = Return 0 0"
| "encode (Point x y) = Return (of_int x) (of_int y)"

section \<open>The contract computes the group law\<close>

lemma three_represents: "bn_rep MONTGOMERY_THREE 3"
  by (simp add: represents_def MONTGOMERY_THREE_def BN_P_def R256_def)

lemma eqP_represents: "bn_rep x a \<Longrightarrow> bn_rep y b \<Longrightarrow> x = y \<longleftrightarrow> eqP a b"
  using bn.eq_represents [of x a y b] by (simp add: eqm_dvd uint_BN_P)

lemma represents_eqP: "bn_rep x a \<Longrightarrow> eqP a b \<Longrightarrow> bn_rep x b"
  using represents_residue [of BN_P x a b] by (simp add: eqm_dvd uint_BN_P)

lemma pointIsInCurve_iff:
  assumes "bn_rep x a" and "bn_rep y b"
  shows "pointIsInCurve x y \<longleftrightarrow> bn_on_curve a b"
proof -
  have "pointIsInCurve x y \<longleftrightarrow> eqP (b * b) (a * a * a + 3)"
    unfolding pointIsInCurve_def Let_def by (intro eqP_represents bn_ops three_represents assms)
  then show ?thesis
    by (simp add: on_curve_def)
qed

lemma isInfinity_iff: "isInfinity x y \<longleftrightarrow> x = 0 \<and> y = 0"
  by (simp add: isInfinity_def or_eq_0_iff)

lemma isOnFieldOrder_iff: "isOnFieldOrder x \<longleftrightarrow> uint x < bn_prime"
  by (simp add: isOnFieldOrder_def word_less_def uint_BN_P)

lemma valid_decode:
  "bn_valid (decode x y) \<longleftrightarrow> isInfinity x y \<or> isOnFieldOrder x \<and> isOnFieldOrder y \<and> bn_on_curve (uint x) (uint y)"
  by (auto simp: decode_def isInfinity_iff isOnFieldOrder_iff)

lemma into_curve:
  "pointIsInCurve (bn_intoMontgomeryForm x) (bn_intoMontgomeryForm y) \<longleftrightarrow> bn_on_curve (uint x) (uint y)"
  by (rule pointIsInCurve_iff [OF bn_ops(1) bn_ops(1)])

lemma encode_decode: "encode (decode x y) = Return x y"
  by (simp add: decode_def)

text \<open>The coordinates of the third point, from a slope in Montgomery form.\<close>

lemma third_point_value:
  assumes s: "bn_rep slope \<sigma>" and x1: "bn_rep x1 a1" and y1: "bn_rep y1 b1" and x2: "bn_rep x2 a2"
  defines "x3 \<equiv> bn_montgomerySub (bn_montgomeryMul slope slope) (bn_montgomeryAdd x1 x2)"
  defines "y3 \<equiv> bn_montgomerySub (bn_montgomeryMul slope (bn_montgomerySub x1 x3)) y1"
  shows "Return (bn_outOfMontgomeryForm x3) (bn_outOfMontgomeryForm y3) = encode (third_point bn_prime \<sigma> a1 b1 a2)"
proof -
  let ?x = "\<sigma> * \<sigma> - (a1 + a2)"
  have x3: "bn_rep x3 ?x"
    unfolding x3_def by (intro bn_ops s x1 x2)
  have y3: "bn_rep y3 (\<sigma> * (a1 - ?x) - b1)"
    unfolding y3_def by (intro bn_ops s x1 y1 x3)
  have "eqP (\<sigma> * (a1 - ?x) - b1) (\<sigma> * (a1 - ?x mod bn_prime) - b1)"
    by (intro eqm_ops eqm_refl) simp
  then have "bn_rep y3 (\<sigma> * (a1 - ?x mod bn_prime) - b1)"
    by (rule represents_eqP [OF y3])
  then have "uint (bn_outOfMontgomeryForm x3) = ?x mod bn_prime"
    and "uint (bn_outOfMontgomeryForm y3) = (\<sigma> * (a1 - ?x mod bn_prime) - b1) mod bn_prime"
    using bn_ops(2) [OF x3] bn_ops(2) by (simp_all add: uint_BN_P)
  then have "word_of_int (?x mod bn_prime) = bn_outOfMontgomeryForm x3"
    and "word_of_int ((\<sigma> * (a1 - ?x mod bn_prime) - b1) mod bn_prime) = bn_outOfMontgomeryForm y3"
    by (metis word_of_int_uint)+
  then show ?thesis
    by (simp add: third_point_def Let_def)
qed

lemma division_value:
  assumes "bn_rep x a" "bn_rep y b" and "\<not> eqP b 0"
  shows "\<exists>q. bn_montgomeryDiv x y = Some q \<and> bn_rep q (a * inverse_mod bn_prime b)"
  using bn_curve.inverse_mod [OF assms(3)] bn_division [OF assms(1,2)] by (simp add: eqm_dvd uint_BN_P)

lemma ecAdd_double_value:
  assumes curve: "bn_on_curve (uint x) (uint y)" and "\<not> eqP (uint y + uint y) 0"
  shows "ecAdd_double x y = Some (encode (third_point bn_prime
    (3 * (uint x * uint x) * inverse_mod bn_prime (2 * uint y)) (uint x) (uint y) (uint x)))"
proof -
  let ?X = "bn_intoMontgomeryForm x" and ?Y = "bn_intoMontgomeryForm y"
  let ?S = "bn_montgomeryMul ?X ?X"
  let ?n = "bn_montgomeryAdd ?S (bn_montgomeryAdd ?S ?S)"
  note X = bn_ops(1) [of x] and Y = bn_ops(1) [of y]
  have "bn_rep ?n (uint x * uint x + (uint x * uint x + uint x * uint x))"
    by (intro bn_ops X)
  then have "bn_rep ?n (3 * (uint x * uint x))"
    by (simp add: algebra_simps)
  moreover have "bn_rep (bn_montgomeryAdd ?Y ?Y) (2 * uint y)"
    using bn_ops(3) [OF Y Y] by (simp add: algebra_simps)
  ultimately obtain q where q: "bn_montgomeryDiv ?n (bn_montgomeryAdd ?Y ?Y) = Some q"
      "bn_rep q (3 * (uint x * uint x) * inverse_mod bn_prime (2 * uint y))"
    using division_value assms(2) by (metis mult_2)
  show ?thesis
    using curve third_point_value [OF q(2) X Y X]
    by (simp add: ecAdd_double_def Let_def into_curve q(1))
qed

lemma ecAdd_chord_value:
  assumes "bn_on_curve (uint x1) (uint y1)" "bn_on_curve (uint x2) (uint y2)" and "\<not> eqP (uint x2 - uint x1) 0"
  shows "ecAdd_chord x1 y1 x2 y2 = Some (encode (third_point bn_prime
    ((uint y2 - uint y1) * inverse_mod bn_prime (uint x2 - uint x1)) (uint x1) (uint y1) (uint x2)))"
proof -
  let ?X1 = "bn_intoMontgomeryForm x1" and ?Y1 = "bn_intoMontgomeryForm y1"
  let ?X2 = "bn_intoMontgomeryForm x2" and ?Y2 = "bn_intoMontgomeryForm y2"
  note r = bn_ops(1) [of x1] bn_ops(1) [of y1] bn_ops(1) [of x2] bn_ops(1) [of y2]
  obtain q where q: "bn_montgomeryDiv (bn_montgomerySub ?Y2 ?Y1) (bn_montgomerySub ?X2 ?X1) = Some q"
      "bn_rep q ((uint y2 - uint y1) * inverse_mod bn_prime (uint x2 - uint x1))"
    using division_value [OF bn_ops(4) [OF r(4,2)] bn_ops(4) [OF r(3,1)] assms(3)] by blast
  show ?thesis
    using assms(1,2) third_point_value [OF q(2) r(1,2,3)]
    by (simp add: ecAdd_chord_def Let_def into_curve q(1))
qed

lemma submod_opposite:
  assumes "isOnFieldOrder y1" and "isOnFieldOrder y2"
  shows "submod 0 y1 BN_P = y2 \<longleftrightarrow> eqP (uint y1 + uint y2) 0"
proof -
  have "uint (BN_P - y1) = bn_prime - uint y1"
    using assms(1) by (simp add: isOnFieldOrder_iff uint_sub_ge uint_BN_P)
  then have "uint (submod 0 y1 BN_P) = (bn_prime - uint y1) mod bn_prime"
    by (simp add: submod_def bn.uint_addmod uint_BN_P)
  then have "submod 0 y1 BN_P = y2 \<longleftrightarrow> eqP (bn_prime - uint y1) (uint y2)"
    using assms(2) by (simp add: word_uint_eq_iff eqm_def isOnFieldOrder_iff)
  also have "\<dots> \<longleftrightarrow> eqP (uint y1 + uint y2) 0"
  proof -
    have "bn_prime - uint y1 - uint y2 = bn_prime - (uint y1 + uint y2)"
      by simp
    then show ?thesis
      unfolding eqm_dvd by (metis diff_0_right dvd_diff_commute dvd_diff_left_iff dvd_refl)
  qed
  finally show ?thesis .
qed

lemma ecAdd_identity_value:
  "\<not> isInfinity x y \<Longrightarrow> ecAdd_identity x y = (if bn_valid (decode x y) then encode (decode x y) else BurnGas)"
  by (simp add: ecAdd_identity_def valid_decode into_curve encode_decode)

lemma ecAdd_general_value:
  assumes ni: "\<not> isInfinity x1 y1" "\<not> isInfinity x2 y2" and v: "bn_valid (decode x1 y1)" "bn_valid (decode x2 y2)"
  shows "ecAdd x1 y1 x2 y2 = Some (encode (bn_add (decode x1 y1) (decode x2 y2)))"
proof -
  have f: "isOnFieldOrder x1" "isOnFieldOrder y1" "isOnFieldOrder x2" "isOnFieldOrder y2"
    and c: "bn_on_curve (uint x1) (uint y1)" "bn_on_curve (uint x2) (uint y2)"
    using ni v by (simp_all add: valid_decode)
  have d: "decode x1 y1 = Point (uint x1) (uint y1)" "decode x2 y2 = Point (uint x2) (uint y2)"
    using ni by (simp_all add: decode_def isInfinity_iff)
  note body = ecAdd_def Let_def ni f submod_opposite [OF f(2,4)]
  show ?thesis
  proof (cases "x1 = x2")
    case x: True
    show ?thesis
    proof (cases "eqP (uint y1 + uint y2) 0")
      case True
      then show ?thesis
        using x ni f c d submod_opposite [OF f(2,4)] by (simp add: ecAdd_def Let_def into_curve)
    next
      case False
      then have y: "y1 = y2"
        using bn_curve.same_abscissa [of "uint x1" "uint y1" "uint y2"] c x f
        by (simp add: residue_unique isOnFieldOrder_iff word_uint_eq_iff)
      then show ?thesis
        using x False ni f ecAdd_double_value [OF c(1)] submod_opposite [OF f(2,4)]
        by (simp add: ecAdd_def Let_def d)
    qed
  next
    case False
    then have "\<not> eqP (uint x2) (uint x1)"
      using f by (simp add: residue_unique isOnFieldOrder_iff word_uint_eq_iff)
    then have "\<not> eqP (uint x2 - uint x1) 0"
      by (simp add: eqm_dvd)
    then show ?thesis
      using False ecAdd_chord_value [OF c] by (simp add: body d word_uint_eq_iff)
  qed
qed

lemma ecAdd_rejects:
  assumes ni: "\<not> isInfinity x1 y1" "\<not> isInfinity x2 y2" and v: "\<not> (bn_valid (decode x1 y1) \<and> bn_valid (decode x2 y2))"
  shows "ecAdd x1 y1 x2 y2 = Some BurnGas"
proof (cases "isOnFieldOrder x1 \<and> isOnFieldOrder y1 \<and> isOnFieldOrder x2 \<and> isOnFieldOrder y2")
  case True
  then have c: "\<not> (bn_on_curve (uint x1) (uint y1) \<and> bn_on_curve (uint x2) (uint y2))"
    using ni v by (simp add: valid_decode)
  show ?thesis
  proof (cases "x1 = x2 \<and> (eqP (uint y1 + uint y2) 0 \<or> y1 = y2)")
    case same: True
    then have "eqP (uint y2) (uint y1) \<or> eqP (uint y2) (- uint y1)"
      by (auto simp: eqm_dvd add.commute)
    then have "bn_on_curve (uint x2) (uint y2) \<longleftrightarrow> bn_on_curve (uint x1) (uint y1)"
      using same on_curve_cong [of bn_prime "uint x2" "uint x2" "uint y2"] on_curve_opposite by (elim disjE) simp_all
    then show ?thesis
      using True same c ni by (auto simp: ecAdd_def ecAdd_double_def Let_def into_curve submod_opposite)
  next
    case False
    then show ?thesis
      using True c ni by (auto simp: ecAdd_def ecAdd_chord_def Let_def into_curve submod_opposite)
  qed
next
  case False
  then show ?thesis
    using ni by (auto simp: ecAdd_def)
qed

lemma decode_infinity_iff: "decode x y = Infinity \<longleftrightarrow> isInfinity x y"
  by (simp add: decode_def isInfinity_iff)

lemma ecAdd_total:
  "ecAdd x1 y1 x2 y2 = Some (if bn_valid (decode x1 y1) \<and> bn_valid (decode x2 y2)
     then encode (bn_add (decode x1 y1) (decode x2 y2)) else BurnGas)"
proof (cases "isInfinity x1 y1 \<or> isInfinity x2 y2")
  case True
  then consider (both) "isInfinity x1 y1" "isInfinity x2 y2" | (left) "isInfinity x1 y1" "\<not> isInfinity x2 y2"
    | (right) "\<not> isInfinity x1 y1" "isInfinity x2 y2"
    by blast
  then show ?thesis
  proof cases
    case both
    then show ?thesis
      by (simp add: ecAdd_def isInfinity_iff decode_def)
  next
    case left
    have "ecAdd x1 y1 x2 y2 = Some (ecAdd_identity x2 y2)" "decode x1 y1 = Infinity"
      using left by (simp_all add: ecAdd_def decode_infinity_iff)
    then show ?thesis
      using ecAdd_identity_value [OF left(2)] by simp
  next
    case right
    have "ecAdd x1 y1 x2 y2 = Some (ecAdd_identity x1 y1)" "decode x2 y2 = Infinity"
      using right by (simp_all add: ecAdd_def decode_infinity_iff)
    then show ?thesis
      using ecAdd_identity_value [OF right(1)] by (simp add: affine_add_right)
  qed
next
  case False
  then show ?thesis
    using ecAdd_general_value [of x1 y1 x2 y2] ecAdd_rejects [of x1 y1 x2 y2] by auto
qed

section \<open>Properties of the contract\<close>

lemma uint_residue: "0 \<le> k \<Longrightarrow> k < bn_prime \<Longrightarrow> uint (of_int k :: u256) = k"
  by (simp add: uint_of_int R256_def bn_prime_def)

lemma decode_encode: "bn_valid p \<Longrightarrow> encode p = Return x y \<Longrightarrow> bn_valid (decode x y)"
  by (cases p) (auto simp: decode_def uint_residue)

text \<open>C34: a point the contract returns is the point at infinity or a point of the curve with reduced coordinates.\<close>

theorem ecAdd_result_valid:
  assumes "ecAdd x1 y1 x2 y2 = Some (Return x y)"
  shows "bn_valid (decode x y)"
  using assms bn_curve.affine_add_valid [of "decode x1 y1" "decode x2 y2"]
  by (auto simp: ecAdd_total intro: decode_encode split: if_splits)

theorem ecAdd_result_valid_witness: "ecAdd 0 0 1 2 = Some (Return 1 2) \<and> bn_valid (decode 1 2)"
proof -
  have "ecAdd 0 0 1 2 = Some (Return 1 2)"
    by (simp add: ecAdd_total decode_def on_curve_def bn_prime_def)
  then show ?thesis
    using ecAdd_result_valid by blast
qed

text \<open>The order of the operands does not matter, not even for which inputs are refused.\<close>

theorem ecAdd_commutes: "ecAdd x1 y1 x2 y2 = ecAdd x2 y2 x1 y1"
  using bn_curve.affine_add_commute [of "decode x1 y1" "decode x2 y2"] by (auto simp: ecAdd_total)

text \<open>The inverse that the division uses: exact for every residue but 0, on which it runs for ever.\<close>

theorem field_division_exact:
  "case bn_montgomeryModularInverse (bn_intoMontgomeryForm a) of
     None \<Rightarrow> uint a mod uint BN_P = 0
   | Some i \<Rightarrow> uint (bn_outOfMontgomeryForm i) * uint a mod uint BN_P = 1"
  using bn_inv.inverse_exact [of a] prime_coprime [OF bn_prime_is_prime, of "uint a"]
  by (auto simp: bn_montgomeryModularInverse_def bn_binaryExtendedEuclideanAlgorithm_def uint_BN_P
      bn_intoMontgomeryForm_def bn_outOfMontgomeryForm_def dvd_eq_mod_eq_0 split: option.splits)

text \<open>C2: the contract computes the group law of the curve on every input: it consumes all its gas exactly when an
  operand is neither the point at infinity nor a point of the curve with reduced coordinates, and otherwise
  returns the affine sum. It always returns: no valid input reaches the loop of the inverse with 0.\<close>

theorem ecAdd_refines:
  "ecAdd x1 y1 x2 y2 = Some (if bn_valid (decode x1 y1) \<and> bn_valid (decode x2 y2)
     then encode (bn_add (decode x1 y1) (decode x2 y2)) else BurnGas)"
  by (rule ecAdd_total)

end
