(* ===== verification/NoTwoTorsion.thy ===== *)
theory NoTwoTorsion
  imports Curve
begin

text \<open>
  No point of the curve \<^verbatim>\<open>alt_bn128\<close> is its own opposite, that is, -3 is no cube in its field: its power to a third of
  the order of the units is no 1. What \<^verbatim>\<open>EcMul.yul\<close> relies on, whose addition does not expect that a doubling of the
  point is the point at infinity. The steps are those of a chain of squares and products, as in \<^verbatim>\<open>Primality\<close>.
\<close>

definition cube_steps_1 :: "(bool \<times> int) list" where
  "cube_steps_1 =
    [(True, 0),
     (True, 0),
     (True, 0),
     (True, 0),
     (True, 0),
     (True, 0),
     (True, 0),
     (False, - 1),
     (True, 21888242871839204481138939313815403409980530550892843595861227352090984561855),
     (True, 337196183036818073154890140672551876410142862635595029995680740486814834231),
     (True, 4350990279305306406777549095904895736373980700678938900768931091491389731876),
     (True, 7342435432366001005739630903272502786739342431712637505477732857765932767243),
     (True, 14721093794376712835486073720257149613893725434526826110438769814292114506387),
     (False, - 3),
     (True, 8170308422825230467669381525563231957311301475308665445087649235757320233586),
     (True, 12234003450800685438606003613733297015254053552821064775296332595052816259870),
     (False, - 1),
     (True, 6980564721396282438273091012910965517749383986807578734200621440998724518739),
     (False, - 1),
     (True, 86257401369986080117706554447179244075975926209009699931493872230561355702),
     (True, 16722037900417378022323126627446067595928454749101592198103370893244398069746),
     (False, - 2),
     (True, 28645598036498299663421135564307602740273395886491147656782657982893197693),
     (False, - 2),
     (True, 4138708154093513083503070163754889925887977907681658868592250181229873206375),
     (False, - 3),
     (True, 4677679110673202093679197514979009700200799774757870666715377283734859141434),
     (False, - 3),
     (True, 9662972559818124809513501791156263122323104093525972191855765664979739968),
     (True, 2570382346365660528892165198842915375119468436706669244657611549513449703155),
     (False, - 1),
     (True, 9119936844863760129347446336763137979281129042231276528638602117261374139911),
     (False, - 3),
     (True, 1572915064452811726610517869343140822242623052746588880329241673482841769270),
     (False, - 1),
     (True, 2463576115844792935146436198537974473044559093342778554979543922089265583198),
     (False, - 2),
     (True, 1711674386173556339900223753622242455065817428609196811066880003569226005410),
     (True, 2366221549773873707917756666735059194061993610843537522925465120305910941396),
     (False, - 3),
     (True, 225103397507481624387341347228594870490134595416645605634119072999876437890),
     (False, - 3),
     (True, 23069862909491214770864545705847021912293840766774583344531917410823770613),
     (False, - 1),
     (True, 3112611122142994977608628466847685754102106848421441610435715958074220329566),
     (True, 5910159002222592522763370700553677602250650607807922484750720726592213460376),
     (False, - 3),
     (True, 131000844907655488687387503449938517616380364608395114958669164203946744349),
     (True, 7406332799921830037575697925784130052667816530726069005274998575332341013539),
     (True, 8683766927700148245183820740990853203417934953032623645221283225318892787758),
     (True, 877371609069462604929528129016225275161716967910909381648898943223771161468),
     (True, 11988995165199725909015950637537432951846280925696330496522390393061091814543),
     (True, 20197366565147288675950410462440572478129547830292813297549415705427303756),
     (True, 6880087183735257146289914690367970737204700403265576234537052239209022716116),
     (False, - 2),
     (True, 11813971858936926696933218561185784385099296590655030748212720357121813991788),
     (False, - 2),
     (True, 2554152063949741292214180845948697911010808198717962386676599025276768949601),
     (True, 351107239403185542549406582534460021397174073307393939384634049149213045243),
     (True, 14666697216939035027394339643390137902177482771034942639323584435422098719117),
     (False, - 3),
     (True, 2012356269127027722725377532889058267383580516222781798356478202359011417151),
     (True, 12825509507899634976016634639742687961496502864505156914671805968880848226149),
     (False, - 2),
     (True, 4193350381344950577905324246239378667664978304241782259655993111201511899008),
     (False, - 1),
     (True, 140147885875531642508661672885558197803230134431931323307304420466278123438),
     (False, - 2),
     (True, 152815877260253291258237460978503485367638298898102532828091590505061881416),
     (False, - 3),
     (True, 4442327006170663732672244320409539631104605500774994282317973367305725096482),
     (True, 1656289576337794907654642555616896033181697711513772960094098545301151036394),
     (True, 1130650256430154685755965415902304282140391417803294806013070536565554862381),
     (True, 10643516103453174307149738391587800197031800655111307002166902883886575289919),
     (True, 77345426857554035406098005196941862538776976824933265701648324939103441484),
     (True, 4831337193188757692019165484521242608026869312314864598391408240435527164355),
     (True, 10689269388070956781085115988144454332731457675292393250611561014798566959662),
     (True, 15880208743632473705805524375226835570043111392070799281295816506586867435179),
     (True, 873078640041086452186686576004431355769395657609750332576697653365035919884),
     (True, 10706188173123760270907191455179630932070070446418800433654932239285487675389),
     (False, - 2),
     (True, 6819494660409223937949322098875912543426442034573428188126677063306863439658),
     (False, - 1),
     (True, 17672211677935112645271901245367197747653670234388117463757305808236643022004),
     (True, 2245387545732172952315894640370084093566525146235273653109253086020137221245),
     (False, - 2),
     (True, 1107980592688999991161085261624970141396397485538749363702709201860170345729),
     (False, - 1),
     (True, 20444934482149282472564339854908176655590959510580591580853518142147714579392),
     (False, - 3)]"

definition cube_steps_2 :: "(bool \<times> int) list" where
  "cube_steps_2 =
    [(True, 1241242100265394604484914980147765984920803309540252512820241397298890433651),
     (False, - 3),
     (True, 722842953336936370693913071887859768637741805166925504672222207777489306039),
     (True, 13834867792956510466067817994723252781351832850983192040705447475678289262146),
     (False, - 1),
     (True, 19293051422275734055643963046265401130074076644753310476469742586218642531),
     (True, 2503396945738244908424560392499243754750046987789175889084624465341962402600),
     (True, 551681257069184891379921226757582258088791626324288753332911915137310667613),
     (True, 3352165504375847643471733197234458092186994287222517762767006851982500580556),
     (True, 15475883352188271727170181411778053653645880604626204070995150618088067713271),
     (True, 16928615276082565377794886414555031447560385868279798257243708168239661408700),
     (True, 4972770865735418326605494532055354866617846111470599835213419106048820229500),
     (False, - 1),
     (True, 117776767724152809803610360746261779195791812994618453262458867727678076180),
     (False, - 2),
     (True, 4368049427486060784865933340411161148691427112620929838261393830001558865130),
     (True, 576212750484068798701439495665967347697545976875119310296385477836715142963),
     (False, - 1),
     (True, 6766653229545520005786513388898743943155772321274467345322062737987687740469),
     (True, 13034745544131192498824418813067280561507014705732144580879576143120967777019),
     (False, - 3),
     (True, 9094990949759963040410236905733535497534626076932678475564657803373114261060),
     (False, - 1),
     (True, 5346002486103636684757486000920036225267077108524262697939760333074039455572),
     (True, 1698424711307199170052291374946289920440788786499101924803878813894046933296),
     (True, 20629875886865444024153025592257306703580227971215422970049428242149752668908),
     (True, 1159918305750218273454367956200610128166376495642643530938784426664007915726),
     (True, 11986036017384236407425727580081084213538694130813800767715605817521755005570),
     (True, 10301191641396676386193161047921226077164727268981814786013080274431677522745),
     (False, - 2),
     (True, 62490284080064480254315467953092724426215811053142006668368842686688893882),
     (False, - 1),
     (True, 4947945858607979785131291437827731706174532749213242623627678904937846623472),
     (False, - 1),
     (True, 8287258232522433152370752316499010389748890053677247059239901925047419800587),
     (False, - 3),
     (True, 77394883181944018195643852297914305172631113376505095760052266741517774949),
     (True, 19186823438031075923897766594400999685211844530890494896537072580023821303708),
     (True, 7059057122816726016427271429281872435093641693391877317483896615389707753897),
     (False, - 2),
     (True, 231514683894211208581483148029103784794099854598976911554865701636056484451),
     (False, - 2),
     (True, 1250997787790326139797890544400975896409534587576468040073793558385665002507),
     (False, - 3),
     (True, 16048425850549145394230997245088917562578149780742273780417482396789211526787),
     (False, - 2),
     (True, 7390742373531441064465949047744060904017907708653855988405175591357249372806),
     (True, 3357374857893231781726182573452039082462386603118424644438153345295303677770),
     (True, 2268090219079570698678921536908661074205696515231543052819976324157008772624),
     (True, 16024601629857271278307285066559790641124235498821978011776420450287854419649),
     (True, 7791736158921687390358594890878715768863729495879891878400357153318805480485),
     (True, 2057672139155195973453716672421249205201118031298017184207952361039555096002),
     (True, 3558175332448548160052000963462019139000193054776656196974000732719662125243),
     (True, 1122695113715354343479892456214995564754059361168392457320620559648338511712),
     (False, - 3),
     (True, 3762333025438627734326322292660690566695261457115675363153301225148072598089),
     (True, 4357509699650812002920161706163694377293716162621691252165399508540243223620),
     (True, 13154634615025887823921199899630421250551642527788035063028159021394895389073),
     (True, 12076584862641536440521852388184428269590321786319019126000865654710658408719),
     (True, 2559127947449577805213512842794264300636284524930849915328475998199789496851),
     (True, 3514172788979569399696524120460100423722990796537878493202223048123001728911),
     (True, 2734695497429728142616426992631979625090197586722129924765233784503144210405),
     (True, 2418839706080768743085412692922292711061760152993558442221323878026091102567),
     (True, 1269825238607234759459273874439339079346014852786152887007273531404396661508),
     (False, - 1),
     (True, 14124143282342501458416788055998246396633327448203294148520227463607178287208),
     (False, - 1),
     (True, 18660812263293575213668378351263457248145047869140333898902413114405796732365),
     (False, - 3),
     (True, 251044782375082956591124021845390558395250926013005135830870213375152421494),
     (True, 10162520608041561087484509391868020837192324369556896457391272965589775118848),
     (True, 14830317893819996543169833591696457076198291575939135603864292893164720909650),
     (False, - 2),
     (True, 3207171491959406573956623632875817606078578544226305813105939428713546500542),
     (True, 13202989858498623354109535574687133129307406026725427514957811314046715028286),
     (False, - 2),
     (True, 7753818068401918041554156718036214254550258849455655057194815506345940443085),
     (False, - 3),
     (True, 19809239849394057061768294405545023790535900371060785283705532430455246857511),
     (True, 5373669969413459445569091833920023265858190092530530352590054877169015725095),
     (True, 3777715803144706104742444936643874749295494915319806919433200271890272541361),
     (False, - 1),
     (True, 6142867140973096042393737422100993775030605149833371820577928741038415783135),
     (True, 6373834287552624751106883037646581786634618212590229178959849581587173952933),
     (True, 12495499580529400847624193606819632844123045863508968717097584385698172371884),
     (False, - 2),
     (True, 10549722852111298579105963482925450794068466260991751575162298002390979768927),
     (False, - 3),
     (True, 491038486068094681103595521003592010115914922891195230516792789993601148843),
     (False, - 3),
     (True, 9809952734933599150872787283138744407999447096993279593122746040636134879234)]"

definition cube_steps_3 :: "(bool \<times> int) list" where
  "cube_steps_3 =
    [(True, 130417972335843205052709843004869628470124764727410331037145437839072797040),
     (False, - 3),
     (True, 132033239972042494660471501235250517936965722376975728593045043716050349040),
     (False, - 2),
     (True, 16300810559837266810728052360191057448946029069601747300271447649112938544516),
     (False, - 1),
     (True, 8973438241071011695265581269115037536265681872327436448971797006232489521774),
     (True, 11720884459559987915329633922181370967523699720141619035246219447567769507748),
     (False, - 1),
     (True, 4811062410386543097274332418908742514420826451085818573879397516668564800679),
     (True, 850251803655254537969341478716440593585048990725455550485511229743188931615),
     (True, 1023478212219949933548133836053095530882412486509637777142747519459088805072),
     (False, - 2),
     (True, 8602081091405128067076789174966758657984642224794108311090860639764752706124),
     (True, 2373290043549511467081183792524637245220066747376687841600209367870170722317),
     (False, - 3),
     (True, 601350751253766502550276143810682553313466538756696593810498590629822139577),
     (True, 922442751949687386008085500568865792083718443371491662555668918687807108),
     (False, - 2),
     (True, 12349244610590118479332590902648357546590674672646159443998753117672984298219),
     (False, - 2),
     (True, 12537794380904493398781537919650429880686381357180573099871564640787640991512),
     (True, 21819684860929453346103405174754855606030905490055428139697383613701202833364),
     (True, 5825641735006891156146383416148489558987554805585056087593466731135262487018),
     (False, - 2),
     (True, 4733680941878338846573941831920761393621639222766751917563413300871093908004),
     (True, 10506187144727760476962732263248253361364232799045224150292044389500028067),
     (True, 464531459197806001602700094419120565971825221007641975053724150101115427593),
     (True, 5480226535248575716320870786312190257359765188935275203459271002530611111248),
     (False, - 2),
     (True, 567766554338781343549525744382896624352841124315092444304410568998264711163),
     (False, - 2),
     (True, 10318729727770664219741569119958630999082468810981164718906946545015651429265),
     (False, - 3),
     (True, 17746658388597132333330796429206583581743157059799950229222635752992978464584),
     (True, 18346295101223087128180097656425327238728800420485971904317571223288825989895),
     (True, 19044636986991218813029799569020866074952749963843222962349921344989574486803),
     (True, 1567993155105519299633113269515742056391140718366093451696653029535454504940),
     (True, 16224245776618945710656694637713173576515796992113640417696724471990498449003),
     (False, - 3),
     (True, 1097035999795379185417016291921543791861201845191714999126854450174828004752),
     (True, 705855338023563871947673123485541457322048155041492346081803423622130900303),
     (False, - 3),
     (True, 11529266249910431431867019234210783218220450167847813031577685682213437506027),
     (False, - 2),
     (True, 20368013623737096791861583156331797037905054945872948175180736884018560756579),
     (False, - 3),
     (True, 17203031530717435053021295146196853050448056745336512206208980284684819672818),
     (True, 234859831172171740035326771425926044384621034798462970814654208520062254337),
     (True, 13938382163781593269660431885043836068848835581079846138474987851013798289443),
     (False, - 1),
     (True, 21322965761981856102574823611492499507680762483083582878489550448340376056239),
     (False, - 1),
     (True, 1402634999361729654808887292566753573054159413472764550691008707382086768048),
     (True, 11993308119476304528193593265875822361599106504514004804387518759105875275590),
     (False, - 2),
     (True, 3339950477308199238914543490081596279289852051970444628127914757744344980405),
     (True, 169240743694773065821923018096074145194195250538034358692579506884535602630),
     (False, - 1),
     (True, 9061710771876059665047294799097547301789929534886621412744948247395640472528),
     (False, - 2),
     (True, 1387079956120313650844501684645732621175821836431273893945077246486022389681),
     (False, - 3),
     (True, 1642178170998188345197396661241103005953750224640562313753463022804859600311),
     (False, - 2),
     (True, 19912018221619134432627214768989789141350177695800108133742347981274683250046),
     (True, 13951608776323892942168957119838109354995494554123618860005372535642533594389),
     (False, - 1),
     (True, 280113422268870486792978217495933151585722610984769238148596288191642975901),
     (False, - 3),
     (True, 3091571401197852155705815259810748613010224162090829695949583382452419586714),
     (True, 1147446812604356775301662589986340032541190843555235118226943864350798723480),
     (False, - 3),
     (True, 4238404165806229389514861069765840820861070134623715764264677478875503105411),
     (True, 12985049568235087949563763635654925244916256319693470002360571170375337041220),
     (True, 15006025750974770783361463910178151594142018861743801491257069989490804718167),
     (True, 1719405523325530246778734236173704235562712353151071795069903754981603556188),
     (True, 1847122671869408905834440676019583964547279205060729659629079531325191381615),
     (False, - 1),
     (True, 3588685542134022167316422446487627068178353325893692925395511959241162316954),
     (False, - 3),
     (True, 12524972037523464020054626536149762094512012949275875403851931090084210986853),
     (False, - 3),
     (True, 2815507382897641176028845317782677696579599387362840928064755914718704858276),
     (True, 12652301251403978468037745700189237156790599361304494467838237971780796853873),
     (True, 3669742573815134887341210425712869437095709770342478920858135769616032421689),
     (True, 6438901567099203306064159774547800037938680385214355552496075714236080541056),
     (True, 1461430733706431728692165194020043897039328952906180101171416141639421523412),
     (False, - 2),
     (True, 1960408788302090598229414359486849081908989505642873524300090709713617384130)]"

definition cube_steps_4 :: "(bool \<times> int) list" where
  "cube_steps_4 =
    [(True, 175598104562160952107393803853946308231577353553160331669258199083184594266),
     (True, 4392942427819560701669658183153491454896312867719901503146862908360155027556),
     (True, 19768511029123648375063577852057409175395915526570323793578810093896100334197),
     (False, - 2),
     (True, 471921300655042173413729488684533726649884796328484725443837578990367837465),
     (False, - 2),
     (True, 319200998240835933424568998190466994680154949342347791473011468072554465324),
     (True, 5199973906038057365386786966598114693090924888314704740770149802277560763515),
     (False, - 3),
     (True, 3582278318141537213667067095150939269971353874202520458376307813099855829649),
     (True, 2319039875563507204717451256982367614821276158881592182253833894435440949996),
     (True, 9517370964322677662530559998900856767262835847089301971765600227405435712321),
     (False, - 2),
     (True, 19070606200843158811015898662814679433822928896129915798227941039572184776492),
     (True, 10880239539933001547849544271569457225681379098394187346780742567078787890561),
     (False, - 2),
     (True, 14516989500260117116973431276924822871091742021816358467301078299469330907841),
     (False, - 3),
     (True, 3760375693567396297730375153673954236331168741255326753218973379287675578716),
     (True, 3007998746600024082724666282480796378798713777773140677502771228660011121509),
     (True, 112698707123963546004730632026460426607213219673606735642342777067409867855),
     (True, 4129555434595764374730688794764599126977826845224507237810333656757571702485),
     (True, 4021247261499220479461405623790538620497998181722452571755736939190996941399),
     (True, 329066509278652556707707450545596260857779589254350759011162333238007124055),
     (True, 16360299548560417625164858109852697425197396916193432798934903549939983702768),
     (True, 9849558380134974096971083925872349344557699863235321346903004443138290899944),
     (False, - 1),
     (True, 16786375958177699369415747107197519712610127971334079389550182290305676720479),
     (True, 779832393040998907813166352198948724758952306019976999362170803845341048),
     (False, - 2),
     (True, 5814656405804929182220622736880798870865276346119619869296048480013032000066),
     (False, - 2),
     (True, 231119208089492585450267067605500017947783251826408590190738194856064089994),
     (False, - 2),
     (True, 18615666361003221450361049374187839120101675283831845688869151234765678282060),
     (True, 13996608650410314369553354689818875221855858468710069224416152179565389913522),
     (False, - 1),
     (True, 13424467949007227100447115500083148370227827546414363735959213037855999639828),
     (True, 116974804418710030071982890831401498695637922526840030509586257681104965550),
     (False, - 1),
     (True, 21152298039017276074631138218113314530658955370304300199602097081768649171146),
     (False, - 1),
     (True, 13193509172883106540233439945124821930371964806922308991651087786856522850733),
     (True, 21683656966313243743479777992670144711625535956094394584661352095616846410336),
     (True, 2772571333370000779351457736646925149498309576664568209688205547718216854947),
     (False, - 3),
     (True, 3149588300092677412167069886381380517694818105018365477377582099588810384811),
     (True, 3607343578262768117580462842006632061128222487746319564898686832639508872551),
     (True, 1216916956472002118358403722366135068571126982406600609917812535660337161757),
     (False, - 1),
     (True, 4688872434588309518046214803362905934155740033101833671135063170553567814453),
     (True, 2005086401044025086113282332242061569977298726291385209178613673831963156629),
     (True, 8548185540538789840091907351953203777059329378120642765573958679591442621074),
     (False, - 3),
     (True, 21158289542780590917041001053231658356837056727661774742911318191745601440244),
     (True, 4463114630015179465087848248648627495189106431897261014016156979100171308292),
     (True, 1265825813055409113130389233604789780330362717659830709150515650383321453983),
     (True, 19649667988144034057569743616803753021115469885017678257804325893737937154767),
     (True, 12068090998320729111421386397584385615587887708796983784086605447410267715217),
     (True, 17640570453870399139864703044962362363750899074259540568560642730774918783093),
     (False, - 1),
     (True, 3265710584514541772382889872133068716802545941917528581445428769531610144192),
     (True, 4107202098806942440008038341181220081807041224109844948188885688686831441533),
     (False, - 1),
     (True, 8790662717174803316187677212952494046504845316340002014375860699408651020993),
     (True, 315653978010386383103356087426528266053451042686869018030073923679679801380),
     (True, 148289816310829993071767343098957128033519297224958491827367933820332879398),
     (False, - 2),
     (True, 48062537526465633217640450204505393190159356196236551509123174545644076465),
     (False, - 1),
     (True, 16875649090546655299916360835868757179303600892649884110933681750808658922125),
     (True, 147498760595594868935644831697714412216214492728189310845671262691254222414),
     (False, - 1),
     (True, 2930777599084691193313364900657097982920708918475618412828800865322002447903),
     (True, 743039223939617419786903255969226655746065141918959648330731919700515646688),
     (False, - 3),
     (True, 13763398778789144418550804860181637917342384717356850236023760122262901112597),
     (True, 4756273178928912305539515270393372223211790930189936678249969953512205572692),
     (True, 2677057126463559313278630548854623519793357186667431621365883102125331723965),
     (False, - 3),
     (True, 19942284018325148240712155857241008281739418722647045211660851464980142696437),
     (False, - 2),
     (True, 141997434085395957019577636587887346843654474538652689147756157474173020866),
     (False, - 3),
     (True, 2612889075305057038143833687517163390855479285978777313300496891955649187543),
     (True, 8868415564623432726368242601100217599897762723761439683740597590340645515565),
     (True, 4608981356383224270899230672060365440134303317159653242081860586552630915886),
     (True, 24657792813631553170104612712095801043),
     (True, 24657792813631553170104612712095801042),
     (False, - 1),
     (True, 221920135322683978530941514408862209380)]"

lemma cube_chain_1:
  "chain [bn_prime] (- 3) (- 3) cube_steps_1 =
    5212351537776479864425701959495366245949151150762018841649160532528589830629"
  "chain_exponent 1 cube_steps_1 =
    4649331022403960887"
  by code_simp+

lemma cube_chain_2:
  "chain [bn_prime] (- 3) 
    5212351537776479864425701959495366245949151150762018841649160532528589830629 cube_steps_2 =
    1689562148409981343674661057915623659774472554813991426007782385456662383219"
  "chain_exponent 4649331022403960887 cube_steps_2 =
    171530038968488472111632153293936105038"
  by code_simp+

lemma cube_chain_3:
  "chain [bn_prime] (- 3) 
    1689562148409981343674661057915623659774472554813991426007782385456662383219 cube_steps_3 =
    1960493295191597224900220988694152925788643066942775487712926860256951259446"
  "chain_exponent 171530038968488472111632153293936105038 cube_steps_3 =
    197760670612820823314794386662207674952157407985870414274"
  by code_simp+

lemma cube_chain_4:
  "chain [bn_prime] (- 3) 
    1960493295191597224900220988694152925788643066942775487712926860256951259446 cube_steps_4 =
    21888242871839275220042445260109153167277707414472061641714758635765020556616"
  "chain_exponent 197760670612820823314794386662207674952157407985870414274 cube_steps_4 =
    7296080957279758407415468581752425029565437052432607887563012631548408736194"
  by code_simp+

definition third :: int where "third = 7296080957279758407415468581752425029565437052432607887563012631548408736194"

definition cube_steps :: "(bool \<times> int) list" where
  "cube_steps = cube_steps_1 @ cube_steps_2 @ cube_steps_3 @ cube_steps_4"

lemma cube_chain: "chain [bn_prime] (- 3) (- 3) cube_steps = 21888242871839275220042445260109153167277707414472061641714758635765020556616"
  unfolding cube_steps_def chain_append cube_chain_1 cube_chain_2 cube_chain_3 cube_chain_4 ..

lemma cube_exponent: "chain_exponent 1 cube_steps = third"
  unfolding cube_steps_def chain_exponent_append cube_chain_1 cube_chain_2 cube_chain_3 cube_chain_4 third_def ..

lemma cube_power: "eqm bn_prime ((- 3) ^ nat third) 21888242871839275220042445260109153167277707414472061641714758635765020556616"
  using chain_power [of "[bn_prime]" bn_prime 1 "- 3" "- 3" cube_steps]
  by (simp add: cube_chain cube_exponent eqm_dvd dvd_diff_commute)

lemma eqm_power: "eqm p x y \<Longrightarrow> eqm p (x ^ k) (y ^ k)"
  by (induction k) (auto intro: eqm_ops)

lemma minus_three_no_cube: "\<not> eqm bn_prime (x * x * x) (- 3)"
proof
  assume cube: "eqm bn_prime (x * x * x) (- 3)"
  have "\<not> bn_prime dvd x"
  proof
    assume "bn_prime dvd x"
    then have "eqm bn_prime (x * x * x) 0"
      by (simp add: eqm_dvd)
    then have "eqm bn_prime 0 (- 3)"
      using cube by (blast intro: eqm_trans eqm_sym)
    then show False
      by (simp add: eqm_def bn_prime_def)
  qed
  then have "eqm bn_prime (x ^ nat (bn_prime - 1)) 1"
    unfolding eqm_dvd by (rule fermat [OF bn_prime_is_prime])
  moreover have "nat (bn_prime - 1) = 3 * nat third"
    by (simp add: bn_prime_def third_def)
  ultimately have "eqm bn_prime ((x * x * x) ^ nat third) 1"
    by (simp add: power_mult power3_eq_cube)
  then have "eqm bn_prime ((- 3) ^ nat third) 1"
    using eqm_power [OF cube, of "nat third"] by (blast intro: eqm_trans eqm_sym)
  then have "eqm bn_prime 1 21888242871839275220042445260109153167277707414472061641714758635765020556616"
    using cube_power by (blast intro: eqm_trans eqm_sym)
  then show False
    by (simp add: eqm_def bn_prime_def)
qed

theorem no_two_torsion:
  assumes "valid_point bn_prime 0 3 (Point x y)"
  shows "\<not> eqm bn_prime (y + y) 0"
proof
  have p: "is_prime bn_prime"
    by (rule bn_prime_is_prime)
  assume "eqm bn_prime (y + y) 0"
  then have "bn_prime dvd 2 * y"
    by (simp add: eqm_dvd)
  then have "bn_prime dvd y"
    using prime_dvd_product [OF p, of 2 y] by (auto simp: bn_prime_def dest: zdvd_imp_le)
  then have "eqm bn_prime (y * y) 0"
    by (simp add: eqm_dvd)
  moreover have "eqm bn_prime (y * y) (x * x * x + 3)"
    using assms by (simp add: on_curve_def)
  ultimately have "eqm bn_prime (x * x * x + 3) 0"
    by (blast intro: eqm_trans eqm_sym)
  then have "eqm bn_prime (x * x * x) (- 3)"
    by (simp add: eqm_dvd)
  then show False
    using minus_three_no_cube by blast
qed

end
