(* ===== verification/EcMul.thy ===== *)
theory EcMul
  imports EcAdd Shamir NoTwoTorsion
begin

unbundle bit_operations_syntax

text \<open>
  The precompile \<^verbatim>\<open>src/precompiles/EcMul.yul\<close>: multiplication of a point of \<^verbatim>\<open>alt_bn128\<close> by a scalar, from the lowest
  bit on, in projective coordinates. Its reduction, its field operations and its modular inverse are those of
  \<^verbatim>\<open>EcAdd.yul\<close>. The model takes the three words of the calldata.
\<close>

section \<open>The contract\<close>

definition BN_ONE :: u256 where
  "BN_ONE = 6350874878119819312338956282401532409788428879151445726012394534686998597021"

definition MONTGOMERY_B3 :: u256 where
  "MONTGOMERY_B3 = 13381388159399823366557795051099241510703237597767364208733475022892534956023"

definition lsbIsOne :: "u256 \<Rightarrow> bool" where
  "lsbIsOne x = (x AND 1 \<noteq> 0)"

definition bn_affinePointCoordinatesAreOnFieldOrder :: "u256 \<Rightarrow> u256 \<Rightarrow> bool" where
  "bn_affinePointCoordinatesAreOnFieldOrder x y = (x < BN_P \<and> y < BN_P)"

definition bn_affinePointIsOnCurve :: "u256 \<Rightarrow> u256 \<Rightarrow> bool" where
  "bn_affinePointIsOnCurve x y =
     (let ySquared = bn_montgomeryMul y y;
          xSquared = bn_montgomeryMul x x;
          xQubed = bn_montgomeryMul xSquared x;
          xQubedPlusThree = bn_montgomeryAdd xQubed MONTGOMERY_THREE
      in ySquared = xQubedPlusThree)"

definition bn_affinePointIsInfinity :: "u256 \<Rightarrow> u256 \<Rightarrow> bool" where
  "bn_affinePointIsInfinity x y = (x = 0 \<and> y = 0)"

definition bn_projectivePointIsInfinity :: "triple \<Rightarrow> bool" where
  "bn_projectivePointIsInfinity = (\<lambda>(x, y, z). z = 0)"

definition bn_projectiveFromAffine :: "u256 \<Rightarrow> u256 \<Rightarrow> triple" where
  "bn_projectiveFromAffine xp yp = (xp, yp, BN_ONE)"

definition bn_projectiveIntoAffine :: "triple \<Rightarrow> (u256 \<times> u256) option" where
  "bn_projectiveIntoAffine = (\<lambda>(xp, yp, zp).
     if zp \<noteq> 0 then
       Option.bind (bn_montgomeryModularInverse zp)
         (\<lambda>zp_inv. Some (bn_montgomeryMul xp zp_inv, bn_montgomeryMul yp zp_inv))
     else Some (0, 0))"

definition bn_projectiveDouble :: "triple \<Rightarrow> triple" where
  "bn_projectiveDouble = (\<lambda>(xp, yp, zp).
     let t0 = bn_montgomeryMul yp yp;
         zr = bn_montgomeryAdd t0 t0;
         zr = bn_montgomeryAdd zr zr;
         zr = bn_montgomeryAdd zr zr;
         t1 = bn_montgomeryMul yp zp;
         t2 = bn_montgomeryMul zp zp;
         t2 = bn_montgomeryMul MONTGOMERY_B3 t2;
         xr = bn_montgomeryMul t2 zr;
         yr = bn_montgomeryAdd t0 t2;
         zr = bn_montgomeryMul t1 zr;
         t1 = bn_montgomeryAdd t2 t2;
         t2 = bn_montgomeryAdd t1 t2;
         t0 = bn_montgomerySub t0 t2;
         yr = bn_montgomeryMul t0 yr;
         yr = bn_montgomeryAdd xr yr;
         t1 = bn_montgomeryMul xp yp;
         xr = bn_montgomeryMul t0 t1;
         xr = bn_montgomeryAdd xr xr
     in (xr, yr, zr))"

text \<open>The body of the loop: the doubling \<^verbatim>\<open>q\<close> of the point and the result so far \<^verbatim>\<open>r\<close>, for one bit of the scalar.\<close>

definition ecMulStep :: "u256 \<Rightarrow> triple \<Rightarrow> triple \<Rightarrow> triple \<times> triple" where
  "ecMulStep scalar q r =
     (if lsbIsOne scalar then
        if bn_projectivePointIsInfinity r then (bn_projectiveDouble q, q)
        else
          let (xq, yq, zq) = q;
              (xr, yr, zr) = r;
              t0 = bn_montgomeryMul yq zr;
              t1 = bn_montgomeryMul yr zq;
              t = bn_montgomerySub t0 t1;
              u0 = bn_montgomeryMul xq zr;
              u1 = bn_montgomeryMul xr zq;
              u = bn_montgomerySub u0 u1
          in if t OR u = 0 then
               let r = bn_projectiveDouble r in (r, r)
             else
               let u2 = bn_montgomeryMul u u;
                   u3 = bn_montgomeryMul u2 u;
                   v = bn_montgomeryMul zq zr;
                   w = bn_montgomerySub (bn_montgomeryMul (bn_montgomeryMul t t) v)
                         (bn_montgomeryMul u2 (bn_montgomeryAdd u0 u1));
                   xr = bn_montgomeryMul u w;
                   yr = bn_montgomerySub (bn_montgomeryMul t (bn_montgomerySub (bn_montgomeryMul u0 u2) w))
                          (bn_montgomeryMul t0 u3);
                   zr = bn_montgomeryMul u3 v
               in (bn_projectiveDouble q, (xr, yr, zr))
      else (bn_projectiveDouble q, r))"

function ecMulLoop :: "u256 \<Rightarrow> triple \<Rightarrow> triple \<Rightarrow> triple" where
  "ecMulLoop scalar q r =
     (if scalar = 0 then r
      else case ecMulStep scalar q r of (q, r) \<Rightarrow> ecMulLoop (drop_bit 1 scalar) q r)"
  by pat_completeness auto

termination ecMulLoop
proof (relation "measure (\<lambda>(scalar, q, r). unat scalar)")
  fix scalar :: u256
  assume "scalar \<noteq> 0"
  then have "unat scalar div 2 < unat scalar"
    by (simp add: unat_gt_0)
  then show "((drop_bit 1 scalar, q', r'), scalar, q, r) \<in> measure (\<lambda>(scalar, q, r). unat scalar)" for q r q' r' :: triple
    by (simp add: drop_bit_eq_div unat_div_distrib)
qed simp

declare ecMulLoop.simps [simp del]

definition ecMul_result :: "triple \<Rightarrow> outcome option" where
  "ecMul_result r =
     Option.bind (bn_projectiveIntoAffine r)
       (\<lambda>(xr, yr). Some (Return (bn_outOfMontgomeryForm xr) (bn_outOfMontgomeryForm yr)))"

definition ecMul :: "u256 \<Rightarrow> u256 \<Rightarrow> u256 \<Rightarrow> outcome option" where
  "ecMul x y scalar =
     (if \<not> bn_affinePointCoordinatesAreOnFieldOrder x y then Some BurnGas
      else if bn_affinePointIsInfinity x y then Some (Return 0 0)
      else
        let m_x = bn_intoMontgomeryForm x;
            m_y = bn_intoMontgomeryForm y
        in if \<not> bn_affinePointIsOnCurve m_x m_y then Some BurnGas
           else if scalar = 0 then Some (Return 0 0)
           else if scalar = 1 then Some (Return x y)
           else
             let p = bn_projectiveFromAffine m_x m_y
             in if scalar = 2 then ecMul_result (bn_projectiveDouble p)
                else ecMul_result (ecMulLoop scalar p (0, BN_ONE, 0)))"

section \<open>The specification\<close>

text \<open>The multiple of a point: the sum of its doublings at the bits of the scalar, from the lowest on.\<close>

fun doubled :: "point \<Rightarrow> nat \<Rightarrow> point" where
  "doubled P 0 = P"
| "doubled P (Suc i) = bn_add (doubled P i) (doubled P i)"

definition bn_multiple :: "point \<Rightarrow> int \<Rightarrow> point" where
  "bn_multiple P k = foldl bn_add Infinity (map (doubled P) (filter (\<lambda>i. odd (k div 2 ^ i)) [0..<256]))"

text \<open>The same, bit by bit.\<close>

fun ladder :: "nat \<Rightarrow> point \<Rightarrow> point \<Rightarrow> int \<Rightarrow> point" where
  "ladder 0 R Q k = R"
| "ladder (Suc n) R Q k = ladder n (if odd k then bn_add R Q else R) (bn_add Q Q) (k div 2)"

lemma doubled_shift: "doubled (bn_add P P) = (\<lambda>i. bn_add (doubled P i) (doubled P i))"
proof
  show "doubled (bn_add P P) i = bn_add (doubled P i) (doubled P i)" for i
    by (induction i) simp_all
qed

lemma ladder_foldl:
  "ladder n R Q k = foldl bn_add R (map (doubled Q) (filter (\<lambda>i. odd (k div 2 ^ i)) [0..<n]))"
proof (induction n arbitrary: R Q k)
  case (Suc n)
  have half: "k div 2 div 2 ^ i = k div 2 ^ Suc i" for i
    using zdiv_zmult2_eq [of "2 ^ i" k 2] by simp
  have "[0..<Suc n] = 0 # map Suc [0..<n]"
    by (simp add: upt_conv_Cons map_Suc_upt del: upt_Suc)
  then show ?case
    unfolding ladder.simps Suc.IH
    by (simp add: filter_map comp_def doubled_shift half del: upt_Suc)
qed simp

lemma bn_multiple_ladder: "bn_multiple P k = ladder 256 Infinity P k"
  by (simp only: bn_multiple_def ladder_foldl)

lemma ladder_zero: "ladder n R Q 0 = R"
  by (induction n arbitrary: R Q) simp_all

section \<open>The doubling\<close>

text \<open>The formula of the contract over the integers.\<close>

definition complete_double :: "int \<Rightarrow> int \<Rightarrow> int \<Rightarrow> int \<times> int \<times> int" where
  "complete_double x y z =
     (let t0 = y * y;
          z8 = t0 + t0;
          z8 = z8 + z8;
          z8 = z8 + z8;
          t1 = y * z;
          t2 = 9 * (z * z);
          x3 = t2 * z8;
          y3 = t0 + t2;
          z3 = t1 * z8;
          t1 = t2 + t2;
          t2 = t1 + t2;
          t0 = t0 - t2;
          y3 = t0 * y3;
          y3 = x3 + y3;
          t1 = x * y;
          x3 = t0 * t1
      in (x3 + x3, y3, z3))"

lemma complete_double_exact:
  assumes curve: "eqP (y * y) (x * x * x + 3)" and y: "\<not> eqP (2 * y) 0" and z: "\<not> eqP z 0"
  shows "projects bn_prime (third_point bn_prime (3 * (x * x) * inverse_mod bn_prime (2 * y)) x y x)
    (complete_double (x * z) (y * z) z)"
proof -
  define s where "s = 3 * (x * x) * inverse_mod bn_prime (2 * y)"
  define V where "V = z * z * (z * z)"
  define U where "U = 2 * y"
  have d: "complete_double (x * z) (y * z) z =
      (2 * (x * y * (y * y - 27)) * V, ((y * y - 27) * (y * y + 9) + 72 * (y * y)) * V, U * U * U * V)"
    unfolding complete_double_def Let_def V_def U_def by (simp add: algebra_simps)
  have T: "eqP (s * U) (3 * (x * x))"
    unfolding s_def U_def by (rule bn_curve.quotient [OF y])
  have C: "eqP (x * x * x) (y * y - 3)"
    using eqm_sym [OF curve] by (simp add: eqm_dvd algebra_simps)
  have W: "\<not> eqP (U * U * U * V) 0"
    using y z unfolding U_def [symmetric] V_def by (simp only: bn_curve.eqm_product simp_thms)
  have e: "(s * s - (x + x)) * (U * U * U * V) = (s * U * (s * U) * U - (x + x) * (U * U * U)) * V"
    "(s * (x - (s * s - (x + x))) - y) * (U * U * U * V) =
      (3 * x * (s * U) * (U * U) - s * U * (s * U) * (s * U) - y * (U * U * U)) * V"
    by (simp_all add: algebra_simps)
  have "eqP ((s * U * (s * U) * U - (x + x) * (U * U * U)) * V) ((3 * (x * x) * (3 * (x * x)) * U - (x + x) * (U * U * U)) * V)"
    by (intro eqm_ops eqm_refl T)
  also have "(3 * (x * x) * (3 * (x * x)) * U - (x + x) * (U * U * U)) * V = (18 * x * y * (x * x * x) - 16 * x * (y * y * y)) * V"
    unfolding U_def by (simp add: algebra_simps)
  also have "eqP \<dots> ((18 * x * y * (y * y - 3) - 16 * x * (y * y * y)) * V)"
    by (intro eqm_ops eqm_refl C)
  also have "(18 * x * y * (y * y - 3) - 16 * x * (y * y * y)) * V = 2 * (x * y * (y * y - 27)) * V"
    by (simp add: algebra_simps)
  finally have X: "eqP (2 * (x * y * (y * y - 27)) * V) ((s * s - (x + x)) * (U * U * U * V))"
    unfolding e by (rule eqm_sym)
  have "eqP ((3 * x * (s * U) * (U * U) - s * U * (s * U) * (s * U) - y * (U * U * U)) * V)
      ((3 * x * (3 * (x * x)) * (U * U) - 3 * (x * x) * (3 * (x * x)) * (3 * (x * x)) - y * (U * U * U)) * V)"
    by (intro eqm_ops eqm_refl T)
  also have "(3 * x * (3 * (x * x)) * (U * U) - 3 * (x * x) * (3 * (x * x)) * (3 * (x * x)) - y * (U * U * U)) * V =
      (36 * (y * y) * (x * x * x) - 27 * (x * x * x * (x * x * x)) - 8 * (y * y * (y * y))) * V"
    unfolding U_def by (simp add: algebra_simps)
  also have "eqP \<dots> ((36 * (y * y) * (y * y - 3) - 27 * ((y * y - 3) * (y * y - 3)) - 8 * (y * y * (y * y))) * V)"
    by (intro eqm_ops eqm_refl C)
  also have "(36 * (y * y) * (y * y - 3) - 27 * ((y * y - 3) * (y * y - 3)) - 8 * (y * y * (y * y))) * V =
      ((y * y - 27) * (y * y + 9) + 72 * (y * y)) * V"
    by (simp add: algebra_simps)
  finally have Y: "eqP (((y * y - 27) * (y * y + 9) + 72 * (y * y)) * V)
      ((s * (x - (s * s - (x + x))) - y) * (U * U * U * V))"
    unfolding e by (rule eqm_sym)
  show ?thesis
    unfolding d s_def [symmetric] by (rule bn_curve.projects_third [OF W X Y eqm_refl])
qed

lemma complete_double_projects:
  assumes "projects bn_prime P (X, Y, Z)" and "bn_valid P"
  shows "projects bn_prime (bn_add P P) (complete_double X Y Z)"
proof (cases P)
  case Infinity
  then have Z: "eqP Z 0"
    using assms(1) by simp
  have "eqP (Y * Z * k) (Y * 0 * k)" for k
    by (intro eqm_ops eqm_refl Z)
  then have "eqP (Y * Z * k) 0" for k
    by simp
  then show ?thesis
    unfolding Infinity affine_add.simps complete_double_def Let_def projects.simps .
next
  case (Point x y)
  note P = assms [unfolded Point]
  have y: "\<not> eqP (2 * y) 0"
    using no_two_torsion [OF P(2)] by (simp only: mult_2 not_False_eq_True)
  have c: "eqP X (x * Z)" "eqP Y (y * Z)" "\<not> eqP Z 0" "eqP (y * y) (x * x * x + 3)"
    using P by (simp_all add: on_curve_def)
  have "bn_add P P = third_point bn_prime (3 * (x * x) * inverse_mod bn_prime (2 * y)) x y x"
    using y unfolding Point affine_add.simps mult_2 by simp
  moreover have "projects bn_prime (third_point bn_prime (3 * (x * x) * inverse_mod bn_prime (2 * y)) x y x)
      (complete_double (x * Z) (y * Z) Z)"
    by (rule complete_double_exact [OF c(4) y c(3)])
  moreover have "projects bn_prime Q (complete_double X Y Z) \<longleftrightarrow> projects bn_prime Q (complete_double (x * Z) (y * Z) Z)" for Q
    unfolding complete_double_def Let_def by (intro projects_cong eqm_ops eqm_refl c(1,2))
  ultimately show ?thesis
    by simp
qed

lemma doubled_finite: "bn_valid (Point x y) \<Longrightarrow> bn_add (Point x y) (Point x y) \<noteq> Infinity"
  using no_two_torsion by (simp add: third_point_def Let_def)

section \<open>The loop\<close>

definition bn_triple :: "triple \<Rightarrow> int \<times> int \<times> int \<Rightarrow> bool" where
  "bn_triple t f \<longleftrightarrow> bn_rep (fst t) (fst f) \<and> bn_rep (fst (snd t)) (fst (snd f)) \<and> bn_rep (snd (snd t)) (snd (snd f))"

definition bn_denotes :: "triple \<Rightarrow> point \<Rightarrow> bool" where
  "bn_denotes t P \<longleftrightarrow> (\<exists>f. bn_triple t f \<and> projects bn_prime P f)"

lemma bn_constants: "bn_rep BN_ONE 1" "bn_rep MONTGOMERY_B3 9" "bn_rep 0 0"
  by (simp_all add: represents_def BN_ONE_def MONTGOMERY_B3_def BN_P_def R256_def)

lemma bn_zero: "bn_rep x a \<Longrightarrow> x = 0 \<longleftrightarrow> eqP a 0"
  by (rule eqP_represents [OF _ bn_constants(3)])

lemma bn_denotesE:
  assumes "bn_denotes t P"
  obtains x y z X Y Z where "t = (x, y, z)" "bn_rep x X" "bn_rep y Y" "bn_rep z Z" "projects bn_prime P (X, Y, Z)"
  using assms by (cases t) (auto simp: bn_denotes_def bn_triple_def)

lemma bn_double:
  assumes "bn_denotes t P" and "bn_valid P"
  shows "bn_denotes (bn_projectiveDouble t) (bn_add P P)"
proof -
  obtain x y z X Y Z where t: "t = (x, y, z)" and r: "bn_rep x X" "bn_rep y Y" "bn_rep z Z"
    and "projects bn_prime P (X, Y, Z)"
    using assms(1) by (rule bn_denotesE)
  then have "projects bn_prime (bn_add P P) (complete_double X Y Z)"
    using assms(2) by (intro complete_double_projects)
  moreover have "bn_triple (bn_projectiveDouble t) (complete_double X Y Z)"
    unfolding t bn_triple_def bn_projectiveDouble_def complete_double_def Let_def prod.case fst_conv snd_conv
    by (intro conjI bn_ops bn_constants r)
  ultimately show ?thesis
    unfolding bn_denotes_def by blast
qed


lemma lsbIsOne_iff: "lsbIsOne k \<longleftrightarrow> odd (uint k)"
  by (simp add: lsbIsOne_def word_uint_eq_iff uint_and_one odd_iff_mod_2_eq_one)

text \<open>One pass of the loop adds the doubling where the bit is set, and doubles it.\<close>

lemma ecMulStep_odd:
  assumes q: "bn_denotes q Q" "bn_valid Q" "Q \<noteq> Infinity" and r: "bn_denotes r R" "bn_valid R" and odd: "lsbIsOne k"
  shows "\<exists>q' r'. ecMulStep k q r = (q', r') \<and> bn_denotes q' (bn_add Q Q) \<and> bn_denotes r' (bn_add R Q)"
proof -
  obtain xq yq zq X1 Y1 Z1 where qe: "q = (xq, yq, zq)" and r1: "bn_rep xq X1" "bn_rep yq Y1" "bn_rep zq Z1"
    and p1: "projects bn_prime Q (X1, Y1, Z1)"
    using q(1) by (rule bn_denotesE)
  obtain xr yr zr X2 Y2 Z2 where re: "r = (xr, yr, zr)" and r2: "bn_rep xr X2" "bn_rep yr Y2" "bn_rep zr Z2"
    and p2: "projects bn_prime R (X2, Y2, Z2)"
    using r(1) by (rule bn_denotesE)
  have R: "R = Infinity \<longleftrightarrow> zr = 0"
    using p2 bn_zero [OF r2(3)] by (cases R) simp_all
  show ?thesis
  proof (cases "zr = 0")
    case True
    then have "ecMulStep k q r = (bn_projectiveDouble q, q)"
      using odd by (simp add: ecMulStep_def bn_projectivePointIsInfinity_def re)
    then show ?thesis
      using True R q bn_double [OF q(1,2)] by simp
  next
    case False
    then have nz: "\<not> eqP Z1 0" "\<not> eqP Z2 0"
      using bn_zero [OF r2(3)] p1 q(3) by (cases Q; simp)+
    let ?t = "bn_montgomerySub (bn_montgomeryMul yq zr) (bn_montgomeryMul yr zq)"
    let ?u = "bn_montgomerySub (bn_montgomeryMul xq zr) (bn_montgomeryMul xr zq)"
    have t: "bn_rep ?t (Y1 * Z2 - Y2 * Z1)" and u: "bn_rep ?u (X1 * Z2 - X2 * Z1)"
      by (intro bn_ops r1 r2)+
    have same: "?t OR ?u = 0 \<longleftrightarrow> eqP (Y1 * Z2 - Y2 * Z1) 0 \<and> eqP (X1 * Z2 - X2 * Z1) 0"
      by (simp add: or_eq_0_iff bn_zero [OF t] bn_zero [OF u])
    show ?thesis
    proof (cases "?t OR ?u = 0")
      case True
      then have "Q = R"
        using bn_curve.same_projects [OF p1 q(2) p2 r(2) nz] same by blast
      have "ecMulStep k q r = (bn_projectiveDouble r, bn_projectiveDouble r)"
        using odd False True by (simp add: ecMulStep_def bn_projectivePointIsInfinity_def qe re Let_def)
      then show ?thesis
        using bn_double [OF r] \<open>Q = R\<close> by simp
    next
      case ne: False
      then have "projects bn_prime (bn_add R Q) (add_formula X1 Y1 Z1 X2 Y2 Z2)"
        using bn_curve.add_projects [OF p1 q(2) p2 r(2) nz] same bn_curve.affine_add_commute [OF q(2) r(2)] by simp
      moreover have "fst (ecMulStep k q r) = bn_projectiveDouble q"
        using odd False ne by (simp add: ecMulStep_def bn_projectivePointIsInfinity_def qe re Let_def)
      moreover have "bn_triple (snd (ecMulStep k q r)) (add_formula X1 Y1 Z1 X2 Y2 Z2)"
        using odd False ne
        unfolding ecMulStep_def bn_projectivePointIsInfinity_def qe re add_formula_def bn_triple_def Let_def prod.case
        by (simp only: if_True if_False fst_conv snd_conv simp_thms) (intro conjI bn_ops r1 r2)
      ultimately show ?thesis
        using bn_double [OF q(1,2)] by (metis bn_denotes_def prod.collapse)
    qed
  qed
qed

lemma ecMulStep_value:
  assumes "bn_denotes q Q" "bn_valid Q" "Q \<noteq> Infinity" and "bn_denotes r R" "bn_valid R"
  shows "\<exists>q' r'. ecMulStep k q r = (q', r') \<and> bn_denotes q' (bn_add Q Q) \<and>
    bn_denotes r' (if odd (uint k) then bn_add R Q else R)"
proof (cases "lsbIsOne k")
  case True
  then show ?thesis
    using ecMulStep_odd [OF assms True] by (simp add: lsbIsOne_iff)
next
  case False
  then show ?thesis
    using assms(4) bn_double [OF assms(1,2)] by (simp add: ecMulStep_def lsbIsOne_iff)
qed

lemma ecMulLoop_denotes:
  assumes "bn_denotes q Q" "bn_valid Q" "Q \<noteq> Infinity" and "bn_denotes r R" "bn_valid R" and "uint k < 2 ^ n"
  shows "bn_denotes (ecMulLoop k q r) (ladder n R Q (uint k))"
  using assms
proof (induction n arbitrary: k q Q r R)
  case 0
  have "uint k < 1"
    using 0(6) by simp
  then have "uint k = 0"
    using uint_bounds(2) [of k] by linarith
  then have "k = 0"
    by (simp add: word_uint_eq_iff)
  then show ?case
    using 0(4) by (subst ecMulLoop.simps) simp
next
  case (Suc n)
  show ?case
  proof (cases "k = 0")
    case True
    then show ?thesis
      using Suc.prems(4) by (subst ecMulLoop.simps) (simp add: ladder_zero del: ladder.simps)
  next
    case False
    let ?R = "if odd (uint k) then bn_add R Q else R"
    obtain q' r' where s: "ecMulStep k q r = (q', r')" "bn_denotes q' (bn_add Q Q)" "bn_denotes r' ?R"
      using ecMulStep_value [OF Suc.prems(1-5)] by blast
    have "bn_valid (bn_add Q Q)" "bn_valid ?R"
      using Suc.prems(2,5) by (auto intro: bn_curve.affine_add_valid)
    moreover have "bn_add Q Q \<noteq> Infinity"
      using Suc.prems(2,3) doubled_finite by (cases Q) blast+
    moreover have half: "uint (drop_bit 1 k) = uint k div 2"
      by (simp only: uint_drop_bit power_one_right)
    moreover have "uint k div 2 < 2 ^ n"
      using Suc.prems(6) by simp
    ultimately have "bn_denotes (ecMulLoop (drop_bit 1 k) q' r') (ladder n ?R (bn_add Q Q) (uint k div 2))"
      using Suc.IH [of q' "bn_add Q Q" r' ?R "drop_bit 1 k"] s by simp
    then show ?thesis
      using False s(1) by (subst ecMulLoop.simps) simp
  qed
qed

section \<open>The result\<close>

lemma ecMul_result_value:
  assumes "bn_denotes r R" and "bn_valid R"
  shows "ecMul_result r = Some (encode R)"
proof -
  obtain x y z X Y Z where r: "r = (x, y, z)" and rep: "bn_rep x X" "bn_rep y Y" "bn_rep z Z"
    and p: "projects bn_prime R (X, Y, Z)"
    using assms(1) by (rule bn_denotesE)
  show ?thesis
  proof (cases R)
    case Infinity
    then have "z = 0"
      using p bn_zero [OF rep(3)] by simp
    moreover have "bn_outOfMontgomeryForm 0 = 0"
      using bn_ops(2) [OF bn_constants(3)] by (simp add: word_uint_eq_iff)
    ultimately show ?thesis
      by (simp add: r Infinity ecMul_result_def bn_projectiveIntoAffine_def)
  next
    case (Point a b)
    note p = p [unfolded Point, simplified]
    then have nz: "z \<noteq> 0"
      using bn_zero [OF rep(3)] by simp
    have inv: "eqP (Z * inverse_mod bn_prime Z) 1"
      using p by (intro bn_curve.inverse_mod) blast
    then obtain i where i: "bn_montgomeryModularInverse z = Some i" "bn_rep i (inverse_mod bn_prime Z)"
      using bn_inverse [OF rep(3)] by (auto simp: eqm_dvd uint_BN_P)
    have coordinate: "bn_outOfMontgomeryForm (bn_montgomeryMul w i) = of_int c"
      if w: "bn_rep w W" and W: "eqP W (c * Z)" and c: "0 \<le> c" "c < bn_prime" for w W c
    proof -
      have "eqP (W * inverse_mod bn_prime Z) (c * Z * inverse_mod bn_prime Z)"
        by (intro eqm_ops eqm_refl W)
      also have "c * Z * inverse_mod bn_prime Z = c * (Z * inverse_mod bn_prime Z)"
        by simp
      also have "eqP \<dots> (c * 1)"
        by (intro eqm_ops eqm_refl inv)
      finally have "(W * inverse_mod bn_prime Z) mod bn_prime = c"
        using c by (simp add: eqm_def)
      then have "uint (bn_outOfMontgomeryForm (bn_montgomeryMul w i)) = uint (of_int c :: u256)"
        using bn_ops(2) [OF bn_ops(5) [OF w i(2)]] c by (simp only: uint_BN_P uint_residue)
      then show ?thesis
        by (simp only: word_uint_eq_iff)
    qed
    have v: "0 \<le> a" "a < bn_prime" "0 \<le> b" "b < bn_prime"
      using assms(2) by (simp_all add: Point)
    show ?thesis
      using nz coordinate [OF rep(1) _ v(1,2)] coordinate [OF rep(2) _ v(3,4)] p
      by (simp add: r Point ecMul_result_def bn_projectiveIntoAffine_def i(1))
  qed
qed

lemma bn_point_denotes:
  "bn_denotes (bn_projectiveFromAffine (bn_intoMontgomeryForm x) (bn_intoMontgomeryForm y)) (Point (uint x) (uint y))"
proof -
  have "\<not> eqP 1 0"
    by (simp add: eqm_def bn_prime_def)
  then have "projects bn_prime (Point (uint x) (uint y)) (uint x, uint y, 1)"
    by simp
  moreover have "bn_triple (bn_projectiveFromAffine (bn_intoMontgomeryForm x) (bn_intoMontgomeryForm y)) (uint x, uint y, 1)"
    unfolding bn_triple_def bn_projectiveFromAffine_def fst_conv snd_conv by (intro conjI bn_ops bn_constants)
  ultimately show ?thesis
    unfolding bn_denotes_def by blast
qed

lemma bn_origin_denotes: "bn_denotes (0, BN_ONE, 0) Infinity"
  unfolding bn_denotes_def bn_triple_def using bn_constants by (intro exI [of _ "(0, 1, 0)"]) simp

lemma ladder_valid: "bn_valid R \<Longrightarrow> bn_valid Q \<Longrightarrow> bn_valid (ladder n R Q k)"
  by (induction n arbitrary: R Q k) (simp_all add: bn_curve.affine_add_valid)

lemma ladder_infinity: "ladder n Infinity Infinity k = Infinity"
  by (induction n arbitrary: k) simp_all

lemma bn_multiple_small:
  "bn_multiple P 0 = Infinity" "bn_multiple P 1 = P" "bn_multiple P 2 = bn_add P P" "bn_multiple Infinity k = Infinity"
proof -
  have n: "(256 :: nat) = Suc (Suc 254)"
    by simp
  show "bn_multiple P 0 = Infinity" "bn_multiple P 1 = P" "bn_multiple P 2 = bn_add P P"
    unfolding bn_multiple_ladder n ladder.simps by (simp_all add: ladder_zero)
  show "bn_multiple Infinity k = Infinity"
    by (simp add: bn_multiple_ladder ladder_infinity)
qed

text \<open>C3: The precompile multiplies: on every point of the curve with reduced coordinates, or the point at infinity, and
  every scalar it returns the sum of the doublings of the point at the bits of the scalar under the affine group law, and
  on everything else it consumes all its gas. It always returns.\<close>

theorem ecMul_refines:
  "ecMul x y k = Some (if bn_valid (decode x y) then encode (bn_multiple (decode x y) (uint k)) else BurnGas)"
proof (cases "x = 0 \<and> y = 0")
  case True
  then show ?thesis
    by (simp add: ecMul_def bn_affinePointCoordinatesAreOnFieldOrder_def bn_affinePointIsInfinity_def decode_def
        bn_multiple_small BN_P_def)
next
  case False
  let ?X = "bn_intoMontgomeryForm x" and ?Y = "bn_intoMontgomeryForm y"
  have d: "decode x y = Point (uint x) (uint y)"
    using False by (auto simp: decode_def)
  have curve: "bn_affinePointIsOnCurve ?X ?Y \<longleftrightarrow> bn_on_curve (uint x) (uint y)"
    using into_curve [of x y] by (simp add: bn_affinePointIsOnCurve_def pointIsInCurve_def)
  have field: "bn_affinePointCoordinatesAreOnFieldOrder x y \<longleftrightarrow> uint x < bn_prime \<and> uint y < bn_prime"
    by (simp add: bn_affinePointCoordinatesAreOnFieldOrder_def word_less_def uint_BN_P)
  have inf: "\<not> bn_affinePointIsInfinity x y"
    using False by (simp add: bn_affinePointIsInfinity_def)
  show ?thesis
  proof (cases "bn_valid (decode x y)")
    case True
    let ?P = "Point (uint x) (uint y)"
    have v: "bn_valid ?P"
      using True d by simp
    have loop: "ecMul_result (ecMulLoop k (bn_projectiveFromAffine ?X ?Y) (0, BN_ONE, 0)) = Some (encode (bn_multiple ?P (uint k)))"
      unfolding bn_multiple_ladder using v uint_bounds(1) [of k]
      by (intro ecMul_result_value ecMulLoop_denotes bn_point_denotes bn_origin_denotes ladder_valid) (simp_all add: R256_def)
    have two: "ecMul_result (bn_projectiveDouble (bn_projectiveFromAffine ?X ?Y)) = Some (encode (bn_add ?P ?P))"
      by (intro ecMul_result_value bn_double bn_point_denotes v bn_curve.affine_add_valid)
    show ?thesis
      using v field curve inf two loop True
      by (simp add: ecMul_def d bn_multiple_small Let_def encode_decode [of x y, unfolded d] del: encode.simps(2))
  next
    case False
    then show ?thesis
      using field curve inf by (auto simp: ecMul_def d Let_def)
  qed
qed

end
