(* ===== verification/ModExp.thy ===== *)
theory ModExp
  imports Montgomery Utils
begin

unbundle bit_operations_syntax

text \<open>
  The precompile \<^verbatim>\<open>src/precompiles/ModExp.yul\<close>: modular exponentiation of numbers of any length. Numbers of one word
  have a path of their own; the others are arrays of words in memory, the most significant first. Pointers into the calldata
  and lengths are words, which wrap around as in the contract. All arrays start at multiples of 32, so the memory is a
  function of the index of a word, and a pointer to it is such an index.

  The gas of a call is the parameter \<^verbatim>\<open>heap\<close>: the number of words that it can pay for, of memory and in a loop over the
  calldata, where \<^const>\<open>None\<close> is a call that exceeds it. Wherever the contract touches memory that depends on the lengths in
  the calldata or on a computed shift, or walks through the calldata, the model has a guard. The guards stop every call before
  a pointer into the memory would wrap around, for any \<^verbatim>\<open>heap\<close> below \<^verbatim>\<open>2^240\<close>. The time of the arithmetic on arrays is not
  charged, so a result of the model is the result of the call when it has gas enough.
\<close>

section \<open>Memory\<close>

type_synonym memory = "nat \<Rightarrow> u256"

definition zeroWithLimbSizeAt :: "nat \<Rightarrow> nat \<Rightarrow> memory \<Rightarrow> memory" where
  "zeroWithLimbSizeAt nLimbs p = fold (\<lambda>i m. m(p + i := 0)) [0..<nLimbs]"

definition copyBigUint :: "nat \<Rightarrow> nat \<Rightarrow> nat \<Rightarrow> memory \<Rightarrow> memory" where
  "copyBigUint nLimbs from to' = fold (\<lambda>i m. m(to' + i := m (from + i))) [0..<nLimbs]"

definition bigIntLimbsWithoutZeros :: "nat \<Rightarrow> nat \<Rightarrow> memory \<Rightarrow> nat" where
  "bigIntLimbsWithoutZeros p totalLimbs m = length (filter (\<lambda>i. m (p + i) \<noteq> 0) [0..<totalLimbs])"

definition bigIntLimbs :: "nat \<Rightarrow> nat" where
  "bigIntLimbs len = (let limbs = len div 32 in if len mod 32 \<noteq> 0 then limbs + 1 else limbs)"

section \<open>Arithmetic\<close>

definition overflowingSubWithBorrow :: "u256 \<Rightarrow> u256 \<Rightarrow> u256 \<Rightarrow> u256 \<times> u256" where
  "overflowingSubWithBorrow minuend subtrahend borrow =
     (let difference = minuend - (subtrahend + borrow)
      in (difference, if difference > minuend then 1 else 0))"

definition sub_limb :: "nat \<Rightarrow> nat \<Rightarrow> nat \<Rightarrow> nat \<Rightarrow> memory \<times> u256 \<Rightarrow> memory \<times> u256" where
  "sub_limb minuend subtrahend difference i = (\<lambda>(m, borrow).
     case overflowingSubWithBorrow (m (minuend + i)) (m (subtrahend + i)) borrow of
       (d, borrow) \<Rightarrow> (m(difference + i := d), borrow))"

definition bigUIntSubWithBorrow :: "nat \<Rightarrow> nat \<Rightarrow> nat \<Rightarrow> nat \<Rightarrow> memory \<Rightarrow> memory \<times> u256" where
  "bigUIntSubWithBorrow minuend subtrahend nLimbs difference m =
     fold (sub_limb minuend subtrahend difference) (rev [0..<nLimbs]) (m, 0)"

text \<open>The inner loop of the multiplication: \<^verbatim>\<open>w1\<close> and \<^verbatim>\<open>w2\<close> are where the factors of the limb are, \<^verbatim>\<open>ret\<close> is where it is added.\<close>

definition mul_limb :: "nat \<Rightarrow> nat \<Rightarrow> nat \<Rightarrow> memory \<times> u256 \<Rightarrow> memory \<times> u256" where
  "mul_limb w1 w2 ret = (\<lambda>(m, carry).
     case overflowingAdd (m w1 * m w2) carry of
       (product, carryFlag) \<Rightarrow>
         (case overflowingAdd (m ret) product of
            (retWordAfter, carryFlag') \<Rightarrow>
              (m(ret := retWordAfter),
               mul_high (m w1) (m w2) + (if carryFlag then 1 else 0) + (if carryFlag' then 1 else 0))))"

definition mul_row :: "nat \<Rightarrow> nat \<Rightarrow> nat \<Rightarrow> nat \<Rightarrow> nat \<Rightarrow> memory \<Rightarrow> memory" where
  "mul_row multiplicand multiplier nLimbs product i m =
     (case fold (\<lambda>j. mul_limb (multiplicand + i) (multiplier + j) (product + i + 1 + j)) (rev [0..<nLimbs]) (m, 0) of
        (m, carry) \<Rightarrow> m(product + i := carry))"

definition bigUIntMul :: "nat \<Rightarrow> nat \<Rightarrow> nat \<Rightarrow> nat \<Rightarrow> memory \<Rightarrow> memory" where
  "bigUIntMul multiplicand multiplier nLimbs product m =
     fold (mul_row multiplicand multiplier nLimbs product) (rev [0..<nLimbs]) (zeroWithLimbSizeAt (2 * nLimbs) product m)"

function UIntBitSize :: "u256 \<Rightarrow> nat" where
  "UIntBitSize number = (if 0 < number then Suc (UIntBitSize (drop_bit 1 number)) else 0)"
  by pat_completeness auto

termination UIntBitSize
proof (relation "measure unat")
  fix number :: u256
  assume "0 < number"
  then have "unat number div 2 < unat number"
    by (simp add: word_gt_0 unat_gt_0)
  then show "(drop_bit 1 number, number) \<in> measure unat"
    by (simp add: drop_bit_eq_div unat_div_distrib)
qed simp

declare UIntBitSize.simps [simp del]

text \<open>The limbs before the first that is not zero are skipped.\<close>

fun bigUIntBitSize :: "nat \<Rightarrow> nat \<Rightarrow> memory \<Rightarrow> nat" where
  "bigUIntBitSize p 0 m = 0"
| "bigUIntBitSize p (Suc nLimbs) m =
     (if m p \<noteq> 0 \<or> nLimbs = 0 then 256 * nLimbs + UIntBitSize (m p) else bigUIntBitSize (Suc p) nLimbs m)"

definition bigUIntInPlaceOrWith1 :: "nat \<Rightarrow> nat \<Rightarrow> memory \<Rightarrow> memory" where
  "bigUIntInPlaceOrWith1 p nLimbs m = m(p + (nLimbs - 1) := m (p + (nLimbs - 1)) OR 1)"

definition shift_limb :: "nat \<Rightarrow> nat \<Rightarrow> memory \<times> u256 \<Rightarrow> memory \<times> u256" where
  "shift_limb p i = (\<lambda>(m, carryBit). (m(p + i := drop_bit 1 (m (p + i)) OR carryBit), push_bit 255 (m (p + i) AND 1)))"

definition bigUIntOneShiftRight :: "nat \<Rightarrow> nat \<Rightarrow> memory \<Rightarrow> memory" where
  "bigUIntOneShiftRight p nLimbs m = fst (fold (shift_limb p) [0..<nLimbs] (m, 0))"

text \<open>The two loops of the shift to the left: whole words, and words with the first bits of the word that follows.\<close>

definition move_limb :: "nat \<Rightarrow> nat \<Rightarrow> nat \<Rightarrow> nat \<Rightarrow> memory \<Rightarrow> memory" where
  "move_limb number shifted limbsToShiftOut i m = m(shifted + (i - limbsToShiftOut) := m (number + i))"

definition move_bits :: "nat \<Rightarrow> nat \<Rightarrow> nat \<Rightarrow> nat \<Rightarrow> nat \<Rightarrow> memory \<Rightarrow> memory" where
  "move_bits effectiveShifts number shifted limbsToShiftOut i m =
     m(shifted + (i - limbsToShiftOut) :=
         drop_bit (256 - effectiveShifts) (m (number + i + 1)) OR push_bit effectiveShifts (m (number + i)))"

definition bigUIntShl :: "nat \<Rightarrow> u256 \<Rightarrow> nat \<Rightarrow> nat \<Rightarrow> nat \<Rightarrow> memory \<Rightarrow> memory option" where
  "bigUIntShl heap shift number nLimbs shifted m =
     (if shift = 0 then
        Some (if number \<noteq> shifted then fold (move_limb number shifted 0) [0..<nLimbs] m else m)
      else
        let effectiveShifts = unat shift mod 256;
            limbsToShiftOut = unat shift div 256;
            filled = shifted + (nLimbs - limbsToShiftOut)
        in if effectiveShifts = 0 then
             if filled + limbsToShiftOut > heap then None
             else Some (zeroWithLimbSizeAt limbsToShiftOut filled
               (fold (move_limb number shifted limbsToShiftOut) [limbsToShiftOut..<nLimbs] m))
           else
             if filled + 1 + limbsToShiftOut > heap then None
             else
               let m = fold (move_bits effectiveShifts number shifted limbsToShiftOut) [limbsToShiftOut..<nLimbs] m
               in Some (zeroWithLimbSizeAt limbsToShiftOut (filled + 1)
                    (m(filled := push_bit effectiveShifts (m filled)))))"

text \<open>The loop of the division, from the largest shift of the divisor down to none.\<close>

definition rem_step :: "nat \<Rightarrow> nat \<Rightarrow> nat \<Rightarrow> nat \<Rightarrow> memory \<Rightarrow> memory" where
  "rem_step r tmp_1 tmp_2 nLimbs m =
     (case bigUIntSubWithBorrow r tmp_1 nLimbs tmp_2 m of
        (m, borrow) \<Rightarrow> if borrow = 0 then copyBigUint nLimbs tmp_2 r m else m)"

fun rem_loop :: "nat \<Rightarrow> nat \<Rightarrow> nat \<Rightarrow> nat \<Rightarrow> nat \<Rightarrow> memory \<Rightarrow> memory" where
  "rem_loop 0 r tmp_1 tmp_2 nLimbs m = rem_step r tmp_1 tmp_2 nLimbs m"
| "rem_loop (Suc bd) r tmp_1 tmp_2 nLimbs m =
     rem_loop bd r tmp_1 tmp_2 nLimbs (bigUIntOneShiftRight tmp_1 nLimbs (rem_step r tmp_1 tmp_2 nLimbs m))"

definition bigUIntRem ::
  "nat \<Rightarrow> nat \<Rightarrow> nat \<Rightarrow> nat \<Rightarrow> nat \<Rightarrow> nat \<Rightarrow> nat \<Rightarrow> nat \<Rightarrow> nat \<Rightarrow> memory \<Rightarrow> memory option" where
  "bigUIntRem heap dividend divisor tmp_1 tmp_2 nLimbs realLimbs modulusBitSize r m =
     (let m = zeroWithLimbSizeAt nLimbs tmp_2 (zeroWithLimbSizeAt nLimbs tmp_1 m);
          m = copyBigUint nLimbs dividend r m;
          bd = of_nat (256 * realLimbs) - of_nat modulusBitSize
      in Option.bind (bigUIntShl heap bd divisor nLimbs tmp_1 m)
           (\<lambda>m. Some (rem_loop (unat bd) r tmp_1 tmp_2 nLimbs m)))"

definition bigUIntIsGreaterThanOne :: "nat \<Rightarrow> nat \<Rightarrow> memory \<Rightarrow> bool" where
  "bigUIntIsGreaterThanOne nLimbs p m =
     (m (p + (nLimbs - 1)) > 1 \<or> list_ex (\<lambda>i. 0 < m (p + i)) (rev [0..<nLimbs - 1]))"

definition bigUIntModTwo :: "nat \<Rightarrow> nat \<Rightarrow> memory \<Rightarrow> bool" where
  "bigUIntModTwo nLimbs p m = (m (p + (nLimbs - 1)) AND 1 \<noteq> 0)"

definition bigUIntLowerHalfPtr :: "nat \<Rightarrow> nat \<Rightarrow> nat" where
  "bigUIntLowerHalfPtr nLimbs p = p + nLimbs div 2"

section \<open>Exponentiation\<close>

text \<open>One pass of the loop over the bits of the exponent.\<close>

definition exp_step ::
  "nat \<Rightarrow> nat \<Rightarrow> nat \<Rightarrow> nat \<Rightarrow> nat \<Rightarrow> nat \<Rightarrow> nat \<Rightarrow> nat \<Rightarrow> nat \<Rightarrow> nat \<Rightarrow> memory \<Rightarrow> memory option" where
  "exp_step heap nLimbs base ex modulus result buf1 buf2 buf3 modulusBitSize m =
     (let base_low = bigUIntLowerHalfPtr nLimbs base
      in Option.bind
           (if bigUIntModTwo nLimbs ex m then
              let result_low = bigUIntLowerHalfPtr nLimbs result;
                  m = bigUIntMul result_low base_low (nLimbs div 2) buf1 m;
                  limbsToRem = bigIntLimbsWithoutZeros buf1 nLimbs m
              in bigUIntRem heap buf1 modulus buf3 buf2 nLimbs limbsToRem modulusBitSize result m
            else Some m)
           (\<lambda>m.
             let m = bigUIntOneShiftRight ex nLimbs m;
                 m = bigUIntMul base_low base_low (nLimbs div 2) buf2 m;
                 limbsToRem = bigIntLimbsWithoutZeros buf2 nLimbs m
             in bigUIntRem heap buf2 modulus buf1 buf3 nLimbs limbsToRem modulusBitSize base m))"

fun exp_loop ::
  "nat \<Rightarrow> nat \<Rightarrow> nat \<Rightarrow> nat \<Rightarrow> nat \<Rightarrow> nat \<Rightarrow> nat \<Rightarrow> nat \<Rightarrow> nat \<Rightarrow> nat \<Rightarrow> nat \<Rightarrow> memory \<Rightarrow> memory option" where
  "exp_loop 0 heap nLimbs base ex modulus result buf1 buf2 buf3 modulusBitSize m = Some m"
| "exp_loop (Suc k) heap nLimbs base ex modulus result buf1 buf2 buf3 modulusBitSize m =
     Option.bind (exp_step heap nLimbs base ex modulus result buf1 buf2 buf3 modulusBitSize m)
       (exp_loop k heap nLimbs base ex modulus result buf1 buf2 buf3 modulusBitSize)"

text \<open>After the first reduction \<^verbatim>\<open>base\<close> and the third buffer change places.\<close>

definition bigUIntModularExponentiation ::
  "nat \<Rightarrow> nat \<Rightarrow> nat \<Rightarrow> nat \<Rightarrow> nat \<Rightarrow> nat \<Rightarrow> nat \<Rightarrow> nat \<Rightarrow> nat \<Rightarrow> memory \<Rightarrow> memory option" where
  "bigUIntModularExponentiation heap nLimbs base ex modulus result buf1 buf2 buf3 m =
     (if bigUIntIsGreaterThanOne nLimbs modulus m then
        let m = bigUIntInPlaceOrWith1 result nLimbs m;
            modulusBitSize = bigUIntBitSize modulus nLimbs m;
            exponentBitSize = bigUIntBitSize ex nLimbs m;
            limbsToRem = bigIntLimbsWithoutZeros base nLimbs m
        in Option.bind (bigUIntRem heap base modulus buf1 buf2 nLimbs limbsToRem modulusBitSize buf3 m)
             (exp_loop exponentBitSize heap nLimbs buf3 ex modulus result buf1 buf2 base modulusBitSize)
      else Some m)"

section \<open>The calldata\<close>

definition calldatabyte :: "bytes \<Rightarrow> nat \<Rightarrow> u8" where
  "calldatabyte cd k = (if k < length cd then cd ! k else 0)"

definition calldataload :: "bytes \<Rightarrow> nat \<Rightarrow> u256" where
  "calldataload cd p = from_be_bytes 0 (map (\<lambda>k. calldatabyte cd (p + k)) [0..<32])"

text \<open>The loop over the words of a buffer that are complete.\<close>

fun wordsAreZero :: "nat \<Rightarrow> bytes \<Rightarrow> u256 \<Rightarrow> u256 \<Rightarrow> bool option" where
  "wordsAreZero 0 cd ptr stop = (if ptr < stop then None else Some True)"
| "wordsAreZero (Suc fuel) cd ptr stop =
     (if ptr < stop then
        if calldataload cd (unat ptr) \<noteq> 0 then Some False else wordsAreZero fuel cd (ptr + 32) stop
      else Some True)"

text \<open>The last word is cut to the bytes that belong to the number.\<close>

definition callDataBufferIsZero :: "nat \<Rightarrow> bytes \<Rightarrow> u256 \<Rightarrow> u256 \<Rightarrow> bool option" where
  "callDataBufferIsZero heap cd start len =
     (let lastWordBytes = len mod 32;
          endOfLastFullWord = start + len - lastWordBytes;
          bits = 8 * unat lastWordBytes
      in Option.bind (wordsAreZero heap cd start endOfLastFullWord) (\<lambda>res.
           Some (if lastWordBytes \<noteq> 0 \<and>
                    drop_bit (256 - bits) (calldataload cd (unat endOfLastFullWord)) AND (push_bit bits 1 - 1) \<noteq> 0
                 then False else res)))"

definition callDataBufferIsOne :: "nat \<Rightarrow> bytes \<Rightarrow> u256 \<Rightarrow> u256 \<Rightarrow> bool option" where
  "callDataBufferIsOne heap cd start len =
     (if len \<noteq> 0 then
        Option.bind (callDataBufferIsZero heap cd start (len - 1)) (\<lambda>otherBytesAreZeroes.
          Some (calldatabyte cd (unat (start + len - 1)) = 1 \<and> otherBytesAreZeroes))
      else Some False)"

definition copy_limb :: "bytes \<Rightarrow> u256 \<Rightarrow> nat \<Rightarrow> nat \<Rightarrow> memory \<Rightarrow> memory" where
  "copy_limb cd ptr res i m = m(res + i := calldataload cd (unat (ptr + of_nat (32 * i))))"

definition parseCalldata :: "nat \<Rightarrow> bytes \<Rightarrow> u256 \<Rightarrow> u256 \<Rightarrow> nat \<Rightarrow> memory \<Rightarrow> memory option" where
  "parseCalldata heap cd p len res m =
     (let numberOfLimbs = unat len div 32;
          lastLimbBytes = unat len mod 32;
          firstLimbExtraBytes = 32 - lastLimbBytes
      in if res + bigIntLimbs (unat len) > heap then None
         else Some
           (if lastLimbBytes \<noteq> 0 then
              let extra = 8 * firstLimbExtraBytes;
                  limb = calldataload cd (unat (p - of_nat firstLimbExtraBytes));
                  m = m(res := drop_bit extra (push_bit extra limb))
              in fold (copy_limb cd (p + of_nat lastLimbBytes) (res + 1)) [0..<numberOfLimbs] m
            else fold (copy_limb cd p res) [0..<numberOfLimbs] m))"

definition bigUIntPadWithZeros :: "nat \<Rightarrow> nat \<Rightarrow> nat \<Rightarrow> nat \<Rightarrow> memory \<Rightarrow> memory" where
  "bigUIntPadWithZeros p currentLimbNumber newLimbNumber result =
     fold (\<lambda>i m. m(result + (newLimbNumber - 1 - i) := m (p + (currentLimbNumber - 1 - i)))) [0..<currentLimbNumber]"

section \<open>The contract\<close>

definition mulmod :: "u256 \<Rightarrow> u256 \<Rightarrow> u256 \<Rightarrow> u256" where
  "mulmod a b n = (if n = 0 then 0 else of_int (uint a * uint b mod uint n))"

function one_limb_loop :: "u256 \<Rightarrow> u256 \<Rightarrow> u256 \<Rightarrow> u256 \<Rightarrow> u256" where
  "one_limb_loop pow base exponent modulus =
     (if exponent > 0 then
        one_limb_loop (if exponent mod 2 = 1 then mulmod pow base modulus else pow) (mulmod base base modulus)
          (drop_bit 1 exponent) modulus
      else pow)"
  by pat_completeness auto

termination one_limb_loop
proof (relation "measure (\<lambda>(pow, base, exponent, modulus). unat exponent)")
  fix exponent :: u256
  assume "exponent > 0"
  then have "unat exponent div 2 < unat exponent"
    by (simp add: word_gt_0 unat_gt_0)
  then show "((pow', base', drop_bit 1 exponent, modulus), pow, base, exponent, modulus) \<in>
      measure (\<lambda>(pow, base, exponent, modulus). unat exponent)" for pow' base' pow base modulus :: u256
    by (simp add: drop_bit_eq_div unat_div_distrib)
qed simp

declare one_limb_loop.simps [simp del]

definition oneLimbImplementation :: "bytes \<Rightarrow> u256" where
  "oneLimbImplementation cd =
     (let base = calldataload cd 96;
          exponent = calldataload cd 128;
          modulus = calldataload cd 160
      in if modulus < 2 \<or> base = 0 then 0
         else if base = 1 \<or> exponent = 0 then 1
         else one_limb_loop 1 (base mod modulus) exponent modulus)"

text \<open>The bytes of an array from its first word on.\<close>

definition memory_bytes :: "nat \<Rightarrow> nat \<Rightarrow> memory \<Rightarrow> bytes" where
  "memory_bytes p nLimbs m = concat (map (\<lambda>i. to_be_bytes (m (p + i))) [0..<nLimbs])"

text \<open>A result of zeros but for the last byte, written after the memory has been cleared as far as the result goes.\<close>

definition small_result :: "nat \<Rightarrow> nat \<Rightarrow> nat \<Rightarrow> bytes option" where
  "small_result heap modLen b =
     (if 32 * heap < modLen then None
      else Some (replicate (modLen - 1) 0 @ replicate (min modLen 1) (of_nat b)))"

text \<open>The path of several words, from the parsing of the calldata on.\<close>

definition modExp_arrays :: "nat \<Rightarrow> nat \<Rightarrow> nat \<Rightarrow> nat \<Rightarrow> nat \<Rightarrow> memory \<Rightarrow> bytes option" where
  "modExp_arrays heap limbsBaseLen limbsExpLen limbsModLen modLen m =
     (let ptrExpLimbs = limbsBaseLen;
          ptrModLimbs = ptrExpLimbs + limbsExpLen;
          maxLimbNumber = max (max limbsBaseLen limbsExpLen) limbsModLen;
          maxLimbNumber = maxLimbNumber + maxLimbNumber;
          baseStart = ptrModLimbs + limbsModLen;
          exponentStart = baseStart + maxLimbNumber;
          moduloStart = exponentStart + maxLimbNumber;
          m = bigUIntPadWithZeros 0 limbsBaseLen maxLimbNumber baseStart m;
          m = bigUIntPadWithZeros ptrExpLimbs limbsExpLen maxLimbNumber exponentStart m;
          m = bigUIntPadWithZeros ptrModLimbs limbsModLen maxLimbNumber moduloStart m;
          buf1 = moduloStart + maxLimbNumber;
          buf2 = buf1 + maxLimbNumber;
          buf3 = buf2 + maxLimbNumber;
          result = buf3 + maxLimbNumber
      in if result + maxLimbNumber > heap then None
         else Option.bind
           (bigUIntModularExponentiation heap maxLimbNumber baseStart exponentStart moduloStart result buf1 buf2 buf3 m)
           (\<lambda>m. Some (drop (32 * maxLimbNumber - modLen) (memory_bytes result maxLimbNumber m))))"

definition modExp_limbs :: "nat \<Rightarrow> bytes \<Rightarrow> u256 \<Rightarrow> u256 \<Rightarrow> u256 \<Rightarrow> bytes option" where
  "modExp_limbs heap cd baseLen expLen modLen =
     (let basePtr = 96;
          expPtr = basePtr + baseLen;
          modPtr = expPtr + expLen;
          limbsBaseLen = bigIntLimbs (unat baseLen);
          limbsExpLen = bigIntLimbs (unat expLen);
          limbsModLen = bigIntLimbs (unat modLen);
          ptrExpLimbs = limbsBaseLen;
          ptrModLimbs = ptrExpLimbs + limbsExpLen
      in Option.bind (parseCalldata heap cd basePtr baseLen 0 (\<lambda>_. 0)) (\<lambda>m.
         Option.bind (parseCalldata heap cd expPtr expLen ptrExpLimbs m) (\<lambda>m.
         Option.bind (parseCalldata heap cd modPtr modLen ptrModLimbs m) (\<lambda>m.
           modExp_arrays heap limbsBaseLen limbsExpLen limbsModLen (unat modLen) m))))"

text \<open>The answers that need no arrays. \<^verbatim>\<open>or\<close> evaluates both of its arguments.\<close>

definition modExp_general :: "nat \<Rightarrow> bytes \<Rightarrow> u256 \<Rightarrow> u256 \<Rightarrow> u256 \<Rightarrow> bytes option" where
  "modExp_general heap cd baseLen expLen modLen =
     (let basePtr = 96;
          expPtr = basePtr + baseLen;
          modPtr = expPtr + expLen
      in Option.bind (callDataBufferIsZero heap cd modPtr modLen) (\<lambda>modIsZero.
         Option.bind (callDataBufferIsOne heap cd modPtr modLen) (\<lambda>modIsOne.
         if modIsZero \<or> modIsOne then small_result heap (unat modLen) 0
         else Option.bind (callDataBufferIsOne heap cd basePtr baseLen) (\<lambda>baseIsOne.
         if baseIsOne then small_result heap (unat modLen) 1
         else Option.bind (callDataBufferIsZero heap cd expPtr expLen) (\<lambda>expIsZero.
         if expIsZero then small_result heap (unat modLen) 1
         else Option.bind (callDataBufferIsZero heap cd basePtr baseLen) (\<lambda>baseIsZero.
         if baseIsZero then small_result heap (unat modLen) 0
         else modExp_limbs heap cd baseLen expLen modLen))))))"

definition modExp :: "nat \<Rightarrow> bytes \<Rightarrow> bytes option" where
  "modExp heap cd =
     (let baseLen = calldataload cd 0;
          expLen = calldataload cd 32;
          modLen = calldataload cd 64
      in if baseLen = 0 \<and> modLen = 0 then Some []
         else if baseLen = 32 \<and> expLen = 32 \<and> modLen = 32 then Some (to_be_bytes (oneLimbImplementation cd))
         else modExp_general heap cd baseLen expLen modLen)"

section \<open>One word\<close>

lemma uint_mulmod: "0 < uint n \<Longrightarrow> uint (mulmod a b n) = uint a * uint b mod uint n"
proof -
  assume n: "0 < uint n"
  then have "0 \<le> uint a * uint b mod uint n" "uint a * uint b mod uint n < R256"
    using order.strict_trans [OF pos_mod_bound [OF n, of "uint a * uint b"] uint_bounds(1) [of n]] by simp_all
  then show ?thesis
    using n by (auto simp: mulmod_def uint_of_int)
qed

lemma uint_drop_one: "uint (drop_bit 1 (k :: u256)) = uint k div 2"
  by (simp add: drop_bit_eq_div uint_div_distrib)

lemma odd_word: "k mod 2 = (1 :: u256) \<longleftrightarrow> odd (uint k)"
  by (simp add: word_uint_eq_iff uint_mod_distrib odd_iff_mod_2_eq_one)

lemma square_and_multiply:
  fixes b n :: int
  assumes "0 < k"
  shows "(if odd k then p * b mod n else p) * (b * b mod n) ^ nat (k div 2) mod n = p * b ^ nat k mod n"
proof -
  have k: "nat k = 2 * nat (k div 2) + (if odd k then 1 else 0)"
    using assms by (auto elim!: oddE evenE)
  have "(b * b mod n) ^ e mod n = b ^ (2 * e) mod n" for e
    by (simp add: power_mod power_mult power2_eq_square)
  then have "q * (b * b mod n) ^ e mod n = q * b ^ (2 * e) mod n" for q e
    by (metis mod_mult_right_eq)
  then show ?thesis
    unfolding k by (auto simp: mod_mult_left_eq power_add ac_simps)
qed

lemma one_limb_loop_value:
  assumes "0 < uint modulus" and "uint pow < uint modulus"
  shows "uint (one_limb_loop pow base exponent modulus) = uint pow * uint base ^ nat (uint exponent) mod uint modulus"
  using assms
proof (induction pow base exponent modulus rule: one_limb_loop.induct)
  case (1 pow base exponent modulus)
  let ?pow = "if exponent mod 2 = 1 then mulmod pow base modulus else pow"
  show ?case
  proof (cases "exponent > 0")
    case True
    have pow: "uint ?pow = (if odd (uint exponent) then uint pow * uint base mod uint modulus else uint pow)"
      using 1(2) by (simp add: odd_word uint_mulmod)
    then have "uint ?pow < uint modulus"
      using 1(2,3) by simp
    then have "uint (one_limb_loop ?pow (mulmod base base modulus) (drop_bit 1 exponent) modulus) =
        uint ?pow * (uint base * uint base mod uint modulus) ^ nat (uint exponent div 2) mod uint modulus"
      using 1(1) [OF True] 1(2) by (simp only: uint_mulmod uint_drop_one)
    also have "\<dots> = uint pow * uint base ^ nat (uint exponent) mod uint modulus"
      unfolding pow using True by (intro square_and_multiply) (simp add: word_less_def)
    finally show ?thesis
      using True by (subst one_limb_loop.simps) simp
  next
    case False
    then have "exponent = 0"
      by (simp add: word_gt_0)
    then show ?thesis
      using 1(2,3) by (subst one_limb_loop.simps) simp
  qed
qed

lemma oneLimbImplementation_value:
  "uint (oneLimbImplementation cd) =
     (let b = uint (calldataload cd 96); e = uint (calldataload cd 128); n = uint (calldataload cd 160)
      in if n = 0 \<or> b = 0 then 0 else b ^ nat e mod n)"
proof -
  define b e n where "b = calldataload cd 96" and "e = calldataload cd 128" and "n = calldataload cd 160"
  have "0 \<le> uint n"
    by simp
  then have "uint n < 2 \<longleftrightarrow> uint n = 0 \<or> uint n = 1"
    by linarith
  then have n: "n < 2 \<longleftrightarrow> uint n = 0 \<or> uint n = 1"
    by (simp add: word_less_def)
  show ?thesis
  proof (cases "n < 2 \<or> b = 0")
    case True
    then show ?thesis
      using n by (auto simp: oneLimbImplementation_def b_def e_def n_def Let_def)
  next
    case False
    then have m: "0 < uint n" "uint (1 :: u256) < uint n"
      by (simp_all add: not_less word_le_def)
    have "uint (b mod n) = uint b mod uint n"
      by (simp add: uint_mod_distrib)
    then have "uint (one_limb_loop 1 (b mod n) e n) = uint b ^ nat (uint e) mod uint n"
      using one_limb_loop_value [OF m, of "b mod n" e] by (simp add: power_mod)
    moreover have "uint (1 :: u256) = uint b ^ nat (uint e) mod uint n" if "b = 1 \<or> e = 0"
      using that m by auto
    ultimately have "uint (if b = 1 \<or> e = 0 then 1 else one_limb_loop 1 (b mod n) e n) = uint b ^ nat (uint e) mod uint n"
      by (cases "b = 1 \<or> e = 0") (simp_all only: if_True if_False)
    moreover have "oneLimbImplementation cd = (if b = 1 \<or> e = 0 then 1 else one_limb_loop 1 (b mod n) e n)"
      using False by (simp only: oneLimbImplementation_def b_def [symmetric] e_def [symmetric] n_def [symmetric] Let_def if_False)
    moreover have "uint n \<noteq> 0" "uint b \<noteq> 0"
      using False m(1) by (simp_all add: word_uint_eq_iff)
    ultimately show ?thesis
      by (simp only: b_def [symmetric] e_def [symmetric] n_def [symmetric] Let_def) simp
  qed
qed

section \<open>Several words\<close>

text \<open>The number in an array, its most significant word first.\<close>

fun val :: "memory \<Rightarrow> nat \<Rightarrow> nat \<Rightarrow> int" where
  "val m p 0 = 0"
| "val m p (Suc n) = val m p n * R256 + uint (m (p + n))"

lemma val_cong: "(\<And>i. i < n \<Longrightarrow> m (p + i) = m' (p' + i)) \<Longrightarrow> val m p n = val m' p' n"
  by (induction n) simp_all

lemma val_split: "val m p (k + l) = val m p k * R256 ^ l + val m (p + k) l"
  by (induction l) (simp_all add: algebra_simps)

lemma val_first: "val m p (Suc n) = uint (m p) * R256 ^ n + val m (Suc p) n"
  using val_split [of m p 1 n] by simp

lemma zero_limbs: "zeroWithLimbSizeAt n p m k = (if p \<le> k \<and> k < p + n then 0 else m k)"
  unfolding zeroWithLimbSizeAt_def by (induction n) (auto simp: less_Suc_eq)

lemma val_zero: "(\<And>i. i < n \<Longrightarrow> m (p + i) = 0) \<Longrightarrow> val m p n = 0"
  by (induction n) simp_all

text \<open>One product is added to a word and a carry, exactly.\<close>

lemma mul_limb_value:
  assumes "mul_limb w1 w2 r (m, c) = (m', c')"
  shows "uint c' * R256 + uint (m' r) = uint (m r) + uint (m w1) * uint (m w2) + uint c"
    and "k \<noteq> r \<Longrightarrow> m' k = m k"
proof -
  obtain p f where f: "overflowingAdd (m w1 * m w2) c = (p, f)"
    by fastforce
  obtain q g where g: "overflowingAdd (m r) p = (q, g)"
    by fastforce
  have m': "m' = m(r := q)" and c': "c' = mul_high (m w1) (m w2) + (if f then 1 else 0) + (if g then 1 else 0)"
    using assms by (simp_all add: mul_limb_def f g)
  note fg = overflowing_cases [OF f] overflowing_cases [OF g] and hl = product_halves [of "m w1" "m w2"]
  have sum: "(uint (mul_high (m w1) (m w2)) + (if f then 1 else 0) + (if g then 1 else 0)) * R256 + uint q =
      uint (m r) + uint (m w1) * uint (m w2) + uint c"
    using fg hl by (auto simp: algebra_simps split: if_splits)
  have "uint (m w1) * uint (m w2) \<le> (R256 - 1) * (R256 - 1)"
    using uint_bounds(1) [of "m w1"] uint_bounds(1) [of "m w2"] by (intro mult_mono) simp_all
  then have "uint (m w1) * uint (m w2) \<le> R256 * R256 - 2 * R256 + 1"
    by (simp add: algebra_simps)
  then have "(uint (mul_high (m w1) (m w2)) + (if f then 1 else 0) + (if g then 1 else 0)) * R256 < R256 * R256"
    using sum uint_bounds(1) [of "m r"] uint_bounds(1) [of c] uint_bounds(2) [of q] by linarith
  then have small: "uint (mul_high (m w1) (m w2)) + (if f then 1 else 0) + (if g then 1 else 0) < R256"
    by simp
  have "uint c' = uint (mul_high (m w1) (m w2)) + (if f then 1 else 0) + (if g then 1 else 0)"
    using small unfolding c' by (cases f; cases g) (simp_all add: uint_add_le)
  then show "uint c' * R256 + uint (m' r) = uint (m r) + uint (m w1) * uint (m w2) + uint c"
    using sum by (simp add: m')
  show "k \<noteq> r \<Longrightarrow> m' k = m k"
    by (simp add: m')
qed

text \<open>A row adds the product of one word with a number.\<close>

lemma mul_row_value:
  assumes "fold (\<lambda>j. mul_limb a (b + j) (q + j)) (rev [0..<n]) (m, c) = (m', c')"
    and "a < q \<or> q + n \<le> a" and "b + n \<le> q \<or> q + n \<le> b"
  shows "val m' q n + uint c' * R256 ^ n = val m q n + uint (m a) * val m b n + uint c \<and>
    (\<forall>k. k < q \<or> q + n \<le> k \<longrightarrow> m' k = m k)"
  using assms
proof (induction n arbitrary: m c)
  case (Suc n)
  obtain m1 c1 where s: "mul_limb a (b + n) (q + n) (m, c) = (m1, c1)"
    by fastforce
  note l = mul_limb_value [OF s]
  have rest: "fold (\<lambda>j. mul_limb a (b + j) (q + j)) (rev [0..<n]) (m1, c1) = (m', c')"
    using Suc.prems(1) s by simp
  have ih: "val m' q n + uint c' * R256 ^ n = val m1 q n + uint (m1 a) * val m1 b n + uint c1"
      "\<forall>k. k < q \<or> q + n \<le> k \<longrightarrow> m' k = m1 k"
    using Suc.IH [OF rest] Suc.prems(2,3) by auto
  have same: "val m1 q n = val m q n" "val m1 b n = val m b n" "m1 a = m a" "m' (q + n) = m1 (q + n)"
    using Suc.prems(2,3) l(2) ih(2) by (auto intro!: val_cong)
  have "val m' q (Suc n) + uint c' * R256 ^ Suc n = (val m' q n + uint c' * R256 ^ n) * R256 + uint (m1 (q + n))"
    using same by (simp add: algebra_simps)
  also have "\<dots> = (val m q n + uint (m a) * val m b n) * R256 + (uint c1 * R256 + uint (m1 (q + n)))"
    unfolding ih(1) same by (simp add: algebra_simps)
  also have "\<dots> = val m q (Suc n) + uint (m a) * val m b (Suc n) + uint c"
    unfolding l(1) by (simp add: algebra_simps)
  finally show ?case
    using ih(2) l(2) by auto
qed simp

lemma mul_rows_value:
  assumes "i \<le> n" and "a + n \<le> p \<or> p + 2 * n \<le> a" and "b + n \<le> p \<or> p + 2 * n \<le> b"
    and "\<And>k. k < 2 * n \<Longrightarrow> m (p + k) = 0"
  defines "m' \<equiv> fold (mul_row a b n p) (rev [i..<n]) m"
  shows "val m' (p + i) (2 * n - i) = val m (a + i) (n - i) * val m b n \<and>
    (\<forall>k < i. m' (p + k) = 0) \<and> (\<forall>k. k < p \<or> p + 2 * n \<le> k \<longrightarrow> m' k = m k)"
  using assms(1) unfolding m'_def
proof (induction "n - i" arbitrary: i)
  case 0
  then have "i = n"
    by simp
  moreover have "val m (p + n) n = 0"
    by (rule val_zero) (use assms(4) [of "n + _"] in \<open>simp add: add.assoc\<close>)
  ultimately show ?case
    using assms(4) by simp
next
  case (Suc d)
  let ?m = "fold (mul_row a b n p) (rev [Suc i..<n]) m"
  have ih: "val ?m (p + Suc i) (2 * n - Suc i) = val m (a + Suc i) (n - Suc i) * val m b n"
      "\<forall>k < Suc i. ?m (p + k) = 0" "\<forall>k. k < p \<or> p + 2 * n \<le> k \<longrightarrow> ?m k = m k"
    using Suc.hyps(1) [of "Suc i"] Suc.hyps(2) by auto
  have i: "i < n"
    using Suc.hyps(2) by simp
  obtain m1 c where f: "fold (\<lambda>j. mul_limb (a + i) (b + j) (p + i + 1 + j)) (rev [0..<n]) (?m, 0) = (m1, c)"
    by fastforce
  have row: "fold (mul_row a b n p) (rev [i..<n]) m = m1(p + i := c)"
    using i f by (simp add: upt_rec [of i] mul_row_def)
  have r: "val m1 (p + i + 1) n + uint c * R256 ^ n = val ?m (p + i + 1) n + uint (?m (a + i)) * val ?m b n"
      "\<forall>k. k < p + i + 1 \<or> p + i + 1 + n \<le> k \<longrightarrow> m1 k = ?m k"
    using mul_row_value [OF f] assms(2,3) i by auto
  have same: "?m (a + i) = m (a + i)" "val ?m b n = val m b n"
    using ih(3) assms(2,3) i by (auto intro!: val_cong)
  let ?l = "n - Suc i"
  have len: "2 * n - i = Suc (n + ?l)" "2 * n - Suc i = n + ?l" "n - i = Suc ?l"
    using i by simp_all
  have low: "val (m1(p + i := c)) (p + i + 1 + n) ?l = val ?m (p + i + 1 + n) ?l"
    using r(2) by (intro val_cong) simp
  have high: "val (m1(p + i := c)) (p + i + 1) n = val m1 (p + i + 1) n"
    by (intro val_cong) simp
  have "val (m1(p + i := c)) (p + i) (2 * n - i) =
      uint c * R256 ^ (n + ?l) + (val m1 (p + i + 1) n * R256 ^ ?l + val ?m (p + i + 1 + n) ?l)"
    unfolding len val_first using val_split [of "m1(p + i := c)" "p + i + 1" n ?l] low high by simp
  also have "\<dots> = (val m1 (p + i + 1) n + uint c * R256 ^ n) * R256 ^ ?l + val ?m (p + i + 1 + n) ?l"
    by (simp add: power_add algebra_simps)
  also have "\<dots> = val ?m (p + i + 1) (n + ?l) + uint (m (a + i)) * val m b n * R256 ^ ?l"
    unfolding r(1) same val_split by (simp add: algebra_simps)
  also have "\<dots> = val m (a + i) (n - i) * val m b n"
    using ih(1) unfolding len val_first by (simp add: algebra_simps)
  finally show ?case
    unfolding row using ih(2,3) r(2) i by auto
qed

lemma bigUIntMul_value:
  assumes "a + n \<le> p \<or> p + 2 * n \<le> a" and "b + n \<le> p \<or> p + 2 * n \<le> b"
  shows "val (bigUIntMul a b n p m) p (2 * n) = val m a n * val m b n"
    and "k < p \<or> p + 2 * n \<le> k \<Longrightarrow> bigUIntMul a b n p m k = m k"
proof -
  let ?z = "zeroWithLimbSizeAt (2 * n) p m"
  have z: "val ?z a n = val m a n" "val ?z b n = val m b n"
    using assms by (auto intro!: val_cong simp: zero_limbs)
  have rows: "val (bigUIntMul a b n p m) p (2 * n) = val ?z a n * val ?z b n \<and>
      (\<forall>k. k < p \<or> p + 2 * n \<le> k \<longrightarrow> bigUIntMul a b n p m k = ?z k)"
    using mul_rows_value [of 0 n a p b ?z] assms by (simp add: bigUIntMul_def zero_limbs)
  then show "val (bigUIntMul a b n p m) p (2 * n) = val m a n * val m b n"
    by (simp add: z)
  show "k < p \<or> p + 2 * n \<le> k \<Longrightarrow> bigUIntMul a b n p m k = m k"
    using rows by (auto simp: zero_limbs)
qed

end
