(* ===== verification/ModExpCall.thy ===== *)
theory ModExpCall
  imports ModExp
begin

unbundle bit_operations_syntax

text \<open>
  The calldata of \<^verbatim>\<open>ModExp.yul\<close> as numbers: what the checks of the contract and the parsing into arrays of words
  compute, and the calls whose modulus is longer than the base.
\<close>

section \<open>Numbers in the calldata\<close>

text \<open>The number in some bytes of the calldata, the most significant first.\<close>

fun number :: "bytes \<Rightarrow> nat \<Rightarrow> nat \<Rightarrow> nat" where
  "number cd p 0 = 0"
| "number cd p (Suc n) = 256 * number cd p n + unat (calldatabyte cd (p + n))"

lemma number_split: "number cd p (k + l) = number cd p k * 256 ^ l + number cd (p + k) l"
  by (induction l) (simp_all add: algebra_simps)

lemma number_bound: "number cd p n < 256 ^ n"
proof (induction n)
  case (Suc n)
  have "unat (calldatabyte cd (p + n)) < 256"
    using unsigned_less [of "calldatabyte cd (p + n)"] by simp
  then show ?case
    using Suc by simp
qed simp

lemma calldataload_prefix:
  "k \<le> 32 \<Longrightarrow> unat (from_be_bytes 0 (map (\<lambda>i. calldatabyte cd (p + i)) [0..<k]) :: u256) = number cd p k"
proof (induction k)
  case (Suc k)
  let ?w = "from_be_bytes 0 (map (\<lambda>i. calldatabyte cd (p + i)) [0..<k]) :: u256"
  have w: "unat ?w = number cd p k"
    using Suc by simp
  have "number cd p (Suc k) < 2 ^ 256"
  proof -
    have "(256 :: nat) ^ Suc k \<le> 256 ^ 32"
      using Suc.prems by (intro power_increasing) simp_all
    then show ?thesis
      using number_bound [of cd p "Suc k"] by simp
  qed
  moreover have "unat (ucast (calldatabyte cd (p + k)) :: u256) = unat (calldatabyte cd (p + k))"
    by (simp add: unsigned_ucast_eq take_bit_eq_mod unsigned_less order.strict_trans1 [OF less_imp_le [OF unsigned_less]])
  ultimately have "unat (?w * 256 + ucast (calldatabyte cd (p + k))) = number cd p (Suc k)"
    using w by (simp add: unat_word_ariths)
  then show ?case
    by (simp add: from_be_bytes_append)
qed simp

lemma calldataload_number: "unat (calldataload cd p) = number cd p 32"
  unfolding calldataload_def by (rule calldataload_prefix) simp

text \<open>The first bytes of a word, and its last ones.\<close>

lemma first_bytes:
  assumes "l \<le> 32"
  shows "unat (drop_bit (256 - 8 * l) (calldataload cd p)) = number cd p l"
proof -
  have "take_bit 256 (number cd p 32) = number cd p 32"
    using number_bound [of cd p 32] by (simp add: take_bit_nat_eq_self)
  then have "unat (drop_bit (256 - 8 * l) (calldataload cd p)) = number cd p 32 div 2 ^ (256 - 8 * l)"
    by (simp only: unsigned_drop_bit_eq calldataload_number) (simp add: drop_bit_eq_div)
  also have "(2 :: nat) ^ (256 - 8 * l) = 256 ^ (32 - l)"
    using assms power_mult [of "2 :: nat" 8 "32 - l"] by (simp add: diff_mult_distrib2)
  also have "number cd p 32 = number cd p l * 256 ^ (32 - l) + number cd (p + l) (32 - l)"
    using number_split [of cd p l "32 - l"] assms by simp
  also have "\<dots> div 256 ^ (32 - l) = number cd p l"
    using number_bound [of cd "p + l" "32 - l"] by simp
  finally show ?thesis .
qed

lemma last_bytes:
  assumes "l \<le> 32" and "32 - l \<le> p"
  shows "unat (drop_bit (8 * (32 - l)) (push_bit (8 * (32 - l)) (calldataload cd (p - (32 - l))))) = number cd p l"
proof -
  let ?w = "calldataload cd (p - (32 - l))"
  have "drop_bit (8 * (32 - l)) (push_bit (8 * (32 - l)) ?w) = take_bit (8 * l) ?w"
    using assms(1) by (intro bit_word_eqI) (auto simp: bit_simps)
  then have "unat (drop_bit (8 * (32 - l)) (push_bit (8 * (32 - l)) ?w)) = number cd (p - (32 - l)) 32 mod 256 ^ l"
    using power_mult [of "2 :: nat" 8 l] by (simp only: unsigned_take_bit_eq calldataload_number) (simp add: take_bit_eq_mod)
  also have "number cd (p - (32 - l)) 32 = number cd (p - (32 - l)) (32 - l) * 256 ^ l + number cd p l"
    using number_split [of cd "p - (32 - l)" "32 - l" l] assms by simp
  also have "\<dots> mod 256 ^ l = number cd p l"
    using number_bound [of cd p l] by simp
  finally show ?thesis .
qed

section \<open>The checks of the contract\<close>

lemma unat_plus: "unat p + k < 2 ^ 256 \<Longrightarrow> unat (p + of_nat k :: u256) = unat p + k"
  by (simp add: unat_word_ariths unat_of_nat take_bit_eq_mod)

text \<open>The loop over complete words ends with the right answer, or exceeds the gas; it has enough for as many words.\<close>

lemma words_are_zero:
  assumes "unat p + 32 * k < 2 ^ 256"
  shows "wordsAreZero f cd p (p + of_nat (32 * k)) \<in> {None, Some (number cd (unat p) (32 * k) = 0)} \<and>
    (k \<le> f \<longrightarrow> wordsAreZero f cd p (p + of_nat (32 * k)) \<noteq> None)"
  using assms
proof (induction f arbitrary: p k)
  case 0
  have "p < p + of_nat (32 * k) \<longleftrightarrow> 0 < k"
    unfolding word_less_nat_alt unat_plus [OF 0] by simp
  then show ?case
    by (cases k) auto
next
  case (Suc f)
  have less: "p < p + of_nat (32 * k) \<longleftrightarrow> 0 < k"
    unfolding word_less_nat_alt unat_plus [OF Suc.prems] by simp
  show ?case
  proof (cases k)
    case 0
    then show ?thesis
      by simp
  next
    case k: (Suc j)
    have q: "unat (p + 32) = unat p + 32"
      using unat_plus [of p 32] Suc.prems k by simp
    have stop: "p + of_nat (32 * k) = p + 32 + of_nat (32 * j)"
      by (simp add: k)
    have "number cd (unat p) (32 * k) = number cd (unat p) 32 * 256 ^ (32 * j) + number cd (unat p + 32) (32 * j)"
      using number_split [of cd "unat p" 32 "32 * j"] by (simp add: k)
    moreover have "calldataload cd (unat p) = 0 \<longleftrightarrow> number cd (unat p) 32 = 0"
      using calldataload_number [of cd "unat p"] by (simp add: word_unat_eq_iff)
    moreover have "unat (p + 32) + 32 * j < 2 ^ 256"
      using Suc.prems q k by simp
    note Suc.IH [OF this, folded stop, unfolded q]
    ultimately show ?thesis
      using less k by auto
  qed
qed

lemma buffer_is_zero:
  assumes "unat p + unat n < 2 ^ 256"
  shows "callDataBufferIsZero heap cd p n \<in> {None, Some (number cd (unat p) (unat n) = 0)}"
    and "unat n \<le> 32 * heap \<Longrightarrow> callDataBufferIsZero heap cd p n \<noteq> None"
proof -
  let ?l = "unat n mod 32" and ?k = "unat n div 32"
  let ?w = "drop_bit (256 - 8 * ?l) (calldataload cd (unat p + 32 * ?k))"
  have l: "unat (n mod 32) = ?l"
    by (simp add: unat_mod_distrib)
  have n: "unat n = 32 * ?k + ?l"
    by simp
  have of_unat: "of_nat (unat w) = w" for w :: u256
    by simp
  have "n mod 32 = of_nat ?l"
    using l by (metis of_unat)
  moreover have "n = of_nat (32 * ?k) + of_nat ?l"
    using n by (metis of_nat_add of_unat)
  ultimately have stop: "p + n - n mod 32 = p + of_nat (32 * ?k)"
    by (simp add: algebra_simps)
  have fits: "unat p + 32 * ?k < 2 ^ 256"
    using assms n by linarith
  note q = unat_plus [OF fits]
  have "?w AND (push_bit (8 * ?l) 1 - 1) = ?w"
  proof -
    have "?w AND (push_bit (8 * ?l) 1 - 1) = take_bit (8 * ?l) ?w"
      by (simp add: take_bit_eq_mask mask_eq_exp_minus_1 push_bit_of_1)
    moreover have "take_bit 256 w = w" for w :: u256
      using take_bit_length_eq [of w] by simp
    ultimately show ?thesis
      by (simp add: take_bit_drop_bit)
  qed
  moreover have "?w = 0 \<longleftrightarrow> number cd (unat p + 32 * ?k) ?l = 0"
    using first_bytes [of ?l cd "unat p + 32 * ?k"] by (simp add: word_unat_eq_iff)
  moreover have "number cd (unat p) (unat n) = number cd (unat p) (32 * ?k) * 256 ^ ?l + number cd (unat p + 32 * ?k) ?l"
    using number_split [of cd "unat p" "32 * ?k" ?l] by simp
  moreover have "n mod 32 \<noteq> 0 \<longleftrightarrow> 0 < ?l"
    using l by (simp add: word_unat_eq_iff)
  ultimately have zero: "callDataBufferIsZero heap cd p n =
      Option.bind (wordsAreZero heap cd p (p + of_nat (32 * ?k))) (\<lambda>res.
        Some (if number cd (unat p + 32 * ?k) ?l \<noteq> 0 then False else res))"
    unfolding callDataBufferIsZero_def Let_def stop l q by auto
  note loop = words_are_zero [OF fits, of heap cd]
  have split: "number cd (unat p) (unat n) = 0 \<longleftrightarrow>
      number cd (unat p) (32 * ?k) = 0 \<and> number cd (unat p + 32 * ?k) ?l = 0"
    using number_split [of cd "unat p" "32 * ?k" ?l] by simp
  show "callDataBufferIsZero heap cd p n \<in> {None, Some (number cd (unat p) (unat n) = 0)}"
    using loop unfolding zero split by (auto split: if_splits)
  show "unat n \<le> 32 * heap \<Longrightarrow> callDataBufferIsZero heap cd p n \<noteq> None"
    using loop unfolding zero by auto
qed

lemma buffer_is_one:
  assumes "unat p + unat n < 2 ^ 256"
  shows "callDataBufferIsOne heap cd p n \<in> {None, Some (number cd (unat p) (unat n) = 1)}"
    and "unat n \<le> 32 * heap \<Longrightarrow> callDataBufferIsOne heap cd p n \<noteq> None"
proof -
  have both: "callDataBufferIsOne heap cd p n \<in> {None, Some (number cd (unat p) (unat n) = 1)} \<and>
      (unat n \<le> 32 * heap \<longrightarrow> callDataBufferIsOne heap cd p n \<noteq> None)"
  proof (cases "n = 0")
    case False
    then have n: "unat n = Suc (unat (n - 1))"
      by (metis Suc_diff_1 unat_gt_0 unat_minus_one word_gt_0)
    have "p + n - 1 = p + of_nat (unat (n - 1))"
      by simp
    moreover have "unat p + unat (n - 1) < 2 ^ 256"
      using assms n by linarith
    ultimately have last: "unat (p + n - 1) = unat p + unat (n - 1)"
      by (simp only: unat_plus)
    have byte: "calldatabyte cd k = 1 \<longleftrightarrow> unat (calldatabyte cd k) = 1" for k
      by (simp add: word_unat_eq_iff)
    have "256 * a + u = 1 \<longleftrightarrow> u = 1 \<and> a = 0" for a u :: nat
      by presburger
    then have one: "number cd (unat p) (unat n) = 1 \<longleftrightarrow>
        calldatabyte cd (unat p + unat (n - 1)) = 1 \<and> number cd (unat p) (unat (n - 1)) = 0"
      unfolding n number.simps byte by simp
    have "unat p + unat (n - 1) < 2 ^ 256"
      using assms n by linarith
    note zero = buffer_is_zero [OF this, of heap cd]
    then show ?thesis
      using False n one unfolding callDataBufferIsOne_def last by auto
  qed (simp add: callDataBufferIsOne_def)
  then show "callDataBufferIsOne heap cd p n \<in> {None, Some (number cd (unat p) (unat n) = 1)}"
    "unat n \<le> 32 * heap \<Longrightarrow> callDataBufferIsOne heap cd p n \<noteq> None"
    by blast+
qed

section \<open>Arrays of words\<close>

lemma words_written:
  "fold (\<lambda>i m. m(r + i := f i)) [0..<n] m k = (if r \<le> k \<and> k < r + n then f (k - r) else m k)"
  by (induction n) (auto simp: less_Suc_eq)

lemma val_words: "(\<And>i. i < n \<Longrightarrow> m (r + i) = calldataload cd (p + 32 * i)) \<Longrightarrow> val m r n = int (number cd p (32 * n))"
proof (induction n)
  case (Suc n)
  have "uint (calldataload cd (p + 32 * n)) = int (number cd (p + 32 * n) 32)"
    using calldataload_number [of cd "p + 32 * n"] by (metis uint_nat)
  then show ?case
    using Suc number_split [of cd p "32 * n" 32] by (simp add: R256_def add.commute)
qed simp

lemma limbs_copied:
  "fold (copy_limb cd p r) [0..<n] m k =
    (if r \<le> k \<and> k < r + n then calldataload cd (unat (p + of_nat (32 * (k - r)))) else m k)"
proof -
  have "copy_limb cd p r = (\<lambda>i m. m(r + i := calldataload cd (unat (p + of_nat (32 * i)))))"
    by (intro ext) (simp add: copy_limb_def)
  then show ?thesis
    by (simp add: words_written)
qed

lemma val_copied:
  assumes "unat p + 32 * n < 2 ^ 256"
  shows "val (fold (copy_limb cd p r) [0..<n] m) r n = int (number cd (unat p) (32 * n))"
proof (rule val_words)
  fix i assume "i < n"
  then have "unat p + 32 * i < 2 ^ 256"
    using assms by linarith
  then show "fold (copy_limb cd p r) [0..<n] m (r + i) = calldataload cd (unat p + 32 * i)"
    using \<open>i < n\<close> unat_plus [of p "32 * i"] by (simp add: limbs_copied)
qed

lemma parseCalldata_value:
  assumes "parseCalldata heap cd p len r m = Some m'" and "32 \<le> unat p" and "unat p + unat len < 2 ^ 256"
  shows "val m' r (bigIntLimbs (unat len)) = int (number cd (unat p) (unat len))"
    and "k < r \<or> r + bigIntLimbs (unat len) \<le> k \<Longrightarrow> m' k = m k"
proof -
  let ?l = "unat len mod 32" and ?n = "unat len div 32"
  let ?w = "drop_bit (8 * (32 - ?l)) (push_bit (8 * (32 - ?l)) (calldataload cd (unat (p - of_nat (32 - ?l)))))"
  have len: "?l + 32 * ?n = unat len"
    by simp
  have m': "m' = (if ?l \<noteq> 0 then fold (copy_limb cd (p + of_nat ?l) (r + 1)) [0..<?n] (m(r := ?w))
      else fold (copy_limb cd p r) [0..<?n] m)"
    using assms(1) by (auto simp: parseCalldata_def Let_def split: if_splits)
  show "val m' r (bigIntLimbs (unat len)) = int (number cd (unat p) (unat len))"
  proof (cases "?l = 0")
    case True
    have "unat p + 32 * ?n < 2 ^ 256"
      using assms(3) len by linarith
    then show ?thesis
      using True len val_copied [of p ?n cd r m] by (simp add: m' bigIntLimbs_def)
  next
    case False
    have q: "unat (p + of_nat ?l) = unat p + ?l"
      using assms(3) len by (intro unat_plus) linarith
    have "unat (p + of_nat ?l) + 32 * ?n < 2 ^ 256"
      unfolding q using assms(3) len by linarith
    then have "val m' (Suc r) ?n = int (number cd (unat p + ?l) (32 * ?n))"
      using False val_copied [of "p + of_nat ?l" ?n cd "Suc r"] q by (simp add: m')
    moreover have "m' r = ?w"
      using False by (simp add: m' limbs_copied)
    moreover have "unat (p - of_nat (32 - ?l)) = unat p - (32 - ?l)"
    proof -
      have "unat (of_nat j :: u256) = j" if "j \<le> 32" for j
        using that by (simp add: unat_of_nat take_bit_nat_eq_self)
      then have x: "unat (of_nat (32 - ?l) :: u256) = 32 - ?l"
        by (meson diff_le_self)
      then have le: "of_nat (32 - ?l) \<le> p"
        using assms(2) by (simp add: word_le_nat_alt)
      then show ?thesis
        by (simp only: unat_sub [OF le] x)
    qed
    then have "uint ?w = int (number cd (unat p) ?l)"
      unfolding uint_nat using assms(2) by (simp only:) (subst last_bytes, simp_all add: less_imp_le)
    moreover have "number cd (unat p) (unat len) = number cd (unat p) ?l * 256 ^ (32 * ?n) + number cd (unat p + ?l) (32 * ?n)"
      using number_split [of cd "unat p" ?l "32 * ?n"] len by simp
    ultimately show ?thesis
      using False by (simp add: bigIntLimbs_def val_first power_mult R256_def del: val.simps)
  qed
  show "k < r \<or> r + bigIntLimbs (unat len) \<le> k \<Longrightarrow> m' k = m k"
    by (auto simp: m' limbs_copied bigIntLimbs_def Let_def split: if_splits)
qed

lemma padded:
  assumes "c \<le> n" and "p + c \<le> r"
  shows "bigUIntPadWithZeros p c n r m k = (if r + (n - c) \<le> k \<and> k < r + n then m (p + (k - (r + (n - c)))) else m k)"
proof -
  have "fold (\<lambda>i m. m(r + (n - 1 - i) := m (p + (c - 1 - i)))) [0..<d] m k =
      (if r + (n - d) \<le> k \<and> k < r + n then m (p + (k - (r + (n - c)))) else m k)" if "d \<le> c" for d k
    using that
  proof (induction d arbitrary: k)
    case (Suc d)
    have "p + (c - 1 - d) < r + (n - d)"
      using Suc.prems assms by simp
    then show ?case
      using Suc assms by (auto simp: Suc_le_eq split: if_splits)
  qed auto
  then show ?thesis
    by (simp add: bigUIntPadWithZeros_def)
qed

lemma padded_value:
  assumes "c \<le> n" and "p + c \<le> r" and "\<And>i. i < n \<Longrightarrow> m (r + i) = 0"
  shows "val (bigUIntPadWithZeros p c n r m) r n = val m p c"
    and "i < n - c \<Longrightarrow> bigUIntPadWithZeros p c n r m (r + i) = 0"
    and "k < r \<or> r + n \<le> k \<Longrightarrow> bigUIntPadWithZeros p c n r m k = m k"
proof -
  let ?m = "bigUIntPadWithZeros p c n r m"
  have "val ?m r (n - c) = 0"
    by (rule val_zero) (use assms(1,3) in \<open>auto simp: padded [OF assms(1,2)]\<close>)
  moreover have "val ?m (r + (n - c)) c = val m p c"
    using assms(1) by (intro val_cong) (auto simp: padded [OF assms(1,2)])
  ultimately show "val ?m r n = val m p c"
    using val_split [of ?m r "n - c" c] assms(1) by simp
  show "i < n - c \<Longrightarrow> ?m (r + i) = 0" "k < r \<or> r + n \<le> k \<Longrightarrow> ?m k = m k"
    using assms(1,3) by (auto simp: padded [OF assms(1,2)])
qed

section \<open>Sizes\<close>

lemma val_nonneg: "0 \<le> val m p n" and val_bound: "val m p n < R256 ^ n"
proof -
  have "0 \<le> val m p n \<and> val m p n + 1 \<le> R256 ^ n"
  proof (induction n)
    case (Suc n)
    have "(val m p n + 1) * R256 \<le> R256 ^ n * R256"
      using Suc by (intro mult_right_mono) (simp_all add: R256_def)
    then have "val m p n * R256 + R256 \<le> R256 ^ Suc n"
      by (simp add: algebra_simps)
    moreover have "0 \<le> val m p n * R256"
      using Suc by (simp add: R256_def)
    ultimately show ?case
      using uint_bounds(1) [of "m (p + n)"] uint_bounds(2) [of "m (p + n)"] unfolding val.simps by linarith
  qed simp
  then show "0 \<le> val m p n" "val m p n < R256 ^ n"
    by simp_all
qed

lemma val_eq_zero: "val m p n = 0 \<longleftrightarrow> (\<forall>i < n. m (p + i) = 0)"
proof (induction n)
  case (Suc n)
  have "uint (m (p + n)) = 0 \<longleftrightarrow> m (p + n) = 0"
    by (simp add: word_uint_eq_iff)
  then show ?case
    using Suc val_nonneg [of m p n] by (auto simp: less_Suc_eq add_nonneg_eq_0_iff R256_def)
qed simp

lemma UIntBitSize_le: "UIntBitSize w \<le> k \<longleftrightarrow> uint w < 2 ^ k"
proof (induction w arbitrary: k rule: UIntBitSize.induct)
  case (1 w)
  show ?case
  proof (cases "0 < w")
    case True
    have "UIntBitSize (drop_bit 1 w) \<le> j \<longleftrightarrow> uint w < 2 ^ Suc j" for j
      unfolding 1 [OF True] uint_drop_one by auto
    moreover have "0 < uint w"
      using True by (simp add: word_less_def)
    ultimately show ?thesis
      using True by (cases k) (simp_all add: UIntBitSize.simps [of w])
  next
    case False
    then have "w = 0"
      by (simp add: word_gt_0)
    then show ?thesis
      by (simp add: UIntBitSize.simps)
  qed
qed

lemma bigUIntBitSize_le: "bigUIntBitSize p n m \<le> k \<longleftrightarrow> val m p n < 2 ^ k"
proof (induction p n m rule: bigUIntBitSize.induct)
  case (2 p n m)
  show ?case
  proof (cases "m p \<noteq> 0 \<or> n = 0")
    case True
    let ?v = "val m (Suc p) n"
    have R: "R256 ^ n = 2 ^ (256 * n)"
      by (simp add: power_mult R256_def)
    have "uint (m p) * 2 ^ (256 * n) + ?v < 2 ^ k \<longleftrightarrow> 256 * n + UIntBitSize (m p) \<le> k"
    proof (cases "256 * n \<le> k")
      case le: True
      then obtain j where k: "k = j + 256 * n"
        by (metis le_iff_add add.commute)
      have "uint (m p) * 2 ^ (256 * n) + ?v < 2 ^ k \<longleftrightarrow> uint (m p) < 2 ^ j"
      proof
        show "uint (m p) < 2 ^ j" if "uint (m p) * 2 ^ (256 * n) + ?v < 2 ^ k"
        proof -
          have "uint (m p) * 2 ^ (256 * n) < 2 ^ j * 2 ^ (256 * n)"
            using that val_nonneg [of m "Suc p" n] unfolding k power_add by linarith
          then show ?thesis
            by simp
        qed
        show "uint (m p) * 2 ^ (256 * n) + ?v < 2 ^ k" if "uint (m p) < 2 ^ j"
        proof -
          have "(uint (m p) + 1) * 2 ^ (256 * n) \<le> 2 ^ j * 2 ^ (256 * n)"
            using that by (intro mult_right_mono) simp_all
          then show ?thesis
            using val_bound [of m "Suc p" n] R by (simp add: k power_add algebra_simps)
        qed
      qed
      then show ?thesis
        by (simp add: UIntBitSize_le k)
    next
      case False
      then have "m p \<noteq> 0"
        using True by auto
      then have "uint (m p) \<noteq> 0"
        by (simp add: word_uint_eq_iff)
      then have "1 \<le> uint (m p)"
        using uint_bounds(2) [of "m p"] by linarith
      then have "1 * 2 ^ (256 * n) \<le> uint (m p) * 2 ^ (256 * n)"
        by (intro mult_right_mono) simp_all
      moreover have "(2 :: int) ^ k \<le> 2 ^ (256 * n)"
        using False by (intro power_increasing) simp_all
      ultimately have "\<not> uint (m p) * 2 ^ (256 * n) + ?v < 2 ^ k"
        using val_nonneg [of m "Suc p" n] by linarith
      then show ?thesis
        using False by simp
    qed
    then show ?thesis
      using True R by (simp only: bigUIntBitSize.simps if_True val_first)
  next
    case False
    then show ?thesis
      using 2 by (simp add: val_first del: val.simps)
  qed
qed simp

lemma bigUIntIsGreaterThanOne_iff: "bigUIntIsGreaterThanOne (Suc n) p m \<longleftrightarrow> 1 < val m p (Suc n)"
proof -
  have "1 < m (p + n) \<longleftrightarrow> 1 < uint (m (p + n))"
    by (simp add: word_less_def)
  moreover have "list_ex (\<lambda>i. 0 < m (p + i)) (rev [0..<n]) \<longleftrightarrow> val m p n \<noteq> 0"
    by (auto simp: val_eq_zero list_ex_iff word_gt_0)
  moreover have "1 < val m p n * R256 + uint (m (p + n)) \<longleftrightarrow> 1 < uint (m (p + n)) \<or> val m p n \<noteq> 0"
  proof (cases "val m p n = 0")
    case False
    then have "1 * R256 \<le> val m p n * R256"
      using val_nonneg [of m p n] by (intro mult_right_mono) (simp_all add: R256_def)
    moreover have "1 < R256"
      by (simp add: R256_def)
    ultimately have "1 < val m p n * R256 + uint (m (p + n))"
      using uint_bounds(2) [of "m (p + n)"] by linarith
    then show ?thesis
      using False by simp
  qed simp
  ultimately show ?thesis
    by (simp add: bigUIntIsGreaterThanOne_def)
qed

lemma limbs_without_zeros_le:
  assumes "c \<le> n" and "\<And>i. i < n - c \<Longrightarrow> m (p + i) = 0"
  shows "bigIntLimbsWithoutZeros p n m \<le> c"
proof -
  have "filter (\<lambda>i. m (p + i) \<noteq> 0) [0..<n] = filter (\<lambda>i. m (p + i) \<noteq> 0) [n - c..<n]"
    using assms upt_add_eq_append [of 0 "n - c" c] by (simp add: filter_empty_conv)
  then show ?thesis
    using assms(1) length_filter_le [of "\<lambda>i. m (p + i) \<noteq> 0" "[n - c..<n]"]
    by (simp add: bigIntLimbsWithoutZeros_def)
qed

section \<open>Moduli longer than the base\<close>

text \<open>The difference of the sizes is negative: it wraps around to a shift of almost \<^verbatim>\<open>2^256\<close> bits.\<close>

lemma negative_shift:
  assumes "a < b" and "b < 2 ^ 250"
  shows "2 ^ 255 \<le> unat (of_nat a - of_nat b :: u256)"
proof -
  have nat_le: "2 ^ 255 \<le> unat w" if "2 ^ 255 \<le> uint w" for w :: u256
  proof -
    have "int (2 ^ 255) \<le> int (unat w)"
      using that unfolding uint_nat by (simp only: of_nat_power of_nat_numeral)
    then show ?thesis
      by (simp only: of_nat_le_iff)
  qed
  have "(of_nat a - of_nat b :: u256) = of_int (int a - int b)"
    by simp
  then have "uint (of_nat a - of_nat b :: u256) = (int a - int b) mod 2 ^ 256"
    by (simp only: uint_of_int) (simp add: R256_def)
  also have "\<dots> = (int a - int b + 2 ^ 256) mod 2 ^ 256"
    by simp
  also have "\<dots> = int a - int b + 2 ^ 256"
    using assms by (intro mod_pos_pos_trivial) simp_all
  finally have d: "uint (of_nat a - of_nat b :: u256) = int a - int b + 2 ^ 256" .
  show ?thesis
    by (rule nat_le) (use assms in \<open>simp add: d\<close>)
qed

lemma shl_exhausts: "heap < 2 ^ 240 \<Longrightarrow> 2 ^ 255 \<le> unat shift \<Longrightarrow> bigUIntShl heap shift p n q m = None"
proof -
  assume a: "heap < 2 ^ 240" "2 ^ 255 \<le> unat shift"
  then have "shift \<noteq> 0"
    by auto
  have "2 ^ 255 div 256 \<le> unat shift div 256"
    using a(2) by (rule div_le_mono)
  then have "heap < unat shift div 256"
    using a(1) by simp
  then show ?thesis
    using \<open>shift \<noteq> 0\<close> by (simp add: bigUIntShl_def Let_def)
qed

lemma exponentiation_exhausts:
  assumes "heap < 2 ^ 240" and "0 < n" and "n < 2 ^ 240" and "c \<le> n"
    and "2 ^ (256 * c) \<le> val m modulus n" and "1 < val m modulus n"
    and "\<And>i. i < n - c \<Longrightarrow> m (base + i) = 0"
    and "base + n \<le> result" and "modulus + n \<le> result"
  shows "bigUIntModularExponentiation heap n base ex modulus result buf1 buf2 buf3 m = None"
proof -
  obtain j where j: "n = Suc j"
    using assms(2) by (cases n) auto
  let ?m = "bigUIntInPlaceOrWith1 result n m"
  have same: "val ?m modulus n = val m modulus n"
    using assms(9) by (intro val_cong) (auto simp: bigUIntInPlaceOrWith1_def)
  have "bigIntLimbsWithoutZeros base n ?m \<le> c"
    using assms(4,7,8) by (intro limbs_without_zeros_le) (auto simp: bigUIntInPlaceOrWith1_def)
  moreover have "\<not> bigUIntBitSize modulus n ?m \<le> 256 * c"
    unfolding bigUIntBitSize_le same using assms(5) by simp
  ultimately have "256 * bigIntLimbsWithoutZeros base n ?m < bigUIntBitSize modulus n ?m"
    by linarith
  moreover have "bigUIntBitSize modulus n ?m \<le> 256 * n"
    unfolding bigUIntBitSize_le using val_bound [of ?m modulus n] by (simp add: R256_def power_mult)
  ultimately have "2 ^ 255 \<le> unat (of_nat (256 * bigIntLimbsWithoutZeros base n ?m) -
      of_nat (bigUIntBitSize modulus n ?m) :: u256)"
    using assms(3) by (intro negative_shift) simp_all
  then have "bigUIntRem heap base modulus buf1 buf2 n (bigIntLimbsWithoutZeros base n ?m)
      (bigUIntBitSize modulus n ?m) buf3 ?m = None"
    by (simp only: bigUIntRem_def Let_def shl_exhausts [OF assms(1)] bind.simps)
  moreover have "bigUIntIsGreaterThanOne n modulus m"
    unfolding j bigUIntIsGreaterThanOne_iff using assms(6) j by simp
  ultimately show ?thesis
    by (simp add: bigUIntModularExponentiation_def Let_def)
qed

lemma limbs_bound: "len \<le> 32 * bigIntLimbs len" and limbs_le: "bigIntLimbs len \<le> len"
  by (auto simp: bigIntLimbs_def Let_def)

lemma number_one_word: "number cd p n < 2 ^ (256 * bigIntLimbs n)"
proof -
  have "(256 :: nat) ^ n \<le> 256 ^ (32 * bigIntLimbs n)"
    using limbs_bound by (intro power_increasing) simp_all
  then show ?thesis
    using number_bound [of cd p n] by (simp add: power_mult)
qed

text \<open>Lengths and pointers that do not wrap around.\<close>

lemma pointers:
  assumes "unat bl < 2 ^ 250" and "unat el < 2 ^ 250"
  shows "unat (96 :: u256) = 96" and "unat (96 + bl :: u256) = 96 + unat bl" and "unat (96 + bl + el) = 96 + unat bl + unat el"
proof -
  have of_unat: "of_nat (unat w) = w" for w :: u256
    by simp
  show p: "unat (96 :: u256) = 96"
    by simp
  show e: "unat (96 + bl) = 96 + unat bl"
    using unat_plus [of 96 "unat bl"] assms unfolding of_unat p by simp
  show "unat (96 + bl + el) = 96 + unat bl + unat el"
    using unat_plus [of "96 + bl" "unat el"] assms unfolding of_unat e by simp
qed

text \<open>What the answers without arrays can be.\<close>

lemma general_answers:
  assumes "modExp_general heap cd bl el ml = Some out"
    and "unat bl < 2 ^ 250" and "unat el < 2 ^ 250" and "unat ml < 2 ^ 250"
  shows "let b = number cd 96 (unat bl); e = number cd (96 + unat bl) (unat el); n = number cd (96 + unat bl + unat el) (unat ml)
    in if n \<le> 1 then small_result heap (unat ml) 0 = Some out
       else if b = 1 \<or> e = 0 then small_result heap (unat ml) 1 = Some out
       else if b = 0 then small_result heap (unat ml) 0 = Some out
       else modExp_limbs heap cd bl el ml = Some out"
proof -
  note ptrs = pointers [OF assms(2,3)]
  have mod: "callDataBufferIsZero heap cd (96 + bl + el) ml \<in> {None, Some (number cd (96 + unat bl + unat el) (unat ml) = 0)}"
      "callDataBufferIsOne heap cd (96 + bl + el) ml \<in> {None, Some (number cd (96 + unat bl + unat el) (unat ml) = 1)}"
    using buffer_is_zero(1) [of "96 + bl + el" ml heap cd] buffer_is_one(1) [of "96 + bl + el" ml heap cd] ptrs assms(2-4)
    by simp_all
  have base: "callDataBufferIsZero heap cd 96 bl \<in> {None, Some (number cd 96 (unat bl) = 0)}"
      "callDataBufferIsOne heap cd 96 bl \<in> {None, Some (number cd 96 (unat bl) = 1)}"
    using buffer_is_zero(1) [of 96 bl heap cd] buffer_is_one(1) [of 96 bl heap cd] ptrs assms(2-4) by simp_all
  have ex: "callDataBufferIsZero heap cd (96 + bl) el \<in> {None, Some (number cd (96 + unat bl) (unat el) = 0)}"
    using buffer_is_zero(1) [of "96 + bl" el heap cd] ptrs assms(2-4) by simp
  have result: "f v = Some y" if "x \<in> {None, Some v}" and "Option.bind x f = Some y" for x :: "bool option" and v f and y :: bytes
    using that by auto
  note start = result [OF mod(2) result [OF mod(1) assms(1) [unfolded modExp_general_def Let_def]]]
  show ?thesis
  proof (cases "number cd (96 + unat bl + unat el) (unat ml) \<le> 1")
    case True
    then show ?thesis
      using start by (simp add: Let_def le_Suc_eq)
  next
    case False
    then have n: "\<not> (number cd (96 + unat bl + unat el) (unat ml) = 0 \<or> number cd (96 + unat bl + unat el) (unat ml) = 1)"
      by simp
    note one = result [OF base(2) start [unfolded if_not_P [OF n]]]
    show ?thesis
    proof (cases "number cd 96 (unat bl) = 1")
      case True
      then show ?thesis
        using one False by (simp add: Let_def)
    next
      case b: False
      note zero = result [OF ex one [unfolded if_not_P [OF b]]]
      show ?thesis
      proof (cases "number cd (96 + unat bl) (unat el) = 0")
        case True
        then show ?thesis
          using zero False b by (simp add: Let_def)
      next
        case e: False
        show ?thesis
          using result [OF base(1) zero [unfolded if_not_P [OF e]]] False b e by (auto simp: Let_def split: if_splits)
      qed
    qed
  qed
qed

text \<open>C8: A call of the modular exponentiation whose modulus is larger than every number of as many words as the base has
  never returns: it exhausts any gas that can be paid, unless the base is zero or one or the exponent is zero.\<close>

theorem longer_modulus_exhausts:
  assumes "heap < 2 ^ 240" and "baseLen < 2 ^ 230" and "expLen < 2 ^ 230" and "modLen < 2 ^ 230"
    and "number cd 0 32 = baseLen" and "number cd 32 32 = expLen" and "number cd 64 32 = modLen"
    and "1 < number cd 96 baseLen" and "number cd (96 + baseLen) expLen \<noteq> 0"
    and "2 ^ (256 * bigIntLimbs baseLen) \<le> number cd (96 + baseLen + expLen) modLen"
  shows "modExp heap cd = None"
proof (rule ccontr)
  assume "modExp heap cd \<noteq> None"
  then obtain out where out: "modExp heap cd = Some out"
    by auto
  let ?e = "96 + baseLen" and ?n = "96 + baseLen + expLen"
  let ?b = "bigIntLimbs baseLen" and ?x = "bigIntLimbs expLen" and ?k = "bigIntLimbs modLen"
  let ?max = "max (max ?b ?x) ?k"
  let ?size = "?max + ?max"
  define bl el ml where "bl = calldataload cd 0" and "el = calldataload cd 32" and "ml = calldataload cd 64"
  have lens: "unat bl = baseLen" "unat el = expLen" "unat ml = modLen"
    using assms(5-7) by (simp_all add: bl_def el_def ml_def calldataload_number)
  note ptrs = pointers [of bl el, unfolded lens, OF order.strict_trans [OF assms(2)] order.strict_trans [OF assms(3)]]
  have "0 < baseLen"
    using assms(8) by (cases baseLen) auto
  then have "0 < ?b"
    using limbs_bound [of baseLen] by (cases ?b) auto
  then have big: "2 ^ 256 \<le> number cd ?n modLen"
    using assms(10) order.trans [OF power_increasing [of 256 "256 * ?b" "2 :: nat"]] by simp
  then have "32 < modLen"
    using number_bound [of cd ?n modLen] power_increasing [of modLen 32 "256 :: nat"] by (cases "modLen \<le> 32") simp_all
  have "modExp_general heap cd bl el ml = Some out"
    using out \<open>0 < baseLen\<close> \<open>32 < modLen\<close> lens by (auto simp: modExp_def Let_def simp flip: bl_def el_def ml_def split: if_splits)
  then have "modExp_limbs heap cd bl el ml = Some out"
    using general_answers [of heap cd bl el ml out, unfolded lens] assms(2-4,8,9) big by auto
  then obtain m1 m2 m3 where m1: "parseCalldata heap cd 96 bl 0 (\<lambda>_. 0) = Some m1"
      and m2: "parseCalldata heap cd (96 + bl) el ?b m1 = Some m2"
      and m3: "parseCalldata heap cd (96 + bl + el) ml (?b + ?x) m2 = Some m3"
      and arrays: "modExp_arrays heap ?b ?x ?k modLen m3 = Some out"
    by (auto simp: modExp_limbs_def Let_def lens bind_eq_Some_conv)
  have parsed: "val m3 (?b + ?x) ?k = int (number cd ?n modLen)"
      "k < ?b + ?x \<or> ?b + ?x + ?k \<le> k \<Longrightarrow> m3 k = m2 k" for k
    using parseCalldata_value [OF m3] ptrs lens assms(2-4) by simp_all
  have older: "k < ?b \<or> ?b + ?x \<le> k \<Longrightarrow> m2 k = m1 k" "?b \<le> k \<Longrightarrow> m1 k = 0" for k
    using parseCalldata_value(2) [OF m2] parseCalldata_value(2) [OF m1] ptrs lens assms(2-4) by simp_all
  define base ex modulus where "base = ?b + ?x + ?k" and "ex = base + ?size" and "modulus = ex + ?size"
  note places = base_def ex_def modulus_def
  define m4 where "m4 = bigUIntPadWithZeros 0 ?b ?size base m3"
  define m5 where "m5 = bigUIntPadWithZeros ?b ?x ?size ex m4"
  define m6 where "m6 = bigUIntPadWithZeros (?b + ?x) ?k ?size modulus m5"
  have fresh: "m3 k = 0" if "base \<le> k" for k
    using that by (simp add: parsed(2) older places)
  have m4: "i < ?size - ?b \<Longrightarrow> m4 (base + i) = 0" "k < base \<or> base + ?size \<le> k \<Longrightarrow> m4 k = m3 k" for i k
    unfolding m4_def by (rule padded_value; simp add: places fresh [unfolded places])+
  have m5: "k < ex \<or> ex + ?size \<le> k \<Longrightarrow> m5 k = m4 k" for k
    unfolding m5_def by (rule padded_value; simp add: places fresh [unfolded places] m4(2) [unfolded places])
  have m6: "val m6 modulus ?size = val m5 (?b + ?x) ?k" "k < modulus \<or> modulus + ?size \<le> k \<Longrightarrow> m6 k = m5 k" for k
    unfolding m6_def by (rule padded_value; simp add: places fresh [unfolded places] m5 [unfolded places] m4(2) [unfolded places])+
  have "val m5 (?b + ?x) ?k = val m3 (?b + ?x) ?k"
    by (intro val_cong) (simp add: m5 m4 places)
  then have mod_value: "val m6 modulus ?size = int (number cd ?n modLen)"
    by (simp add: m6(1) parsed(1))
  have zeros: "m6 (base + i) = 0" if "i < ?size - ?b" for i
  proof -
    have "base + i < ex" "base + i < modulus"
      unfolding ex_def modulus_def using that by linarith+
    then show ?thesis
      using m4(1) [OF that] by (simp add: m6(2) m5)
  qed
  have "bigUIntModularExponentiation heap ?size base ex modulus r b1 b2 b3 m6 = None" if "modulus + ?size \<le> r" for r b1 b2 b3
  proof (rule exponentiation_exhausts [where c = ?b])
    show "0 < ?size" "?b \<le> ?size"
      using \<open>0 < ?b\<close> by simp_all
    show "?size < 2 ^ 240"
      using assms(2-4) limbs_le [of baseLen] limbs_le [of expLen] limbs_le [of modLen] by (simp add: max_def)
    show "2 ^ (256 * ?b) \<le> val m6 modulus ?size" "1 < val m6 modulus ?size"
      using assms(10) big unfolding mod_value by (simp_all flip: of_nat_power_le_of_nat_cancel_iff)
    show "base + ?size \<le> r" "modulus + ?size \<le> r"
      using that by (simp_all add: places)
  qed (use assms(1) zeros in simp_all)
  then have none: "bigUIntModularExponentiation heap ?size base ex modulus (modulus + ?size + ?size + ?size + ?size)
      (modulus + ?size) (modulus + ?size + ?size) (modulus + ?size + ?size + ?size) m6 = None"
    by simp
  have "modExp_arrays heap ?b ?x ?k modLen m3 = None"
    using none unfolding modExp_arrays_def Let_def places m4_def m5_def m6_def by (simp only: bind.simps if_cancel)
  then show False
    using arrays by simp
qed

text \<open>The witness is the call for \<^verbatim>\<open>7^5\<close> modulo \<^verbatim>\<open>2^256 + 11\<close>.\<close>

definition small_base_call :: bytes where
  "small_base_call = replicate 31 0 @ [1] @ replicate 31 0 @ [1] @ replicate 31 0 @ [33] @ [7, 5, 1] @ replicate 31 0 @ [11]"

theorem longer_modulus_exhausts_witness:
  "number small_base_call 96 1 = 7 \<and> number small_base_call 97 1 = 5 \<and> number small_base_call 98 33 = 2 ^ 256 + 11 \<and>
   modExp 1000 small_base_call = None"
proof -
  have n: "number small_base_call 0 32 = 1" "number small_base_call 32 32 = 1" "number small_base_call 64 32 = 33"
      "number small_base_call 96 1 = 7" "number small_base_call 97 1 = 5"
    by code_simp+
  have "number small_base_call 98 1 = 1" "number small_base_call 99 32 = 11"
    by code_simp+
  then have n': "number small_base_call 98 33 = 2 ^ 256 + 11"
    using number_split [of small_base_call 98 1 32] by simp
  have "modExp 1000 small_base_call = None"
    using n n' by (intro longer_modulus_exhausts [of _ 1 1 33]) (simp_all add: bigIntLimbs_def)
  then show ?thesis
    using n n' by simp
qed

section \<open>Calls answered without arrays\<close>

lemma number_of_word: "number (to_be_bytes (w :: u256)) 0 32 = unat w"
proof -
  have "drop_bit 256 w = 0"
    by (rule bit_word_eqI) (auto simp: bit_simps dest: bit_imp_le_length)
  then have "from_be_bytes 0 (to_be_bytes w) = w"
    using from_be_bytes_low [of 32 w, where 'b = 256] drop_be_bytes [of 32 w] by simp
  moreover have "map (\<lambda>i. calldatabyte (to_be_bytes w) (0 + i)) [0..<32] = to_be_bytes w"
    by (rule nth_equalityI) (simp_all add: to_be_bytes_def calldatabyte_def)
  ultimately show ?thesis
    using calldataload_number [of "to_be_bytes w" 0] by (simp add: calldataload_def)
qed

lemma small_result_number:
  assumes "0 < n \<or> b = 0" and "b < 256" and "n \<le> 32 * heap"
  shows "\<exists>out. small_result heap n b = Some out \<and> length out = n \<and> number out 0 n = b"
proof -
  let ?out = "replicate (n - 1) 0 @ replicate (min n 1) (of_nat b) :: bytes"
  have "number ?out 0 n = b"
  proof (cases n)
    case 0
    then show ?thesis
      using assms(1) by simp
  next
    case (Suc k)
    have "number ?out 0 j = 0" if "j \<le> k" for j
      using that Suc by (induction j) (simp_all add: calldatabyte_def nth_append)
    moreover have "calldatabyte ?out k = of_nat b"
      using Suc by (simp add: calldatabyte_def nth_append)
    ultimately show ?thesis
      using Suc assms(2) by (simp add: unat_of_nat)
  qed
  moreover have "length ?out = n"
    by simp
  ultimately show ?thesis
    using assms(3) by (auto simp: small_result_def)
qed

lemma one_word_number:
  "unat (oneLimbImplementation cd) =
     (let b = number cd 96 32; e = number cd 128 32; n = number cd 160 32 in if n = 0 \<or> b = 0 then 0 else b ^ e mod n)"
proof -
  have "int (unat (oneLimbImplementation cd)) =
      int (let b = number cd 96 32; e = number cd 128 32; n = number cd 160 32 in if n = 0 \<or> b = 0 then 0 else b ^ e mod n)"
    using oneLimbImplementation_value [of cd]
    by (simp only: uint_nat calldataload_number Let_def nat_int of_nat_eq_0_iff)
       (simp add: of_nat_mod)
  then show ?thesis
    by (simp only: of_nat_eq_iff)
qed

lemma enough_for_general:
  assumes "96 + unat bl + unat el + unat ml \<le> 32 * heap" and "heap < 2 ^ 240"
  shows "modExp_general heap cd bl el ml =
    (let b = number cd 96 (unat bl); e = number cd (96 + unat bl) (unat el); n = number cd (96 + unat bl + unat el) (unat ml)
     in if n \<le> 1 then small_result heap (unat ml) 0
        else if b = 1 \<or> e = 0 then small_result heap (unat ml) 1
        else if b = 0 then small_result heap (unat ml) 0
        else modExp_limbs heap cd bl el ml)"
proof -
  have small: "unat bl < 2 ^ 250" "unat el < 2 ^ 250" "unat ml < 2 ^ 250"
    using assms by simp_all
  note ptrs = pointers [OF small(1,2)]
  have zero: "callDataBufferIsZero heap cd p n = Some (number cd (unat p) (unat n) = 0)"
    and one: "callDataBufferIsOne heap cd p n = Some (number cd (unat p) (unat n) = 1)"
    if "unat p + unat n < 2 ^ 256" "unat n \<le> 32 * heap" for p n
    using buffer_is_zero [of p n heap cd] buffer_is_one [of p n heap cd] that by auto
  have fits: "unat (96 + bl + el) + unat ml < 2 ^ 256" "unat ml \<le> 32 * heap" "unat (96 + bl) + unat el < 2 ^ 256"
      "unat el \<le> 32 * heap" "unat (96 :: u256) + unat bl < 2 ^ 256" "unat bl \<le> 32 * heap"
    using assms small ptrs by simp_all
  show ?thesis
    unfolding modExp_general_def Let_def zero [OF fits(1,2)] one [OF fits(1,2)] zero [OF fits(3,4)] zero [OF fits(5,6)]
      one [OF fits(5,6)] ptrs by (simp add: le_Suc_eq)
qed

text \<open>C5: A call with gas for as many words as its operands have returns, on three numbers of one word and whenever the
  modulus or the base is at most one or the exponent is zero, the power of the base modulo the modulus in as many bytes as the
  modulus has; the power modulo zero is zero. The power of zero with exponent zero is zero as well, but only on numbers of one word.\<close>

theorem direct_answers:
  assumes "number cd 0 32 = baseLen" and "number cd 32 32 = expLen" and "number cd 64 32 = modLen"
    and "number cd 96 baseLen = b" and "number cd (96 + baseLen) expLen = e" and "number cd (96 + baseLen + expLen) modLen = n"
    and "baseLen = 32 \<and> expLen = 32 \<and> modLen = 32 \<or> b \<le> 1 \<or> e = 0 \<or> n \<le> 1"
    and "96 + baseLen + expLen + modLen \<le> 32 * heap" and "heap < 2 ^ 240"
  shows "\<exists>out. modExp heap cd = Some out \<and> length out = modLen \<and>
    number out 0 modLen =
      (if n = 0 \<or> b = 0 \<and> e = 0 \<and> baseLen = 32 \<and> expLen = 32 \<and> modLen = 32 then 0 else b ^ e mod n)"
proof -
  define bl el ml where "bl = calldataload cd 0" and "el = calldataload cd 32" and "ml = calldataload cd 64"
  have lens: "unat bl = baseLen" "unat el = expLen" "unat ml = modLen"
    using assms(1-3) by (simp_all add: bl_def el_def ml_def calldataload_number)
  have of_len: "w = of_nat k \<longleftrightarrow> unat w = k" if "k < 2 ^ 256" for w :: u256 and k
    using that by (auto simp: word_unat_eq_iff unat_of_nat take_bit_nat_eq_self)
  have words: "bl = 32 \<longleftrightarrow> baseLen = 32" "el = 32 \<longleftrightarrow> expLen = 32" "ml = 32 \<longleftrightarrow> modLen = 32"
      "bl = 0 \<longleftrightarrow> baseLen = 0" "ml = 0 \<longleftrightarrow> modLen = 0"
    using of_len [of 32 bl] of_len [of 32 el] of_len [of 32 ml] of_len [of 0 bl] of_len [of 0 ml] lens by simp_all
  have call: "modExp heap cd = (if baseLen = 0 \<and> modLen = 0 then Some []
      else if baseLen = 32 \<and> expLen = 32 \<and> modLen = 32 then Some (to_be_bytes (oneLimbImplementation cd))
      else modExp_general heap cd bl el ml)"
    unfolding modExp_def Let_def bl_def [symmetric] el_def [symmetric] ml_def [symmetric] words ..
  show ?thesis
  proof (cases "baseLen = 32 \<and> expLen = 32 \<and> modLen = 32")
    case True
    moreover have "length (to_be_bytes (oneLimbImplementation cd)) = 32"
      by (simp add: to_be_bytes_def)
    moreover have "number (to_be_bytes (oneLimbImplementation cd)) 0 32 = (if n = 0 \<or> b = 0 \<and> e = 0 then 0 else b ^ e mod n)"
      using True assms(4-6) by (cases "b = 0") (simp_all add: number_of_word one_word_number Let_def power_0_left)
    ultimately show ?thesis
      using call by auto
  next
    case False
    have n: "0 < modLen \<or> n = 0"
      using assms(6) by (cases modLen) auto
    let ?r = "if n \<le> 1 \<or> b = 0 \<and> e \<noteq> 0 then 0 else 1 :: nat"
    have r: "?r = (if n = 0 then 0 else b ^ e mod n)"
    proof (cases "n \<le> 1")
      case n: False
      then have "b = 0 \<or> b = 1 \<or> e = 0"
        using assms(7) False by auto
      then show ?thesis
        using n by (auto simp: zero_power)
    qed (auto simp: le_Suc_eq)
    show ?thesis
    proof (cases "baseLen = 0 \<and> modLen = 0")
      case True
      then show ?thesis
        using call assms(6) by auto
    next
      case c: False
      have "modExp_general heap cd bl el ml = small_result heap modLen ?r"
        using assms(7) False unfolding enough_for_general [of bl el ml heap cd, unfolded lens, OF assms(8,9)] Let_def assms(4-6)
        by auto
      moreover have "\<exists>out. small_result heap modLen ?r = Some out \<and> length out = modLen \<and> number out 0 modLen = ?r"
        using n assms(8) by (intro small_result_number) auto
      ultimately show ?thesis
        using call c False unfolding r by auto
    qed
  qed
qed

text \<open>C6: A call whose modulus has more bytes than its gas can pay for never returns, whatever its operands are.\<close>

theorem unpayable_modulus:
  assumes "0 < heap" and "32 * heap < number cd 64 32"
  shows "modExp heap cd = None"
proof -
  define ml where "ml = calldataload cd 64"
  have ml: "32 * heap < unat ml"
    using assms(2) by (simp add: ml_def calldataload_number)
  then have "ml \<noteq> 0" "ml \<noteq> 32"
    using assms(1) by auto
  have small: "small_result heap (unat ml) r = None" for r
    using ml by (simp add: small_result_def)
  have "heap < bigIntLimbs (unat ml)"
    using ml limbs_bound [of "unat ml"] by linarith
  then have "parseCalldata heap cd p ml r m = None" for p r m
    by (simp add: parseCalldata_def Let_def)
  then have limbs: "modExp_limbs heap cd bl el ml = None" for bl el
    by (auto simp: modExp_limbs_def Let_def bind_eq_None_conv)
  have "modExp_general heap cd bl el ml = None" for bl el
    by (auto simp: modExp_general_def Let_def small limbs bind_eq_None_conv)
  then show ?thesis
    using \<open>ml \<noteq> 0\<close> \<open>ml \<noteq> 32\<close> by (simp add: modExp_def flip: ml_def)
qed

text \<open>The witness is the third example of the specification: an empty base and a modulus of \<^verbatim>\<open>2^256 - 1\<close> bytes.\<close>

definition endless_modulus_call :: bytes where
  "endless_modulus_call = replicate 63 0 @ [32] @ replicate 63 0xFF @ [0xFE] @ replicate 31 0xFF @ [0xFD]"

theorem unpayable_modulus_witness:
  "number endless_modulus_call 0 32 = 0 \<and> number endless_modulus_call 32 32 = 32 \<and>
   modExp (2 ^ 230) endless_modulus_call = None"
proof -
  have "number endless_modulus_call 0 32 = 0" "number endless_modulus_call 32 32 = 32"
    by code_simp+
  moreover have "calldataload endless_modulus_call 64 = - 1"
    by code_simp
  then have "number endless_modulus_call 64 32 = 2 ^ 256 - 1"
    using calldataload_number [of endless_modulus_call 64] by (simp add: unsigned_minus_1_eq_mask mask_eq_exp_minus_1)
  then have "modExp (2 ^ 230) endless_modulus_call = None"
    by (intro unpayable_modulus) simp_all
  ultimately show ?thesis
    by blast
qed

text \<open>The witnesses are \<^verbatim>\<open>7^5\<close> modulo 11 and \<^verbatim>\<open>0^0\<close> modulo 2, both in numbers of one word, and \<^verbatim>\<open>0^0\<close> modulo 2 in bytes.\<close>

definition one_word_call :: "u8 \<Rightarrow> u8 \<Rightarrow> u8 \<Rightarrow> bytes" where
  "one_word_call b e n = concat (map (\<lambda>x. replicate 31 0 @ [x]) [32, 32, 32, b, e, n])"

definition byte_call :: "u8 \<Rightarrow> u8 \<Rightarrow> u8 \<Rightarrow> bytes" where
  "byte_call b e n = concat (map (\<lambda>x. replicate 31 0 @ [x]) [1, 1, 1]) @ [b, e, n]"

theorem direct_answers_witness:
  "(\<exists>out. modExp 1000 (one_word_call 7 5 11) = Some out \<and> length out = 32 \<and> number out 0 32 = 10) \<and>
   (\<exists>out. modExp 1000 (one_word_call 0 0 2) = Some out \<and> length out = 32 \<and> number out 0 32 = 0) \<and>
   (\<exists>out. modExp 1000 (byte_call 0 0 2) = Some out \<and> length out = 1 \<and> number out 0 1 = 1)"
proof (intro conjI)
  have len: "number (one_word_call b e n) 0 32 = 32" "number (one_word_call b e n) 32 32 = 32"
      "number (one_word_call b e n) 64 32 = 32" if "(b, e, n) \<in> {(7, 5, 11), (0, 0, 2)}" for b e n
    using that by (elim insertE emptyE; simp only: prod.inject; elim conjE; hypsubst; code_simp)+
  have one: "number (one_word_call 7 5 11) 96 32 = 7" "number (one_word_call 7 5 11) 128 32 = 5"
      "number (one_word_call 7 5 11) 160 32 = 11" "number (one_word_call 0 0 2) 96 32 = 0"
      "number (one_word_call 0 0 2) 128 32 = 0" "number (one_word_call 0 0 2) 160 32 = 2"
    by code_simp+
  show "\<exists>out. modExp 1000 (one_word_call 7 5 11) = Some out \<and> length out = 32 \<and> number out 0 32 = 10"
    using direct_answers [of "one_word_call 7 5 11" 32 32 32 7 5 11 1000] len one by simp
  show "\<exists>out. modExp 1000 (one_word_call 0 0 2) = Some out \<and> length out = 32 \<and> number out 0 32 = 0"
    using direct_answers [of "one_word_call 0 0 2" 32 32 32 0 0 2 1000] len one by simp
  have "number (byte_call 0 0 2) 0 32 = 1" "number (byte_call 0 0 2) 32 32 = 1" "number (byte_call 0 0 2) 64 32 = 1"
      "number (byte_call 0 0 2) 96 1 = 0" "number (byte_call 0 0 2) 97 1 = 0" "number (byte_call 0 0 2) 98 1 = 2"
    by code_simp+
  then show "\<exists>out. modExp 1000 (byte_call 0 0 2) = Some out \<and> length out = 1 \<and> number out 0 1 = 1"
    using direct_answers [of "byte_call 0 0 2" 1 1 1 0 0 2 1000] by simp
qed

end
