(* ===== verification/ModExpRem.thy ===== *)
theory ModExpRem
  imports ModExpCall
begin

unbundle bit_operations_syntax

text \<open>
  The division of \<^verbatim>\<open>ModExp.yul\<close>: its subtraction and shifts on arrays of words as operations on numbers, when the
  remainder that it computes is the remainder, and how the exactness is lost otherwise.
\<close>

section \<open>Words of a number\<close>

lemma val_high: "k \<le> n \<Longrightarrow> val m p k = val m p n div R256 ^ (n - k)"
  using val_split [of m p k "n - k"] val_bound [of m "p + k" "n - k"] val_nonneg [of m "p + k" "n - k"]
  by (simp add: div_add1_eq [of _ "val m (p + k) (n - k)"] R256_def)

lemma val_word: "i < n \<Longrightarrow> uint (m (p + i)) = val m p n div R256 ^ (n - 1 - i) mod R256"
proof -
  assume "i < n"
  then have "val m p n div R256 ^ (n - 1 - i) = val m p i * R256 + uint (m (p + i))"
    using val_high [of "Suc i" n m p] by simp
  then show ?thesis
    by simp
qed

section \<open>The subtraction\<close>

lemma overflowingSub_value:
  assumes "overflowingSubWithBorrow a s b = (d, b')" and "b = 0 \<or> b = 1" and "s \<noteq> - 1"
  shows "uint d - uint b' * R256 = uint a - uint s - uint b" and "b' = 0 \<or> b' = 1"
proof -
  have "uint s \<noteq> R256 - 1"
    using assms(3) by (auto simp: word_uint_eq_iff R256_def uint_word_ariths)
  then have s: "uint (s + b) = uint s + uint b"
    using assms(2) uint_bounds(1) [of s] by (auto simp: uint_word_ariths R256_def)
  have d: "d = a - (s + b)" "b' = (if a < a - (s + b) then 1 else 0)"
    using assms(1) by (auto simp: overflowingSubWithBorrow_def Let_def)
  have "uint (a - (s + b)) = (if uint (s + b) \<le> uint a then uint a - uint (s + b) else uint a - uint (s + b) + R256)"
    using uint_sub_if' [of a "s + b"] by (simp add: R256_def)
  moreover have "a < a - (s + b) \<longleftrightarrow> \<not> uint (s + b) \<le> uint a"
    using calculation uint_bounds(1) [of "s + b"] uint_bounds(2) [of "s + b"] unfolding word_less_def by (simp split: if_splits)
  ultimately show "uint d - uint b' * R256 = uint a - uint s - uint b"
    using s unfolding d by simp
  show "b' = 0 \<or> b' = 1"
    by (simp add: d)
qed

lemma sub_limbs_value:
  assumes "fold (sub_limb p s d) (rev [0..<n]) (m, b) = (m', b')"
    and "b = 0 \<or> b = 1" and "\<And>i. i < n \<Longrightarrow> m (s + i) \<noteq> - 1"
    and "p + n \<le> d \<or> d + n \<le> p" and "s + n \<le> d \<or> d + n \<le> s"
  shows "val m' d n - uint b' * R256 ^ n = val m p n - val m s n - uint b \<and> (b' = 0 \<or> b' = 1) \<and>
    (\<forall>k. k < d \<or> d + n \<le> k \<longrightarrow> m' k = m k)"
  using assms
proof (induction n arbitrary: m b)
  case (Suc n)
  obtain x b1 where x: "overflowingSubWithBorrow (m (p + n)) (m (s + n)) b = (x, b1)"
    by fastforce
  note v = overflowingSub_value [OF x Suc.prems(2) Suc.prems(3) [OF lessI]]
  let ?m = "m(d + n := x)"
  have "sub_limb p s d n (m, b) = (?m, b1)"
    by (simp add: sub_limb_def x)
  then have rest: "fold (sub_limb p s d) (rev [0..<n]) (?m, b1) = (m', b')"
    using Suc.prems(1) by simp
  have ih: "val m' d n - uint b' * R256 ^ n = val ?m p n - val ?m s n - uint b1" "b' = 0 \<or> b' = 1"
      "\<forall>k. k < d \<or> d + n \<le> k \<longrightarrow> m' k = ?m k"
  proof -
    have "?m (s + i) \<noteq> - 1" if "i < n" for i
      using Suc.prems(3) [of i] Suc.prems(5) that by auto
    moreover have "p + n \<le> d \<or> d + n \<le> p" "s + n \<le> d \<or> d + n \<le> s"
      using Suc.prems(4,5) by linarith+
    ultimately show "val m' d n - uint b' * R256 ^ n = val ?m p n - val ?m s n - uint b1" "b' = 0 \<or> b' = 1"
        "\<forall>k. k < d \<or> d + n \<le> k \<longrightarrow> m' k = ?m k"
      using Suc.IH [OF rest v(2)] by blast+
  qed
  have same: "val ?m p n = val m p n" "val ?m s n = val m s n" "m' (d + n) = x"
    using Suc.prems(4,5) ih(3) by (auto intro!: val_cong)
  have "val m' d (Suc n) - uint b' * R256 ^ Suc n = (val m' d n - uint b' * R256 ^ n) * R256 + uint x"
    by (simp add: same algebra_simps)
  also have "\<dots> = (val m p n - val m s n) * R256 + (uint x - uint b1 * R256)"
    unfolding ih(1) same by (simp add: algebra_simps)
  also have "\<dots> = val m p (Suc n) - val m s (Suc n) - uint b"
    unfolding v(1) by (simp add: algebra_simps)
  finally show ?case
    using ih(2,3) by auto
qed auto

lemma bigUIntSub_value:
  assumes "bigUIntSubWithBorrow p s n d m = (m', b)" and "\<And>i. i < n \<Longrightarrow> m (s + i) \<noteq> - 1"
    and "p + n \<le> d \<or> d + n \<le> p" and "s + n \<le> d \<or> d + n \<le> s"
  shows "b = 0 \<longleftrightarrow> val m s n \<le> val m p n" and "b = 0 \<Longrightarrow> val m' d n = val m p n - val m s n"
    and "k < d \<or> d + n \<le> k \<Longrightarrow> m' k = m k"
proof -
  have v: "val m' d n - uint b * R256 ^ n = val m p n - val m s n" "b = 0 \<or> b = 1"
      "\<forall>k. k < d \<or> d + n \<le> k \<longrightarrow> m' k = m k"
    using sub_limbs_value [of p s d n m 0 m' b] assms by (auto simp: bigUIntSubWithBorrow_def)
  show "b = 0 \<longleftrightarrow> val m s n \<le> val m p n" "b = 0 \<Longrightarrow> val m' d n = val m p n - val m s n"
    using v(1,2) val_bound [of m' d n] val_nonneg [of m' d n] by auto
  show "k < d \<or> d + n \<le> k \<Longrightarrow> m' k = m k"
    using v(3) by blast
qed

section \<open>The shift to the right\<close>

lemma top_bit: "255 \<le> n \<Longrightarrow> drop_bit 1 (x :: u256) OR push_bit n 1 = drop_bit 1 x + push_bit n 1"
  by (rule disjunctive_add [symmetric]) (auto simp: bit_simps bit_1_iff dest: bit_imp_le_length)

lemma half_limb: "(v * R256 + x) div 2 = v div 2 * R256 + (x div 2 + (if odd v then 2 ^ 255 else 0))" for v x :: int
proof (cases "odd v")
  case True
  then obtain h where h: "v = 2 * h + 1"
    by (elim oddE)
  then have "v * R256 + x = x + 2 * (h * R256 + 2 ^ 255)"
    by (simp add: R256_def)
  then have "(v * R256 + x) div 2 = h * R256 + 2 ^ 255 + x div 2"
    by simp
  then show ?thesis
    using h by simp
next
  case False
  then obtain h where h: "v = 2 * h"
    by auto
  then have "v * R256 + x = x + 2 * (h * R256)"
    by simp
  then show ?thesis
    using h by simp
qed

lemma shift_right_value: "val (bigUIntOneShiftRight p n m) p n = val m p n div 2"
  and shift_right_other: "k < p \<or> p + n \<le> k \<Longrightarrow> bigUIntOneShiftRight p n m k = m k"
proof -
  let ?f = "shift_limb p"
  have step: "val (fst (fold ?f [0..<j] (m, 0))) p j = val m p j div 2 \<and>
      snd (fold ?f [0..<j] (m, 0)) = (if odd (val m p j) then 2 ^ 255 else 0) \<and>
      (\<forall>k. k < p \<or> p + j \<le> k \<longrightarrow> fst (fold ?f [0..<j] (m, 0)) k = m k)" for j
  proof (induction j)
    case (Suc j)
    obtain m1 c where f: "fold ?f [0..<j] (m, 0) = (m1, c)"
      by fastforce
    have ih: "val m1 p j = val m p j div 2" "c = (if odd (val m p j) then 2 ^ 255 else 0)"
        "\<forall>k. k < p \<or> p + j \<le> k \<longrightarrow> m1 k = m k"
      using Suc f by simp_all
    let ?x = "m (p + j)"
    have x: "m1 (p + j) = ?x"
      using ih(3) by simp
    have "val (m1(p + j := drop_bit 1 ?x OR c)) p j = val m1 p j"
      by (intro val_cong) simp
    moreover have "uint (drop_bit 1 ?x OR c) = uint ?x div 2 + (if odd (val m p j) then 2 ^ 255 else 0)"
    proof (cases "odd (val m p j)")
      case True
      have "drop_bit 1 ?x OR 2 ^ 255 = drop_bit 1 ?x + 2 ^ 255"
        using top_bit [of 255 ?x] by (simp add: push_bit_of_1)
      moreover have "uint (drop_bit 1 ?x + 2 ^ 255) = uint (drop_bit 1 ?x) + 2 ^ 255"
        using uint_bounds(1) [of ?x] unfolding uint_drop_one uint_word_ariths
        by (simp add: uint_drop_one R256_def)
      ultimately show ?thesis
        using True ih(2) uint_drop_one [of ?x] by simp
    qed (use ih(2) uint_drop_one [of ?x] in simp)
    moreover have "val m p (Suc j) div 2 = val m p j div 2 * R256 + (uint ?x div 2 + (if odd (val m p j) then 2 ^ 255 else 0))"
      using half_limb [of "val m p j" "uint ?x"] by simp
    moreover have "fold ?f [0..<Suc j] (m, 0) = (m1(p + j := drop_bit 1 ?x OR c), push_bit 255 (?x AND 1))"
      using f x by (simp add: shift_limb_def [of p j])
    moreover have "push_bit 255 (?x AND 1) = (if odd (val m p (Suc j)) then 2 ^ 255 else 0)"
      by (simp add: and_one_eq R256_def odd_word [symmetric])
    ultimately show ?case
      using ih(3) by (simp only: fst_conv snd_conv val.simps ih(1) fun_upd_same) auto
  qed simp
  show "val (bigUIntOneShiftRight p n m) p n = val m p n div 2"
    using step [of n] by (simp add: bigUIntOneShiftRight_def)
  show "k < p \<or> p + n \<le> k \<Longrightarrow> bigUIntOneShiftRight p n m k = m k"
    using step [of n] by (auto simp: bigUIntOneShiftRight_def)
qed

section \<open>The shift to the left\<close>

text \<open>The words of a number shifted by \<^verbatim>\<open>l\<close> words and \<^verbatim>\<open>e\<close> bits, with zeros after the last word.\<close>

definition word_at :: "memory \<Rightarrow> nat \<Rightarrow> nat \<Rightarrow> nat \<Rightarrow> u256" where
  "word_at m p n k = (if k < n then m (p + k) else 0)"

definition shifted_word :: "memory \<Rightarrow> nat \<Rightarrow> nat \<Rightarrow> nat \<Rightarrow> nat \<Rightarrow> nat \<Rightarrow> u256" where
  "shifted_word m p n l e i = drop_bit (256 - e) (word_at m p n (l + i + 1)) OR push_bit e (word_at m p n (l + i))"

lemma drop_bit_high: "uint (drop_bit (256 - e) (x :: u256)) = uint x * 2 ^ e div R256" if "e < 256"
proof -
  have R: "R256 = 2 ^ (256 - e) * 2 ^ e"
    using that by (simp add: R256_def flip: power_add)
  have "uint (drop_bit (256 - e) x) = drop_bit (256 - e) (uint x)"
    using uint_lt2p [of x] by (simp only: unsigned_drop_bit_eq) (simp add: take_bit_int_eq_self)
  then show ?thesis
    by (simp only: R drop_bit_eq_div) simp
qed

lemma two_halves:
  assumes "e < 256"
  shows "uint (drop_bit (256 - e) (y :: u256) OR push_bit e x) + uint (drop_bit (256 - e) x) * R256 =
    uint x * 2 ^ e + uint (drop_bit (256 - e) y)"
proof -
  have "uint (drop_bit (256 - e) y OR push_bit e x) = uint (drop_bit (256 - e) y) OR uint (push_bit e x)"
    by (simp only: unsigned_or_eq)
  also have "\<dots> = uint (drop_bit (256 - e) y) + uint (push_bit e x)"
    by (rule disjunctive_add [symmetric]) (use assms in \<open>auto simp: bit_simps dest: bit_imp_le_length\<close>)
  also have "uint (push_bit e x) = uint x * 2 ^ e mod R256"
    by (simp only: unsigned_push_bit_eq) (simp add: push_bit_eq_mult take_bit_eq_mod R256_def)
  finally have "uint (drop_bit (256 - e) y OR push_bit e x) = uint (drop_bit (256 - e) y) + uint x * 2 ^ e mod R256" .
  then show ?thesis
    using div_mult_mod_eq [of "uint x * 2 ^ e" R256] drop_bit_high [OF assms, of x] by simp
qed

text \<open>With no number before its first words, the words shifted so far make up the number read so far.\<close>

lemma shifted_words_value:
  assumes "e < 256" and "l < n" and "val m p n * 2 ^ (256 * l + e) < R256 ^ n"
    and "\<And>i. i < n - l \<Longrightarrow> m' (q + i) = shifted_word m p n l e i"
  shows "val m' q (n - l) = val m p n * 2 ^ e"
proof -
  have small: "val m p k * 2 ^ e < R256 ^ (k - l)" if "l \<le> k" "k \<le> n" for k
  proof -
    have "val m p k * R256 ^ (n - k) \<le> val m p n"
      using val_split [of m p k "n - k"] val_nonneg [of m "p + k" "n - k"] that(2) by simp
    then have "val m p k * R256 ^ (n - k) * 2 ^ (256 * l + e) \<le> val m p n * 2 ^ (256 * l + e)"
      by (rule mult_right_mono) simp
    moreover have "val m p k * R256 ^ (n - k) * 2 ^ (256 * l + e) = val m p k * 2 ^ e * R256 ^ (n - k + l)"
      by (simp add: power_add power_mult R256_def)
    moreover have "R256 ^ n = R256 ^ (k - l) * R256 ^ (n - k + l)"
      using that by (simp flip: power_add)
    ultimately have "val m p k * 2 ^ e * R256 ^ (n - k + l) < R256 ^ (k - l) * R256 ^ (n - k + l)"
      using assms(3) by linarith
    then show ?thesis
      by (rule mult_right_less_imp_less) (simp add: R256_def)
  qed
  then have "val m p l * 2 ^ e < 1"
    using small [of l] assms(2) by simp
  then have top: "val m p l = 0"
    using mult_left_mono [of 1 "2 ^ e" "val m p l"] val_nonneg [of m p l] by simp
  then have "uint (m (p + l)) * 2 ^ e < R256"
    using small [of "Suc l"] assms(2) by simp
  then have carry: "uint (drop_bit (256 - e) (word_at m p n l)) = 0"
    using drop_bit_high [OF assms(1), of "m (p + l)"] assms(2) by (simp add: word_at_def div_pos_pos_trivial)
  have "val m' q k = val m p (l + k) * 2 ^ e + uint (drop_bit (256 - e) (word_at m p n (l + k)))" if "k \<le> n - l" for k
    using that
  proof (induction k)
    case (Suc k)
    have "l + k < n"
      using Suc.prems assms(2) by linarith
    then have w: "word_at m p n (l + k) = m (p + (l + k))"
      by (simp add: word_at_def)
    have "val m' q (Suc k) = val m p (l + k) * 2 ^ e * R256 +
        (uint (shifted_word m p n l e k) + uint (drop_bit (256 - e) (word_at m p n (l + k))) * R256)"
      using Suc assms(4) [of k] by (simp add: algebra_simps)
    also have "\<dots> = val m p (l + Suc k) * 2 ^ e + uint (drop_bit (256 - e) (word_at m p n (l + Suc k)))"
      using two_halves [OF assms(1), of "word_at m p n (l + k + 1)" "word_at m p n (l + k)"] w
      by (simp add: shifted_word_def algebra_simps)
    finally show ?case .
  qed (simp add: top carry)
  from this [of "n - l"] show ?thesis
    using assms(2) by (simp add: word_at_def)
qed

text \<open>The word after the number is read for the last word. It may be the first word of the result.\<close>

lemma shift_bits_loop:
  assumes "p + n \<le> q \<or> q + n \<le> p" and "j \<le> n - l"
    and "if p + n = q then m q = 0 \<and> shifted_word m p n l e 0 = 0 else m (p + n) = 0"
  shows "fold (move_bits e p q l) [l..<l + j] m k =
    (if q \<le> k \<and> k < q + j then shifted_word m p n l e (k - q) else m k)"
  using assms(2)
proof (induction j arbitrary: k)
  case (Suc j)
  let ?m = "fold (move_bits e p q l) [l..<l + j] m"
  have ih: "?m k = (if q \<le> k \<and> k < q + j then shifted_word m p n l e (k - q) else m k)" for k
    using Suc.IH Suc.prems by simp
  have i: "l + j < n"
    using Suc.prems by linarith
  have x: "?m (p + (l + j)) = word_at m p n (l + j)"
    using assms(1) i by (auto simp: ih word_at_def)
  have y: "?m (p + (l + j) + 1) = word_at m p n (l + j + 1)"
  proof (cases "l + j + 1 < n")
    case True
    then show ?thesis
      using assms(1) by (auto simp: ih word_at_def)
  next
    case False
    then have n: "p + (l + j) + 1 = p + n" "\<not> l + j + 1 < n"
      using i by simp_all
    have "word_at m p n (l + j + 1) = 0"
      using n(2) by (simp add: word_at_def)
    then show ?thesis
      using assms(1,3) i unfolding n(1) by (auto simp: ih split: if_splits)
  qed
  have "fold (move_bits e p q l) [l..<l + Suc j] m = ?m(q + j := shifted_word m p n l e j)"
    using x y by (simp add: shifted_word_def move_bits_def [of e p q l "l + j"])
  then show ?case
    using ih by (auto simp: less_Suc_eq)
qed auto

lemma shift_words_loop:
  assumes "p + n \<le> q \<or> q + n \<le> p" and "j \<le> n - l"
  shows "fold (move_limb p q l) [l..<l + j] m k =
    (if q \<le> k \<and> k < q + j then shifted_word m p n l 0 (k - q) else m k)"
  using assms(2)
proof (induction j arbitrary: k)
  case (Suc j)
  let ?m = "fold (move_limb p q l) [l..<l + j] m"
  have ih: "?m k = (if q \<le> k \<and> k < q + j then shifted_word m p n l 0 (k - q) else m k)" for k
    using Suc.IH Suc.prems by simp
  have i: "l + j < n"
    using Suc.prems by linarith
  have x: "?m (p + (l + j)) = word_at m p n (l + j)"
    using assms(1) i by (auto simp: ih word_at_def)
  have "drop_bit 256 w = 0" for w :: u256
    by (rule bit_word_eqI) (auto simp: bit_simps dest: bit_imp_le_length)
  then have "fold (move_limb p q l) [l..<l + Suc j] m = ?m(q + j := shifted_word m p n l 0 j)"
    using x by (simp add: shifted_word_def move_limb_def [of p q l "l + j"])
  then show ?case
    using ih by (auto simp: less_Suc_eq)
qed auto

lemma shl_number:
  assumes "l < n" and "e < 256" and "val m p n * 2 ^ (256 * l + e) < R256 ^ n"
    and "\<And>i. i < n - l \<Longrightarrow> m' (q + i) = shifted_word m p n l e i"
    and "\<And>i. i < l \<Longrightarrow> m' (q + (n - l) + i) = 0"
  shows "val m' q n = val m p n * 2 ^ (256 * l + e)"
proof -
  have "val m' (q + (n - l)) l = 0"
    by (rule val_zero) (rule assms(5))
  then have "val m' q n = val m p n * 2 ^ e * R256 ^ l"
    using val_split [of m' q "n - l" l] shifted_words_value [OF assms(2,1,3,4)] assms(1) by simp
  then show ?thesis
    by (simp add: power_add power_mult R256_def)
qed

lemma first_shifted_word:
  assumes "l < n" and "e < 256" and "val m p n * 2 ^ (256 * l + e) < R256 ^ (n - 1)"
  shows "shifted_word m p n l e 0 = 0"
proof -
  define m' where "m' = shifted_word m p n l e"
  have "R256 ^ (n - 1) \<le> R256 ^ n"
    by (intro power_increasing) (simp_all add: R256_def)
  then have "val m' 0 (n - l) = val m p n * 2 ^ e"
    using assms by (intro shifted_words_value) (simp_all add: m'_def)
  moreover have "val m p n * 2 ^ e * R256 ^ l < R256 ^ (n - 1 - l) * R256 ^ l"
  proof -
    have "val m p n * 2 ^ e * R256 ^ l = val m p n * 2 ^ (256 * l + e)"
      by (simp add: power_add power_mult R256_def)
    moreover have "R256 ^ (n - 1 - l) * R256 ^ l = R256 ^ (n - 1)"
      using assms(1) by (simp flip: power_add)
    ultimately show ?thesis
      using assms(3) by (simp only:)
  qed
  then have "val m p n * 2 ^ e < R256 ^ (n - 1 - l)"
    by (rule mult_right_less_imp_less) (simp add: R256_def)
  ultimately have "uint (m' (0 + 0)) = 0"
    using val_word [of 0 "n - l" m' 0] assms(1) val_nonneg [of m' 0 "n - l"] by (simp add: div_pos_pos_trivial del: val.simps)
  then show ?thesis
    by (simp add: m'_def word_uint_eq_iff)
qed

lemma shl_value:
  assumes "unat s = d" and "q + n < heap" and "p + n \<le> q \<or> q + n \<le> p" and "\<And>i. i < n \<Longrightarrow> m (q + i) = 0"
    and "0 < val m p n" and "val m p n * 2 ^ d < R256 ^ n"
    and "if p + n = q then val m p n * 2 ^ d < R256 ^ (n - 1) else m (p + n) = 0"
  shows "\<exists>m'. bigUIntShl heap s p n q m = Some m' \<and> val m' q n = val m p n * 2 ^ d \<and> (\<forall>k. k < q \<or> q + n < k \<longrightarrow> m' k = m k)"
proof -
  define l e where "l = d div 256" and "e = d mod 256"
  have d: "d = 256 * l + e" and e: "e < 256"
    by (simp_all add: l_def e_def)
  have "1 * 2 ^ d \<le> val m p n * 2 ^ d"
    using assms(5) by (intro mult_right_mono) simp_all
  then have "2 ^ d < R256 ^ n"
    using assms(6) by linarith
  then have "(2 :: int) ^ d < 2 ^ (256 * n)"
    by (simp add: power_mult R256_def)
  then have l: "l < n"
    by (simp add: l_def)
  have first: "if p + n = q then m q = 0 \<and> shifted_word m p n l e 0 = 0 else m (p + n) = 0"
    using assms(4) [of 0] assms(7) l e first_shifted_word [of l n e m p] by (auto simp: d)
  note number = shl_number [OF l e assms(6) [unfolded d], folded d]
  have cover: "[l..<n] = [l..<l + (n - l)]"
    using l by simp
  show ?thesis
  proof (cases "e = 0")
    case True
    let ?m = "fold (move_limb p q l) [l..<n] m"
    have m: "?m k = (if q \<le> k \<and> k < q + (n - l) then shifted_word m p n l e (k - q) else m k)" for k
      unfolding cover True using assms(3) by (rule shift_words_loop) simp
    have "val (zeroWithLimbSizeAt l (q + (n - l)) ?m) q n = val m p n * 2 ^ d"
      by (rule number) (auto simp: zero_limbs m)
    moreover have "\<forall>k. k < q \<or> q + n < k \<longrightarrow> zeroWithLimbSizeAt l (q + (n - l)) ?m k = m k"
      using l by (auto simp: zero_limbs m)
    moreover have "bigUIntShl heap s p n q m = Some (zeroWithLimbSizeAt l (q + (n - l)) ?m)"
    proof (cases "s = 0")
      case s: True
      then have "l = 0"
        using assms(1) by (simp add: l_def)
      then show ?thesis
        using s l assms(3) by (auto simp: bigUIntShl_def zeroWithLimbSizeAt_def)
    next
      case False
      then show ?thesis
        using True l assms(2) by (simp add: bigUIntShl_def assms(1) Let_def flip: l_def e_def)
    qed
    ultimately show ?thesis
      by blast
  next
    case False
    let ?m = "fold (move_bits e p q l) [l..<n] m"
    have m: "?m k = (if q \<le> k \<and> k < q + (n - l) then shifted_word m p n l e (k - q) else m k)" for k
      unfolding cover using assms(3) by (rule shift_bits_loop) (use first in simp_all)
    let ?z = "zeroWithLimbSizeAt l (q + (n - l) + 1) (?m(q + (n - l) := push_bit e (?m (q + (n - l)))))"
    have "?z (q + (n - l) + i) = 0" if "i < l" for i
      using that l assms(4) [of "n - l"] by (cases i) (auto simp: zero_limbs m)
    then have "val ?z q n = val m p n * 2 ^ d"
      by (intro number) (auto simp: zero_limbs m)
    moreover have "\<forall>k. k < q \<or> q + n < k \<longrightarrow> ?z k = m k"
      using l by (auto simp: zero_limbs m)
    moreover have "bigUIntShl heap s p n q m = Some ?z"
    proof -
      have "s \<noteq> 0"
        using False assms(1) by (auto simp: e_def)
      then show ?thesis
        using False l assms(2) by (simp add: bigUIntShl_def assms(1) Let_def flip: l_def e_def)
    qed
    ultimately show ?thesis
      by blast
  qed
qed

section \<open>The division\<close>

definition apart :: "nat \<Rightarrow> nat \<Rightarrow> nat \<Rightarrow> bool" where
  "apart n p q \<longleftrightarrow> p + n \<le> q \<or> q + n \<le> p"

lemma copied:
  assumes "apart n p q"
  shows "copyBigUint n p q m k = (if q \<le> k \<and> k < q + n then m (p + (k - q)) else m k)"
proof -
  have "fold (\<lambda>i m. m(q + i := m (p + i))) [0..<j] m k = (if q \<le> k \<and> k < q + j then m (p + (k - q)) else m k)"
    if "j \<le> n" for j k
    using that assms by (induction j arbitrary: k) (auto simp: apart_def less_Suc_eq)
  then show ?thesis
    by (simp add: copyBigUint_def)
qed

lemma rem_step_value:
  assumes "apart n Q A" and "apart n Q B" and "apart n A B" and "\<And>i. i < n \<Longrightarrow> m (A + i) \<noteq> - 1"
  shows "val (rem_step Q A B n m) Q n = (if val m A n \<le> val m Q n then val m Q n - val m A n else val m Q n)"
    and "k \<notin> {Q..<Q + n} \<union> {B..<B + n} \<Longrightarrow> rem_step Q A B n m k = m k"
proof -
  obtain m1 b where s: "bigUIntSubWithBorrow Q A n B m = (m1, b)"
    by fastforce
  have b: "b = 0 \<longleftrightarrow> val m A n \<le> val m Q n" "b = 0 \<Longrightarrow> val m1 B n = val m Q n - val m A n"
      "k < B \<or> B + n \<le> k \<Longrightarrow> m1 k = m k" for k
    using bigUIntSub_value [OF s] assms by (auto simp: apart_def)
  have c: "copyBigUint n B Q m1 k = (if Q \<le> k \<and> k < Q + n then m1 (B + (k - Q)) else m1 k)" for k
    using assms(2) by (intro copied) (auto simp: apart_def)
  have "val (copyBigUint n B Q m1) Q n = val m1 B n" "val m1 Q n = val m Q n"
    using assms(2) by (auto intro!: val_cong simp: c b(3) apart_def)
  then show "val (rem_step Q A B n m) Q n = (if val m A n \<le> val m Q n then val m Q n - val m A n else val m Q n)"
    using b by (simp add: rem_step_def s)
  show "k \<notin> {Q..<Q + n} \<union> {B..<B + n} \<Longrightarrow> rem_step Q A B n m k = m k"
    by (auto simp: rem_step_def s c b(3))
qed

lemma subtract_once: "0 \<le> q \<Longrightarrow> q < 2 * v \<Longrightarrow> (if v \<le> q then q - v else q) = q mod v" for q v :: int
proof (cases "v \<le> q")
  case True
  assume "0 \<le> q" "q < 2 * v"
  then have "(q - v) mod v = q - v"
    using True by (intro mod_pos_pos_trivial) simp_all
  moreover have "(q - v) mod v = q mod v"
    by (rule minus_mod_self2)
  ultimately show ?thesis
    using True by simp
qed simp

lemma rem_loop_value:
  assumes "apart n Q A" and "apart n Q B" and "apart n A B" and "0 < v"
    and "val m A n = v * 2 ^ bd" and "val m Q n < 2 * (v * 2 ^ bd)"
    and "\<And>j i. j \<le> bd \<Longrightarrow> i < n \<Longrightarrow> v * 2 ^ j div R256 ^ i mod R256 \<noteq> R256 - 1"
  shows "val (rem_loop bd Q A B n m) Q n = val m Q n mod v \<and>
    (\<forall>k. k \<notin> {Q..<Q + n} \<union> {A..<A + n} \<union> {B..<B + n} \<longrightarrow> rem_loop bd Q A B n m k = m k)"
  using assms(5-7)
proof (induction bd arbitrary: m)
  case 0
  have c: "m (A + i) \<noteq> - 1" if "i < n" for i
    using val_word [OF that, of m A] "0.prems"(1) "0.prems"(3) [of 0 "n - 1 - i"] that
    by (auto simp: uint_word_ariths R256_def)
  note step = rem_step_value [of n Q A B m, OF assms(1-3) c]
  have r: "(if v \<le> val m Q n then val m Q n - v else val m Q n) = val m Q n mod v"
    using "0.prems"(2) val_nonneg [of m Q n] by (intro subtract_once) simp_all
  have "val m A n = v"
    using "0.prems"(1) by simp
  then have "val (rem_step Q A B n m) Q n = val m Q n mod v"
    using step(1) r by (simp only:)
  then show ?case
    using step(2) by simp
next
  case (Suc bd)
  have c: "m (A + i) \<noteq> - 1" if "i < n" for i
    using val_word [OF that, of m A] Suc.prems(1) Suc.prems(3) [of "Suc bd" "n - 1 - i"] that
    by (auto simp: uint_word_ariths R256_def)
  note step = rem_step_value [of n Q A B m, OF assms(1-3) c]
  let ?m = "rem_step Q A B n m"
  let ?m' = "bigUIntOneShiftRight A n ?m"
  have "val ?m A n = v * 2 ^ Suc bd"
    unfolding Suc.prems(1) [symmetric] using assms(1,3) by (intro val_cong step(2)) (auto simp: apart_def)
  then have a: "val ?m' A n = v * 2 ^ bd"
    by (simp add: shift_right_value)
  have q: "val ?m' Q n = val ?m Q n"
    using assms(1) by (intro val_cong shift_right_other) (auto simp: apart_def)
  have "val ?m Q n < v * 2 ^ Suc bd" "val ?m Q n mod v = val m Q n mod v"
    using step(1) Suc.prems(1,2) mod_mult_self2 [of "val m Q n" v "- (2 ^ Suc bd)"] by auto
  then show ?case
    using Suc.IH [of ?m'] Suc.prems(3) a q step(2) shift_right_other [of _ A n ?m] by auto
qed

lemma bit_size_bounds:
  assumes "0 < val m p n"
  shows "val m p n < 2 ^ bigUIntBitSize p n m" and "2 ^ bigUIntBitSize p n m \<le> 2 * val m p n"
proof -
  show "val m p n < 2 ^ bigUIntBitSize p n m"
    using bigUIntBitSize_le [of p n m "bigUIntBitSize p n m"] by simp
  then obtain k where k: "bigUIntBitSize p n m = Suc k"
    using assms by (cases "bigUIntBitSize p n m") auto
  then show "2 ^ bigUIntBitSize p n m \<le> 2 * val m p n"
    using bigUIntBitSize_le [of p n m k] by simp
qed

text \<open>C7: Let a dividend fit into \<^verbatim>\<open>real\<close> words, a count that the caller passes, and the divisor be neither zero nor longer in
  bits than these words. Let no word of the divisor, shifted up to this size and back one bit at a time, be \<^verbatim>\<open>2^256 - 1\<close>, and let the
  word after the divisor be zero (or the first word of the buffer that the divisor is shifted to, when that buffer is longer than
  \<^verbatim>\<open>real\<close> words). Then, on areas that do not overlap and within the memory that the gas pays for, the division of
  \<^verbatim>\<open>ModExp.yul\<close> returns and leaves the remainder in the area for it; besides it only writes its two buffers and the word after the
  first.\<close>

theorem bigUIntRem_value:
  assumes "apart n D A" and "apart n D B" and "apart n D Q" and "apart n V A" and "apart n V B" and "apart n V Q"
    and "apart n A B" and "apart n Q A" and "apart n Q B"
    and "n < 2 ^ 240" and "real \<le> n" and "A + n < heap" and "A + n \<notin> {Q..<Q + n}"
    and "if V + n = A then real < n else V + n \<noteq> Q \<and> m (V + n) = 0"
    and "val m D n < R256 ^ real" and "0 < val m V n" and "bigUIntBitSize V n m \<le> 256 * real"
    and "\<And>j i. j \<le> 256 * real - bigUIntBitSize V n m \<Longrightarrow> i < n \<Longrightarrow> val m V n * 2 ^ j div R256 ^ i mod R256 \<noteq> R256 - 1"
  shows "\<exists>m'. bigUIntRem heap D V A B n real (bigUIntBitSize V n m) Q m = Some m' \<and>
    val m' Q n = val m D n mod val m V n \<and>
    (\<forall>k. k \<notin> {Q..<Q + n} \<union> {A..A + n} \<union> {B..<B + n} \<longrightarrow> m' k = m k)"
proof -
  let ?bits = "bigUIntBitSize V n m" and ?v = "val m V n"
  define bd where "bd = 256 * real - ?bits"
  define m0 where "m0 = copyBigUint n D Q (zeroWithLimbSizeAt n B (zeroWithLimbSizeAt n A m))"
  have m0: "m0 k = (if Q \<le> k \<and> k < Q + n then m (D + (k - Q)) else if A \<le> k \<and> k < A + n \<or> B \<le> k \<and> k < B + n then 0 else m k)" for k
    using assms(1,2) unfolding m0_def copied [OF assms(3)] by (auto simp: zero_limbs apart_def)
  have shift: "unat (of_nat (256 * real) - of_nat ?bits :: u256) = bd"
  proof -
    have "(of_nat (256 * real) - of_nat ?bits :: u256) = of_nat bd"
      using assms(17) by (simp add: bd_def of_nat_diff)
    moreover have "bd < 2 ^ 256"
      using assms(10,11) by (simp add: bd_def)
    ultimately show ?thesis
      by (simp only: unat_of_nat) (simp add: take_bit_nat_eq_self)
  qed
  have d: "val m0 Q n = val m D n" and v: "val m0 V n = ?v"
    using assms(4-6) by (auto intro!: val_cong simp: m0 apart_def)
  have two: "2 ^ ?bits * 2 ^ bd = R256 ^ real"
    using assms(17) by (simp add: bd_def R256_def power_mult flip: power_add)
  have "?v * 2 ^ bd < 2 ^ ?bits * 2 ^ bd" "2 ^ ?bits * 2 ^ bd \<le> 2 * ?v * 2 ^ bd"
    using bit_size_bounds [OF assms(16)] by (auto intro: mult_right_mono)
  then have fits: "?v * 2 ^ bd < R256 ^ real" and below: "val m D n < 2 * (?v * 2 ^ bd)"
    using assms(15) two by simp_all
  have "R256 ^ real \<le> R256 ^ j" if "real \<le> j" for j
    using that by (intro power_increasing) (simp_all add: R256_def)
  then have "?v * 2 ^ bd < R256 ^ n" "real < n \<Longrightarrow> ?v * 2 ^ bd < R256 ^ (n - 1)"
    using fits assms(11) order.strict_trans2 [OF fits] by auto
  moreover have "V + n \<le> A \<or> A + n \<le> V" "m0 (A + i) = 0" if "i < n" for i
    using assms(4,8) that by (auto simp: m0 apart_def)
  moreover have "if V + n = A then real < n else m0 (V + n) = 0"
    using assms(6,14) by (auto simp: m0 apart_def)
  ultimately have "\<exists>m1. bigUIntShl heap (of_nat (256 * real) - of_nat ?bits) V n A m0 = Some m1 \<and>
      val m1 A n = val m0 V n * 2 ^ bd \<and> (\<forall>k. k < A \<or> A + n < k \<longrightarrow> m1 k = m0 k)"
    using assms(4,12,16) by (intro shl_value [OF shift]) (auto simp: v apart_def split: if_splits)
  then obtain m1 where m1: "bigUIntShl heap (of_nat (256 * real) - of_nat ?bits) V n A m0 = Some m1"
      "val m1 A n = ?v * 2 ^ bd" "\<forall>k. k < A \<or> A + n < k \<longrightarrow> m1 k = m0 k"
    unfolding v by blast
  have "val m1 Q n = val m D n"
    using assms(8,13) unfolding d [symmetric] by (intro val_cong m1(3) [rule_format]) (auto simp: apart_def)
  then have loop: "val (rem_loop bd Q A B n m1) Q n = val m D n mod ?v \<and>
      (\<forall>k. k \<notin> {Q..<Q + n} \<union> {A..<A + n} \<union> {B..<B + n} \<longrightarrow> rem_loop bd Q A B n m1 k = m1 k)"
    using rem_loop_value [OF assms(8,9,7,16) m1(2)] below assms(18) by (simp add: bd_def)
  have "bigUIntRem heap D V A B n real ?bits Q m = Some (rem_loop bd Q A B n m1)"
    by (simp only: bigUIntRem_def Let_def m0_def [symmetric] m1(1) bind.simps shift)
  moreover have "rem_loop bd Q A B n m1 k = m k" if "k \<notin> {Q..<Q + n} \<union> {A..A + n} \<union> {B..<B + n}" for k
  proof -
    have "rem_loop bd Q A B n m1 k = m1 k"
      using loop that by auto
    also have "\<dots> = m0 k"
      using that m1(3) by (metis Un_iff atLeastAtMost_iff not_le)
    also have "\<dots> = m k"
      using that by (auto simp: m0)
    finally show ?thesis .
  qed
  ultimately show ?thesis
    using loop by blast
qed

text \<open>The witness divides \<^verbatim>\<open>2^255 + 5\<close> by \<^verbatim>\<open>2^255\<close>.\<close>

definition division_memory :: memory where
  "division_memory = (\<lambda>_. 0)(1 := 2 ^ 255 + 5, 3 := 2 ^ 255)"

lemma val_two: "val m p 2 = uint (m p) * R256 + uint (m (p + 1))"
  by (simp add: numeral_2_eq_2)

theorem bigUIntRem_value_witness:
  "\<exists>m'. bigUIntRem 100 0 2 4 6 2 1 256 8 division_memory = Some m' \<and> val m' 8 2 = 5"
proof -
  have d: "val division_memory 0 2 = 2 ^ 255 + 5" and v: "val division_memory 2 2 = 2 ^ 255"
    by (simp_all add: val_two division_memory_def)
  have "bigUIntBitSize 2 2 division_memory \<le> 256" "\<not> bigUIntBitSize 2 2 division_memory \<le> 255"
    unfolding bigUIntBitSize_le v by simp_all
  then have bits: "bigUIntBitSize 2 2 division_memory = 256"
    by simp
  have limbs: "val division_memory 2 2 * 2 ^ j div R256 ^ i mod R256 \<noteq> R256 - 1"
    if "j \<le> 256 * 1 - bigUIntBitSize 2 2 division_memory" "i < 2" for j i
    using that unfolding bits v by (cases i) (simp_all add: R256_def)
  have "\<exists>m'. bigUIntRem 100 0 2 4 6 2 1 (bigUIntBitSize 2 2 division_memory) 8 division_memory = Some m' \<and>
      val m' 8 2 = val division_memory 0 2 mod val division_memory 2 2 \<and>
      (\<forall>k. k \<notin> {8..<8 + 2} \<union> {4..4 + 2} \<union> {6..<6 + 2} \<longrightarrow> m' k = division_memory k)"
    by (rule bigUIntRem_value) (use limbs in \<open>simp_all add: apart_def bits d v R256_def\<close>)
  then show ?thesis
    unfolding bits d v by auto
qed

section \<open>Where the division is not exact\<close>

lemma short_ranges: "[0..<3] = [0, 1, 2]" "[2..<4] = [2, 3]" "[0..<2] = [0, 1]" "[12..<15] = [12, 13, 14]" "[4..<8] = [4, 5, 6, 7]"
  by code_simp+

lemmas division_defs = bigUIntRem_def zeroWithLimbSizeAt_def copyBigUint_def bigUIntShl_def move_limb_def move_bits_def rem_step_def
  bigUIntSubWithBorrow_def sub_limb_def overflowingSubWithBorrow_def bigIntLimbsWithoutZeros_def Let_def short_ranges
  word_less_def unsigned_minus_1_eq_mask mask_eq_exp_minus_1

text \<open>
  A word \<^verbatim>\<open>2^256 - 1\<close> of the divisor with a borrow loses the borrow: \<^verbatim>\<open>2^256 + 1\<close> is less than the divisor
  \<^verbatim>\<open>(2^256 - 1) * 2^256 + 2\<close>, and the remainder is not the dividend.
\<close>

lemma lost_borrow:
  "map_option (\<lambda>m. map m [12..<15])
     (bigUIntRem 100 0 3 6 9 3 2 512 12 ((\<lambda>_. 0)(1 := 1, 2 := 1, 4 := - 1, 5 := 2))) = Some [0, 1, - 1]"
  by (simp add: division_defs)

text \<open>
  The words that are zero are not counted, those behind the first included: \<^verbatim>\<open>4 * 2^256\<close> has one word that is not zero, and its remainder
  by \<^verbatim>\<open>2^255\<close> is not reduced.
\<close>

lemma inner_zero_word:
  "bigIntLimbsWithoutZeros 0 3 ((\<lambda>_. 0)(1 := 4, 5 := 0x8000000000000000000000000000000000000000000000000000000000000000)) = 1 \<and>
   map_option (\<lambda>m. map m [12..<15])
     (bigUIntRem 100 0 3 6 9 3 1 256 12 ((\<lambda>_. 0)(1 := 4, 5 := 0x8000000000000000000000000000000000000000000000000000000000000000))) = Some [0, 3, 0x8000000000000000000000000000000000000000000000000000000000000000]"
  by (simp add: division_defs)

text \<open>
  The shift of the divisor to the buffer that follows it reads the first word of the buffer, already written: the modulus
  \<^verbatim>\<open>2^510 + 1\<close>, shifted by 513 bits in four words, has one bit too many.
\<close>

lemma shift_reads_own_result:
  "map_option (\<lambda>m. map m [4..<8]) (bigUIntShl 100 513 0 4 4 ((\<lambda>_. 0)(2 := 0x4000000000000000000000000000000000000000000000000000000000000000, 3 := 1))) =
   Some [0x8000000000000000000000000000000000000000000000000000000000000000, 3, 0, 0]"
  by (simp add: division_defs)

end
