(* ===== verification/Resolver.thy ===== *)
theory Resolver
  imports Prelude
begin

text \<open>
  The lookup of the names of selectors (\<^verbatim>\<open>src/.test-node-subtree/src/resolver.rs\<close>): the client of the remote
  database with its count of failed requests, and the two functions of the module with their shared cache. What a
  request to a URL is answered is an argument; the parser of the answers and the built-in table of signatures, a data
  file, are the record \<^verbatim>\<open>resolver_lib\<close>.
\<close>

section \<open>The client\<close>

record reqwest_error =
  err_is_timeout :: bool
  err_is_connect :: bool
  err_status :: "u16 option"

text \<open>A request fails before or after the head of the answer has arrived, or gives the text of the answer.\<close>

datatype http_answer = SendFailed reqwest_error | BodyFailed reqwest_error | Body string

datatype resolve_error =
  Spurious
| RequestFailed reqwest_error
| CouldNotDecode string
| FailedToDecode string
| NoSignature
| InvalidSelector nat
| NoClient

definition SELECTOR_DATABASE_URL :: string where
  "SELECTOR_DATABASE_URL = ''https://sig.eth.samczsun.com/api/v1/signatures''"

definition MAX_TIMEDOUT_REQ :: u64 where "MAX_TIMEDOUT_REQ = 4"

record SignEthClient =
  spurious_connection :: bool
  timedout_requests :: u64
  max_timedout_requests :: u64

record decoded =
  decoded_name :: string
  decoded_filtered :: bool

record api_response =
  api_ok :: bool
  api_event :: "string \<rightharpoonup> decoded list"
  api_function :: "string \<rightharpoonup> decoded list"

text \<open>\<^verbatim>\<open>SignEthClient::new\<close> can fail to build the HTTP client.\<close>

record resolver_lib =
  known_signatures :: "string \<rightharpoonup> string"
  parse_response :: "string \<Rightarrow> api_response option"
  client_builds :: bool

definition SignEthClient_new :: "resolver_lib \<Rightarrow> (resolve_error, SignEthClient) rust" where
  "SignEthClient_new R =
     (if client_builds R
      then Ok \<lparr>spurious_connection = False, timedout_requests = 0, max_timedout_requests = MAX_TIMEDOUT_REQ\<rparr>
      else Err NoClient)"

definition is_connectivity_err :: "reqwest_error \<Rightarrow> bool" where
  "is_connectivity_err err =
     (if err_is_timeout err \<or> err_is_connect err then True
      else case err_status err of Some code \<Rightarrow> 500 \<le> code \<and> code < 600 | None \<Rightarrow> False)"

definition set_spurious :: "SignEthClient \<Rightarrow> SignEthClient" where
  "set_spurious client = client\<lparr>spurious_connection := True\<rparr>"

definition on_reqwest_err :: "reqwest_error \<Rightarrow> SignEthClient \<Rightarrow> SignEthClient" where
  "on_reqwest_err err client =
     (if is_connectivity_err err then
        let previous = timedout_requests client;
            client = client\<lparr>timedout_requests := previous + 1\<rparr>
        in if previous \<ge> max_timedout_requests client then set_spurious client else client
      else client)"

definition get_text ::
  "(string \<Rightarrow> http_answer) \<Rightarrow> string \<Rightarrow> SignEthClient \<Rightarrow> (resolve_error, string) rust \<times> SignEthClient" where
  "get_text ask url client =
     (case ask url of
        SendFailed err \<Rightarrow> (Err (RequestFailed err), on_reqwest_err err client)
      | BodyFailed err \<Rightarrow> (Err (RequestFailed err), on_reqwest_err err client)
      | Body text \<Rightarrow> (Ok text, client))"

definition ensure_not_spurious :: "SignEthClient \<Rightarrow> (resolve_error, unit) rust" where
  "ensure_not_spurious client = (if spurious_connection client then Err Spurious else Ok ())"

datatype SelectorType = FunctionSelector | EventSelector

definition decode_selector ::
  "resolver_lib \<Rightarrow> (string \<Rightarrow> http_answer) \<Rightarrow> string \<Rightarrow> SelectorType \<Rightarrow> SignEthClient \<Rightarrow>
   (resolve_error, string option) rust \<times> SignEthClient" where
  "decode_selector R ask selector selector_type client =
     (case ensure_not_spurious client of
        Err e \<Rightarrow> (Err e, client)
      | Panic \<Rightarrow> (Panic, client)
      | Ok _ \<Rightarrow>
          let url = (case selector_type of
                       FunctionSelector \<Rightarrow> SELECTOR_DATABASE_URL @ ''?function='' @ selector
                     | EventSelector \<Rightarrow> SELECTOR_DATABASE_URL @ ''?event='' @ selector)
          in case get_text ask url client of
               (Err e, client) \<Rightarrow> (Err e, client)
             | (Panic, client) \<Rightarrow> (Panic, client)
             | (Ok res, client) \<Rightarrow>
                 (case parse_response R res of
                    None \<Rightarrow> (Err (CouldNotDecode res), client)
                  | Some api_response \<Rightarrow>
                      if \<not> api_ok api_response then (Err (FailedToDecode res), client)
                      else
                        let names = (case selector_type of
                                       FunctionSelector \<Rightarrow> api_function api_response
                                     | EventSelector \<Rightarrow> api_event api_response)
                        in case names selector of
                             None \<Rightarrow> (Err NoSignature, client)
                           | Some ds \<Rightarrow>
                               (Ok (case map decoded_name (filter (\<lambda>d. \<not> decoded_filtered d) ds) of
                                      [] \<Rightarrow> None | name # _ \<Rightarrow> Some name), client)))"

text \<open>\<^verbatim>\<open>strip_prefix("0x").unwrap_or(selector)\<close>.\<close>

definition strip_0x :: "string \<Rightarrow> string" where
  "strip_0x s = (if take 2 s = ''0x'' then drop 2 s else s)"

definition client_decode_function_selector ::
  "resolver_lib \<Rightarrow> (string \<Rightarrow> http_answer) \<Rightarrow> string \<Rightarrow> SignEthClient \<Rightarrow>
   (resolve_error, string option) rust \<times> SignEthClient" where
  "client_decode_function_selector R ask selector client =
     (let prefixed_selector = ''0x'' @ strip_0x selector
      in if length prefixed_selector \<noteq> 10 then (Err (InvalidSelector (length prefixed_selector)), client)
         else case known_signatures R prefixed_selector of
                Some r \<Rightarrow> (Ok (Some r), client)
              | None \<Rightarrow> decode_selector R ask (take 10 prefixed_selector) FunctionSelector client)"

section \<open>The functions of the module\<close>

text \<open>The static cache. Every call that is not answered by it builds a client of its own.\<close>

type_synonym name_cache = "string \<rightharpoonup> string option"

definition decode_function_selector ::
  "resolver_lib \<Rightarrow> (string \<Rightarrow> http_answer) \<Rightarrow> string \<Rightarrow> name_cache \<Rightarrow>
   (resolve_error, string option) rust \<times> name_cache" where
  "decode_function_selector R ask selector cache =
     (case cache selector of
        Some result \<Rightarrow> (Ok result, cache)
      | None \<Rightarrow>
          (case SignEthClient_new R of
             Ok client \<Rightarrow>
               (case fst (client_decode_function_selector R ask selector client) of
                  Ok result \<Rightarrow> (Ok result, cache(selector \<mapsto> result))
                | r \<Rightarrow> (r, cache))
           | Err e \<Rightarrow> (Err e, cache)
           | Panic \<Rightarrow> (Panic, cache)))"

definition decode_event_selector ::
  "resolver_lib \<Rightarrow> (string \<Rightarrow> http_answer) \<Rightarrow> string \<Rightarrow> name_cache \<Rightarrow>
   (resolve_error, string option) rust \<times> name_cache" where
  "decode_event_selector R ask selector cache =
     (case cache selector of
        Some result \<Rightarrow> (Ok result, cache)
      | None \<Rightarrow>
          (case known_signatures R selector of
             Some r \<Rightarrow> (Ok (Some r), cache)
           | None \<Rightarrow>
               (case SignEthClient_new R of
                  Ok client \<Rightarrow>
                    (case fst (decode_selector R ask selector EventSelector client) of
                       Ok result \<Rightarrow> (Ok result, cache(selector \<mapsto> result))
                     | r \<Rightarrow> (r, cache))
                | Err e \<Rightarrow> (Err e, cache)
                | Panic \<Rightarrow> (Panic, cache))))"

fun decode_query ::
  "resolver_lib \<Rightarrow> (string \<Rightarrow> http_answer) \<Rightarrow> SelectorType \<times> string \<Rightarrow> name_cache \<Rightarrow>
   (resolve_error, string option) rust \<times> name_cache" where
  "decode_query R ask (FunctionSelector, selector) cache = decode_function_selector R ask selector cache"
| "decode_query R ask (EventSelector, selector) cache = decode_event_selector R ask selector cache"

section \<open>Failing requests\<close>

text \<open>A client gives up after more than the permitted number of connection failures.\<close>

fun after_failures :: "reqwest_error list \<Rightarrow> SignEthClient \<Rightarrow> SignEthClient" where
  "after_failures [] client = client"
| "after_failures (e # es) client = after_failures es (on_reqwest_err e client)"

lemma spurious_stays: "spurious_connection client \<Longrightarrow> spurious_connection (on_reqwest_err e client)"
  by (simp add: on_reqwest_err_def set_spurious_def Let_def)

lemma spurious_stays_all: "spurious_connection client \<Longrightarrow> spurious_connection (after_failures es client)"
  by (induction es arbitrary: client) (simp_all add: spurious_stays)

lemma after_failures_spurious:
  assumes "\<not> spurious_connection client" "timedout_requests client \<le> max_timedout_requests client"
    and "max_timedout_requests client < - 1"
  shows "spurious_connection (after_failures es client) \<longleftrightarrow>
    unat (max_timedout_requests client) - unat (timedout_requests client) < length (filter is_connectivity_err es)"
  using assms
proof (induction es arbitrary: client)
  case (Cons e es)
  show ?case
  proof (cases "is_connectivity_err e")
    case False
    then have "on_reqwest_err e client = client"
      by (simp add: on_reqwest_err_def)
    then show ?thesis
      using Cons False by simp
  next
    case True
    let ?c = "on_reqwest_err e client"
    show ?thesis
    proof (cases "timedout_requests client = max_timedout_requests client")
      case eq: True
      then have "spurious_connection ?c"
        using True by (simp add: on_reqwest_err_def set_spurious_def Let_def)
      then show ?thesis
        using spurious_stays_all True eq by simp
    next
      case False
      then have lt: "timedout_requests client < max_timedout_requests client"
        using Cons.prems(2) by simp
      then have step: "?c = client\<lparr>timedout_requests := timedout_requests client + 1\<rparr>"
        using True by (simp add: on_reqwest_err_def Let_def)
      have u: "unat (timedout_requests client + 1) = Suc (unat (timedout_requests client))"
        using lt unsigned_less [of "max_timedout_requests client", where 'a = nat]
        by (simp add: unat_word_ariths word_less_nat_alt)
      then have le: "timedout_requests client + 1 \<le> max_timedout_requests client"
        using lt by (simp add: word_le_nat_alt word_less_nat_alt)
      have "spurious_connection (after_failures es ?c) \<longleftrightarrow>
          unat (max_timedout_requests client) - Suc (unat (timedout_requests client)) <
          length (filter is_connectivity_err es)"
        using Cons.IH [of ?c] Cons.prems le u by (simp add: step)
      then show ?thesis
        using True lt by (auto simp: word_less_nat_alt)
    qed
  qed
qed simp

text \<open>One request adds at most one failure, so a new client never gives up.\<close>

lemma decode_selector_fresh:
  assumes "SignEthClient_new R = Ok client"
  shows "fst (decode_selector R ask selector ty client) \<noteq> Err Spurious"
  using assms
  by (auto simp: SignEthClient_new_def decode_selector_def ensure_not_spurious_def get_text_def Let_def
      split: if_splits http_answer.splits option.splits SelectorType.splits)

text \<open>A client asks no more after its fifth connection failure; but every query builds a client of its own, so no query is ever
  refused for that reason, whatever has failed before.\<close>

theorem spurious_guard:
  "(case SignEthClient_new R of
      Ok client \<Rightarrow>
        spurious_connection (after_failures es client) \<longleftrightarrow> 4 < length (filter is_connectivity_err es)
    | _ \<Rightarrow> True) \<and>
   (\<forall>ask q cache. fst (decode_query R ask q cache) \<noteq> Err Spurious)"
proof (intro conjI allI)
  show "case SignEthClient_new R of
      Ok client \<Rightarrow>
        spurious_connection (after_failures es client) \<longleftrightarrow> 4 < length (filter is_connectivity_err es)
    | _ \<Rightarrow> True"
    by (simp add: SignEthClient_new_def MAX_TIMEDOUT_REQ_def after_failures_spurious)
next
  fix ask cache and q :: "SelectorType \<times> string"
  obtain ty selector where q: "q = (ty, selector)"
    by (cases q)
  show "fst (decode_query R ask q cache) \<noteq> Err Spurious"
    using decode_selector_fresh [of R]
    by (cases ty)
      (auto simp: q decode_function_selector_def decode_event_selector_def client_decode_function_selector_def Let_def
        SignEthClient_new_def split: option.splits rust.splits if_splits)
qed

section \<open>The cache\<close>

fun after_queries ::
  "resolver_lib \<Rightarrow> ((string \<Rightarrow> http_answer) \<times> SelectorType \<times> string) list \<Rightarrow> name_cache \<Rightarrow> name_cache" where
  "after_queries R [] cache = cache"
| "after_queries R ((ask, q) # qs) cache = after_queries R qs (snd (decode_query R ask q cache))"

lemma decode_query_cases:
  "snd (decode_query R ask (ty, s) cache) = cache \<or>
   (\<exists>r. cache s = None \<and> fst (decode_query R ask (ty, s) cache) = Ok r \<and>
        snd (decode_query R ask (ty, s) cache) = cache(s \<mapsto> r))"
  by (cases ty)
    (auto simp: decode_function_selector_def decode_event_selector_def split: option.splits rust.splits)

lemma cached_query: "cache s = Some r \<Longrightarrow> decode_query R ask (ty, s) cache = (Ok r, cache)"
  by (cases ty) (simp_all add: decode_function_selector_def decode_event_selector_def)

lemma cached_stays: "cache s = Some r \<Longrightarrow> after_queries R qs cache s = Some r"
proof (induction qs arbitrary: cache)
  case (Cons q qs)
  obtain ask ty s' where q: "q = (ask, ty, s')"
    by (cases q)
  have "snd (decode_query R ask (ty, s') cache) s = Some r"
    using decode_query_cases [of R ask ty s' cache] Cons.prems by auto
  then show ?case
    using Cons.IH by (simp add: q)
qed simp

text \<open>An answer is held in the cache, or is that of the built-in table to an event.\<close>

lemma answered_query:
  "fst (decode_query R ask (ty, s) cache) = Ok r \<Longrightarrow>
   snd (decode_query R ask (ty, s) cache) s = Some r \<or>
   ty = EventSelector \<and> cache s = None \<and> (\<exists>n. known_signatures R s = Some n \<and> r = Some n)"
  by (cases ty; cases "known_signatures R s")
    (auto simp: decode_function_selector_def decode_event_selector_def split: option.splits rust.splits)

lemma known_event_stays:
  assumes "known_signatures R s = Some n" and "\<forall>(ask, ty, s') \<in> set qs. s' = s \<longrightarrow> ty = EventSelector"
    and "cache s = None"
  shows "after_queries R qs cache s = None"
  using assms(2,3)
proof (induction qs arbitrary: cache)
  case (Cons q qs)
  obtain ask ty s' where q: "q = (ask, ty, s')"
    by (cases q)
  have "snd (decode_query R ask (ty, s') cache) s = None"
  proof (cases "s' = s")
    case True
    then have "ty = EventSelector"
      using Cons.prems(1) q by auto
    then show ?thesis
      using True Cons.prems(2) assms(1) by (simp add: decode_event_selector_def)
  next
    case False
    then show ?thesis
      using decode_query_cases [of R ask ty s' cache] Cons.prems(2) by auto
  qed
  then show ?case
    using Cons.IH [of "snd (decode_query R ask (ty, s') cache)"] Cons.prems(1) q by simp
qed simp

text \<open>A name that was answered once is answered for ever.\<close>

theorem resolved_name_is_stable:
  assumes "fst (decode_query R ask (ty, s) cache) = Ok r"
    and "\<forall>(ask', ty', s') \<in> set qs. s' = s \<longrightarrow> ty' = ty"
  shows "fst (decode_query R ask' (ty, s) (after_queries R qs (snd (decode_query R ask (ty, s) cache)))) = Ok r"
proof -
  from answered_query [OF assms(1)] show ?thesis
  proof (elim disjE conjE)
    assume "snd (decode_query R ask (ty, s) cache) s = Some r"
    then show ?thesis
      by (simp add: cached_stays cached_query)
  next
    assume k: "ty = EventSelector" "cache s = None" and "\<exists>n. known_signatures R s = Some n \<and> r = Some n"
    then obtain n where n: "known_signatures R s = Some n" "r = Some n"
      by blast
    have "snd (decode_query R ask (ty, s) cache) s = None"
      using k n by (simp add: decode_event_selector_def)
    then have "after_queries R qs (snd (decode_query R ask (ty, s) cache)) s = None"
      by (rule known_event_stays [OF n(1) assms(2) [unfolded k(1)]])
    then show ?thesis
      using k n by (simp add: decode_event_selector_def)
  qed
qed

text \<open>A database that knows one function, and a connection that fails.\<close>

definition example_resolver :: resolver_lib where
  "example_resolver =
     \<lparr>known_signatures = Map.empty,
      parse_response = (\<lambda>_. Some \<lparr>api_ok = True, api_event = Map.empty,
        api_function = [''0x12345678'' \<mapsto> [\<lparr>decoded_name = ''f()'', decoded_filtered = False\<rparr>]]\<rparr>),
      client_builds = True\<rparr>"

definition no_connection :: "string \<Rightarrow> http_answer" where
  "no_connection = (\<lambda>_. SendFailed \<lparr>err_is_timeout = True, err_is_connect = False, err_status = None\<rparr>)"

lemma example_lookup:
  "decode_query example_resolver (\<lambda>_. Body []) (FunctionSelector, ''12345678'') Map.empty =
    (Ok (Some ''f()''), [''12345678'' \<mapsto> Some ''f()''])"
  by (simp add: decode_function_selector_def SignEthClient_new_def client_decode_function_selector_def
      decode_selector_def ensure_not_spurious_def get_text_def strip_0x_def example_resolver_def Let_def)

lemma resolved_name_is_stable_witness:
  "fst (decode_query example_resolver no_connection (FunctionSelector, ''12345678'')
     (after_queries example_resolver [(no_connection, EventSelector, ''0xab'')]
        (snd (decode_query example_resolver (\<lambda>_. Body []) (FunctionSelector, ''12345678'') Map.empty)))) =
   Ok (Some ''f()'')"
  by (rule resolved_name_is_stable) (simp_all add: example_lookup del: decode_query.simps)

end
