(* ===== verification/Formatter.thy ===== *)
theory Formatter
  imports Resolver ShowOptions ApiTypes Utils
begin

text \<open>
  What the node prints about calls, events, storage logs and runs (\<^verbatim>\<open>src/.test-node-subtree/src/formatter.rs\<close>). A
  printer takes the state of the name resolver and gives the lines it prints, in order, whether it panics, and the
  state it leaves. Colours (the \<^verbatim>\<open>colored\<close> crate), the texts of hashes and addresses and the table of known addresses, a
  data file, are the record \<^verbatim>\<open>term_lib\<close>.
\<close>

section \<open>Printers\<close>

text \<open>The frames drawn with box characters are outputs of their own.\<close>

datatype printed = Line string | Frame string | Separator nat | DoubleSeparator nat

text \<open>The remote database may answer differently each time it is asked.\<close>

record resolver_state =
  names :: name_cache
  lookups :: nat

type_synonym 'a printer = "resolver_state \<Rightarrow> printed list \<times> 'a option \<times> resolver_state"

definition prt_return :: "'a \<Rightarrow> 'a printer" where
  "prt_return a s = ([], Some a, s)"

definition prt_bind :: "'a printer \<Rightarrow> ('a \<Rightarrow> 'b printer) \<Rightarrow> 'b printer" where
  "prt_bind m f s =
     (case m s of
        (out, None, s') \<Rightarrow> (out, None, s')
      | (out, Some a, s') \<Rightarrow> (case f a s' of (out', r, s'') \<Rightarrow> (out @ out', r, s'')))"

definition prt :: "printed list \<Rightarrow> unit printer" where
  "prt out s = (out, Some (), s)"

definition info :: "string \<Rightarrow> unit printer" where
  "info l = prt [Line l]"

fun prt_each :: "('a \<Rightarrow> unit printer) \<Rightarrow> 'a list \<Rightarrow> unit printer" where
  "prt_each f [] = prt_return ()"
| "prt_each f (x # xs) = prt_bind (f x) (\<lambda>_. prt_each f xs)"

lemma prt_run [simp]:
  "prt_return a s = ([], Some a, s)" "prt out s = (out, Some (), s)" "info l s = ([Line l], Some (), s)"
  by (simp_all add: prt_return_def prt_def info_def)

lemma prt_bind_run:
  "m s = (out, Some a, s') \<Longrightarrow> prt_bind m f s = (case f a s' of (out', r, s'') \<Rightarrow> (out @ out', r, s''))"
  "m s = (out, None, s') \<Longrightarrow> prt_bind m f s = (out, None, s')"
  by (simp_all add: prt_bind_def)

text \<open>A printer that asks the resolver nothing.\<close>

definition only_prints :: "unit printer \<Rightarrow> printed list \<Rightarrow> bool" where
  "only_prints m out \<longleftrightarrow> (\<forall>s. m s = (out, Some (), s))"

named_theorems printing

lemma only_prints_intros [printing]:
  "only_prints (prt_return ()) []" "only_prints (prt out) out" "only_prints (info l) [Line l]"
  by (simp_all add: only_prints_def)

lemma only_prints_bind [printing]:
  "only_prints m out \<Longrightarrow> only_prints (f ()) out' \<Longrightarrow> only_prints (prt_bind m f) (out @ out')"
  by (simp add: only_prints_def prt_bind_def)

lemma only_prints_each:
  "(\<And>x. x \<in> set xs \<Longrightarrow> only_prints (f x) (out x)) \<Longrightarrow> only_prints (prt_each f xs) (concat (map out xs))"
  by (induction xs) (auto intro!: printing)

section \<open>Text\<close>

datatype ContractType = SystemContract | Precompile | Popular | UnknownContract

record KnownAddress =
  ka_address :: address
  ka_name :: string
  ka_contract_type :: ContractType

datatype style = Dimmed | Green | Blue | Grey | OnRed | Bold | Cyan | Red

text \<open>\<^verbatim>\<open>paint_padded\<close> is a coloured string formatted with a width.\<close>

record term_lib =
  paint :: "style \<Rightarrow> string \<Rightarrow> string"
  paint_padded :: "style \<Rightarrow> nat \<Rightarrow> string \<Rightarrow> string"
  debug_address :: "address \<Rightarrow> string"
  display_address :: "address \<Rightarrow> string"
  hex_topic :: "h256 \<Rightarrow> string"
  hex_word :: "u256 \<Rightarrow> string"
  hex_encode :: "bytes \<Rightarrow> string"
  debug_call_type :: "CallType \<Rightarrow> string"
  debug_log_type :: "StorageLogQueryType \<Rightarrow> string"
  known_addresses :: "address \<rightharpoonup> KnownAddress"

definition pad_left :: "nat \<Rightarrow> string \<Rightarrow> string" where
  "pad_left n s = replicate (n - length s) (CHR '' '') @ s"

definition pad_right :: "nat \<Rightarrow> string \<Rightarrow> string" where
  "pad_right n s = s @ replicate (n - length s) (CHR '' '')"

text \<open>\<^verbatim>\<open>join\<close> of slices and iterators.\<close>

fun join :: "string \<Rightarrow> string list \<Rightarrow> string" where
  "join sep [] = []"
| "join sep [x] = x"
| "join sep (x # y # xs) = x @ sep @ join sep (y # xs)"

definition hex_digit :: "nat \<Rightarrow> char" where
  "hex_digit n = (if n < 10 then char_of (48 + n) else char_of (87 + n))"

definition hex_byte :: "u8 \<Rightarrow> string" where
  "hex_byte b = [hex_digit (unat b div 16), hex_digit (unat b mod 16)]"

text \<open>\<^verbatim>\<open>str::from_utf8\<close> of the standard library.\<close>

definition continuation :: "u8 \<Rightarrow> bool" where
  "continuation b = (0x80 \<le> b \<and> b \<le> 0xBF)"

fun valid_utf8 :: "bytes \<Rightarrow> bool" where
  "valid_utf8 [] = True"
| "valid_utf8 (a # bs) =
     (if a < 0x80 then valid_utf8 bs
      else case bs of
        [] \<Rightarrow> False
      | b # cs \<Rightarrow>
          if 0xC2 \<le> a \<and> a \<le> 0xDF then continuation b \<and> valid_utf8 cs
          else case cs of
            [] \<Rightarrow> False
          | c # ds \<Rightarrow>
              if 0xE0 \<le> a \<and> a \<le> 0xEF then
                continuation b \<and> (a = 0xE0 \<longrightarrow> 0xA0 \<le> b) \<and> (a = 0xED \<longrightarrow> b \<le> 0x9F) \<and> continuation c \<and>
                valid_utf8 ds
              else case ds of
                [] \<Rightarrow> False
              | d # es \<Rightarrow>
                  0xF0 \<le> a \<and> a \<le> 0xF4 \<and> continuation b \<and> (a = 0xF0 \<longrightarrow> 0x90 \<le> b) \<and> (a = 0xF4 \<longrightarrow> b \<le> 0x8F) \<and>
                  continuation c \<and> continuation d \<and> valid_utf8 es)"

definition from_utf8 :: "bytes \<Rightarrow> string option" where
  "from_utf8 bs = (if valid_utf8 bs then Some (map (\<lambda>b. char_of (unat b)) bs) else None)"

definition address_to_human_readable :: "term_lib \<Rightarrow> address \<Rightarrow> string option" where
  "address_to_human_readable D address =
     map_option (\<lambda>known_address.
       case ka_contract_type known_address of
         SystemContract \<Rightarrow> ka_name known_address
       | Precompile \<Rightarrow> paint D Dimmed (ka_name known_address)
       | Popular \<Rightarrow> paint D Green (ka_name known_address)
       | UnknownContract \<Rightarrow> ka_name known_address)
     (known_addresses D address)"

section \<open>Events\<close>

text \<open>The resolver and the remote database, as the printers reach them; \<^verbatim>\<open>resolve\<close> is the call with its \<^verbatim>\<open>unwrap\<close>.\<close>

record world =
  resolver :: resolver_lib
  remote :: "nat \<Rightarrow> string \<Rightarrow> http_answer"
  terminal :: term_lib

definition resolve :: "world \<Rightarrow> SelectorType \<times> string \<Rightarrow> string option printer" where
  "resolve W q s =
     (case decode_query (resolver W) (remote W (lookups s)) q (names s) of
        (r, cache) \<Rightarrow>
          ([], case r of Ok name \<Rightarrow> Some name | _ \<Rightarrow> None, \<lparr>names = cache, lookups = Suc (lookups s)\<rparr>))"

fun topic_names :: "world \<Rightarrow> h256 list \<Rightarrow> string list printer" where
  "topic_names W [] = prt_return []"
| "topic_names W (t # ts) =
     prt_bind (resolve W (EventSelector, hex_topic (terminal W) t)) (\<lambda>selector.
     prt_bind (topic_names W ts) (\<lambda>tt.
     prt_return ((case selector of Some n \<Rightarrow> n | None \<Rightarrow> hex_topic (terminal W) t) # tt)))"

definition event_data :: "term_lib \<Rightarrow> bytes \<Rightarrow> string" where
  "event_data D value =
     (if value = [] then paint D Grey ''  Data: EMPTY''
      else case from_utf8 value of
             Some v \<Rightarrow> paint D Grey ''  Data (String):'' @ '' '' @ v
           | None \<Rightarrow>
               let hex_str = hex_encode D value;
                   display_str = (if length hex_str > 200 then take 200 hex_str @ ''...'' else hex_str)
               in paint D Grey ''  Data (Hex):'' @ '' 0x'' @ display_str)"

definition event_lines :: "term_lib \<Rightarrow> VmEvent \<Rightarrow> string list \<Rightarrow> printed list" where
  "event_lines D event tt =
     [Line (case address_to_human_readable D (ev_address event) of
              Some x \<Rightarrow> paint_padded D Blue 42 x
            | None \<Rightarrow> paint_padded D Blue 42 (debug_address D (ev_address event))),
      Line (paint D Grey ''  Topics:'')] @
     map (\<lambda>indexed_topic. Line (''    '' @ indexed_topic)) tt @
     [Line (event_data D (ev_value event)), Line []]"

definition print_event :: "world \<Rightarrow> VmEvent \<Rightarrow> bool \<Rightarrow> unit printer" where
  "print_event W event resolve_hashes =
     prt_bind (if \<not> resolve_hashes then prt_return (map (hex_topic (terminal W)) (ev_indexed_topics event))
               else topic_names W (ev_indexed_topics event))
       (\<lambda>tt. prt (event_lines (terminal W) event tt))"

section \<open>Calls\<close>

definition contract_type :: "term_lib \<Rightarrow> address \<Rightarrow> ContractType" where
  "contract_type D address =
     (case known_addresses D address of
        Some known_address \<Rightarrow> ka_contract_type known_address | None \<Rightarrow> UnknownContract)"

fun should_print :: "ContractType \<Rightarrow> ShowCalls \<Rightarrow> bool" where
  "should_print _ ShowCallsAll = True"
| "should_print _ ShowCallsNone = False"
| "should_print UnknownContract _ = True"
| "should_print Popular _ = True"
| "should_print Precompile _ = False"
| "should_print SystemContract ShowCallsUser = False"
| "should_print SystemContract ShowCallsSystem = True"

definition function_signature :: "world \<Rightarrow> Call \<Rightarrow> bool \<Rightarrow> string printer" where
  "function_signature W call resolve_hashes =
     (if length (call_input call) \<ge> 4 then
        let sig = concat (map hex_byte (take 4 (call_input call)))
        in if contract_type (terminal W) (call_to call) = Precompile \<or> \<not> resolve_hashes
           then prt_return (pad_left 16 sig)
           else prt_bind (resolve W (FunctionSelector, sig)) (\<lambda>fetch.
                prt_return (case fetch of
                    Some n \<Rightarrow> n
                  | None \<Rightarrow> pad_left 16 (paint (terminal W) Dimmed (''0x'' @ sig))))
      else prt_return (''0x'' @ concat (map hex_byte (call_input call))))"

definition call_line :: "term_lib \<Rightarrow> nat \<Rightarrow> Call \<Rightarrow> string \<Rightarrow> printed" where
  "call_line D padding call signature =
     (let pretty_print =
        replicate padding (CHR '' '') @ debug_call_type D (call_type call) @ '' '' @
        (case address_to_human_readable D (call_to call) of
           Some x \<Rightarrow> pad_right 52 x
         | None \<Rightarrow> paint_padded D Bold 52 (debug_address D (call_to call))) @ '' '' @
        signature @ '' '' @
        (case call_revert_reason call of Some s \<Rightarrow> ''Revert: '' @ s | None \<Rightarrow> []) @ '' '' @
        (case call_error call of Some s \<Rightarrow> ''Error: '' @ s | None \<Rightarrow> []) @ '' '' @
        decimal (unat (call_gas call))
      in if call_revert_reason call \<noteq> None \<or> call_error call \<noteq> None
         then Line (paint D OnRed pretty_print) else Line pretty_print)"

fun print_call :: "world \<Rightarrow> Call \<Rightarrow> nat \<Rightarrow> ShowCalls \<Rightarrow> bool \<Rightarrow> unit printer"
  and print_subcalls :: "world \<Rightarrow> Call list \<Rightarrow> nat \<Rightarrow> ShowCalls \<Rightarrow> bool \<Rightarrow> unit printer" where
  "print_call W (VmCall ty frm tgt gas used val inp out err why calls) padding show_calls resolve_hashes =
     (let call = VmCall ty frm tgt gas used val inp out err why calls
      in prt_bind
           (if should_print (contract_type (terminal W) (call_to call)) show_calls then
              prt_bind (function_signature W call resolve_hashes)
                (\<lambda>signature. prt [call_line (terminal W) padding call signature])
            else prt_return ())
           (\<lambda>_. print_subcalls W calls (padding + 2) show_calls resolve_hashes))"
| "print_subcalls W [] padding show_calls resolve_hashes = prt_return ()"
| "print_subcalls W (c # cs) padding show_calls resolve_hashes =
     prt_bind (print_call W c padding show_calls resolve_hashes)
       (\<lambda>_. print_subcalls W cs padding show_calls resolve_hashes)"

section \<open>Storage logs and the results of the machine\<close>

datatype PubdataBytesInfo = FreeSlot | Paid u32 | AdditionalPayment u32 u32 | PaidAlready

fun print_pubdata_bytes :: "PubdataBytesInfo \<Rightarrow> string" where
  "print_pubdata_bytes FreeSlot = ''free slot''"
| "print_pubdata_bytes (Paid cost) = decimal (unat cost) @ '' bytes''"
| "print_pubdata_bytes (AdditionalPayment additional_cost total_cost) =
     decimal (unat additional_cost) @ '' addditional bytes, '' @ decimal (unat total_cost) @ '' total cost''"
| "print_pubdata_bytes PaidAlready = ''already paid''"

fun does_cost :: "PubdataBytesInfo \<Rightarrow> bool" where
  "does_cost FreeSlot = False"
| "does_cost (Paid _) = True"
| "does_cost (AdditionalPayment _ _) = True"
| "does_cost PaidAlready = False"

definition print_logs :: "term_lib \<Rightarrow> StorageLogQuery \<Rightarrow> PubdataBytesInfo option \<Rightarrow> printed list" where
  "print_logs D log_query pubdata_bytes =
     [Line (pad_right 15 ''Type:'' @ '' '' @ debug_log_type D (slq_log_type log_query)),
      Line (pad_right 15 ''Address:'' @ '' '' @
        (case address_to_human_readable D (slq_address log_query) of
           Some x \<Rightarrow> x | None \<Rightarrow> display_address D (slq_address log_query))),
      Line (pad_right 15 ''Key:'' @ '' '' @ hex_word D (slq_key log_query)),
      Line (pad_right 15 ''Read Value:'' @ '' '' @ hex_word D (slq_read_value log_query))] @
     (if slq_log_type log_query \<noteq> LogRead
      then [Line (pad_right 15 ''Written Value:'' @ '' '' @ hex_word D (slq_written_value log_query))] else []) @
     (case pubdata_bytes of
        Some b \<Rightarrow> [Line (pad_right 15 ''Pubdata bytes:'' @ '' '' @ print_pubdata_bytes b)]
      | None \<Rightarrow> []) @
     [Separator 82]"

text \<open>The two statistics that nothing else of the node reads are arguments.\<close>

definition print_vm_details :: "term_lib \<Rightarrow> u32 \<Rightarrow> nat \<Rightarrow> VmExecutionResultAndLogs \<Rightarrow> printed list" where
  "print_vm_details D cycles_used contracts_used result =
     [Line [], Frame ''   VM EXECUTION RESULTS   '',
      Line (''Cycles Used:          '' @ decimal (unat cycles_used)),
      Line (''Computation Gas Used: '' @ decimal (unat (vr_computational_gas_used result))),
      Line (''Contracts Used:       '' @ decimal contracts_used)] @
     (case vr_result result of
        Success _ \<Rightarrow> []
      | Revert output \<Rightarrow>
          [Line [], Line (paint D OnRed (CHR 0x0A # ''[!] Revert Reason:    '' @ revert_friendly output))]
      | Halt reason \<Rightarrow>
          [Line [], Line (paint D OnRed (CHR 0x0A # ''[!] Halt Reason:    '' @ reason))]) @
     [DoubleSeparator 28]"

section \<open>What is printed of the calls\<close>

text \<open>The calls of a trace in the order they are made, each with its depth.\<close>

fun call_tree :: "nat \<Rightarrow> Call \<Rightarrow> (nat \<times> Call) list" and call_forest :: "nat \<Rightarrow> Call list \<Rightarrow> (nat \<times> Call) list" where
  "call_tree d (VmCall ty frm tgt gas used val inp out err why calls) =
     (d, VmCall ty frm tgt gas used val inp out err why calls) # call_forest (Suc d) calls"
| "call_forest d [] = []"
| "call_forest d (c # cs) = call_tree d c @ call_forest d cs"

definition shown :: "term_lib \<Rightarrow> ShowCalls \<Rightarrow> nat \<times> Call \<Rightarrow> bool" where
  "shown D show_calls = (\<lambda>(d, call). should_print (contract_type D (call_to call)) show_calls)"

definition plain_signature :: "Call \<Rightarrow> string" where
  "plain_signature call =
     (if length (call_input call) \<ge> 4 then pad_left 16 (concat (map hex_byte (take 4 (call_input call))))
      else ''0x'' @ concat (map hex_byte (call_input call)))"

definition plain_lines :: "term_lib \<Rightarrow> ShowCalls \<Rightarrow> nat \<Rightarrow> (nat \<times> Call) list \<Rightarrow> printed list" where
  "plain_lines D show_calls padding cs =
     map (\<lambda>(d, call). call_line D (padding + 2 * d) call (plain_signature call)) (filter (shown D show_calls) cs)"

lemma plain_lines_simps [simp]:
  "plain_lines D sc padding [] = []"
  "plain_lines D sc padding (x # xs) =
     (if shown D sc x then [call_line D (padding + 2 * fst x) (snd x) (plain_signature (snd x))] else []) @
     plain_lines D sc padding xs"
  "plain_lines D sc padding (xs @ ys) = plain_lines D sc padding xs @ plain_lines D sc padding ys"
  by (auto simp: plain_lines_def split: prod.split)

lemma plain_lines_shift:
  "plain_lines D sc (padding + 2) (call_tree d c) = plain_lines D sc padding (call_tree (Suc d) c)"
  "plain_lines D sc (padding + 2) (call_forest d cs) = plain_lines D sc padding (call_forest (Suc d) cs)"
  by (induction d c and d cs rule: call_tree_call_forest.induct) (simp_all add: shown_def)

lemma function_signature_plain: "function_signature W call False s = ([], Some (plain_signature call), s)"
  by (simp add: function_signature_def plain_signature_def Let_def)

lemma print_call_plain:
  "\<not> rh \<Longrightarrow> only_prints (print_call W c padding sc rh) (plain_lines (terminal W) sc padding (call_tree 0 c))"
  "\<not> rh \<Longrightarrow> only_prints (print_subcalls W cs padding sc rh) (plain_lines (terminal W) sc padding (call_forest 0 cs))"
proof (induction W c padding sc rh and W cs padding sc rh rule: print_call_print_subcalls.induct)
  case (1 W ty frm tgt gas used val inp out err why calls padding sc rh)
  let ?c = "VmCall ty frm tgt gas used val inp out err why calls"
  have "only_prints (print_subcalls W calls (padding + 2) sc rh)
      (plain_lines (terminal W) sc padding (call_forest (Suc 0) calls))"
    using 1 plain_lines_shift(2) [of "terminal W" sc padding 0 calls] by simp
  then show ?case
    using 1(2) function_signature_plain [of W ?c]
    by (auto simp: only_prints_def prt_bind_def shown_def Let_def)
qed (simp_all add: only_prints_def prt_bind_def)

text \<open>What is printed of calls and events when no names are asked for.\<close>

theorem printed_calls_exact:
  "print_call W call padding show_calls False s =
     (plain_lines (terminal W) show_calls padding (call_tree 0 call), Some (), s) \<and>
   print_event W event False s =
     (event_lines (terminal W) event (map (hex_topic (terminal W)) (ev_indexed_topics event)), Some (), s)"
  using print_call_plain(1) [of False W call padding show_calls]
  by (simp add: only_prints_def print_event_def prt_bind_def)

text \<open>The options show more and more calls.\<close>

lemma shown_grows:
  "\<not> shown D ShowCallsNone x" "shown D ShowCallsUser x \<Longrightarrow> shown D ShowCallsSystem x" "shown D ShowCallsAll x"
  by (cases x; cases "contract_type D (call_to (snd x))"; simp add: shown_def)+

section \<open>Names without a database\<close>

text \<open>No request is answered, so only the cache and the built-in table give names.\<close>

definition offline :: "world \<Rightarrow> bool" where
  "offline W \<longleftrightarrow> client_builds (resolver W) \<and> (\<forall>n url text. remote W n url \<noteq> Body text)"

fun named :: "world \<Rightarrow> name_cache \<Rightarrow> SelectorType \<times> string \<Rightarrow> bool" where
  "named W cache (FunctionSelector, selector) =
     (cache selector \<noteq> None \<or> known_signatures (resolver W) (''0x'' @ selector) \<noteq> None)"
| "named W cache (EventSelector, selector) =
     (cache selector \<noteq> None \<or> known_signatures (resolver W) selector \<noteq> None)"

lemma offline_request:
  "offline W \<Longrightarrow> SignEthClient_new (resolver W) = Ok client \<Longrightarrow>
   \<exists>e. fst (decode_selector (resolver W) (remote W n) selector ty client) = Err e"
proof -
  assume "offline W" and new: "SignEthClient_new (resolver W) = Ok client"
  define url where "url = (case ty of FunctionSelector \<Rightarrow> SELECTOR_DATABASE_URL @ ''?function='' @ selector
    | EventSelector \<Rightarrow> SELECTOR_DATABASE_URL @ ''?event='' @ selector)"
  have "\<not> spurious_connection client"
    using new by (auto simp: SignEthClient_new_def split: if_splits)
  moreover have "\<exists>e. fst (get_text (remote W n) url client) = Err e"
    using \<open>offline W\<close> by (cases "remote W n url") (auto simp: offline_def get_text_def)
  then obtain e c where "get_text (remote W n) url client = (Err e, c)"
    by (cases "get_text (remote W n) url client") auto
  ultimately show ?thesis
    by (simp add: decode_selector_def ensure_not_spurious_def Let_def url_def [symmetric])
qed

lemma offline_new: "offline W \<Longrightarrow> \<exists>client. SignEthClient_new (resolver W) = Ok client"
  by (simp add: offline_def SignEthClient_new_def)

lemma offline_event:
  assumes "offline W"
  shows "snd (decode_event_selector (resolver W) (remote W n) selector cache) = cache"
    and "is_ok (fst (decode_event_selector (resolver W) (remote W n) selector cache)) \<longleftrightarrow>
      named W cache (EventSelector, selector)"
proof -
  obtain client e where "SignEthClient_new (resolver W) = Ok client"
      "fst (decode_selector (resolver W) (remote W n) selector EventSelector client) = Err e"
    using offline_new [OF assms] offline_request [OF assms] by blast
  then show "snd (decode_event_selector (resolver W) (remote W n) selector cache) = cache"
    and "is_ok (fst (decode_event_selector (resolver W) (remote W n) selector cache)) \<longleftrightarrow>
      named W cache (EventSelector, selector)"
    by (simp_all add: decode_event_selector_def split: option.split)
qed

lemma offline_function:
  assumes "offline W" and "length selector = 8" "take 2 selector \<noteq> ''0x''"
  shows "named W (snd (decode_function_selector (resolver W) (remote W n) selector cache)) (FunctionSelector, s) \<longleftrightarrow>
      named W cache (FunctionSelector, s)"
    and "is_ok (fst (decode_function_selector (resolver W) (remote W n) selector cache)) \<longleftrightarrow>
      named W cache (FunctionSelector, selector)"
proof -
  obtain client e where c: "SignEthClient_new (resolver W) = Ok client"
      "fst (decode_selector (resolver W) (remote W n) (''0x'' @ selector) FunctionSelector client) = Err e"
    using offline_new [OF assms(1)] offline_request [OF assms(1)] by blast
  moreover have "fst (client_decode_function_selector (resolver W) (remote W n) selector client) =
      (case known_signatures (resolver W) (''0x'' @ selector) of Some r \<Rightarrow> Ok (Some r) | None \<Rightarrow> Err e)"
    using assms c(2) by (simp add: client_decode_function_selector_def strip_0x_def split: option.split)
  ultimately show "named W (snd (decode_function_selector (resolver W) (remote W n) selector cache)) (FunctionSelector, s) \<longleftrightarrow>
      named W cache (FunctionSelector, s)"
    and "is_ok (fst (decode_function_selector (resolver W) (remote W n) selector cache)) \<longleftrightarrow>
      named W cache (FunctionSelector, selector)"
    by (auto simp add: decode_function_selector_def split: option.split)
qed

text \<open>The selector of a call is asked for with the eight digits of its first four bytes.\<close>

lemma hex_digit_not_x: "n < 16 \<Longrightarrow> hex_digit n \<noteq> CHR ''x''"
proof
  assume "n < 16" "hex_digit n = CHR ''x''"
  then have "(of_char (hex_digit n) :: nat) = 120"
    by simp
  then show False
    using \<open>n < 16\<close> by (auto simp: hex_digit_def split: if_splits)
qed

definition selector_of :: "Call \<Rightarrow> string" where
  "selector_of call = concat (map hex_byte (take 4 (call_input call)))"

lemma length_hex_bytes: "length (concat (map hex_byte bs)) = 2 * length bs"
  by (induction bs) (simp_all add: hex_byte_def)

lemma selector_of_form:
  assumes "4 \<le> length (call_input call)"
  shows "length (selector_of call) = 8" and "take 2 (selector_of call) \<noteq> ''0x''"
proof -
  show "length (selector_of call) = 8"
    using assms by (simp add: selector_of_def length_hex_bytes)
  obtain b bs where "take 4 (call_input call) = b # bs"
    using assms by (cases "call_input call") auto
  moreover have "unat b mod 16 < 16" for b :: u8
    by simp
  ultimately show "take 2 (selector_of call) \<noteq> ''0x''"
    using hex_digit_not_x by (simp add: selector_of_def hex_byte_def)
qed

text \<open>The calls whose names are asked for.\<close>

definition asked :: "term_lib \<Rightarrow> ShowCalls \<Rightarrow> Call \<Rightarrow> bool" where
  "asked D show_calls call \<longleftrightarrow> should_print (contract_type D (call_to call)) show_calls \<and>
     contract_type D (call_to call) \<noteq> Precompile \<and> 4 \<le> length (call_input call)"

definition panics :: "'a printer \<Rightarrow> resolver_state \<Rightarrow> bool" where
  "panics m s \<longleftrightarrow> fst (snd (m s)) = None"

lemma panics_bind:
  "panics (prt_bind m f) s \<longleftrightarrow>
   panics m s \<or> (\<exists>a. fst (snd (m s)) = Some a \<and> panics (f a) (snd (snd (m s))))"
  by (auto simp: panics_def prt_bind_def split: prod.splits option.splits)

lemma panics_simps [simp]: "\<not> panics (prt_return a) s" "\<not> panics (prt out) s"
  by (simp_all add: panics_def)

lemma not_panics: "\<not> panics m s \<longleftrightarrow> (\<exists>a. fst (snd (m s)) = Some a)"
  by (simp add: panics_def)

text \<open>One question to the resolver.\<close>

lemma resolve_offline_event:
  assumes "offline W"
  shows "panics (resolve W (EventSelector, selector)) s \<longleftrightarrow> \<not> named W (names s) (EventSelector, selector)"
    and "names (snd (snd (resolve W (EventSelector, selector) s))) = names s"
  using offline_event [OF assms, of "lookups s" selector "names s"]
  by (cases "decode_event_selector (resolver W) (remote W (lookups s)) selector (names s)";
      cases "fst (decode_event_selector (resolver W) (remote W (lookups s)) selector (names s))";
      simp add: resolve_def panics_def)+

lemma resolve_offline_function:
  assumes "offline W" and "length selector = 8" "take 2 selector \<noteq> ''0x''"
  shows "panics (resolve W (FunctionSelector, selector)) s \<longleftrightarrow> \<not> named W (names s) (FunctionSelector, selector)"
    and "named W (names (snd (snd (resolve W (FunctionSelector, selector) s)))) (FunctionSelector, f) \<longleftrightarrow>
      named W (names s) (FunctionSelector, f)"
  using offline_function(1) [OF assms, of "lookups s" "names s" f] offline_function(2) [OF assms, of "lookups s" "names s"]
  by (cases "decode_function_selector (resolver W) (remote W (lookups s)) selector (names s)";
      cases "fst (decode_function_selector (resolver W) (remote W (lookups s)) selector (names s))";
      simp add: resolve_def panics_def)+

lemma topic_names_offline:
  assumes "offline W"
  shows "panics (topic_names W ts) s \<longleftrightarrow>
      (\<exists>t \<in> set ts. \<not> named W (names s) (EventSelector, hex_topic (terminal W) t))"
proof (induction ts arbitrary: s)
  case (Cons t ts)
  let ?q = "resolve W (EventSelector, hex_topic (terminal W) t)"
  have "panics (topic_names W (t # ts)) s \<longleftrightarrow> panics ?q s \<or> panics (topic_names W ts) (snd (snd (?q s)))"
    using not_panics [of ?q s] by (auto simp: panics_bind)
  then show ?case
    using resolve_offline_event [OF assms, of "hex_topic (terminal W) t" s] Cons.IH
    by (simp del: named.simps)
qed simp

text \<open>A printer that asks for the names of a set of functions, and panics exactly when one of them is not at hand.\<close>

definition asks :: "world \<Rightarrow> 'a printer \<Rightarrow> string set \<Rightarrow> bool" where
  "asks W m A \<longleftrightarrow> (\<forall>s.
     (panics m s \<longleftrightarrow> (\<exists>f \<in> A. \<not> named W (names s) (FunctionSelector, f))) \<and>
     (\<forall>f. named W (names (snd (snd (m s)))) (FunctionSelector, f) \<longleftrightarrow> named W (names s) (FunctionSelector, f)))"

lemma asks_simple: "asks W (prt_return a) {}" "asks W (prt out) {}"
  by (simp_all add: asks_def)

lemma snd_bind:
  "snd (snd (prt_bind m f s)) =
    (case fst (snd (m s)) of None \<Rightarrow> snd (snd (m s)) | Some a \<Rightarrow> snd (snd (f a (snd (snd (m s))))))"
  by (auto simp: prt_bind_def split: prod.splits option.splits)

lemma asks_bind:
  assumes "asks W m A" and "\<And>a. asks W (f a) B"
  shows "asks W (prt_bind m f) (A \<union> B)"
  unfolding asks_def
proof (intro allI conjI)
  fix s g
  let ?s = "snd (snd (m s))"
  have m: "panics m s \<longleftrightarrow> (\<exists>f \<in> A. \<not> named W (names s) (FunctionSelector, f))"
    "named W (names ?s) (FunctionSelector, g) \<longleftrightarrow> named W (names s) (FunctionSelector, g)" for g
    using assms(1) by (simp_all add: asks_def del: named.simps)
  have f: "panics (f a) ?s \<longleftrightarrow> (\<exists>f \<in> B. \<not> named W (names s) (FunctionSelector, f))"
    "named W (names (snd (snd (f a ?s)))) (FunctionSelector, g) \<longleftrightarrow> named W (names s) (FunctionSelector, g)" for a g
    using assms(2) [of a] m(2) by (simp_all add: asks_def del: named.simps)
  show "panics (prt_bind m f) s \<longleftrightarrow> (\<exists>f \<in> A \<union> B. \<not> named W (names s) (FunctionSelector, f))"
    using m(1) f(1) not_panics [of m s] unfolding panics_bind by (simp del: named.simps) blast
  show "named W (names (snd (snd (prt_bind m f s)))) (FunctionSelector, g) \<longleftrightarrow> named W (names s) (FunctionSelector, g)"
    using m(2) f(2) by (simp add: snd_bind del: named.simps split: option.split)
qed

lemma asks_resolve:
  assumes "offline W" and "4 \<le> length (call_input call)"
  shows "asks W (resolve W (FunctionSelector, selector_of call)) {selector_of call}"
  using resolve_offline_function [OF assms(1) selector_of_form [OF assms(2)]]
  by (simp add: asks_def del: named.simps)

definition asked_selectors :: "term_lib \<Rightarrow> ShowCalls \<Rightarrow> (nat \<times> Call) list \<Rightarrow> string set" where
  "asked_selectors D sc cs = selector_of ` {c \<in> snd ` set cs. asked D sc c}"

lemma asked_selectors_simps [simp]:
  "asked_selectors D sc [] = {}"
  "asked_selectors D sc (x # xs) = (if asked D sc (snd x) then {selector_of (snd x)} else {}) \<union> asked_selectors D sc xs"
  "asked_selectors D sc (xs @ ys) = asked_selectors D sc xs \<union> asked_selectors D sc ys"
  by (auto simp: asked_selectors_def)

lemma asks_signature:
  assumes "offline W" and "should_print (contract_type (terminal W) (call_to call)) sc"
  shows "asks W (function_signature W call True) (if asked (terminal W) sc call then {selector_of call} else {})"
proof (cases "asked (terminal W) sc call")
  case True
  then have "4 \<le> length (call_input call)"
    by (simp add: asked_def)
  note r = asks_resolve [OF assms(1) this]
  have "asks W (function_signature W call True) ({selector_of call} \<union> {})"
    using True unfolding function_signature_def asked_def selector_of_def [symmetric] Let_def
    by simp (rule asks_bind [where B = "{}", OF r asks_simple(1), simplified])
  then show ?thesis
    using True by simp
next
  case False
  then have "\<exists>v. function_signature W call True = prt_return v"
    using assms(2) by (auto simp: function_signature_def asked_def Let_def)
  then show ?thesis
    using False asks_simple(1) by auto
qed

lemma asks_print_call:
  assumes "offline W"
  shows "rh \<Longrightarrow> asks W (print_call W c padding sc rh) (asked_selectors (terminal W) sc (call_tree k c))"
    and "rh \<Longrightarrow> asks W (print_subcalls W cs padding sc rh) (asked_selectors (terminal W) sc (call_forest k cs))"
  using assms
proof (induction W c padding sc rh and W cs padding sc rh arbitrary: k and k rule: print_call_print_subcalls.induct)
  case (1 W ty frm tgt gas used val inp out err why calls padding sc rh)
  let ?c = "VmCall ty frm tgt gas used val inp out err why calls"
  have "asks W (if should_print (contract_type (terminal W) (call_to ?c)) sc
        then prt_bind (function_signature W ?c rh) (\<lambda>signature. prt [call_line (terminal W) padding ?c signature])
        else prt_return ())
      (if asked (terminal W) sc ?c then {selector_of ?c} else {})"
    using asks_bind [OF asks_signature [of W ?c sc] asks_simple(2)] asks_simple(1) 1(2,3)
    by (auto simp: asked_def)
  then have "asks W (print_call W ?c padding sc rh)
      ((if asked (terminal W) sc ?c then {selector_of ?c} else {}) \<union> asked_selectors (terminal W) sc (call_forest (Suc k) calls))"
    using 1 unfolding print_call.simps Let_def by (intro asks_bind) simp_all
  then show ?case
    by (simp only: call_tree.simps asked_selectors_simps snd_conv)
next
  case (3 W c cs padding sc rh)
  then show ?case
    using asks_bind [OF 3(1) 3(2)] by simp
qed (simp add: asks_simple)

text \<open>C30: When the database of names is out of reach, printing a call with its subcalls, or an event, panics exactly
  when one of the names it asks for is neither built in nor cached. A call asks for its selector where it is shown, is no
  precompile and has four bytes of input; an event asks for each of its topics.\<close>

theorem offline_printing:
  assumes "offline W"
  shows "(fst (snd (print_call W call padding show_calls True s)) = None \<longleftrightarrow>
      (\<exists>f \<in> asked_selectors (terminal W) show_calls (call_tree 0 call). \<not> named W (names s) (FunctionSelector, f))) \<and>
    (fst (snd (print_event W event True s)) = None \<longleftrightarrow>
      (\<exists>t \<in> set (ev_indexed_topics event). \<not> named W (names s) (EventSelector, hex_topic (terminal W) t)))"
proof
  show "fst (snd (print_call W call padding show_calls True s)) = None \<longleftrightarrow>
      (\<exists>f \<in> asked_selectors (terminal W) show_calls (call_tree 0 call). \<not> named W (names s) (FunctionSelector, f))"
    using asks_print_call(1) [OF assms, of True call padding show_calls 0]
    by (simp add: asks_def panics_def del: named.simps)
  show "fst (snd (print_event W event True s)) = None \<longleftrightarrow>
      (\<exists>t \<in> set (ev_indexed_topics event). \<not> named W (names s) (EventSelector, hex_topic (terminal W) t))"
    using topic_names_offline [OF assms, of "ev_indexed_topics event" s]
    by (auto simp: print_event_def panics_bind panics_def [symmetric] simp del: named.simps)
qed

text \<open>A terminal without colours, a contract that nobody knows and a transaction that calls it.\<close>

definition example_terminal :: term_lib where
  "example_terminal =
     \<lparr>paint = (\<lambda>_ s. s), paint_padded = (\<lambda>_. pad_right), debug_address = (\<lambda>_. ''0x''), display_address = (\<lambda>_. ''0x''),
      hex_topic = (\<lambda>_. ''0x''), hex_word = (\<lambda>_. ''0x''), hex_encode = (\<lambda>bs. concat (map hex_byte bs)),
      debug_call_type = (\<lambda>_. ''Call''), debug_log_type = (\<lambda>_. ''Read''), known_addresses = Map.empty\<rparr>"

definition example_world :: world where
  "example_world =
     \<lparr>resolver = example_resolver, remote = (\<lambda>_. no_connection), terminal = example_terminal\<rparr>"

definition example_call :: Call where
  "example_call = VmCall CallCall 1 2 100 50 0 [0x12, 0x34, 0x56, 0x78] [] None None []"

lemma offline_printing_witness:
  "fst (snd (print_call example_world example_call 0 ShowCallsAll True \<lparr>names = Map.empty, lookups = 0\<rparr>)) = None"
proof -
  have "offline example_world"
    by (simp add: offline_def example_world_def example_resolver_def no_connection_def)
  note o = offline_printing [OF this, of example_call 0 ShowCallsAll "\<lparr>names = Map.empty, lookups = 0\<rparr>"]
  have "asked example_terminal ShowCallsAll example_call"
    by (simp add: asked_def contract_type_def example_terminal_def example_call_def)
  then have "selector_of example_call \<in> asked_selectors (terminal example_world) ShowCallsAll (call_tree 0 example_call)"
    by (simp add: asked_selectors_def example_call_def example_world_def)
  moreover have "\<not> named example_world Map.empty (FunctionSelector, selector_of example_call)"
    by (simp add: example_world_def example_resolver_def)
  ultimately show ?thesis
    using o [where event = "\<lparr>ev_address = 0, ev_indexed_topics = [], ev_value = []\<rparr>"] by auto
qed

end
