(* ===== verification/StorageLogs.thy ===== *)
theory StorageLogs
  imports Formatter
begin

text \<open>
  The report on the storage logs of a transaction (\<^verbatim>\<open>src/.test-node-subtree/src/node/storage_logs.rs\<close>): how many bytes of
  pubdata each write adds, given what was already paid for its slot. The keys that are free, the size of a compressed
  value and the sizes of keys and indices are those of the \<^verbatim>\<open>zksync\<close> crates: the record \<^verbatim>\<open>pubdata_lib\<close>.
\<close>

section \<open>The cost of a write\<close>

record pubdata_lib =
  system_context_address :: address
  bootloader_balance_key :: StorageKey
  compressed_size :: "u256 \<Rightarrow> u256 \<Rightarrow> nat"
  bytes_per_derived_key :: u8
  bytes_per_enumeration_index :: u8

definition is_storage_key_free :: "pubdata_lib \<Rightarrow> StorageKey \<Rightarrow> bool" where
  "is_storage_key_free B key = (fst key = system_context_address B \<or> key = bootloader_balance_key B)"

definition log_key :: "StorageLogQuery \<Rightarrow> StorageKey" where
  "log_key log_query = (slq_address log_query, slq_key log_query)"

definition final_cost :: "pubdata_lib \<Rightarrow> StorageLogQuery \<Rightarrow> u32" where
  "final_cost B log_query =
     (let compressed_value_size = of_nat (compressed_size B (slq_read_value log_query) (slq_written_value log_query))
      in if slq_log_type log_query = InitialWrite then ucast (bytes_per_derived_key B) + compressed_value_size
         else ucast (bytes_per_enumeration_index B) + compressed_value_size)"

definition compute_and_update_pubdata_cost ::
  "pubdata_lib \<Rightarrow> (StorageKey \<rightharpoonup> u32) \<Rightarrow> StorageLogQuery \<Rightarrow> PubdataBytesInfo \<times> (StorageKey \<rightharpoonup> u32)" where
  "compute_and_update_pubdata_cost B cost_paid log_query =
     (let storage_key = log_key log_query
      in if is_storage_key_free B storage_key then (FreeSlot, cost_paid)
         else
           let final_pubdata_cost = final_cost B log_query;
               result = (case cost_paid storage_key of
                           Some already_paid \<Rightarrow>
                             let to_pay = sat_sub final_pubdata_cost already_paid
                             in if to_pay > 0 then AdditionalPayment to_pay final_pubdata_cost else PaidAlready
                         | None \<Rightarrow> Paid final_pubdata_cost)
           in (result, cost_paid(storage_key \<mapsto> final_pubdata_cost)))"

section \<open>The report\<close>

definition is_write :: "StorageLogQuery \<Rightarrow> bool" where
  "is_write log_query = (slq_log_type log_query = RepeatedWrite \<or> slq_log_type log_query = InitialWrite)"

text \<open>The loop of \<^verbatim>\<open>print_storage_logs_details\<close> over the logs, with the costs paid so far.\<close>

fun print_each_log ::
  "pubdata_lib \<Rightarrow> term_lib \<Rightarrow> ShowStorageLogs \<Rightarrow> (StorageKey \<rightharpoonup> u32) \<Rightarrow> StorageLogQuery list \<Rightarrow> printed list" where
  "print_each_log B D show_storage_logs cost_paid [] = []"
| "print_each_log B D show_storage_logs cost_paid (log_query # logs) =
     (let (pubdata_bytes_info, cost_paid) =
            (if is_write log_query
             then let (i, cost_paid) = compute_and_update_pubdata_cost B cost_paid log_query in (Some i, cost_paid)
             else (None, cost_paid))
      in (case show_storage_logs of
            ShowStorageWrite \<Rightarrow> if is_write log_query then print_logs D log_query pubdata_bytes_info else []
          | ShowStoragePaid \<Rightarrow>
              if (case pubdata_bytes_info of Some x \<Rightarrow> does_cost x | None \<Rightarrow> False)
              then print_logs D log_query pubdata_bytes_info else []
          | ShowStorageRead \<Rightarrow>
              if slq_log_type log_query = LogRead then print_logs D log_query pubdata_bytes_info else []
          | ShowStorageAll \<Rightarrow> print_logs D log_query pubdata_bytes_info
          | ShowStorageNone \<Rightarrow> []) @
         print_each_log B D show_storage_logs cost_paid logs)"

definition print_storage_logs_details ::
  "pubdata_lib \<Rightarrow> term_lib \<Rightarrow> ShowStorageLogs \<Rightarrow> VmExecutionResultAndLogs \<Rightarrow> printed list" where
  "print_storage_logs_details B D show_storage_logs result =
     [Line [], Frame ''   STORAGE LOGS   ''] @
     print_each_log B D show_storage_logs Map.empty (vr_storage_logs result)"

section \<open>What is charged\<close>

text \<open>The charge of each log, in order.\<close>

fun charges ::
  "pubdata_lib \<Rightarrow> (StorageKey \<rightharpoonup> u32) \<Rightarrow> StorageLogQuery list \<Rightarrow> (StorageLogQuery \<times> PubdataBytesInfo option) list" where
  "charges B cost_paid [] = []"
| "charges B cost_paid (l # ls) =
     (if is_write l
      then (l, Some (fst (compute_and_update_pubdata_cost B cost_paid l))) #
        charges B (snd (compute_and_update_pubdata_cost B cost_paid l)) ls
      else (l, None) # charges B cost_paid ls)"

fun amount :: "PubdataBytesInfo option \<Rightarrow> nat" where
  "amount (Some (Paid c)) = unat c"
| "amount (Some (AdditionalPayment c _)) = unat c"
| "amount _ = 0"

definition charged :: "StorageKey \<Rightarrow> (StorageLogQuery \<times> PubdataBytesInfo option) list \<Rightarrow> nat" where
  "charged k cs = sum_list (map (\<lambda>(l, i). if log_key l = k then amount i else 0) cs)"

text \<open>The specification: the costs of the writes to one slot, and what a client pays that is charged each increase.\<close>

definition write_costs :: "pubdata_lib \<Rightarrow> StorageKey \<Rightarrow> StorageLogQuery list \<Rightarrow> nat list" where
  "write_costs B k ls = map (\<lambda>l. unat (final_cost B l)) (filter (\<lambda>l. is_write l \<and> log_key l = k) ls)"

fun increases :: "nat \<Rightarrow> nat list \<Rightarrow> nat" where
  "increases paid [] = 0"
| "increases paid (c # cs) = (c - paid) + increases c cs"

lemma increases_max: "c \<in> set cs \<Longrightarrow> c \<le> paid + increases paid cs"
proof (induction cs arbitrary: paid)
  case (Cons d cs)
  then have "c \<le> d + increases d cs"
    by (cases "c = d") simp_all
  then show ?case
    by simp
qed simp

lemma increases_sorted: "sorted cs \<Longrightarrow> cs \<noteq> [] \<Longrightarrow> paid \<le> hd cs \<Longrightarrow> paid + increases paid cs = last cs"
proof (induction cs arbitrary: paid)
  case (Cons c cs)
  then show ?case
    by (cases cs) auto
qed simp

lemma cost_step:
  "charged k [(l, Some (fst (compute_and_update_pubdata_cost B paid l)))] =
     (if log_key l = k \<and> \<not> is_storage_key_free B k
      then unat (final_cost B l) - (case paid k of Some p \<Rightarrow> unat p | None \<Rightarrow> 0) else 0)"
  "snd (compute_and_update_pubdata_cost B paid l) k =
     (if log_key l = k \<and> \<not> is_storage_key_free B k then Some (final_cost B l) else paid k)"
  by (auto simp: charged_def compute_and_update_pubdata_cost_def Let_def unat_sat_sub word_gt_0 unat_eq_0 [symmetric]
      split: option.split)

lemma charged_costs:
  assumes "\<not> is_storage_key_free B k"
  shows "charged k (charges B paid ls) =
    increases (case paid k of Some p \<Rightarrow> unat p | None \<Rightarrow> 0) (write_costs B k ls)"
proof (induction ls arbitrary: paid)
  case (Cons l ls)
  have split: "charged k (x # xs) = charged k [x] + charged k xs" for x xs
    by (simp add: charged_def)
  show ?case
  proof (cases "is_write l")
    case True
    then show ?thesis
      using assms cost_step(1) [of k l B paid] cost_step(2) [of B paid l k]
      by (simp add: split [of _ "charges _ _ _"] Cons.IH write_costs_def)
  next
    case False
    then show ?thesis
      by (simp add: split [of _ "charges _ _ _"] Cons.IH write_costs_def) (simp add: charged_def)
  qed
qed (simp add: charged_def write_costs_def)

lemma free_slot_charges:
  assumes "is_storage_key_free B k"
  shows "charged k (charges B paid ls) = 0"
proof (induction ls arbitrary: paid)
  case (Cons l ls)
  have split: "charged k (x # xs) = charged k [x] + charged k xs" for x xs
    by (simp add: charged_def)
  show ?case
    using assms cost_step(1) [of k l B paid] Cons.IH
    by (auto simp: split [of _ "charges _ _ _"]) (simp add: charged_def)
qed (simp add: charged_def)

text \<open>C37: What the report charges for a slot in all: nothing where it is free, else the increases from each write to the
  next, the first from 0. So a write that lowers the cost makes a later one be charged again.\<close>

theorem pubdata_charged:
  "charged k (charges B Map.empty ls) =
     (if is_storage_key_free B k then 0 else increases 0 (write_costs B k ls))"
  by (simp add: charged_costs free_slot_charges)

section \<open>What is printed\<close>

fun shown_log :: "ShowStorageLogs \<Rightarrow> StorageLogQuery \<times> PubdataBytesInfo option \<Rightarrow> bool" where
  "shown_log ShowStorageNone _ = False"
| "shown_log ShowStorageRead (l, i) = (slq_log_type l = LogRead)"
| "shown_log ShowStorageWrite (l, i) = (slq_log_type l \<noteq> LogRead)"
| "shown_log ShowStoragePaid (l, i) = (case i of Some x \<Rightarrow> does_cost x | None \<Rightarrow> False)"
| "shown_log ShowStorageAll _ = True"

lemma log_type_cases: "\<not> is_write l \<longleftrightarrow> slq_log_type l = LogRead"
  by (cases "slq_log_type l") (simp_all add: is_write_def)

lemma print_each_log_charges:
  "print_each_log B D option paid ls =
     concat (map (\<lambda>(l, i). print_logs D l i) (filter (shown_log option) (charges B paid ls)))"
proof (induction ls arbitrary: paid)
  case (Cons l ls)
  obtain i paid' where "compute_and_update_pubdata_cost B paid l = (i, paid')"
    by (cases "compute_and_update_pubdata_cost B paid l")
  then show ?case
    using Cons.IH by (cases option; cases "is_write l"; simp add: log_type_cases [symmetric] Let_def)
qed simp

text \<open>The report prints the logs that its option selects, in order, each with its charge.\<close>

theorem storage_report_exact:
  "print_storage_logs_details B D option result =
     [Line [], Frame ''   STORAGE LOGS   ''] @
     concat (map (\<lambda>(l, i). print_logs D l i) (filter (shown_log option) (charges B Map.empty (vr_storage_logs result))))"
  by (simp add: print_storage_logs_details_def print_each_log_charges)

end
