(* ===== verification/ConsoleLog.thy ===== *)
theory ConsoleLog
  imports Formatter
begin

text \<open>
  The messages of \<^verbatim>\<open>console.log\<close> (\<^verbatim>\<open>src/.test-node-subtree/src/console_log.rs\<close>): the table of the known functions, how
  it is read, and the handler that prints the calls to the console contract. The reader of parameter types, the
  selector of a function and the decoding of arguments are those of the \<^verbatim>\<open>ethabi\<close> crate: the record \<^verbatim>\<open>abi_lib\<close>.
\<close>

section \<open>The known functions\<close>

text \<open>The declarations, in the order of the source, by the number of arguments and the first of four.\<close>

definition LOG_FUNCTIONS_1 :: "string list" where
  "LOG_FUNCTIONS_1 =
    [''log(int256)'', ''log(uint256)'', ''log(string)'', ''log(bool)'', ''log(address)'', ''log(bytes)'',
     ''log(bytes1)'', ''log(bytes2)'', ''log(bytes3)'', ''log(bytes4)'', ''log(bytes5)'', ''log(bytes6)'',
     ''log(bytes7)'', ''log(bytes8)'', ''log(bytes9)'', ''log(bytes10)'', ''log(bytes11)'', ''log(bytes12)'',
     ''log(bytes13)'', ''log(bytes14)'', ''log(bytes15)'', ''log(bytes16)'', ''log(bytes17)'', ''log(bytes18)'',
     ''log(bytes19)'', ''log(bytes20)'', ''log(bytes21)'', ''log(bytes22)'', ''log(bytes23)'', ''log(bytes24)'',
     ''log(bytes25)'', ''log(bytes26)'', ''log(bytes27)'', ''log(bytes28)'', ''log(bytes29)'', ''log(bytes30)'',
     ''log(bytes31)'', ''log(bytes32)'', ''log(uint256)'', ''log(string)'', ''log(bool)'', ''log(address)'']"

definition LOG_FUNCTIONS_2 :: "string list" where
  "LOG_FUNCTIONS_2 =
    [''log(uint256,uint256)'', ''log(uint256,string)'', ''log(uint256,bool)'', ''log(uint256,address)'',
     ''log(string,uint256)'', ''log(string,string)'', ''log(string,bool)'', ''log(string,address)'',
     ''log(bool,uint256)'', ''log(bool,string)'', ''log(bool,bool)'', ''log(bool,address)'', ''log(address,uint256)'',
     ''log(address,string)'', ''log(address,bool)'', ''log(address,address)'']"

definition LOG_FUNCTIONS_3 :: "string list" where
  "LOG_FUNCTIONS_3 =
    [''log(uint256,uint256,uint256)'', ''log(uint256,uint256,string)'', ''log(uint256,uint256,bool)'',
     ''log(uint256,uint256,address)'', ''log(uint256,string,uint256)'', ''log(uint256,string,string)'',
     ''log(uint256,string,bool)'', ''log(uint256,string,address)'', ''log(uint256,bool,uint256)'',
     ''log(uint256,bool,string)'', ''log(uint256,bool,bool)'', ''log(uint256,bool,address)'',
     ''log(uint256,address,uint256)'', ''log(uint256,address,string)'', ''log(uint256,address,bool)'',
     ''log(uint256,address,address)'', ''log(string,uint256,uint256)'', ''log(string,uint256,string)'',
     ''log(string,uint256,bool)'', ''log(string,uint256,address)'', ''log(string,string,uint256)'',
     ''log(string,string,string)'', ''log(string,string,bool)'', ''log(string,string,address)'',
     ''log(string,bool,uint256)'', ''log(string,bool,string)'', ''log(string,bool,bool)'',
     ''log(string,bool,address)'', ''log(string,address,uint256)'', ''log(string,address,string)'',
     ''log(string,address,bool)'', ''log(string,address,address)'', ''log(bool,uint256,uint256)'',
     ''log(bool,uint256,string)'', ''log(bool,uint256,bool)'', ''log(bool,uint256,address)'',
     ''log(bool,string,uint256)'', ''log(bool,string,string)'', ''log(bool,string,bool)'',
     ''log(bool,string,address)'', ''log(bool,bool,uint256)'', ''log(bool,bool,string)'', ''log(bool,bool,bool)'',
     ''log(bool,bool,address)'', ''log(bool,address,uint256)'', ''log(bool,address,string)'',
     ''log(bool,address,bool)'', ''log(bool,address,address)'', ''log(address,uint256,uint256)'',
     ''log(address,uint256,string)'', ''log(address,uint256,bool)'', ''log(address,uint256,address)'',
     ''log(address,string,uint256)'', ''log(address,string,string)'', ''log(address,string,bool)'',
     ''log(address,string,address)'', ''log(address,bool,uint256)'', ''log(address,bool,string)'',
     ''log(address,bool,bool)'', ''log(address,bool,address)'', ''log(address,address,uint256)'',
     ''log(address,address,string)'', ''log(address,address,bool)'', ''log(address,address,address)'']"

definition LOG_FUNCTIONS_4_uint256 :: "string list" where
  "LOG_FUNCTIONS_4_uint256 =
    [''log(uint256,uint256,uint256,uint256)'', ''log(uint256,uint256,uint256,string)'',
     ''log(uint256,uint256,uint256,bool)'', ''log(uint256,uint256,uint256,address)'',
     ''log(uint256,uint256,string,uint256)'', ''log(uint256,uint256,string,string)'',
     ''log(uint256,uint256,string,bool)'', ''log(uint256,uint256,string,address)'',
     ''log(uint256,uint256,bool,uint256)'', ''log(uint256,uint256,bool,string)'', ''log(uint256,uint256,bool,bool)'',
     ''log(uint256,uint256,bool,address)'', ''log(uint256,uint256,address,uint256)'',
     ''log(uint256,uint256,address,string)'', ''log(uint256,uint256,address,bool)'',
     ''log(uint256,uint256,address,address)'', ''log(uint256,string,uint256,uint256)'',
     ''log(uint256,string,uint256,string)'', ''log(uint256,string,uint256,bool)'',
     ''log(uint256,string,uint256,address)'', ''log(uint256,string,string,uint256)'',
     ''log(uint256,string,string,string)'', ''log(uint256,string,string,bool)'',
     ''log(uint256,string,string,address)'', ''log(uint256,string,bool,uint256)'',
     ''log(uint256,string,bool,string)'', ''log(uint256,string,bool,bool)'', ''log(uint256,string,bool,address)'',
     ''log(uint256,string,address,uint256)'', ''log(uint256,string,address,string)'',
     ''log(uint256,string,address,bool)'', ''log(uint256,string,address,address)'',
     ''log(uint256,bool,uint256,uint256)'', ''log(uint256,bool,uint256,string)'', ''log(uint256,bool,uint256,bool)'',
     ''log(uint256,bool,uint256,address)'', ''log(uint256,bool,string,uint256)'', ''log(uint256,bool,string,string)'',
     ''log(uint256,bool,string,bool)'', ''log(uint256,bool,string,address)'', ''log(uint256,bool,bool,uint256)'',
     ''log(uint256,bool,bool,string)'', ''log(uint256,bool,bool,bool)'', ''log(uint256,bool,bool,address)'',
     ''log(uint256,bool,address,uint256)'', ''log(uint256,bool,address,string)'', ''log(uint256,bool,address,bool)'',
     ''log(uint256,bool,address,address)'', ''log(uint256,address,uint256,uint256)'',
     ''log(uint256,address,uint256,string)'', ''log(uint256,address,uint256,bool)'',
     ''log(uint256,address,uint256,address)'', ''log(uint256,address,string,uint256)'',
     ''log(uint256,address,string,string)'', ''log(uint256,address,string,bool)'',
     ''log(uint256,address,string,address)'', ''log(uint256,address,bool,uint256)'',
     ''log(uint256,address,bool,string)'', ''log(uint256,address,bool,bool)'', ''log(uint256,address,bool,address)'',
     ''log(uint256,address,address,uint256)'', ''log(uint256,address,address,string)'',
     ''log(uint256,address,address,bool)'', ''log(uint256,address,address,address)'']"

definition LOG_FUNCTIONS_4_string :: "string list" where
  "LOG_FUNCTIONS_4_string =
    [''log(string,uint256,uint256,uint256)'', ''log(string,uint256,uint256,string)'',
     ''log(string,uint256,uint256,bool)'', ''log(string,uint256,uint256,address)'',
     ''log(string,uint256,string,uint256)'', ''log(string,uint256,string,string)'',
     ''log(string,uint256,string,bool)'', ''log(string,uint256,string,address)'',
     ''log(string,uint256,bool,uint256)'', ''log(string,uint256,bool,string)'', ''log(string,uint256,bool,bool)'',
     ''log(string,uint256,bool,address)'', ''log(string,uint256,address,uint256)'',
     ''log(string,uint256,address,string)'', ''log(string,uint256,address,bool)'',
     ''log(string,uint256,address,address)'', ''log(string,string,uint256,uint256)'',
     ''log(string,string,uint256,string)'', ''log(string,string,uint256,bool)'',
     ''log(string,string,uint256,address)'', ''log(string,string,string,uint256)'',
     ''log(string,string,string,string)'', ''log(string,string,string,bool)'', ''log(string,string,string,address)'',
     ''log(string,string,bool,uint256)'', ''log(string,string,bool,string)'', ''log(string,string,bool,bool)'',
     ''log(string,string,bool,address)'', ''log(string,string,address,uint256)'',
     ''log(string,string,address,string)'', ''log(string,string,address,bool)'',
     ''log(string,string,address,address)'', ''log(string,bool,uint256,uint256)'',
     ''log(string,bool,uint256,string)'', ''log(string,bool,uint256,bool)'', ''log(string,bool,uint256,address)'',
     ''log(string,bool,string,uint256)'', ''log(string,bool,string,string)'', ''log(string,bool,string,bool)'',
     ''log(string,bool,string,address)'', ''log(string,bool,bool,uint256)'', ''log(string,bool,bool,string)'',
     ''log(string,bool,bool,bool)'', ''log(string,bool,bool,address)'', ''log(string,bool,address,uint256)'',
     ''log(string,bool,address,string)'', ''log(string,bool,address,bool)'', ''log(string,bool,address,address)'',
     ''log(string,address,uint256,uint256)'', ''log(string,address,uint256,string)'',
     ''log(string,address,uint256,bool)'', ''log(string,address,uint256,address)'',
     ''log(string,address,string,uint256)'', ''log(string,address,string,string)'',
     ''log(string,address,string,bool)'', ''log(string,address,string,address)'',
     ''log(string,address,bool,uint256)'', ''log(string,address,bool,string)'', ''log(string,address,bool,bool)'',
     ''log(string,address,bool,address)'', ''log(string,address,address,uint256)'',
     ''log(string,address,address,string)'', ''log(string,address,address,bool)'',
     ''log(string,address,address,address)'']"

definition LOG_FUNCTIONS_4_bool :: "string list" where
  "LOG_FUNCTIONS_4_bool =
    [''log(bool,uint256,uint256,uint256)'', ''log(bool,uint256,uint256,string)'', ''log(bool,uint256,uint256,bool)'',
     ''log(bool,uint256,uint256,address)'', ''log(bool,uint256,string,uint256)'', ''log(bool,uint256,string,string)'',
     ''log(bool,uint256,string,bool)'', ''log(bool,uint256,string,address)'', ''log(bool,uint256,bool,uint256)'',
     ''log(bool,uint256,bool,string)'', ''log(bool,uint256,bool,bool)'', ''log(bool,uint256,bool,address)'',
     ''log(bool,uint256,address,uint256)'', ''log(bool,uint256,address,string)'', ''log(bool,uint256,address,bool)'',
     ''log(bool,uint256,address,address)'', ''log(bool,string,uint256,uint256)'', ''log(bool,string,uint256,string)'',
     ''log(bool,string,uint256,bool)'', ''log(bool,string,uint256,address)'', ''log(bool,string,string,uint256)'',
     ''log(bool,string,string,string)'', ''log(bool,string,string,bool)'', ''log(bool,string,string,address)'',
     ''log(bool,string,bool,uint256)'', ''log(bool,string,bool,string)'', ''log(bool,string,bool,bool)'',
     ''log(bool,string,bool,address)'', ''log(bool,string,address,uint256)'', ''log(bool,string,address,string)'',
     ''log(bool,string,address,bool)'', ''log(bool,string,address,address)'', ''log(bool,bool,uint256,uint256)'',
     ''log(bool,bool,uint256,string)'', ''log(bool,bool,uint256,bool)'', ''log(bool,bool,uint256,address)'',
     ''log(bool,bool,string,uint256)'', ''log(bool,bool,string,string)'', ''log(bool,bool,string,bool)'',
     ''log(bool,bool,string,address)'', ''log(bool,bool,bool,uint256)'', ''log(bool,bool,bool,string)'',
     ''log(bool,bool,bool,bool)'', ''log(bool,bool,bool,address)'', ''log(bool,bool,address,uint256)'',
     ''log(bool,bool,address,string)'', ''log(bool,bool,address,bool)'', ''log(bool,bool,address,address)'',
     ''log(bool,address,uint256,uint256)'', ''log(bool,address,uint256,string)'', ''log(bool,address,uint256,bool)'',
     ''log(bool,address,uint256,address)'', ''log(bool,address,string,uint256)'', ''log(bool,address,string,string)'',
     ''log(bool,address,string,bool)'', ''log(bool,address,string,address)'', ''log(bool,address,bool,uint256)'',
     ''log(bool,address,bool,string)'', ''log(bool,address,bool,bool)'', ''log(bool,address,bool,address)'',
     ''log(bool,address,address,uint256)'', ''log(bool,address,address,string)'', ''log(bool,address,address,bool)'',
     ''log(bool,address,address,address)'']"

definition LOG_FUNCTIONS_4_address :: "string list" where
  "LOG_FUNCTIONS_4_address =
    [''log(address,uint256,uint256,uint256)'', ''log(address,uint256,uint256,string)'',
     ''log(address,uint256,uint256,bool)'', ''log(address,uint256,uint256,address)'',
     ''log(address,uint256,string,uint256)'', ''log(address,uint256,string,string)'',
     ''log(address,uint256,string,bool)'', ''log(address,uint256,string,address)'',
     ''log(address,uint256,bool,uint256)'', ''log(address,uint256,bool,string)'', ''log(address,uint256,bool,bool)'',
     ''log(address,uint256,bool,address)'', ''log(address,uint256,address,uint256)'',
     ''log(address,uint256,address,string)'', ''log(address,uint256,address,bool)'',
     ''log(address,uint256,address,address)'', ''log(address,string,uint256,uint256)'',
     ''log(address,string,uint256,string)'', ''log(address,string,uint256,bool)'',
     ''log(address,string,uint256,address)'', ''log(address,string,string,uint256)'',
     ''log(address,string,string,string)'', ''log(address,string,string,bool)'',
     ''log(address,string,string,address)'', ''log(address,string,bool,uint256)'',
     ''log(address,string,bool,string)'', ''log(address,string,bool,bool)'', ''log(address,string,bool,address)'',
     ''log(address,string,address,uint256)'', ''log(address,string,address,string)'',
     ''log(address,string,address,bool)'', ''log(address,string,address,address)'',
     ''log(address,bool,uint256,uint256)'', ''log(address,bool,uint256,string)'', ''log(address,bool,uint256,bool)'',
     ''log(address,bool,uint256,address)'', ''log(address,bool,string,uint256)'', ''log(address,bool,string,string)'',
     ''log(address,bool,string,bool)'', ''log(address,bool,string,address)'', ''log(address,bool,bool,uint256)'',
     ''log(address,bool,bool,string)'', ''log(address,bool,bool,bool)'', ''log(address,bool,bool,address)'',
     ''log(address,bool,address,uint256)'', ''log(address,bool,address,string)'', ''log(address,bool,address,bool)'',
     ''log(address,bool,address,address)'', ''log(address,address,uint256,uint256)'',
     ''log(address,address,uint256,string)'', ''log(address,address,uint256,bool)'',
     ''log(address,address,uint256,address)'', ''log(address,address,string,uint256)'',
     ''log(address,address,string,string)'', ''log(address,address,string,bool)'',
     ''log(address,address,string,address)'', ''log(address,address,bool,uint256)'',
     ''log(address,address,bool,string)'', ''log(address,address,bool,bool)'', ''log(address,address,bool,address)'',
     ''log(address,address,address,uint256)'', ''log(address,address,address,string)'',
     ''log(address,address,address,bool)'', ''log(address,address,address,address)'']"

definition LOG_FUNCTIONS :: "string list" where
  "LOG_FUNCTIONS =
     LOG_FUNCTIONS_1 @
     LOG_FUNCTIONS_2 @
     LOG_FUNCTIONS_3 @
     LOG_FUNCTIONS_4_uint256 @
     LOG_FUNCTIONS_4_string @
     LOG_FUNCTIONS_4_bool @
     LOG_FUNCTIONS_4_address"

text \<open>The fields of a function that are the same for all of them are left out.\<close>

record 'p Param =
  param_name :: string
  param_kind :: 'p
  param_internal_type :: string

record 'p Function =
  fn_name :: string
  fn_inputs :: "'p Param list"

record 'p abi_lib =
  read_type :: "string \<Rightarrow> 'p option"
  short_signature :: "'p Function \<Rightarrow> bytes"
  decode_input :: "'p Function \<Rightarrow> bytes \<Rightarrow> string list option"

text \<open>\<^verbatim>\<open>trim_end_matches\<close> and \<^verbatim>\<open>split_once\<close> of the standard library.\<close>

definition trim_end_matches :: "char \<Rightarrow> string \<Rightarrow> string" where
  "trim_end_matches c s = rev (dropWhile (\<lambda>x. x = c) (rev s))"

fun split_once :: "char \<Rightarrow> string \<Rightarrow> (string \<times> string) option" where
  "split_once c [] = None"
| "split_once c (x # xs) =
     (if x = c then Some ([], xs) else map_option (\<lambda>(a, b). (x # a, b)) (split_once c xs))"

fun read_params :: "'p abi_lib \<Rightarrow> nat \<Rightarrow> string list \<Rightarrow> (unit, 'p Param list) rust" where
  "read_params A index [] = Ok []"
| "read_params A index (param # params) =
     (case read_type A param of
        None \<Rightarrow> Panic
      | Some kind \<Rightarrow>
          rust_bind (read_params A (Suc index) params) (\<lambda>rest.
          Ok (\<lparr>param_name = CHR ''p'' # decimal index, param_kind = kind, param_internal_type = param\<rparr> # rest)))"

definition read_function :: "'p abi_lib \<Rightarrow> string \<Rightarrow> (unit, 'p Function) rust" where
  "read_function A func_decl =
     (case split_once (CHR ''('') (trim_end_matches (CHR '')'') func_decl) of
        None \<Rightarrow> Panic
      | Some (name, params) \<Rightarrow>
          rust_bind (read_params A 0 (split_on (CHR '','') params)) (\<lambda>inputs.
          Ok \<lparr>fn_name = name, fn_inputs = inputs\<rparr>))"

fun read_functions :: "'p abi_lib \<Rightarrow> string list \<Rightarrow> (unit, 'p Function list) rust" where
  "read_functions A [] = Ok []"
| "read_functions A (d # ds) =
     rust_bind (read_function A d) (\<lambda>f. rust_bind (read_functions A ds) (\<lambda>fs. Ok (f # fs)))"

definition get_log_functions :: "'p abi_lib \<Rightarrow> (unit, 'p Function list) rust" where
  "get_log_functions A = read_functions A LOG_FUNCTIONS"

section \<open>The handler\<close>

definition CONSOLE_ADDRESS :: address where
  "CONSOLE_ADDRESS = 0x000000000000000000636f6e736f6c652e6c6f67"

record 'p ConsoleLogHandler =
  signature_map :: "bytes \<rightharpoonup> 'p Function"
  target_contract :: address

definition ConsoleLogHandler_default :: "'p abi_lib \<Rightarrow> (unit, 'p ConsoleLogHandler) rust" where
  "ConsoleLogHandler_default A =
     rust_bind (get_log_functions A) (\<lambda>fs.
     Ok \<lparr>signature_map = map_of (rev (map (\<lambda>func. (short_signature A func, func)) fs)),
         target_contract = CONSOLE_ADDRESS\<rparr>)"

definition handle_call :: "'p abi_lib \<Rightarrow> term_lib \<Rightarrow> 'p ConsoleLogHandler \<Rightarrow> Call \<Rightarrow> printed list" where
  "handle_call A D h current_call =
     (if call_to current_call \<noteq> target_contract h then []
      else if length (call_input current_call) < 4 then []
      else
        let signature = take 4 (call_input current_call);
            message = (case signature_map h signature of
                None \<Rightarrow> ''Unknown log call.''
              | Some func \<Rightarrow>
                  (case decode_input A func (drop 4 (call_input current_call)) of
                     None \<Rightarrow> ''Failed to parse inputs for log.''
                   | Some tokens \<Rightarrow> join '' '' tokens))
        in [Line (paint D Cyan message)])"

fun handle_call_recursive :: "'p abi_lib \<Rightarrow> term_lib \<Rightarrow> 'p ConsoleLogHandler \<Rightarrow> Call \<Rightarrow> printed list"
  and handle_calls :: "'p abi_lib \<Rightarrow> term_lib \<Rightarrow> 'p ConsoleLogHandler \<Rightarrow> Call list \<Rightarrow> printed list" where
  "handle_call_recursive A D h (VmCall ty frm tgt gas used val inp out err why calls) =
     handle_call A D h (VmCall ty frm tgt gas used val inp out err why calls) @ handle_calls A D h calls"
| "handle_calls A D h [] = []"
| "handle_calls A D h (c # cs) = handle_call_recursive A D h c @ handle_calls A D h cs"

section \<open>The table is read\<close>

text \<open>The types that the declarations name.\<close>

definition basic_types :: "string list" where
  "basic_types = [''int256'', ''uint256'', ''string'', ''bool'', ''address'', ''bytes''] @
     map (\<lambda>n. ''bytes'' @ decimal n) [1..<33]"

definition declared_params :: "string \<Rightarrow> string list option" where
  "declared_params d =
     (case split_once (CHR ''('') (trim_end_matches (CHR '')'') d) of
        Some (name, params) \<Rightarrow> if name = ''log'' then Some (split_on (CHR '','') params) else None
      | None \<Rightarrow> None)"

definition well_declared :: "string list \<Rightarrow> string \<Rightarrow> bool" where
  "well_declared types d =
     (case declared_params d of Some ps \<Rightarrow> list_all (\<lambda>p. p \<in> set types) ps \<and> length ps \<le> 4 | None \<Rightarrow> False)"

lemma basic_types_code: "basic_types =
    [''int256'', ''uint256'', ''string'', ''bool'', ''address'', ''bytes'', ''bytes1'', ''bytes2'', ''bytes3'',
     ''bytes4'', ''bytes5'', ''bytes6'', ''bytes7'', ''bytes8'', ''bytes9'', ''bytes10'', ''bytes11'', ''bytes12'',
     ''bytes13'', ''bytes14'', ''bytes15'', ''bytes16'', ''bytes17'', ''bytes18'', ''bytes19'', ''bytes20'', ''bytes21'',
     ''bytes22'', ''bytes23'', ''bytes24'', ''bytes25'', ''bytes26'', ''bytes27'', ''bytes28'', ''bytes29'', ''bytes30'',
     ''bytes31'', ''bytes32'']"
  by code_simp

lemma well_declared_table:
  "list_all (well_declared basic_types) LOG_FUNCTIONS_1" "list_all (well_declared basic_types) LOG_FUNCTIONS_2"
  "list_all (well_declared basic_types) LOG_FUNCTIONS_3" "list_all (well_declared basic_types) LOG_FUNCTIONS_4_uint256"
  "list_all (well_declared basic_types) LOG_FUNCTIONS_4_string" "list_all (well_declared basic_types) LOG_FUNCTIONS_4_bool"
  "list_all (well_declared basic_types) LOG_FUNCTIONS_4_address"
  unfolding basic_types_code by code_simp+

lemma well_declared_all: "d \<in> set LOG_FUNCTIONS \<Longrightarrow> well_declared basic_types d"
  using well_declared_table by (auto simp: LOG_FUNCTIONS_def list_all_iff)

lemma length_LOG_FUNCTIONS: "length LOG_FUNCTIONS = 378"
  by code_simp

lemma read_params_Ok:
  assumes "\<And>p. p \<in> set ps \<Longrightarrow> read_type A p \<noteq> None"
  shows "\<exists>inputs. read_params A i ps = Ok inputs \<and> map param_internal_type inputs = ps \<and>
    map (\<lambda>q. Some (param_kind q)) inputs = map (read_type A) ps \<and>
    map param_name inputs = map (\<lambda>k. CHR ''p'' # decimal k) [i..<i + length ps]"
  using assms
proof (induction ps arbitrary: i)
  case (Cons p ps)
  obtain k where k: "read_type A p = Some k"
    using Cons.prems [of p] by auto
  obtain inputs where "read_params A (Suc i) ps = Ok inputs" "map param_internal_type inputs = ps"
      "map (\<lambda>q. Some (param_kind q)) inputs = map (read_type A) ps"
      "map param_name inputs = map (\<lambda>k. CHR ''p'' # decimal k) [Suc i..<Suc i + length ps]"
    using Cons.IH [of "Suc i"] Cons.prems by auto
  then show ?case
    using k by (simp add: upt_conv_Cons del: upt_Suc)
qed simp

text \<open>A function as its declaration says.\<close>

definition declares :: "'p abi_lib \<Rightarrow> string \<Rightarrow> 'p Function \<Rightarrow> bool" where
  "declares A d f \<longleftrightarrow> fn_name f = ''log'' \<and> declared_params d = Some (map param_internal_type (fn_inputs f)) \<and>
     map (\<lambda>q. Some (param_kind q)) (fn_inputs f) = map (read_type A) (map param_internal_type (fn_inputs f)) \<and>
     map param_name (fn_inputs f) = map (\<lambda>k. CHR ''p'' # decimal k) [0..<length (fn_inputs f)]"

lemma read_function_Ok:
  assumes "well_declared types d" and "\<And>p. p \<in> set types \<Longrightarrow> read_type A p \<noteq> None"
  shows "\<exists>f. read_function A d = Ok f \<and> declares A d f"
proof -
  obtain ps where s: "split_once (CHR ''('') (trim_end_matches (CHR '')'') d) = Some (''log'', ps)"
      and m: "\<And>p. p \<in> set (split_on (CHR '','') ps) \<Longrightarrow> p \<in> set types"
    using assms(1)
    by (auto simp: well_declared_def declared_params_def list_all_iff split: option.splits if_splits)
  obtain inputs where i: "read_params A 0 (split_on (CHR '','') ps) = Ok inputs"
      "map param_internal_type inputs = split_on (CHR '','') ps"
      "map (\<lambda>q. Some (param_kind q)) inputs = map (read_type A) (split_on (CHR '','') ps)"
      "map param_name inputs = map (\<lambda>k. CHR ''p'' # decimal k) [0..<length (split_on (CHR '','') ps)]"
    using read_params_Ok [of "split_on (CHR '','') ps" A 0] assms(2) m by auto
  have "length inputs = length (split_on (CHR '','') ps)"
    using arg_cong [OF i(2), of length] by simp
  then show ?thesis
    using s i by (simp add: read_function_def declares_def declared_params_def del: map_map)
qed

lemma read_functions_Ok:
  assumes "\<And>d. d \<in> set ds \<Longrightarrow> \<exists>f. read_function A d = Ok f \<and> declares A d f"
  shows "\<exists>fs. read_functions A ds = Ok fs \<and> list_all2 (declares A) ds fs"
  using assms
proof (induction ds)
  case (Cons d ds)
  obtain f where "read_function A d = Ok f" "declares A d f"
    using Cons.prems by auto
  moreover obtain fs where "read_functions A ds = Ok fs" "list_all2 (declares A) ds fs"
    using Cons by auto
  ultimately show ?case
    by simp
qed simp

text \<open>The table of console functions is read without a panic, as it is declared.\<close>

theorem log_functions_read:
  assumes "\<And>p. p \<in> set basic_types \<Longrightarrow> read_type A p \<noteq> None"
  shows "\<exists>fs. get_log_functions A = Ok fs \<and> list_all2 (declares A) LOG_FUNCTIONS fs \<and> length fs = 378"
proof -
  have "\<exists>fs. get_log_functions A = Ok fs \<and> list_all2 (declares A) LOG_FUNCTIONS fs"
    unfolding get_log_functions_def
    using read_function_Ok [OF well_declared_all assms] by (intro read_functions_Ok) blast
  then show ?thesis
    using length_LOG_FUNCTIONS by (metis list_all2_lengthD)
qed

definition example_abi :: "string abi_lib" where
  "example_abi = \<lparr>read_type = Some, short_signature = (\<lambda>f. [of_nat (length (fn_inputs f)), 0, 0, 0]),
     decode_input = (\<lambda>_ _. Some [''a'', ''b''])\<rparr>"

lemma log_functions_read_witness:
  "\<exists>fs. get_log_functions example_abi = Ok fs \<and> list_all2 (declares example_abi) LOG_FUNCTIONS fs \<and> length fs = 378"
  by (rule log_functions_read) (simp add: example_abi_def)

section \<open>What is printed\<close>

text \<open>The message of one call, and the calls that have one.\<close>

definition logs_message :: "'p ConsoleLogHandler \<Rightarrow> Call \<Rightarrow> bool" where
  "logs_message h c \<longleftrightarrow> call_to c = target_contract h \<and> 4 \<le> length (call_input c)"

definition log_message :: "'p abi_lib \<Rightarrow> 'p ConsoleLogHandler \<Rightarrow> Call \<Rightarrow> string" where
  "log_message A h c =
     (case signature_map h (take 4 (call_input c)) of
        None \<Rightarrow> ''Unknown log call.''
      | Some func \<Rightarrow>
          (case decode_input A func (drop 4 (call_input c)) of
             None \<Rightarrow> ''Failed to parse inputs for log.''
           | Some tokens \<Rightarrow> join '' '' tokens))"

lemma handle_call_message:
  "handle_call A D h c = (if logs_message h c then [Line (paint D Cyan (log_message A h c))] else [])"
  by (simp add: handle_call_def logs_message_def log_message_def Let_def)

text \<open>The handler prints one message for every call of the console, in the order of the calls.\<close>

theorem console_messages_exact:
  "handle_call_recursive A D h call =
     map (\<lambda>(d, c). Line (paint D Cyan (log_message A h c))) (filter (\<lambda>(d, c). logs_message h c) (call_tree 0 call))"
proof -
  have "handle_call_recursive A D h c =
      map (\<lambda>(d, c). Line (paint D Cyan (log_message A h c))) (filter (\<lambda>(d, c). logs_message h c) (call_tree k c))"
    "handle_calls A D h cs =
      map (\<lambda>(d, c). Line (paint D Cyan (log_message A h c))) (filter (\<lambda>(d, c). logs_message h c) (call_forest k cs))"
    for c cs k
    by (induction k c and k cs rule: call_tree_call_forest.induct) (simp_all add: handle_call_message)
  then show ?thesis
    by blast
qed

end
