(* ===== verification/RunOutput.thy ===== *)
theory RunOutput
  imports StorageLogs ConsoleLog InMemoryNode
begin

text \<open>
  What a run of a transaction prints after its summary (the middle of \<^verbatim>\<open>run_l2_tx_raw\<close> in
  \<^verbatim>\<open>src/.test-node-subtree/src/node/in_memory.rs\<close>): storage logs, the results of the machine, console messages, calls and
  events, each under its option. \<^verbatim>\<open>InMemoryNode\<close> leaves this out of its model of the run; the theorem here says that it
  cannot fail while no names are asked for.
\<close>

definition call_traces_line :: "term_lib \<Rightarrow> Call list \<Rightarrow> string" where
  "call_traces_line D call_traces =
     (let call_traces_count = (if call_traces \<noteq> [] then length (call_calls (hd call_traces)) else 0)
      in ''==== '' @ paint D Bold (decimal call_traces_count @ '' call traces. '') @
         '' Use --show-calls flag or call config_setShowCalls to display more info.'')"

definition print_run ::
  "world \<Rightarrow> pubdata_lib \<Rightarrow> 'p abi_lib \<Rightarrow> 'p ConsoleLogHandler \<Rightarrow> InMemoryNodeInner \<Rightarrow> u32 \<Rightarrow> nat \<Rightarrow>
   VmExecutionResultAndLogs \<Rightarrow> Call list \<Rightarrow> unit printer" where
  "print_run W B A h n cycles_used contracts_used tx_result call_traces =
     (let D = terminal W in
      prt_bind (if show_storage_logs n \<noteq> ShowStorageNone
                then prt (print_storage_logs_details B D (show_storage_logs n) tx_result) else prt_return ()) (\<lambda>_.
      prt_bind (if show_vm_details n \<noteq> ShowVMNone
                then prt (print_vm_details D cycles_used contracts_used tx_result) else prt_return ()) (\<lambda>_.
      prt_bind (info []) (\<lambda>_.
      prt_bind (info ''==== Console logs: '') (\<lambda>_.
      prt_bind (prt_each (\<lambda>call. prt (handle_call_recursive A D h call)) call_traces) (\<lambda>_.
      prt_bind (info []) (\<lambda>_.
      prt_bind (info (call_traces_line D call_traces)) (\<lambda>_.
      prt_bind (if show_calls n \<noteq> ShowCallsNone
                then prt_each (\<lambda>call. print_call W call 0 (show_calls n) (resolve_hashes n)) call_traces
                else prt_return ()) (\<lambda>_.
      prt_bind (info []) (\<lambda>_.
      prt_bind (info (''==== '' @ paint D Bold (decimal (length (vr_events tx_result)) @ '' events''))) (\<lambda>_.
      prt_each (\<lambda>event. print_event W event (resolve_hashes n)) (vr_events tx_result))))))))))))"

section \<open>The lines\<close>

definition run_lines ::
  "term_lib \<Rightarrow> pubdata_lib \<Rightarrow> 'p abi_lib \<Rightarrow> 'p ConsoleLogHandler \<Rightarrow> InMemoryNodeInner \<Rightarrow> u32 \<Rightarrow> nat \<Rightarrow>
   VmExecutionResultAndLogs \<Rightarrow> Call list \<Rightarrow> printed list" where
  "run_lines D B A h n cycles_used contracts_used r traces =
     (if show_storage_logs n = ShowStorageNone then [] else print_storage_logs_details B D (show_storage_logs n) r) @
     (if show_vm_details n = ShowVMNone then [] else print_vm_details D cycles_used contracts_used r) @
     [Line [], Line ''==== Console logs: ''] @
     concat (map (handle_call_recursive A D h) traces) @
     [Line [], Line (call_traces_line D traces)] @
     (if show_calls n = ShowCallsNone then []
      else concat (map (\<lambda>call. plain_lines D (show_calls n) 0 (call_tree 0 call)) traces)) @
     [Line [], Line (''==== '' @ paint D Bold (decimal (length (vr_events r)) @ '' events''))] @
     concat (map (\<lambda>event. event_lines D event (map (hex_topic D) (ev_indexed_topics event))) (vr_events r))"

lemma print_event_plain:
  "only_prints (print_event W event False)
     (event_lines (terminal W) event (map (hex_topic (terminal W)) (ev_indexed_topics event)))"
  by (simp add: only_prints_def print_event_def prt_bind_def)

lemma only_prints_if [printing]:
  "only_prints m out \<Longrightarrow> only_prints (if c then m else prt_return ()) (if \<not> c then [] else out)"
  by (simp add: only_prints_intros)

text \<open>Without names, printing a run gives exactly these lines, does not panic, and asks nothing.\<close>

theorem printed_run_exact:
  "print_run W B A h (n\<lparr>resolve_hashes := False\<rparr>) cycles_used contracts_used result traces s =
     (run_lines (terminal W) B A h n cycles_used contracts_used result traces, Some (), s)"
proof -
  let ?D = "terminal W" and ?n = "n\<lparr>resolve_hashes := False\<rparr>"
  have options: "show_storage_logs ?n = show_storage_logs n" "show_vm_details ?n = show_vm_details n"
    "show_calls ?n = show_calls n" "resolve_hashes ?n = False"
    by simp_all
  have "only_prints (print_run W B A h (n\<lparr>resolve_hashes := False\<rparr>) cycles_used contracts_used result traces)
      ((if \<not> show_storage_logs n \<noteq> ShowStorageNone then [] else print_storage_logs_details B ?D (show_storage_logs n) result) @
       (if \<not> show_vm_details n \<noteq> ShowVMNone then [] else print_vm_details ?D cycles_used contracts_used result) @
       [Line []] @ [Line ''==== Console logs: ''] @
       concat (map (handle_call_recursive A ?D h) traces) @
       [Line []] @ [Line (call_traces_line ?D traces)] @
       (if \<not> show_calls n \<noteq> ShowCallsNone then []
        else concat (map (\<lambda>call. plain_lines ?D (show_calls n) 0 (call_tree 0 call)) traces)) @
       [Line []] @ [Line (''==== '' @ paint ?D Bold (decimal (length (vr_events result)) @ '' events''))] @
       concat (map (\<lambda>event. event_lines ?D event (map (hex_topic ?D) (ev_indexed_topics event))) (vr_events result)))"
    unfolding print_run_def Let_def options
    by (intro printing only_prints_each print_event_plain print_call_plain(1)) simp
  then show ?thesis
    by (simp add: only_prints_def run_lines_def)
qed

end
