(* ===== verification/Server.thy ===== *)
theory Server
  imports Formatter Cache NodeExt
begin

text \<open>
  The start of the program (\<^verbatim>\<open>src/.test-node-subtree/src/main.rs\<close>) from the parsed command line to the node that is
  served, the tables of rich wallets, the subscriber of \<^verbatim>\<open>observability.rs\<close>, and the request logger
  (\<^verbatim>\<open>logging_middleware.rs\<close>). The parser of the command line, the HTTP server and the network are outside: the record
  \<^verbatim>\<open>host\<close> holds what the start asks of them.
\<close>

section \<open>The wallets\<close>

definition LEGACY_RICH_WALLETS :: "(string \<times> string) list" where
  "LEGACY_RICH_WALLETS =
    [(''0x36615Cf349d7F6344891B1e7CA7C72883F5dc049'',
       ''0x7726827caac94a7f9e1b160f7ea819f172f7b6f9d2a97f992c38edeab82d4110''),
     (''0xa61464658AfeAf65CccaaFD3a512b69A83B77618'',
       ''0xac1e735be8536c6534bb4f17f06f6afc73b2b5ba84ac2cfb12f7461b20c0bbe3''),
     (''0x0D43eB5B8a47bA8900d84AA36656c92024e9772e'',
       ''0xd293c684d884d56f8d6abd64fc76757d3664904e309a0645baf8522ab6366d9e''),
     (''0xA13c10C0D5bd6f79041B9835c63f91de35A15883'',
       ''0x850683b40d4a740aa6e745f889a6fdc8327be76e122f5aba645a5b02d0248db8''),
     (''0x8002cD98Cfb563492A6fB3E7C8243b7B9Ad4cc92'',
       ''0xf12e28c0eb1ef4ff90478f6805b68d63737b7f33abfa091601140805da450d93''),
     (''0x4F9133D1d3F50011A6859807C837bdCB31Aaab13'',
       ''0xe667e57a9b8aaa6709e51ff7d093f1c5b73b63f9987e4ab4aa9a5c699e024ee8''),
     (''0xbd29A1B981925B94eEc5c4F1125AF02a2Ec4d1cA'',
       ''0x28a574ab2de8a00364d5dd4b07c4f2f574ef7fcc2a86a197f65abaec836d1959''),
     (''0xedB6F5B4aab3dD95C7806Af42881FF12BE7e9daa'',
       ''0x74d8b3a188f7260f67698eb44da07397a298df5427df681ef68c45b34b61f998''),
     (''0xe706e60ab5Dc512C36A4646D719b889F398cbBcB'',
       ''0xbe79721778b48bcc679b78edac0ce48306a8578186ffcb9f2ee455ae6efeace1''),
     (''0xE90E12261CCb0F3F7976Ae611A29e84a6A85f424'',
       ''0x3eb15da85647edd9a1159a4a13b9e7c56877c4eb33f614546d4db06a51868b1c'')]"

definition RICH_WALLETS :: "(string \<times> string \<times> string) list" where
  "RICH_WALLETS =
    [(''0xBC989fDe9e54cAd2aB4392Af6dF60f04873A033A'',
       ''0x3d3cbc973389cb26f657686445bcc75662b415b656078503592ac8c1abb8810e'',
       ''mass wild lava ripple clog cabbage witness shell unable tribe rubber enter''),
     (''0x55bE1B079b53962746B2e86d12f158a41DF294A6'',
       ''0x509ca2e9e6acf0ba086477910950125e698d4ea70fa6f63e000c5a22bda9361c'',
       ''crumble clutch mammal lecture lazy broken nominee visit gentle gather gym erupt''),
     (''0xCE9e6063674DC585F6F3c7eaBe82B9936143Ba6C'',
       ''0x71781d3a358e7a65150e894264ccc594993fbc0ea12d69508a340bc1d4f5bfbc'',
       ''illegal okay stereo tattoo between alien road nuclear blind wolf champion regular''),
     (''0xd986b0cB0D1Ad4CCCF0C4947554003fC0Be548E9'',
       ''0x379d31d4a7031ead87397f332aab69ef5cd843ba3898249ca1046633c0c7eefe'',
       ''point donor practice wear alien abandon frozen glow they practice raven shiver''),
     (''0x87d6ab9fE5Adef46228fB490810f0F5CB16D6d04'',
       ''0x105de4e75fe465d075e1daae5647a02e3aad54b8d23cf1f70ba382b9f9bee839'',
       ''giraffe organ club limb install nest journey client chunk settle slush copy''),
     (''0x78cAD996530109838eb016619f5931a03250489A'',
       ''0x7becc4a46e0c3b512d380ca73a4c868f790d1055a7698f38fb3ca2b2ac97efbb'',
       ''awful organ version habit giraffe amused wire table begin gym pistol clean''),
     (''0xc981b213603171963F81C687B9fC880d33CaeD16'',
       ''0xe0415469c10f3b1142ce0262497fe5c7a0795f0cbfd466a6bfa31968d0f70841'',
       ''exotic someone fall kitten salute nerve chimney enlist pair display over inside''),
     (''0x42F3dc38Da81e984B92A95CBdAAA5fA2bd5cb1Ba'',
       ''0x4d91647d0a8429ac4433c83254fb9625332693c848e578062fe96362f32bfe91'',
       ''catch tragic rib twelve buffalo also gorilla toward cost enforce artefact slab''),
     (''0x64F47EeD3dC749d13e49291d46Ea8378755fB6DF'',
       ''0x41c9f9518aa07b50cb1c0cc160d45547f57638dd824a8d85b5eb3bf99ed2bdeb'',
       ''arrange price fragile dinner device general vital excite penalty monkey major faculty''),
     (''0xe2b8Cb53a43a56d4d2AB6131C81Bd76B86D3AFe5'',
       ''0xb0680d66303a0163a19294f1ef8c95cd69a9d7902a4aca99c05f3e134e68a11a'',
       ''increase pulp sing wood guilt cement satoshi tiny forum nuclear sudden thank'')]"

section \<open>The command line\<close>

datatype CacheType = CacheNone | CacheMemory | CacheDisk

datatype DevSystemContracts = DevBuiltIn | DevBuiltInNoVerify | DevLocal

record ForkArgs =
  fork_args_network :: string
  fork_args_fork_at :: "u64 option"

record ReplayArgs =
  replay_network :: string
  replay_tx_hash :: h256

datatype Command = RunCommand | ForkCommand ForkArgs | ReplayTx ReplayArgs

record Cli =
  cli_command :: Command
  cli_port :: u16
  cli_show_calls :: ShowCalls
  cli_show_storage_logs :: ShowStorageLogs
  cli_show_vm_details :: ShowVMDetails
  cli_show_gas_details :: ShowGasDetails
  cli_resolve_hashes :: bool
  cli_dev_system_contracts :: DevSystemContracts
  cli_log :: LogLevel
  cli_log_file_path :: string
  cli_cache :: CacheType
  cli_reset_cache :: bool
  cli_cache_dir :: string

text \<open>\<^verbatim>\<open>create_file\<close> says whether \<^verbatim>\<open>File::create\<close> succeeds, \<^verbatim>\<open>parse_directive\<close> is that of the log filter and
  \<^verbatim>\<open>parse_address\<close> is \<^verbatim>\<open>H160::from_str\<close>.\<close>

record host =
  create_file :: "string \<Rightarrow> bool"
  parse_directive :: "string \<Rightarrow> string option"
  http_source :: "CacheConfig \<Rightarrow> string \<Rightarrow> ForkSource"
  http_client :: "string \<Rightarrow> ForkSource"
  latest_block :: "string \<Rightarrow> u64 option"
  valid_chain :: "u64 \<Rightarrow> bool"
  raw_tx_hash :: "RawTransaction \<Rightarrow> h256"
  genesis_storage :: "Options \<Rightarrow> u64 \<Rightarrow> InMemoryStorage"
  compiled_contracts :: contract_sources
  parse_address :: "string \<Rightarrow> address option"

section \<open>The start\<close>

text \<open>The handle of the log filter, with the filter for the chosen level.\<close>

definition Observability_init ::
  "(string \<Rightarrow> 'f option) \<Rightarrow> string \<Rightarrow> LogLevel \<Rightarrow> (string, 'f Observability) rust" where
  "Observability_init parse name log_level_filter =
     (case parse_filter parse (name @ ''='' @ to_lowercase (print_log_level log_level_filter)) of
        None \<Rightarrow> Err ''invalid directive''
      | Some flt \<Rightarrow> Ok \<lparr>binary_name = name, reload_handle = Some flt\<rparr>)"

definition cli_cache_config :: "Cli \<Rightarrow> CacheConfig" where
  "cli_cache_config opt =
     (case cli_cache opt of
        CacheNone \<Rightarrow> NoCache
      | CacheMemory \<Rightarrow> Memory
      | CacheDisk \<Rightarrow> Disk (cli_cache_dir opt) (cli_reset_cache opt))"

definition fork_details :: "host \<Rightarrow> Cli \<Rightarrow> (string, ForkDetails option) rust" where
  "fork_details H opt =
     (case cli_command opt of
        RunCommand \<Rightarrow> Ok None
      | ForkCommand args \<Rightarrow>
          rust_bind (from_network (http_source H (cli_cache_config opt)) (http_client H) (latest_block H)
                       (fork_args_network args) (fork_args_fork_at args))
            (\<lambda>details. Ok (Some details))
      | ReplayTx replay_tx \<Rightarrow>
          rust_bind (from_network_tx (http_source H (cli_cache_config opt)) (http_client H) (valid_chain H)
                       (replay_network replay_tx) (replay_tx_hash replay_tx))
            (\<lambda>details. Ok (Some details)))"

definition transactions_to_replay :: "host \<Rightarrow> Cli \<Rightarrow> ForkDetails option \<Rightarrow> (string, L2Tx list) rust" where
  "transactions_to_replay H opt details =
     (case cli_command opt of
        ReplayTx replay_tx \<Rightarrow>
          (case details of
             None \<Rightarrow> Panic
           | Some d \<Rightarrow> get_earlier_transactions_in_same_block (raw_tx_hash H) d (replay_tx_hash replay_tx))
      | _ \<Rightarrow> Ok [])"

definition cli_system_contracts_options :: "Cli \<Rightarrow> Options" where
  "cli_system_contracts_options opt =
     (case cli_dev_system_contracts opt of
        DevBuiltIn \<Rightarrow> BuiltIn
      | DevBuiltInNoVerify \<Rightarrow> BuiltInWithoutSecurity
      | DevLocal \<Rightarrow> Local)"

definition make_rich :: "lib \<Rightarrow> host \<Rightarrow> string \<Rightarrow> (InMemoryNode, string, unit) op" where
  "make_rich L H address =
     (case parse_address H address of None \<Rightarrow> op_fail Panic | Some a \<Rightarrow> set_rich_account L a)"

definition wallet_lines :: "term_lib \<Rightarrow> printed list" where
  "wallet_lines D =
     [Line [], Line ''Rich Accounts'', Line ''=============''] @
     concat (map (\<lambda>(index, address, private_key, mnemonic_phrase).
       [Line (''Account #'' @ decimal index @ '': '' @ address @ '' ('' @ paint D Cyan ''1_000_000_000_000 ETH'' @ '')''),
        Line (''Private Key: '' @ private_key),
        Line (''Mnemonic: '' @ paint D Grey mnemonic_phrase),
        Line []]) (enumerate 0 RICH_WALLETS))"

definition ready_lines :: "u16 \<Rightarrow> printed list" where
  "ready_lines port =
     [Line ''========================================'',
      Line (''  Node is ready at 127.0.0.1:'' @ decimal (unat port)),
      Line ''========================================'']"

text \<open>The node that is served, and what is printed until then of the wallets and the port.\<close>

definition main :: "lib \<Rightarrow> 'vm vm_api \<Rightarrow> term_lib \<Rightarrow> host \<Rightarrow> Cli \<Rightarrow> (string, InMemoryNode \<times> printed list) rust" where
  "main L V D H opt =
     (if \<not> create_file H (cli_log_file_path opt) then Err ''log file''
      else
        rust_bind (Observability_init (parse_directive H) ''era_test_node'' (cli_log opt)) (\<lambda>observability.
        rust_bind (fork_details H opt) (\<lambda>details.
        rust_bind (transactions_to_replay H opt details) (\<lambda>txs.
        let node = InMemoryNode_new L (genesis_storage H) (compiled_contracts H) details (Some observability)
              \<lparr>cfg_show_calls = cli_show_calls opt, cfg_show_storage_logs = cli_show_storage_logs opt,
               cfg_show_vm_details = cli_show_vm_details opt, cfg_show_gas_details = cli_show_gas_details opt,
               cfg_resolve_hashes = cli_resolve_hashes opt,
               cfg_system_contracts_options = cli_system_contracts_options opt\<rparr>
        in case (if txs \<noteq> [] then apply_txs L V txs node else (Ok (), node)) of
             (Panic, _) \<Rightarrow> Panic
           | (_, node) \<Rightarrow>
               (case op_bind (op_list (\<lambda>wallet. make_rich L H (fst wallet)) LEGACY_RICH_WALLETS)
                       (\<lambda>_. op_list (\<lambda>wallet. make_rich L H (fst wallet)) RICH_WALLETS) node of
                  (Ok _, node) \<Rightarrow> Ok (node, wallet_lines D @ ready_lines (cli_port opt))
                | (Err e, _) \<Rightarrow> Err e
                | (Panic, _) \<Rightarrow> Panic)))))"

section \<open>The served node\<close>

text \<open>What the wallets rely on: the lock is free, the storage is healthy, and the wallets so far are rich.\<close>

definition rich_node :: "lib \<Rightarrow> address set \<Rightarrow> InMemoryNode \<Rightarrow> bool" where
  "rich_node L A node \<longleftrightarrow>
     \<not> lock_poisoned (node_inner node) \<and> fork_healthy (node_storage (lock_value (node_inner node))) \<and>
     rich_accounts (lock_value (node_inner node)) = A \<and>
     (\<forall>a \<in> A. fork_val (node_storage (lock_value (node_inner node))) (storage_key_for_eth_balance L a) = Some (10 ^ 30))"

lemma set_value_new_view:
  assumes "fork_healthy s"
    and "act_bind (set_value (storage_view fork_storage) k x) (\<lambda>_. take_modified) (StorageView_new s) = (Some keys, v)"
  shows "keys = [(k, x)]" and "fork_healthy (storage_handle v)" and "fork_val (storage_handle v) = fork_val s"
proof -
  have "by_accesses (act_bind (set_value (storage_view fork_storage) k x) (\<lambda>_. take_modified))"
    by (intro by_accesses_bind by_accesses_write by_accesses_modified)
  note f = by_accesses_frame [OF this assms(2) view_inv_new [of fork_healthy, OF assms(1)]]
  show "fork_healthy (storage_handle v)" "fork_val (storage_handle v) = fork_val s"
    using f by (simp_all add: StorageView_new_def)
  show "keys = [(k, x)]"
    using assms(2)
    by (auto simp: act_bind_def take_modified_def storage_view_def view_set_value_def view_modified_storage_keys_def
        get_value_no_log_def StorageView_new_def split: prod.splits option.splits)
qed

lemma fork_val_set:
  "v \<noteq> 0 \<Longrightarrow> fork_val (update_raw (mem_set_value k v) s) k' = (if k' = k then Some v else fork_val s k')"
  by (simp add: fork_val_update_state mem_set_value_def) (simp add: fork_val_def local_value_def Let_def)

lemma set_rich_account_rich:
  assumes "rich_node L A node" and "set_rich_account L a node = (Ok (), node')"
  shows "rich_node L (insert a A) node'"
proof -
  let ?n = "lock_value (node_inner node)" and ?k = "storage_key_for_eth_balance L a"
  let ?act = "act_bind (set_value (storage_view fork_storage) ?k (10 ^ 30)) (\<lambda>_. take_modified)"
  note r = assms(1) [unfolded rich_node_def]
  obtain res v where res: "?act (StorageView_new (node_storage ?n)) = (res, v)"
    by fastforce
  show ?thesis
  proof (cases res)
    case None
    then have "set_rich_account L a node = (Panic, snd (set_rich_account L a node))"
      using r res
      by (simp add: set_rich_account_def with_inner_def with_write_def view_op_def op_bind_def Let_def)
    then show ?thesis
      using assms(2) by simp
  next
    case (Some keys)
    note v = set_value_new_view [OF _ res [unfolded Some]]
    have k: "keys = [(?k, 10 ^ 30)]" "fork_healthy (storage_handle v)" "fork_val (storage_handle v) = fork_val (node_storage ?n)"
      using v r by blast+
    let ?s = "update_raw (mem_set_value ?k (10 ^ 30)) (storage_handle v)"
    have "write_all keys (storage_handle v) = (Some (), ?s)"
      using write_all_run [OF k(2)] by (simp add: k(1))
    then have node': "lock_value (node_inner node') = ?n\<lparr>node_storage := ?s, rich_accounts := insert a (rich_accounts ?n)\<rparr>"
        "\<not> lock_poisoned (node_inner node')"
      using r res Some assms(2)
      by (auto simp: set_rich_account_def with_inner_def with_write_def view_op_def storage_op_def op_bind_def Let_def)
    have "fork_val ?s k = (if k = ?k then Some (10 ^ 30) else fork_val (storage_handle v) k)" for k
      by (rule fork_val_set) simp
    then show ?thesis
      using node' r k(2,3) by (auto simp: rich_node_def)
  qed
qed

lemma make_rich_list:
  assumes "rich_node L A node" and "op_list (\<lambda>w. make_rich L H (f w)) ws node = (Ok (), node')"
  shows "rich_node L ({a. \<exists>w \<in> set ws. parse_address H (f w) = Some a} \<union> A) node'"
  using assms
proof (induction ws arbitrary: A node)
  case (Cons w ws)
  obtain a where a: "parse_address H (f w) = Some a"
    using Cons.prems(2) by (cases "parse_address H (f w)") (auto simp: make_rich_def op_bind_def)
  obtain res node1 where s: "set_rich_account L a node = (res, node1)"
    by fastforce
  then have res: "res = Ok ()" and rest: "op_list (\<lambda>w. make_rich L H (f w)) ws node1 = (Ok (), node')"
    using Cons.prems(2) a by (cases res; simp add: make_rich_def op_bind_def)+
  have "rich_node L ({a. \<exists>w \<in> set ws. parse_address H (f w) = Some a} \<union> insert a A) node'"
    using Cons.IH [OF set_rich_account_rich [OF Cons.prems(1) s [unfolded res]] rest] .
  moreover have "{a. \<exists>w \<in> set ws. parse_address H (f w) = Some a} \<union> insert a A =
      {a. \<exists>w \<in> set (w # ws). parse_address H (f w) = Some a} \<union> A"
    using a by auto
  ultimately show ?case
    by simp
qed simp

lemma rich_node_new: "rich_node L {} (InMemoryNode_new L genesis src details obs cfg)"
  by (simp add: rich_node_def InMemoryNode_new_def Let_def split: option.split)

definition rich_addresses :: "string list" where
  "rich_addresses = map fst LEGACY_RICH_WALLETS @ map fst RICH_WALLETS"

text \<open>C26: A start that replays no transaction and succeeds leaves a node whose lock is not poisoned, whose rich accounts
  are exactly those of the two tables, and in whose storage each of them has the balance of a rich account.\<close>

theorem startup_wallets:
  assumes "main L V D H opt = Ok (node, lines)" and "\<forall>r. cli_command opt \<noteq> ReplayTx r"
  shows "\<not> lock_poisoned (node_inner node) \<and>
    rich_accounts (lock_value (node_inner node)) = {a. \<exists>w \<in> set rich_addresses. parse_address H w = Some a} \<and>
    (\<forall>a \<in> rich_accounts (lock_value (node_inner node)).
      fork_val (node_storage (lock_value (node_inner node))) (storage_key_for_eth_balance L a) = Some (10 ^ 30))"
proof -
  obtain details obs cfg node0 where new: "node0 = InMemoryNode_new L (genesis_storage H) (compiled_contracts H) details obs cfg"
    and wallets: "op_bind (op_list (\<lambda>wallet. make_rich L H (fst wallet)) LEGACY_RICH_WALLETS)
        (\<lambda>_. op_list (\<lambda>wallet. make_rich L H (fst wallet)) RICH_WALLETS) node0 = (Ok (), node)"
    using assms by (fastforce simp: main_def transactions_to_replay_def rust_bind_eq_Ok Let_def
        split: if_splits Command.splits prod.splits rust.splits)
  obtain node1 where l: "op_list (\<lambda>wallet. make_rich L H (fst wallet)) LEGACY_RICH_WALLETS node0 = (Ok (), node1)"
      and r: "op_list (\<lambda>wallet. make_rich L H (fst wallet)) RICH_WALLETS node1 = (Ok (), node)"
    using wallets by (cases "op_list (\<lambda>wallet. make_rich L H (fst wallet)) LEGACY_RICH_WALLETS node0") (auto simp: op_bind_def split: rust.splits)
  have "rich_node L {} node0"
    unfolding new by (rule rich_node_new)
  from make_rich_list [where f = fst, OF make_rich_list [where f = fst, OF this l] r]
  have "rich_node L ({a. \<exists>w \<in> set RICH_WALLETS. parse_address H (fst w) = Some a} \<union>
      ({a. \<exists>w \<in> set LEGACY_RICH_WALLETS. parse_address H (fst w) = Some a} \<union> {})) node" .
  moreover have "{a. \<exists>w \<in> set RICH_WALLETS. parse_address H (fst w) = Some a} \<union>
      ({a. \<exists>w \<in> set LEGACY_RICH_WALLETS. parse_address H (fst w) = Some a} \<union> {}) =
      {a. \<exists>w \<in> set rich_addresses. parse_address H w = Some a}"
    by (auto simp: rich_addresses_def)
  ultimately show ?thesis
    by (auto simp: rich_node_def)
qed

text \<open>Without a fork every slot has a value, so the wallets are always set.\<close>

definition all_readable :: "InMemoryNode \<Rightarrow> bool" where
  "all_readable node \<longleftrightarrow> (\<forall>k. fork_val (node_storage (lock_value (node_inner node))) k \<noteq> None)"

lemma set_rich_account_total:
  assumes "rich_node L A node" and "all_readable node"
  shows "\<exists>node'. set_rich_account L a node = (Ok (), node') \<and> all_readable node'"
proof -
  let ?n = "lock_value (node_inner node)" and ?k = "storage_key_for_eth_balance L a"
  let ?act = "act_bind (set_value (storage_view fork_storage) ?k (10 ^ 30)) (\<lambda>_. take_modified)"
  note r = assms(1) [unfolded rich_node_def]
  obtain x where x: "fork_val (node_storage ?n) ?k = Some x"
    using assms(2) unfolding all_readable_def by (meson not_None_eq)
  obtain s' where "read_value fork_storage ?k (node_storage ?n) = (Some x, s')"
    using locked_read_healthy [OF _ x] r by blast
  then obtain v where v: "?act (StorageView_new (node_storage ?n)) = (Some [(?k, 10 ^ 30)], v)"
    by (simp add: act_bind_def take_modified_def storage_view_def view_set_value_def view_modified_storage_keys_def
        get_value_no_log_def StorageView_new_def)
  have h: "fork_healthy (storage_handle v)" "fork_val (storage_handle v) = fork_val (node_storage ?n)"
    using set_value_new_view [OF _ v] r by blast+
  let ?s = "update_raw (mem_set_value ?k (10 ^ 30)) (storage_handle v)"
  have "write_all [(?k, 10 ^ 30)] (storage_handle v) = (Some (), ?s)"
    using write_all_run [OF h(1), of "[(?k, 10 ^ 30)]"] by simp
  then have "set_rich_account L a node =
      (Ok (), node\<lparr>node_inner := (node_inner node)\<lparr>lock_value :=
        ?n\<lparr>node_storage := ?s, rich_accounts := insert a (rich_accounts ?n)\<rparr>, lock_poisoned := False\<rparr>\<rparr>)"
    using r v
    by (simp add: set_rich_account_def with_inner_def with_write_def view_op_def storage_op_def op_bind_def Let_def
        del: write_all.simps)
  moreover have "fork_val ?s k \<noteq> None" for k
    using assms(2) by (cases k) (simp add: fork_val_set h(2) all_readable_def)
  ultimately show ?thesis
    by (simp add: all_readable_def)
qed

lemma make_rich_total:
  assumes "rich_node L A node" and "all_readable node" and "\<And>w. w \<in> set ws \<Longrightarrow> parse_address H (f w) \<noteq> None"
  shows "\<exists>node'. op_list (\<lambda>w. make_rich L H (f w)) ws node = (Ok (), node') \<and> all_readable node'"
  using assms
proof (induction ws arbitrary: A node)
  case (Cons w ws)
  obtain a where a: "parse_address H (f w) = Some a"
    using Cons.prems(3) [of w] by auto
  obtain node1 where s: "set_rich_account L a node = (Ok (), node1)" "all_readable node1"
    using set_rich_account_total [OF Cons.prems(1,2)] by blast
  have "\<exists>node'. op_list (\<lambda>w. make_rich L H (f w)) ws node1 = (Ok (), node') \<and> all_readable node'"
    using Cons.IH [OF set_rich_account_rich [OF Cons.prems(1) s(1)] s(2)] Cons.prems(3) by simp
  then show ?case
    using a s by (simp add: make_rich_def)
qed simp

text \<open>An empty network always starts.\<close>

lemma run_starts:
  assumes "create_file H (cli_log_file_path opt)" and "cli_command opt = RunCommand"
    and "Observability_init (parse_directive H) ''era_test_node'' (cli_log opt) = Ok obs"
    and "\<And>w. w \<in> set rich_addresses \<Longrightarrow> parse_address H w \<noteq> None"
  shows "\<exists>node. main L V D H opt = Ok (node, wallet_lines D @ ready_lines (cli_port opt))"
proof -
  let ?cfg = "\<lparr>cfg_show_calls = cli_show_calls opt, cfg_show_storage_logs = cli_show_storage_logs opt,
      cfg_show_vm_details = cli_show_vm_details opt, cfg_show_gas_details = cli_show_gas_details opt,
      cfg_resolve_hashes = cli_resolve_hashes opt, cfg_system_contracts_options = cli_system_contracts_options opt\<rparr>"
  let ?node = "InMemoryNode_new L (genesis_storage H) (compiled_contracts H) None (Some obs) ?cfg"
  have readable: "all_readable ?node"
    by (simp add: all_readable_def InMemoryNode_new_def ForkStorage_new_def fork_val_def remote_value_def Let_def)
  have parsed: "parse_address H (fst w) \<noteq> None" if "w \<in> set LEGACY_RICH_WALLETS" for w
    using assms(4) that by (simp add: rich_addresses_def)
  obtain node1 where n1: "op_list (\<lambda>w. make_rich L H (fst w)) LEGACY_RICH_WALLETS ?node = (Ok (), node1)"
      "all_readable node1"
    using make_rich_total [where f = fst, OF rich_node_new readable parsed] by blast
  have parsed': "parse_address H (fst w) \<noteq> None" if "w \<in> set RICH_WALLETS" for w
    using assms(4) that by (simp add: rich_addresses_def)
  obtain node2 where n2: "op_list (\<lambda>w. make_rich L H (fst w)) RICH_WALLETS node1 = (Ok (), node2)"
    using make_rich_total [where f = fst, OF make_rich_list [where f = fst, OF rich_node_new n1(1)] n1(2) parsed'] by blast
  show ?thesis
    using assms(1-3) n1(1) n2
    by (simp add: main_def fork_details_def transactions_to_replay_def Let_def)
qed

definition example_host :: host where
  "example_host =
     \<lparr>create_file = (\<lambda>_. True), parse_directive = Some, http_source = (\<lambda>_ _. constant_source 0),
      http_client = (\<lambda>_. constant_source 0), latest_block = (\<lambda>_. None), valid_chain = (\<lambda>_. True),
      raw_tx_hash = (\<lambda>_. 0), genesis_storage = (\<lambda>_. empty_genesis), compiled_contracts = example_sources,
      parse_address = (\<lambda>w. Some (of_nat (length w)))\<rparr>"

definition example_cli :: Cli where
  "example_cli =
     \<lparr>cli_command = RunCommand, cli_port = 8011, cli_show_calls = ShowCallsNone, cli_show_storage_logs = ShowStorageNone,
      cli_show_vm_details = ShowVMNone, cli_show_gas_details = ShowGasNone, cli_resolve_hashes = False,
      cli_dev_system_contracts = DevBuiltIn, cli_log = Info, cli_log_file_path = ''era_test_node.log'',
      cli_cache = CacheDisk, cli_reset_cache = False, cli_cache_dir = ''.cache''\<rparr>"

lemma startup_wallets_witness:
  "\<exists>node. main example_lib (example_vm 0 (Success [])) example_terminal example_host example_cli =
      Ok (node, wallet_lines example_terminal @ ready_lines 8011) \<and>
    rich_accounts (lock_value (node_inner node)) = {a. \<exists>w \<in> set rich_addresses. parse_address example_host w = Some a}"
proof -
  have "\<exists>node. main example_lib (example_vm 0 (Success [])) example_terminal example_host example_cli =
      Ok (node, wallet_lines example_terminal @ ready_lines (cli_port example_cli))"
  proof (rule run_starts)
    show "Observability_init (parse_directive example_host) ''era_test_node'' (cli_log example_cli) =
        Ok \<lparr>binary_name = ''era_test_node'', reload_handle = Some [''era_test_node=info'']\<rparr>"
      by code_simp
  qed (simp_all add: example_host_def example_cli_def)
  then obtain node where node: "main example_lib (example_vm 0 (Success [])) example_terminal example_host example_cli =
      Ok (node, wallet_lines example_terminal @ ready_lines (cli_port example_cli))"
    by blast
  have "\<forall>r. cli_command example_cli \<noteq> ReplayTx r"
    by (simp add: example_cli_def)
  from startup_wallets [OF node this] show ?thesis
    using node by (simp add: example_cli_def)
qed

section \<open>The request logger\<close>

text \<open>A method call with its parameters, as their texts; the other requests, and the other forms of parameters, are not
  told apart.\<close>

datatype Params = ArrayParams "string list" | OtherParams

datatype 'q Request = MethodCall string Params 'q | OtherRequest 'q

datatype LevelFilter = LevelOff | LevelOf LogLevel

definition full_params :: "string list \<Rightarrow> string" where
  "full_params values = (if values = [] then [] else ''with ['' @ join '', '' values @ '']'')"

definition truncated :: "string \<Rightarrow> string" where
  "truncated s = (if length s > 70 then take 67 s @ ''...'' else s)"

text \<open>The level of a line, and the line. Texts are taken as ASCII: the code compares bytes and cuts characters.\<close>

definition request_line :: "term_lib \<Rightarrow> LevelFilter \<Rightarrow> 'q Request \<Rightarrow> (LogLevel \<times> string) option" where
  "request_line D level request =
     (case request of
        MethodCall method params _ \<Rightarrow>
          (if level = LevelOf Trace
           then Some (Trace, paint D Cyan method @ '' was called '' @
             (case params of ArrayParams values \<Rightarrow> full_params values | OtherParams \<Rightarrow> []))
           else Some (Debug, paint D Cyan method @ '' was called '' @
             (case params of ArrayParams values \<Rightarrow> full_params (map truncated values) | OtherParams \<Rightarrow> [])))
      | OtherRequest _ \<Rightarrow> None)"

text \<open>\<^verbatim>\<open>show_response\<close> is the \<^verbatim>\<open>Debug\<close> text of a response.\<close>

definition on_request ::
  "term_lib \<Rightarrow> ('r option \<Rightarrow> string) \<Rightarrow> LevelFilter \<Rightarrow> 'q Request \<Rightarrow> ('q Request \<Rightarrow> 'n \<Rightarrow> 'r option \<times> 'n) \<Rightarrow> 'n \<Rightarrow>
   (LogLevel \<times> string) list \<times> 'r option \<times> 'n" where
  "on_request D show_response level request next node =
     (case next request node of
        (res, node') \<Rightarrow>
          ((case request_line D level request of Some l \<Rightarrow> [l] | None \<Rightarrow> []) @
           [(Trace, ''API response => '' @ show_response res)], res, node'))"

text \<open>The logger changes neither the answer nor the node, and cuts every parameter to seventy characters.\<close>

lemma request_logger_transparent:
  "snd (on_request D show_response level request next node) = next request node \<and> length (truncated s) \<le> 70"
  by (auto simp: on_request_def truncated_def split: prod.split)

end
