(* ===== verification/BootloaderTests.thy ===== *)
theory BootloaderTests
  imports Formatter BootloaderDebug NodeTypes
begin

text \<open>
  The runner of the bootloader's unit tests
  (\<^verbatim>\<open>src/.test-node-subtree/etc/system-contracts/bootloader/test_infra/src/\<close>): the hooks by which a test talks to the
  machine (\<^verbatim>\<open>hook.rs\<close>), the tracer of a test (\<^verbatim>\<open>tracer.rs\<close>), the tracer that counts the tests (\<^verbatim>\<open>test_count_tracer.rs\<close>)
  and the suite (\<^verbatim>\<open>main.rs\<close>). The machine is outside: a run of it is the list of the instructions it executes, until the
  tracer asks it to stop, and its result.
\<close>

section \<open>The hooks\<close>

datatype TestVmHook =
  NoHook
| TestLog string string
| AssertEqFailed string string string
| RequestedAssert string
| TestCount u32
| TestStart string

text \<open>The constants of the machine, its memory, its pointers and the texts of its halts.\<close>

datatype halt = UnexpectedVMBehavior string | OtherHalt string

record 'm test_lib =
  BOOTLOADER_HEAP_PAGE :: u32
  VM_HOOK_PARAMS_START_POSITION :: u32
  dump_page_content_as_u256_words :: "'m \<Rightarrow> u32 \<Rightarrow> u32 \<Rightarrow> u32 \<Rightarrow> u256 list"
  fat_ptr_offset :: "u256 \<Rightarrow> u32"
  show_halt :: "halt \<Rightarrow> string"
  legacy_miniblock_hash :: "u32 \<Rightarrow> h256"

text \<open>What a tracer sees of an instruction: \<^verbatim>\<open>VmLocalStateData\<close>, \<^verbatim>\<open>BeforeExecutionData\<close> and the memory.\<close>

record 'm instruction =
  is_heap_write :: bool
  base_memory_page :: u32
  src0_value :: u256
  src1_value :: u256
  vm_memory :: 'm

definition TEST_HOOKS :: u32 where "TEST_HOOKS = 5"

definition TEST_HOOK_ENUM_POSITON :: "'m test_lib \<Rightarrow> u32" where
  "TEST_HOOK_ENUM_POSITON H = VM_HOOK_PARAMS_START_POSITION H - 1"

definition TEST_HOOK_START :: "'m test_lib \<Rightarrow> u32" where
  "TEST_HOOK_START H = TEST_HOOK_ENUM_POSITON H - TEST_HOOKS"

definition get_vm_hook_params :: "'m test_lib \<Rightarrow> 'm \<Rightarrow> u256 list" where
  "get_vm_hook_params H mem =
     dump_page_content_as_u256_words H mem (BOOTLOADER_HEAP_PAGE H) (TEST_HOOK_START H) (TEST_HOOK_ENUM_POSITON H)"

fun rposition :: "('a \<Rightarrow> bool) \<Rightarrow> 'a list \<Rightarrow> nat option" where
  "rposition p [] = None"
| "rposition p (x # xs) =
     (case rposition p xs of Some k \<Rightarrow> Some (Suc k) | None \<Rightarrow> if p x then Some 0 else None)"

definition strip_trailing_zeros :: "bytes \<Rightarrow> bytes" where
  "strip_trailing_zeros input =
     take (case rposition (\<lambda>byte. byte \<noteq> 0) input of Some pos \<Rightarrow> pos + 1 | None \<Rightarrow> 0) input"

definition test_hook_as_string :: "u256 \<Rightarrow> (unit, string) rust" where
  "test_hook_as_string hook_param = unwrap (from_utf8 (strip_trailing_zeros (to_be_bytes hook_param)))"

definition test_hook_as_int_or_hex :: "u256 \<Rightarrow> string" where
  "test_hook_as_int_or_hex hook_param =
     (if hook_param > ucast (- 1 :: u64) then ''0x'' @ concat (map hex_byte (to_be_bytes hook_param))
      else decimal (unat hook_param))"

definition heap_page_from_base :: "u32 \<Rightarrow> u32" where
  "heap_page_from_base base = base + 2"

text \<open>An index out of range panics.\<close>

definition hook_param :: "u256 list \<Rightarrow> nat \<Rightarrow> (unit, u256) rust" where
  "hook_param params k = (if k < length params then Ok (params ! k) else Panic)"

definition from_opcode_memory :: "'m test_lib \<Rightarrow> 'm instruction \<Rightarrow> (unit, TestVmHook) rust" where
  "from_opcode_memory H i =
     (if \<not> is_heap_write i \<or> heap_page_from_base (base_memory_page i) \<noteq> BOOTLOADER_HEAP_PAGE H
        \<or> fat_ptr_offset H (src0_value i) \<noteq> TEST_HOOK_ENUM_POSITON H * 32 then Ok NoHook
      else
        let vm_hook_params = get_vm_hook_params H (vm_memory i);
            as_string = (\<lambda>k. rust_bind (hook_param vm_hook_params k) test_hook_as_string);
            as_int_or_hex = (\<lambda>k. rust_bind (hook_param vm_hook_params k) (\<lambda>p. Ok (test_hook_as_int_or_hex p)))
        in rust_bind (unwrap (as_u32 (src1_value i))) (\<lambda>code.
          if code = 100 then
            rust_bind (as_string 0) (\<lambda>msg. rust_bind (as_int_or_hex 1) (\<lambda>data_str. Ok (TestLog msg data_str)))
          else if code = 101 then
            rust_bind (as_int_or_hex 0) (\<lambda>a. rust_bind (as_int_or_hex 1) (\<lambda>b. rust_bind (as_string 2) (\<lambda>msg.
              Ok (AssertEqFailed a b msg))))
          else if code = 102 then rust_bind (as_string 0) (\<lambda>a. Ok (RequestedAssert a))
          else if code = 103 then
            rust_bind (hook_param vm_hook_params 0) (\<lambda>p. rust_bind (unwrap (as_u32 p)) (\<lambda>n. Ok (TestCount n)))
          else if code = 104 then rust_bind (as_string 0) (\<lambda>n. Ok (TestStart n))
          else Ok NoHook))"

section \<open>The tracer of a test\<close>

record TestResult =
  result_test_name :: string
  result_verdict :: "(string, unit) rust"

text \<open>\<^verbatim>\<open>test_result\<close> is a cell that is set once.\<close>

record BootloaderTestTracer =
  test_result :: "TestResult option"
  requested_assert :: "string option"
  test_name :: "string option"

definition BootloaderTestTracer_new :: BootloaderTestTracer where
  "BootloaderTestTracer_new = \<lparr>test_result = None, requested_assert = None, test_name = None\<rparr>"

definition set_result :: "(string, unit) rust \<Rightarrow> BootloaderTestTracer \<Rightarrow> (unit, BootloaderTestTracer) rust" where
  "set_result r t =
     (if test_result t \<noteq> None then Panic
      else Ok (t\<lparr>test_result := Some
        \<lparr>result_test_name = (case test_name t of Some n \<Rightarrow> n | None \<Rightarrow> []), result_verdict = r\<rparr>\<rparr>))"

definition before_execution ::
  "'m test_lib \<Rightarrow> term_lib \<Rightarrow> 'm instruction \<Rightarrow> BootloaderTestTracer \<Rightarrow>
   (unit, printed list \<times> BootloaderTestTracer) rust" where
  "before_execution H D i t =
     rust_bind (from_opcode_memory H i) (\<lambda>hook.
       case hook of
         TestLog msg data_str \<Rightarrow> Ok ([Line (paint D Bold ''Test log'' @ '' '' @ msg @ '' '' @ data_str)], t)
       | AssertEqFailed a b msg \<Rightarrow>
           rust_bind (set_result (Err (''Assert failed: '' @ a @ '' is not equal to '' @ b @ '': '' @ msg)) t)
             (\<lambda>t. Ok ([], t))
       | RequestedAssert a \<Rightarrow> Ok ([], t\<lparr>requested_assert := Some a\<rparr>)
       | TestStart n \<Rightarrow> Ok ([], t\<lparr>test_name := Some n\<rparr>)
       | _ \<Rightarrow> Ok ([], t))"

definition should_stop_execution :: "BootloaderTestTracer \<Rightarrow> bool" where
  "should_stop_execution t =
     (case test_result t of
        Some r \<Rightarrow> (case result_verdict r of Err _ \<Rightarrow> True | _ \<Rightarrow> False)
      | None \<Rightarrow> False)"

datatype test_outcome = TestSuccess | TestRevert string | TestHalt halt

definition strip_prefix :: "string \<Rightarrow> string \<Rightarrow> string option" where
  "strip_prefix p s = (if take (length p) s = p then Some (drop (length p) s) else None)"

definition save_results ::
  "'m test_lib \<Rightarrow> test_outcome \<Rightarrow> BootloaderTestTracer \<Rightarrow> (unit, BootloaderTestTracer) rust" where
  "save_results H result t =
     rust_bind
       (case requested_assert t of
          Some requested \<Rightarrow>
            (case result of
               TestSuccess \<Rightarrow> Ok (Err (''Should have failed with '' @ requested @ '', but run succesfully.''))
             | TestRevert output \<Rightarrow>
                 Ok (Err (''Should have failed with '' @ requested @ '', but run reverted with '' @ output @ ''.''))
             | TestHalt (UnexpectedVMBehavior reason) \<Rightarrow>
                 rust_bind (unwrap (strip_prefix ''Assertion error: '' reason)) (\<lambda>reason.
                   if reason = requested then Ok (Ok ())
                   else Ok (Err (''Should have failed with `'' @ requested @ ''`, but failed with different assert `'' @
                     reason @ ''`'')))
             | TestHalt reason \<Rightarrow>
                 Ok (Err (''Should have failed with `'' @ requested @ ''`, but halted with`'' @ show_halt H reason @ ''`'')))
        | None \<Rightarrow>
            (case result of
               TestSuccess \<Rightarrow> Ok (Ok ())
             | TestRevert output \<Rightarrow> Ok (Err output)
             | TestHalt reason \<Rightarrow> Ok (Err (show_halt H reason))))
       (\<lambda>r. if test_result t = None then set_result r t else Ok t)"

section \<open>The suite\<close>

text \<open>A run of the machine: its instructions, and its result, which may depend on whether the tracer stopped it.\<close>

record 'm test_run =
  run_instructions :: "'m instruction list"
  run_outcome :: "bool \<Rightarrow> test_outcome"

fun inspect ::
  "'m test_lib \<Rightarrow> term_lib \<Rightarrow> 'm instruction list \<Rightarrow> BootloaderTestTracer \<Rightarrow>
   (unit, printed list \<times> BootloaderTestTracer) rust" where
  "inspect H D [] t = Ok ([], t)"
| "inspect H D (i # is) t =
     rust_bind (before_execution H D i t) (\<lambda>(out, t).
       if should_stop_execution t then Ok (out, t)
       else rust_bind (inspect H D is t) (\<lambda>(out', t). Ok (out @ out', t)))"

text \<open>\<^verbatim>\<open>TestCountTracer\<close>, whose cell is the last argument.\<close>

fun inspect_count :: "'m test_lib \<Rightarrow> 'm instruction list \<Rightarrow> u32 option \<Rightarrow> (unit, u32 option) rust" where
  "inspect_count H [] test_count = Ok test_count"
| "inspect_count H (i # is) test_count =
     rust_bind (from_opcode_memory H i) (\<lambda>hook.
       case hook of
         TestCount n \<Rightarrow> if test_count \<noteq> None then Panic else inspect_count H is (Some n)
       | _ \<Rightarrow> inspect_count H is test_count)"

text \<open>What the suite finds outside: the artifacts, the transaction and the runs of the machine.\<close>

record 'm test_world =
  test_location :: string
  test_bytecode :: bytes
  default_aa_bytecode :: bytes
  bytes_to_be_words :: "bytes \<Rightarrow> u256 list"
  hash_bytecode :: "bytes \<Rightarrow> h256"
  tx_parses :: bool
  machine :: "L1BatchEnv \<Rightarrow> SystemEnv \<Rightarrow> 'm test_run"

definition test_system_env :: "'m test_world \<Rightarrow> SystemEnv" where
  "test_system_env W =
     \<lparr>se_base_system_smart_contracts =
        \<lparr>bootloader = \<lparr>scc_code = bytes_to_be_words W (test_bytecode W), scc_hash = hash_bytecode W (test_bytecode W)\<rparr>,
         default_aa = \<lparr>scc_code = bytes_to_be_words W (default_aa_bytecode W),
           scc_hash = hash_bytecode W (default_aa_bytecode W)\<rparr>\<rparr>,
      se_gas_limit = - 1, se_execution_mode = VerifyExecute, se_default_validation_gas_limit = - 1, se_chain_id = 299\<rparr>"

definition test_batch_env :: "'m test_lib \<Rightarrow> address \<Rightarrow> L1BatchEnv" where
  "test_batch_env H fee_account =
     \<lparr>be_number = 1, be_timestamp = 14, be_l1_gas_price = 250000000, be_fair_l2_gas_price = 250000000,
      be_fee_account = fee_account, be_enforced_base_fee = None, be_first_block_number = 1, be_first_block_timestamp = 15,
      be_prev_block_hash = legacy_miniblock_hash H 0, be_max_virtual_blocks_to_create = 1\<rparr>"

definition test_run_of :: "'m test_lib \<Rightarrow> 'm test_world \<Rightarrow> u32 \<Rightarrow> 'm test_run" where
  "test_run_of H W test_id = machine W (test_batch_env H (ucast test_id)) (test_system_env W)"

definition run_test ::
  "'m test_lib \<Rightarrow> term_lib \<Rightarrow> 'm test_world \<Rightarrow> u32 \<Rightarrow> (unit, printed list \<times> TestResult) rust" where
  "run_test H D W test_id =
     (if \<not> tx_parses W then Panic
      else
        let run = test_run_of H W test_id
        in rust_bind (inspect H D (run_instructions run) BootloaderTestTracer_new) (\<lambda>(out, t).
           rust_bind (save_results H (run_outcome run (should_stop_execution t)) t) (\<lambda>t.
           rust_bind (unwrap (test_result t)) (\<lambda>r. Ok (out, r)))))"

fun run_tests ::
  "'m test_lib \<Rightarrow> term_lib \<Rightarrow> 'm test_world \<Rightarrow> u32 list \<Rightarrow> u32 \<Rightarrow> (unit, printed list \<times> u32) rust" where
  "run_tests H D W [] tests_failed = Ok ([], tests_failed)"
| "run_tests H D W (test_id # ids) tests_failed =
     rust_bind (run_test H D W test_id) (\<lambda>(out, r).
       let (verdict_line, tests_failed) =
             (case result_verdict r of
                Ok _ \<Rightarrow> (Line (paint D Green ''[PASS]'' @ '' '' @ result_test_name r), tests_failed)
              | Err error_info \<Rightarrow>
                  (Line (paint D Red ''[FAIL]'' @ '' '' @ result_test_name r @ '' '' @ error_info), tests_failed + 1)
              | Panic \<Rightarrow> (Line [], tests_failed))
       in rust_bind (run_tests H D W ids tests_failed) (\<lambda>(out', tests_failed).
            Ok (Line (CHR 0x0A # '' === Running test '' @ decimal (unat test_id)) # out @ [verdict_line] @ out',
                tests_failed)))"

text \<open>\<^verbatim>\<open>1..=test_count\<close>.\<close>

definition test_ids :: "u32 \<Rightarrow> u32 list" where
  "test_ids test_count = map of_nat [1..<Suc (unat test_count)]"

text \<open>The lines that are printed and the exit code.\<close>

definition execute_internal_bootloader_test ::
  "'m test_lib \<Rightarrow> term_lib \<Rightarrow> 'm test_world \<Rightarrow> (unit, printed list \<times> nat) rust" where
  "execute_internal_bootloader_test H D W =
     rust_bind (inspect_count H (run_instructions (test_run_of H W 0)) None) (\<lambda>cell.
     rust_bind (unwrap cell) (\<lambda>test_count.
     rust_bind (run_tests H D W (test_ids test_count) 0) (\<lambda>(out, tests_failed).
       Ok (Line (''Current dir is '' @ test_location W) #
           Line ('' ==== Running '' @ decimal (unat test_count) @ '' tests ===='') # out @
           [if tests_failed > 0 then Line (paint D Red (decimal (unat tests_failed) @ '' tests failed.''))
            else Line (paint D Green ''ALL tests passed.'')],
           if tests_failed > 0 then 1 else 0))))"

section \<open>The hooks of a run\<close>

text \<open>The hooks that are seen before the tracer stops the machine: those up to the first failed assertion.\<close>

fun failed :: "TestVmHook \<Rightarrow> bool" where
  "failed (AssertEqFailed _ _ _) = True"
| "failed _ = False"

fun executed :: "'m test_lib \<Rightarrow> 'm instruction list \<Rightarrow> (unit, TestVmHook list) rust" where
  "executed H [] = Ok []"
| "executed H (i # is) =
     rust_bind (from_opcode_memory H i) (\<lambda>h.
       if failed h then Ok [h] else rust_bind (executed H is) (\<lambda>hs. Ok (h # hs)))"

text \<open>The assertion a test asked for last.\<close>

fun requested :: "TestVmHook list \<Rightarrow> string option \<Rightarrow> string option" where
  "requested [] a = a"
| "requested (RequestedAssert b # hs) a = requested hs (Some b)"
| "requested (_ # hs) a = requested hs a"

fun counts :: "TestVmHook list \<Rightarrow> u32 list" where
  "counts [] = []"
| "counts (TestCount n # hs) = n # counts hs"
| "counts (_ # hs) = counts hs"

definition reported :: "'m test_lib \<Rightarrow> 'm test_world \<Rightarrow> u32 \<Rightarrow> bool" where
  "reported H W n \<longleftrightarrow>
     (\<exists>hs. map (from_opcode_memory H) (run_instructions (test_run_of H W 0)) = map Ok hs \<and> counts hs = [n])"

text \<open>A test passes when no assertion failed and it succeeded, or halted with the assertion that it asked for.\<close>

definition test_passes :: "'m test_lib \<Rightarrow> 'm test_world \<Rightarrow> u32 \<Rightarrow> bool" where
  "test_passes H W test_id \<longleftrightarrow> tx_parses W \<and>
     (let run = test_run_of H W test_id
      in case executed H (run_instructions run) of
           Ok hs \<Rightarrow> \<not> list_ex failed hs \<and>
             run_outcome run False =
               (case requested hs None of
                  None \<Rightarrow> TestSuccess
                | Some a \<Rightarrow> TestHalt (UnexpectedVMBehavior (''Assertion error: '' @ a)))
         | _ \<Rightarrow> False)"

text \<open>A test aborts the suite when a hook cannot be read, or when it asked for an assertion and halted unexpectedly for
  a reason that is no assertion.\<close>

fun bad_reason :: "string option \<Rightarrow> test_outcome \<Rightarrow> bool" where
  "bad_reason (Some a) (TestHalt (UnexpectedVMBehavior why)) = (strip_prefix ''Assertion error: '' why = None)"
| "bad_reason _ _ = False"

definition test_aborts :: "'m test_lib \<Rightarrow> 'm test_world \<Rightarrow> u32 \<Rightarrow> bool" where
  "test_aborts H W test_id \<longleftrightarrow>
     (if tx_parses W then
        let run = test_run_of H W test_id
        in case executed H (run_instructions run) of
             Ok hs \<Rightarrow> bad_reason (requested hs None) (run_outcome run (list_ex failed hs))
           | _ \<Rightarrow> True
      else True)"

lemma inspect_executed:
  assumes "test_result t = None"
  shows "case executed H xs of
      Ok hs \<Rightarrow> \<exists>out t'. inspect H D xs t = Ok (out, t') \<and> requested_assert t' = requested hs (requested_assert t) \<and>
        should_stop_execution t' = list_ex failed hs \<and> (test_result t' = None \<longleftrightarrow> \<not> list_ex failed hs)
    | _ \<Rightarrow> \<not> is_ok (inspect H D xs t)"
  using assms
proof (induction xs arbitrary: t)
  case Nil
  then show ?case
    by (simp add: should_stop_execution_def)
next
  case (Cons i xs)
  show ?case
  proof (cases "from_opcode_memory H i")
    case (Ok h)
    obtain out t1 where b: "before_execution H D i t = Ok (out, t1)"
      and t1: "requested_assert t1 = requested [h] (requested_assert t)" "should_stop_execution t1 = failed h"
        "test_result t1 = None \<longleftrightarrow> \<not> failed h"
      using Ok Cons.prems by (cases h) (auto simp: before_execution_def set_result_def should_stop_execution_def)
    have req: "requested (h # hs) (requested_assert t) = requested hs (requested_assert t1)" for hs
      using t1(1) by (cases h) simp_all
    show ?thesis
    proof (cases "failed h")
      case True
      then show ?thesis
        using Ok b t1 by simp
    next
      case False
      then show ?thesis
        using Ok b t1(2,3) Cons.IH [of t1] req
        by (cases "executed H xs"; cases "inspect H D xs t1") (auto split: prod.splits)
    qed
  qed (simp_all add: before_execution_def)
qed

lemma save_results_verdict:
  "save_results H r t =
     (if bad_reason (requested_assert t) r then Panic
      else if test_result t \<noteq> None then Ok t
      else set_result
        (if r = (case requested_assert t of
                   None \<Rightarrow> TestSuccess | Some a \<Rightarrow> TestHalt (UnexpectedVMBehavior (''Assertion error: '' @ a)))
         then Ok ()
         else Err (case (requested_assert t, r) of
             (Some a, TestSuccess) \<Rightarrow> ''Should have failed with '' @ a @ '', but run succesfully.''
           | (Some a, TestRevert output) \<Rightarrow> ''Should have failed with '' @ a @ '', but run reverted with '' @ output @ ''.''
           | (Some a, TestHalt (UnexpectedVMBehavior why)) \<Rightarrow>
               ''Should have failed with `'' @ a @ ''`, but failed with different assert `'' @
                 drop (length ''Assertion error: '') why @ ''`''
           | (Some a, TestHalt why) \<Rightarrow>
               ''Should have failed with `'' @ a @ ''`, but halted with`'' @ show_halt H why @ ''`''
           | (None, TestRevert output) \<Rightarrow> output
           | (None, TestHalt why) \<Rightarrow> show_halt H why
           | (None, TestSuccess) \<Rightarrow> [])) t)"
proof -
  have prefix: "why = p @ a \<longleftrightarrow> drop (length p) why = a" if "take (length p) why = p" for why p a :: string
    using that append_take_drop_id [of "length p" why] by (metis append_eq_conv_conj)
  show ?thesis
  proof (cases "requested_assert t")
    case (Some a)
    show ?thesis
    proof (cases r)
      case (TestHalt h)
      then show ?thesis
        using Some prefix [of "''Assertion error: ''" _ a]
        by (cases h) (auto simp: save_results_def strip_prefix_def)
    qed (use Some in \<open>simp_all add: save_results_def\<close>)
  qed (cases r; simp add: save_results_def)
qed

lemma run_test_verdict:
  "(test_aborts H W k \<longrightarrow> \<not> is_ok (run_test H D W k)) \<and>
   (\<not> test_aborts H W k \<longrightarrow>
     (\<exists>out r. run_test H D W k = Ok (out, r) \<and>
        result_verdict r \<noteq> Panic \<and> (result_verdict r = Ok () \<longleftrightarrow> test_passes H W k)))"
proof (cases "tx_parses W")
  case True
  let ?run = "test_run_of H W k" and ?t = "BootloaderTestTracer_new"
  have new: "test_result ?t = None" "requested_assert ?t = None"
    by (simp_all add: BootloaderTestTracer_new_def)
  note i = inspect_executed [OF new(1), where H = H and D = D and xs = "run_instructions ?run"]
  show ?thesis
  proof (cases "executed H (run_instructions ?run)")
    case (Ok hs)
    then obtain out t where t: "inspect H D (run_instructions ?run) ?t = Ok (out, t)"
        "requested_assert t = requested hs None" "should_stop_execution t = list_ex failed hs"
        "test_result t = None \<longleftrightarrow> \<not> list_ex failed hs"
      using i new by auto
    show ?thesis
    proof (cases "list_ex failed hs")
      case failed: True
      then obtain r e where "test_result t = Some r" "result_verdict r = Err e"
        using t(3) by (auto simp: should_stop_execution_def split: option.splits rust.splits)
      then show ?thesis
        using True Ok t failed
        by (simp add: run_test_def test_aborts_def test_passes_def save_results_verdict Let_def)
    next
      case False
      then have n: "test_result t = None"
        using t(4) by simp
      show ?thesis
        using True Ok t(1-3) n False
        by (simp add: run_test_def test_aborts_def test_passes_def save_results_verdict set_result_def Let_def)
    qed
  qed (use True i in \<open>auto simp: run_test_def test_aborts_def test_passes_def Let_def
      split: rust.splits elim!: is_ok.elims\<close>)
qed (simp add: run_test_def test_aborts_def)

section \<open>The verdict of the suite\<close>

lemma run_tests_verdict:
  "(list_ex (test_aborts H W) ids \<longrightarrow> \<not> is_ok (run_tests H D W ids k)) \<and>
   (\<not> list_ex (test_aborts H W) ids \<longrightarrow>
     (\<exists>out. run_tests H D W ids k = Ok (out, k + of_nat (length (filter (\<lambda>i. \<not> test_passes H W i) ids)))))"
proof (induction ids arbitrary: k)
  case (Cons i ids)
  show ?case
  proof (cases "test_aborts H W i")
    case True
    then have "\<not> is_ok (run_test H D W i)"
      using run_test_verdict [of H W i D] by simp
    then show ?thesis
      using True by (cases "run_test H D W i") simp_all
  next
    case False
    then obtain out r where r: "run_test H D W i = Ok (out, r)" "result_verdict r \<noteq> Panic"
        "result_verdict r = Ok () \<longleftrightarrow> test_passes H W i"
      using run_test_verdict [of H W i D] by auto
    show ?thesis
    proof (cases "result_verdict r")
      case (Ok u)
      then show ?thesis
        using Cons.IH [of k] r False by (cases "run_tests H D W ids k") (auto split: prod.splits)
    next
      case (Err e)
      then show ?thesis
        using Cons.IH [of "k + 1"] r False
        by (cases "run_tests H D W ids (k + 1)") (auto split: prod.splits simp: algebra_simps)
    qed (use r in simp)
  qed
qed simp

lemma inspect_count_reported:
  "inspect_count H xs cell = Ok c \<longleftrightarrow>
     (\<exists>hs. map (from_opcode_memory H) xs = map Ok hs \<and>
        (case cell of None \<Rightarrow> (counts hs = [] \<and> c = None) \<or> (\<exists>n. counts hs = [n] \<and> c = Some n)
         | Some m \<Rightarrow> counts hs = [] \<and> c = Some m))"
proof (induction xs arbitrary: cell)
  case Nil
  then show ?case
    by (cases cell) auto
next
  case (Cons i xs)
  have split: "(\<exists>hs. map (from_opcode_memory H) (i # xs) = map Ok hs \<and> P hs) \<longleftrightarrow>
      (\<exists>h hs. from_opcode_memory H i = Ok h \<and> map (from_opcode_memory H) xs = map Ok hs \<and> P (h # hs))" for P
    by (force simp: Cons_eq_map_conv)
  show ?case
  proof (cases "from_opcode_memory H i")
    case (Ok h)
    then show ?thesis
      unfolding split
      using Cons.IH by (cases h; cases cell) auto
  qed (auto simp: Cons_eq_map_conv)
qed

lemma reported_unique:
  assumes "reported H W n" and "reported H W m"
  shows "n = m"
proof -
  obtain hs hs' where "map (Ok :: TestVmHook \<Rightarrow> (unit, TestVmHook) rust) hs = map Ok hs'"
      "counts hs = [n]" "counts hs' = [m]"
    using assms unfolding reported_def by metis
  moreover have "inj (Ok :: TestVmHook \<Rightarrow> (unit, TestVmHook) rust)"
    by (simp add: inj_def)
  ultimately show ?thesis
    by (simp add: inj_map_eq_map)
qed

lemma length_test_ids: "length (test_ids n) = unat n"
  by (simp add: test_ids_def)

lemma execute_reported:
  assumes "reported H W n"
  shows "execute_internal_bootloader_test H D W =
    rust_bind (run_tests H D W (test_ids n) 0) (\<lambda>(out, tests_failed).
       Ok (Line (''Current dir is '' @ test_location W) #
           Line ('' ==== Running '' @ decimal (unat n) @ '' tests ===='') # out @
           [if tests_failed > 0 then Line (paint D Red (decimal (unat tests_failed) @ '' tests failed.''))
            else Line (paint D Green ''ALL tests passed.'')],
           if tests_failed > 0 then 1 else 0))"
proof -
  have "inspect_count H (run_instructions (test_run_of H W 0)) None = Ok (Some n)"
    using assms by (simp add: inspect_count_reported reported_def)
  then show ?thesis
    by (simp add: execute_internal_bootloader_test_def)
qed

lemma execute_not_reported:
  assumes "\<And>n. \<not> reported H W n"
  shows "\<not> is_ok (execute_internal_bootloader_test H D W)"
proof (cases "inspect_count H (run_instructions (test_run_of H W 0)) None")
  case (Ok c)
  then have "c = None"
    using assms by (auto simp: inspect_count_reported reported_def)
  then show ?thesis
    using Ok by (simp add: execute_internal_bootloader_test_def)
qed (simp_all add: execute_internal_bootloader_test_def)

text \<open>The number of failed tests fits its 32 bits.\<close>

lemma failed_count:
  "0 < (of_nat (length (filter P (test_ids n))) :: u32) \<longleftrightarrow> list_ex P (test_ids n)"
proof -
  have "length (filter P (test_ids n)) < 2 ^ 32"
    using length_filter_le [of P "test_ids n"] unsigned_less [of n, where 'a = nat] by (simp add: length_test_ids)
  then have "unat (of_nat (length (filter P (test_ids n))) :: u32) = length (filter P (test_ids n))"
    by (simp add: unat_of_nat)
  then show ?thesis
    by (auto simp: word_less_nat_alt list_ex_iff filter_empty_conv)
qed

text \<open>C32: The suite of the bootloader's tests returns exactly when its first run reported one number of tests and no
  test aborts it, and its exit code is 0 exactly when, moreover, every test passes: no assertion of it failed, and it
  succeeded or halted with the assertion that it asked for last. A test that asked for an assertion and halts unexpectedly
  for another kind of reason aborts the suite.\<close>

theorem suite_verdict:
  "(is_ok (execute_internal_bootloader_test H D W) \<longleftrightarrow>
     (\<exists>n. reported H W n \<and> \<not> list_ex (test_aborts H W) (test_ids n))) \<and>
   ((\<exists>out. execute_internal_bootloader_test H D W = Ok (out, 0)) \<longleftrightarrow>
     (\<exists>n. reported H W n \<and> list_all (test_passes H W) (test_ids n)))"
proof (cases "\<exists>n. reported H W n")
  case True
  then obtain n where n: "reported H W n"
    by blast
  then have u: "(\<exists>m. reported H W m \<and> P m) \<longleftrightarrow> P n" for P
    using reported_unique by blast
  have passes: "test_passes H W k \<Longrightarrow> \<not> test_aborts H W k" for k
    by (auto simp: test_passes_def test_aborts_def strip_prefix_def Let_def split: rust.splits option.splits)
  show ?thesis
  proof (cases "list_ex (test_aborts H W) (test_ids n)")
    case True
    then have "\<not> is_ok (execute_internal_bootloader_test H D W)"
      using run_tests_verdict [of H W "test_ids n" D 0]
      by (cases "run_tests H D W (test_ids n) 0") (simp_all add: execute_reported [OF n])
    moreover have "\<not> list_all (test_passes H W) (test_ids n)"
      using True passes by (auto simp: list_ex_iff list_all_iff)
    ultimately show ?thesis
      using True by (auto simp: u)
  next
    case False
    then obtain out where "run_tests H D W (test_ids n) 0 =
        Ok (out, of_nat (length (filter (\<lambda>i. \<not> test_passes H W i) (test_ids n))))"
      using run_tests_verdict [of H W "test_ids n" D 0] by auto
    then show ?thesis
      using False by (simp add: execute_reported [OF n] u failed_count) (auto simp: list_ex_iff list_all_iff)
  qed
next
  case False
  then show ?thesis
    using execute_not_reported [of H W D] by auto
qed

section \<open>Messages\<close>

text \<open>A message of the test code, which it pads with zeros to a word, is read back.\<close>

lemma rposition_append:
  "rposition p (xs @ ys) =
     (case rposition p ys of Some k \<Rightarrow> Some (length xs + k) | None \<Rightarrow> rposition p xs)"
  by (induction xs) (auto split: option.splits)

lemma rposition_none: "rposition p xs = None \<longleftrightarrow> list_all (\<lambda>x. \<not> p x) xs"
  by (induction xs) (auto split: option.splits)

lemma strip_padding:
  assumes "msg = [] \<or> last msg \<noteq> 0"
  shows "strip_trailing_zeros (msg @ replicate k 0) = msg"
proof -
  have z: "rposition (\<lambda>b :: u8. b \<noteq> 0) (replicate k 0) = None"
    by (simp add: rposition_none list_all_iff)
  show ?thesis
  proof (cases msg rule: rev_cases)
    case (snoc bs b)
    then show ?thesis
      using assms z by (simp add: strip_trailing_zeros_def rposition_append [of _ "bs @ [b]"] rposition_append [of _ bs])
  qed (simp add: strip_trailing_zeros_def z)
qed

end
