(* ===== verification/Spec2Isabelle.thy ===== *)
theory Spec2Isabelle
  imports HttpForkSource RpcSystem SecpVerify EcMul ModExpRem RunOutput Server BootloaderTests
begin

text \<open>
  A model of the precompiles repository, that is of its in-memory test node (\<^verbatim>\<open>src/.test-node-subtree/src/\<close>)
  and of five of its precompiles and their arithmetic (\<^verbatim>\<open>src/precompiles/\<close>), and the theorems that make it correct.

  \<^bold>\<open>The program.\<close> The node simulates a zkSync chain in one process. It keeps a chain of blocks, the
  results of transactions, the storage of the accounts and the filters of its clients in one record behind
  a read-write lock; it runs transactions in the virtual machine of the \<^verbatim>\<open>multivm\<close> crate; it can start as
  a fork of a remote chain, from which it fetches what it lacks; and it serves the JSON-RPC namespaces
  \<^verbatim>\<open>eth\<close>, \<^verbatim>\<open>zks\<close>, \<^verbatim>\<open>debug\<close>, \<^verbatim>\<open>config\<close>, \<^verbatim>\<open>evm\<close>, \<^verbatim>\<open>hardhat\<close>, \<^verbatim>\<open>net\<close> and \<^verbatim>\<open>web3\<close>. A transaction is run in one critical
  section and committed in another, as two blocks: its own and an empty one that closes its batch.

  \<^bold>\<open>How the model reads.\<close> A Rust structure is a record, an enumeration a datatype, an unsigned integer of
  \<^verbatim>\<open>w\<close> bits a word of that length, with the wrap-around of a release build where the code uses plain
  operators and with \<^verbatim>\<open>sat_add\<close>, \<^verbatim>\<open>checked_add\<close> and the like where it says so. A result is \<^const>\<open>Ok\<close>, \<^const>\<open>Err\<close> or
  \<^const>\<open>Panic\<close>; every \<^verbatim>\<open>unwrap\<close>, \<^verbatim>\<open>expect\<close>, \<^verbatim>\<open>assert\<close>, index and conversion that can panic is a branch. A lock is
  a value and a poison flag: a panic under the write guard sets the flag, and a poisoned lock refuses
  every acquisition. A method of a structure is a function of its state that returns the answer and the
  state it leaves (\<^typ>\<open>('s, 'e, 'a) op\<close>, or \<^typ>\<open>('s, 'a) action\<close> for storages). A hash map is a partial function,
  or an association list where the code iterates over it.

  \<^bold>\<open>Code outside the repository\<close> is a parameter: the virtual machine is the record \<^typ>\<open>'vm vm_api\<close>, the
  functions of the \<^verbatim>\<open>zksync\<close> crates are the record \<^typ>\<open>lib\<close>, the conversion of JSON requests is
  \<^typ>\<open>('c, 'r) request_lib\<close>, the remote chain is the record of a fork source, \<^verbatim>\<open>serde\<close> is a codec. What theorems
  assume of it is named: \<^const>\<open>lawful_vm\<close> (the machine uses storage only through its interface),
  \<^const>\<open>deterministic_vm\<close> (its answers depend on nothing but what it reads), \<^const>\<open>numbered\<close> (the hash of a block
  determines its number). Each such theorem has a witness with a concrete machine and library.

  \<^bold>\<open>Theories and sources.\<close>
  \<^item> \<^verbatim>\<open>Prelude\<close>: words, results, locks, lemmas on lists and maps; \<^verbatim>\<open>ApiTypes\<close>: the data of other crates.
  \<^item> \<^verbatim>\<open>Utils\<close>: \<^verbatim>\<open>utils.rs\<close>; \<^verbatim>\<open>ShowOptions\<close>: the options of \<^verbatim>\<open>node/in_memory.rs\<close> and \<^verbatim>\<open>observability.rs\<close>;
    \<^verbatim>\<open>SystemContracts\<close>: \<^verbatim>\<open>system_contracts.rs\<close>; \<^verbatim>\<open>BootloaderDebug\<close>: \<^verbatim>\<open>bootloader_debug.rs\<close> and the gas report.
  \<^item> \<^verbatim>\<open>Filters\<close>: \<^verbatim>\<open>filters.rs\<close>. The locale \<^verbatim>\<open>subscription\<close> is what a client of the filters relies on: an
    operation that does not touch a subscriber appends what it delivers. Interpreted on the code's filters
    it gives that a poll returns exactly what arrived since the last one.
  \<^item> \<^verbatim>\<open>Storage\<close>, \<^verbatim>\<open>StorageView\<close>: \<^verbatim>\<open>deps/mod.rs\<close> and \<^verbatim>\<open>deps/storage_view.rs\<close>. The locales \<^verbatim>\<open>readable_storage\<close> and
    \<^verbatim>\<open>writable_storage\<close> are the traits \<^verbatim>\<open>ReadStorage\<close> and \<^verbatim>\<open>WriteStorage\<close> with their laws; the view refines the
    abstract storage over any readable one.
  \<^item> \<^verbatim>\<open>ForkSource\<close>, \<^verbatim>\<open>ForkStorage\<close>: \<^verbatim>\<open>fork.rs\<close>; \<^verbatim>\<open>Cache\<close>: \<^verbatim>\<open>cache.rs\<close>; \<^verbatim>\<open>HttpForkSource\<close>: \<^verbatim>\<open>http_fork_source.rs\<close>. The fork
    storage interprets the storage locales; the locale \<^verbatim>\<open>transparent_server\<close>, interpreted on the HTTP source,
    says that a cache between client and server cannot be noticed.
  \<^item> \<^verbatim>\<open>NodeTypes\<close>, \<^verbatim>\<open>InMemoryNode\<close>, \<^verbatim>\<open>NodeRuns\<close>: \<^verbatim>\<open>node/in_memory.rs\<close>, the state, the operations and the theorems
    about transactions; \<^verbatim>\<open>NodeExt\<close>: \<^verbatim>\<open>node/in_memory_ext.rs\<close> and \<^verbatim>\<open>mine_empty_blocks\<close>.
  \<^item> \<^verbatim>\<open>Determinism\<close>: what a sandboxed run may depend on; \<^verbatim>\<open>GasEstimation\<close>: \<^verbatim>\<open>estimate_gas_impl\<close>.
  \<^item> \<^verbatim>\<open>EthNamespace\<close>, \<^verbatim>\<open>ZksNamespace\<close>, \<^verbatim>\<open>DebugNamespace\<close>, \<^verbatim>\<open>ConfigNamespace\<close>: the handlers of \<^verbatim>\<open>node/eth.rs\<close>,
    \<^verbatim>\<open>zks.rs\<close>, \<^verbatim>\<open>debug.rs\<close>, and \<^verbatim>\<open>config.rs\<close>, \<^verbatim>\<open>evm.rs\<close>, \<^verbatim>\<open>hardhat.rs\<close>, \<^verbatim>\<open>net.rs\<close>, \<^verbatim>\<open>web3.rs\<close>.
  \<^item> \<^verbatim>\<open>RpcSystem\<close>: the node as a system of threads. \<^const>\<open>step\<close> is one critical section of any handler or of a
    transaction; the locale \<^verbatim>\<open>lock_invariant\<close> carries an invariant of the state through the sections,
    interpreted on \<^const>\<open>node_wf\<close>.
  \<^item> \<^verbatim>\<open>Resolver\<close>: \<^verbatim>\<open>resolver.rs\<close>; \<^verbatim>\<open>Formatter\<close>: \<^verbatim>\<open>formatter.rs\<close>; \<^verbatim>\<open>StorageLogs\<close>: \<^verbatim>\<open>node/storage_logs.rs\<close>;
    \<^verbatim>\<open>ConsoleLog\<close>: \<^verbatim>\<open>console_log.rs\<close>; \<^verbatim>\<open>RunOutput\<close>: what \<^verbatim>\<open>run_l2_tx_raw\<close> prints of a run. A printer gives the lines it
    prints and whether it panics. \<^verbatim>\<open>Server\<close>: \<^verbatim>\<open>main.rs\<close>, from the arguments to the served node, the start of
    \<^verbatim>\<open>observability.rs\<close>, and \<^verbatim>\<open>logging_middleware.rs\<close>.
  \<^item> \<^verbatim>\<open>Montgomery\<close>, \<^verbatim>\<open>ModularInverse\<close>: the arithmetic that \<^verbatim>\<open>EcAdd.yul\<close>, \<^verbatim>\<open>P256VERIFY.yul\<close> and
    \<^verbatim>\<open>secp256k1VERIFY.yul\<close> share in three variants. The locale \<^verbatim>\<open>montgomery\<close> is what a reduction promises,
    \<^verbatim>\<open>halving\<close> what the halving step of the inverse does, \<^verbatim>\<open>inversion\<close> both; interpreted on the reductions of
    the contracts for their five moduli.
  \<^item> \<^verbatim>\<open>Primality\<close>, \<^verbatim>\<open>P256Primes\<close>: the field order of \<^verbatim>\<open>alt_bn128\<close>, and field and group order of secp256r1, are
    primes. \<^verbatim>\<open>Curve\<close>: the affine group law over a prime field, in the locales \<^verbatim>\<open>prime_field\<close> and \<^verbatim>\<open>prime_curve\<close>.
    \<^verbatim>\<open>EcAdd\<close>: the contract \<^verbatim>\<open>EcAdd.yul\<close>, a refinement of it.
  \<^item> \<^verbatim>\<open>Projective\<close>: doubling and addition in projective coordinates against the affine law. \<^verbatim>\<open>Shamir\<close>: the linear
    combination of two points that the signature contracts share; the locale \<^verbatim>\<open>point_operations\<close> is what it
    relies on. \<^verbatim>\<open>P256Verify\<close>: the contract \<^verbatim>\<open>P256VERIFY.yul\<close>, which interprets it, and ECDSA verification, which
    the contract refines. \<^verbatim>\<open>SecpVerify\<close>: the contract \<^verbatim>\<open>secp256k1VERIFY.yul\<close>.
  \<^item> \<^verbatim>\<open>NoTwoTorsion\<close>: no point of \<^verbatim>\<open>alt_bn128\<close> is its own opposite. \<^verbatim>\<open>EcMul\<close>: the contract \<^verbatim>\<open>EcMul.yul\<close>.
  \<^item> \<^verbatim>\<open>ModExp\<close>: the contract \<^verbatim>\<open>ModExp.yul\<close> on a memory of words, its path of one word and its multiplication;
    \<^verbatim>\<open>ModExpCall\<close>: its calldata as numbers, and the calls answered directly or never; \<^verbatim>\<open>ModExpRem\<close>: its division.
  \<^item> \<^verbatim>\<open>BootloaderTests\<close>: the runner of the bootloader's unit tests
    (\<^verbatim>\<open>src/.test-node-subtree/etc/system-contracts/bootloader/test_infra/src/\<close>): hooks, tracers and the suite.

  \<^bold>\<open>What is shown.\<close> The state: in every state that any interleaving of requests and transactions reaches,
  with any virtual machine, chain, receipts, archive, snapshots and filters are well formed, unless a
  thread has panicked inside the lock, after which nothing changes any more. Transactions: a commit
  extends the chain by its two blocks, writes exactly the keys of the run, and is served by every query
  about it; a halted one is rolled back; a result that is committed after the node has moved on panics.
  Storage: the view over the fork storage answers as an abstract storage does, whatever the caches hold.
  Remote data: the cache cannot be noticed and survives a restart. Sandboxed runs: calls, traces and gas
  estimations leave the node the same and can be repeated; an estimation always returns, its answer
  suffices, and it is near the least limit. Filters, logs, snapshots, balances, nonces, code, time and
  options: each operation against its specification, errors included. Output: exactly which lines are printed, that
  printing cannot fail while no names are asked for, and when it panics with a database out of reach; what the report
  charges for a slot. Start: the wallets that a started node serves. Precompiles: a Montgomery product is
  the product of residues for every modulus of the contracts; the modular inverse is exact and ends wherever
  there is one; \<^verbatim>\<open>EcAdd\<close> computes the group law of its curve on every input and refuses exactly what is no
  point; \<^verbatim>\<open>EcMul\<close> returns the sum of the doublings of a point at the bits of the scalar, on every input, where it
  matters that no doubling is the point at infinity; \<^verbatim>\<open>P256VERIFY\<close> is total and is ECDSA verification; \<^verbatim>\<open>secp256k1VERIFY\<close> does not return where the combination
  of the points is the point at infinity; \<^verbatim>\<open>ModExp\<close> is exact on one word and on trivial operands with the gas for them,
  never returns on a modulus it cannot pay for, its products of arrays are exact and its division is so within stated limits,
  outside of which it is wrong or exhausts the gas. The bootloader's test suite exits with 0 exactly when every test passes. Some theorems show behaviour that
  the code's comments or its purpose contradict; the manifest lists them as findings.

  \<^bold>\<open>Bounds.\<close> Loops over data are structural recursions. The search of the gas estimation is a partial
  function whose value is \<^const>\<open>None\<close> where the code would not return; it returns for every bound below
  \<^verbatim>\<open>2 ^ 31\<close>, which the constant of the source is. The loops of the modular inverse and the search for the
  first bit of two scalars are partial functions of the same kind. \<^verbatim>\<open>ModExp\<close> has its gas as a parameter: the words of
  memory that a call, and of calldata that one of its loops can pay for. \<^const>\<open>None\<close> is a call that exceeds it; enough gas for the
  operands is a hypothesis of the theorems by which a call returns, and those by which it does not hold for all gas up to \<^verbatim>\<open>2 ^ 240\<close> words,
  more than there can be. Floating-point products are rounded exactly as IEEE
  numbers of 24 and 53 bits.

  \<^bold>\<open>Not modelled.\<close> The parser of the arguments and the threads of the HTTP server (\<^verbatim>\<open>build_json_http\<close> of \<^verbatim>\<open>main.rs\<close>);
  the traits of \<^verbatim>\<open>namespaces/\<close> that only declare the handlers; the registration of the tracing subscriber; the
  tables of compiled contracts; tests and their helpers; the compiler driver of \<^verbatim>\<open>src/tests/\<close>. The run of a
  transaction in \<^verbatim>\<open>InMemoryNode\<close> leaves its output to \<^verbatim>\<open>RunOutput\<close>, so a panic of a name that cannot be resolved is
  not one of its branches. Of the precompiles: \<^verbatim>\<open>EcPairing.yul\<close>, \<^verbatim>\<open>EcAddG2.yul\<close> and \<^verbatim>\<open>EcMulG2.yul\<close>. That the moduli of secp256k1 are primes is not proved, so \<^verbatim>\<open>secp256k1VERIFY\<close> has no
  theorem of refinement.
\<close>

end
